(* ===== verification/Rust_Text.thy ===== *)
theory Rust_Text
  imports Main "HOL-Library.Sublist"
begin

text \<open>
  The text operations of Rust's standard library that the program uses: trimming, splitting,
  prefix and suffix tests, case folding, and the parsing and printing of decimal integers.

  A Rust string is the list of its characters, a \<open>char\<close> being the Unicode scalar value
  U+0000 to U+00FF it encodes. On that range the Unicode tables (\<open>White_Space\<close>,
  \<open>Alphabetic\<close> and \<open>Numeric\<close>, the simple case mappings) are written out exactly, but for
  two upper-case mappings that leave it (U+00B5 and U+00FF), which are kept as they are.
\<close>

section \<open>Characters\<close>

type_synonym str = string

definition ord :: "char \<Rightarrow> nat" where
  "ord c = of_char c"

definition is_whitespace :: "char \<Rightarrow> bool" where
  "is_whitespace c \<longleftrightarrow> (9 \<le> ord c \<and> ord c \<le> 13) \<or> ord c = 32 \<or> ord c = 133 \<or> ord c = 160"

definition is_ascii_digit :: "char \<Rightarrow> bool" where
  "is_ascii_digit c \<longleftrightarrow> 48 \<le> ord c \<and> ord c \<le> 57"

definition is_ascii_upper :: "char \<Rightarrow> bool" where
  "is_ascii_upper c \<longleftrightarrow> 65 \<le> ord c \<and> ord c \<le> 90"

definition is_ascii_lower :: "char \<Rightarrow> bool" where
  "is_ascii_lower c \<longleftrightarrow> 97 \<le> ord c \<and> ord c \<le> 122"

definition is_alphanumeric :: "char \<Rightarrow> bool" where
  "is_alphanumeric c \<longleftrightarrow> is_ascii_digit c \<or> is_ascii_upper c \<or> is_ascii_lower c \<or>
     ord c \<in> {170, 178, 179, 181, 185, 186, 188, 189, 190} \<or>
     (192 \<le> ord c \<and> ord c \<noteq> 215 \<and> ord c \<noteq> 247)"

definition to_lower_char :: "char \<Rightarrow> char" where
  "to_lower_char c =
     (if is_ascii_upper c \<or> (192 \<le> ord c \<and> ord c \<le> 222 \<and> ord c \<noteq> 215)
      then char_of (ord c + 32) else c)"

definition to_upper_char :: "char \<Rightarrow> str" where
  "to_upper_char c =
     (if is_ascii_lower c \<or> (224 \<le> ord c \<and> ord c \<le> 254 \<and> ord c \<noteq> 247)
      then [char_of (ord c - 32)]
      else if ord c = 223 then ''SS'' else [c])"

definition to_ascii_lower :: "char \<Rightarrow> char" where
  "to_ascii_lower c = (if is_ascii_upper c then char_of (ord c + 32) else c)"

definition to_lowercase :: "str \<Rightarrow> str" where
  "to_lowercase s = map to_lower_char s"

definition to_uppercase :: "str \<Rightarrow> str" where
  "to_uppercase s = concat (map to_upper_char s)"

definition to_ascii_lowercase :: "str \<Rightarrow> str" where
  "to_ascii_lowercase s = map to_ascii_lower s"

definition eq_ignore_ascii_case :: "str \<Rightarrow> str \<Rightarrow> bool" where
  "eq_ignore_ascii_case a b \<longleftrightarrow> to_ascii_lowercase a = to_ascii_lowercase b"

lemmas char_class_defs =
  ord_def is_whitespace_def is_ascii_digit_def is_ascii_upper_def is_ascii_lower_def
  is_alphanumeric_def to_lower_char_def to_upper_char_def to_ascii_lower_def

section \<open>Trimming, prefixes and suffixes\<close>

definition trim_start_by :: "(char \<Rightarrow> bool) \<Rightarrow> str \<Rightarrow> str" where
  "trim_start_by p s = dropWhile p s"

definition trim_end_by :: "(char \<Rightarrow> bool) \<Rightarrow> str \<Rightarrow> str" where
  "trim_end_by p s = rev (dropWhile p (rev s))"

definition trim :: "str \<Rightarrow> str" where
  "trim s = trim_end_by is_whitespace (trim_start_by is_whitespace s)"

definition trim_matches :: "char \<Rightarrow> str \<Rightarrow> str" where
  "trim_matches c s = trim_end_by (\<lambda>x. x = c) (trim_start_by (\<lambda>x. x = c) s)"

definition starts_with :: "str \<Rightarrow> str \<Rightarrow> bool" where
  "starts_with s p \<longleftrightarrow> take (length p) s = p"

definition ends_with :: "str \<Rightarrow> str \<Rightarrow> bool" where
  "ends_with s p \<longleftrightarrow> length p \<le> length s \<and> drop (length s - length p) s = p"

definition strip_prefix :: "str \<Rightarrow> str \<Rightarrow> str option" where
  "strip_prefix p s = (if starts_with s p then Some (drop (length p) s) else None)"

definition strip_suffix :: "str \<Rightarrow> str \<Rightarrow> str option" where
  "strip_suffix p s = (if ends_with s p then Some (take (length s - length p) s) else None)"

fun contains_str :: "str \<Rightarrow> str \<Rightarrow> bool" where
  "contains_str [] p \<longleftrightarrow> p = []"
| "contains_str (c # cs) p \<longleftrightarrow> starts_with (c # cs) p \<or> contains_str cs p"

definition contains_char :: "str \<Rightarrow> char \<Rightarrow> bool" where
  "contains_char s c \<longleftrightarrow> c \<in> set s"

text \<open>\<open>trim_start_matches(pat)\<close> for a string pattern strips it as often as it occurs.\<close>

function trim_start_str :: "str \<Rightarrow> str \<Rightarrow> str" where
  "trim_start_str p s =
     (if p \<noteq> [] \<and> starts_with s p then trim_start_str p (drop (length p) s) else s)"
  by pat_completeness auto
termination
  by (relation "measure (\<lambda>(p, s). length s)") (auto simp: starts_with_def intro!: diff_less)

declare trim_start_str.simps [simp del]

section \<open>Searching and splitting\<close>

fun split_once :: "char \<Rightarrow> str \<Rightarrow> (str \<times> str) option" where
  "split_once c [] = None"
| "split_once c (x # xs) =
     (if x = c then Some ([], xs) else map_option (\<lambda>(a, b). (x # a, b)) (split_once c xs))"

fun split_once_by :: "(char \<Rightarrow> bool) \<Rightarrow> str \<Rightarrow> (str \<times> str) option" where
  "split_once_by p [] = None"
| "split_once_by p (x # xs) =
     (if p x then Some ([], xs) else map_option (\<lambda>(a, b). (x # a, b)) (split_once_by p xs))"

definition rsplit_once :: "char \<Rightarrow> str \<Rightarrow> (str \<times> str) option" where
  "rsplit_once c s = map_option (\<lambda>(a, b). (rev b, rev a)) (split_once c (rev s))"

fun split_on :: "char \<Rightarrow> str \<Rightarrow> str list" where
  "split_on c [] = [[]]"
| "split_on c (x # xs) =
     (if x = c then [] # split_on c xs
      else (case split_on c xs of [] \<Rightarrow> [[x]] | y # ys \<Rightarrow> (x # y) # ys))"

function split_whitespace :: "str \<Rightarrow> str list" where
  "split_whitespace s =
     (let t = dropWhile is_whitespace s
      in if t = [] then []
         else takeWhile (\<lambda>c. \<not> is_whitespace c) t #
              split_whitespace (dropWhile (\<lambda>c. \<not> is_whitespace c) t))"
  by pat_completeness auto
termination
proof (relation "measure length", goal_cases)
  case 1
  show ?case by simp
next
  case (2 s t)
  then have ws: "\<not> is_whitespace (hd t)" by (metis hd_dropWhile)
  obtain c cs where t: "t = c # cs" using 2(2) by (meson neq_Nil_conv)
  have "length (dropWhile (\<lambda>c. \<not> is_whitespace c) t) < length t"
    using ws t by (auto simp: length_dropWhile_le le_imp_less_Suc)
  also have "length t \<le> length s" using 2 by (simp add: length_dropWhile_le)
  finally show ?case by simp
qed

declare split_whitespace.simps [simp del]

definition newline :: char where
  "newline = char_of (10 :: nat)"

definition strip_cr :: "str \<Rightarrow> str" where
  "strip_cr l = (if l \<noteq> [] \<and> ord (last l) = 13 then butlast l else l)"

definition lines :: "str \<Rightarrow> str list" where
  "lines s = (let ps = split_on newline s
              in map strip_cr (butlast ps) @ (if last ps = [] then [] else [last ps]))"

fun join :: "str \<Rightarrow> str list \<Rightarrow> str" where
  "join sep [] = []"
| "join sep [x] = x"
| "join sep (x # y # ys) = x @ sep @ join sep (y # ys)"

section \<open>Decimal integers\<close>

fun digits_val :: "nat \<Rightarrow> str \<Rightarrow> nat option" where
  "digits_val a [] = Some a"
| "digits_val a (c # cs) =
     (if is_ascii_digit c then digits_val (10 * a + (ord c - 48)) cs else None)"

text \<open>
  \<open>str::parse\<close> for an unsigned type of width \<open>w\<close>: an optional plus sign, then at least one
  digit; leading zeros are accepted, a value that does not fit is an error.
\<close>

definition drop_plus :: "str \<Rightarrow> str" where
  "drop_plus s = (case s of [] \<Rightarrow> [] | c # cs \<Rightarrow> if c = CHR ''+'' then cs else s)"

definition parse_unsigned :: "nat \<Rightarrow> str \<Rightarrow> nat option" where
  "parse_unsigned w s =
     (if drop_plus s = [] then None
      else case digits_val 0 (drop_plus s) of
             None \<Rightarrow> None
           | Some n \<Rightarrow> if n < 2 ^ w then Some n else None)"

definition parse_signed :: "nat \<Rightarrow> str \<Rightarrow> int option" where
  "parse_signed w s =
     (case s of
        [] \<Rightarrow> None
      | c # cs \<Rightarrow>
          if c = CHR ''-'' then
            (if cs = [] then None
             else case digits_val 0 cs of
                    None \<Rightarrow> None
                  | Some n \<Rightarrow> if n \<le> 2 ^ (w - 1) then Some (- int n) else None)
          else (case parse_unsigned (w - 1) s of None \<Rightarrow> None | Some n \<Rightarrow> Some (int n)))"

definition digit_char :: "nat \<Rightarrow> char" where
  "digit_char d = char_of (48 + d)"

fun show_nat :: "nat \<Rightarrow> str" where
  "show_nat n = (if n < 10 then [digit_char n] else show_nat (n div 10) @ [digit_char (n mod 10)])"

declare show_nat.simps [simp del]

definition show_int :: "int \<Rightarrow> str" where
  "show_int i = (if i < 0 then ''-'' @ show_nat (nat (- i)) else show_nat (nat i))"

section \<open>Facts shared by the components\<close>

lemma starts_with_append [simp]: "starts_with (p @ s) p"
  by (simp add: starts_with_def)

lemma starts_with_Nil [simp]: "starts_with s []"
  by (simp add: starts_with_def)

lemma starts_with_refl [simp]: "starts_with s s"
  by (simp add: starts_with_def)

lemma starts_with_iff: "starts_with s p \<longleftrightarrow> (\<exists>r. s = p @ r)"
  by (metis append_eq_conv_conj starts_with_def)

lemma starts_with_eq_length: "starts_with s p \<Longrightarrow> length s = length p \<Longrightarrow> s = p"
  by (simp add: starts_with_def)

lemma strip_prefix_append [simp]: "strip_prefix p (p @ s) = Some s"
  by (simp add: strip_prefix_def)

lemma strip_prefix_SomeD: "strip_prefix p s = Some r \<Longrightarrow> s = p @ r"
  by (metis append_take_drop_id option.discI option.inject starts_with_def strip_prefix_def)

lemma ends_with_append [simp]: "ends_with (s @ p) p"
  by (simp add: ends_with_def)

lemma ends_with_iff: "ends_with s p \<longleftrightarrow> (\<exists>r. s = r @ p)"
  by (metis append_take_drop_id ends_with_append ends_with_def)

lemma strip_suffix_append [simp]: "strip_suffix p (s @ p) = Some s"
  by (simp add: strip_suffix_def)

lemma strip_suffix_SomeD: "strip_suffix p s = Some r \<Longrightarrow> s = r @ p"
  by (metis append_take_drop_id ends_with_def option.discI option.inject strip_suffix_def)

lemma split_once_None [simp]: "split_once c s = None \<longleftrightarrow> c \<notin> set s"
  by (induction s) auto

lemma split_once_free [simp]: "c \<notin> set s \<Longrightarrow> split_once c s = None"
  by simp

lemma split_once_SomeD: "split_once c s = Some (a, b) \<Longrightarrow> s = a @ c # b \<and> c \<notin> set a"
  by (induction s arbitrary: a) (auto split: if_splits)

lemma split_once_append [simp]: "c \<notin> set a \<Longrightarrow> split_once c (a @ c # b) = Some (a, b)"
  by (induction a) auto

lemma rsplit_once_None [simp]: "rsplit_once c s = None \<longleftrightarrow> c \<notin> set s"
  by (simp add: rsplit_once_def)

lemma rsplit_once_free [simp]: "c \<notin> set s \<Longrightarrow> rsplit_once c s = None"
  by simp

lemma rsplit_once_append [simp]: "c \<notin> set b \<Longrightarrow> rsplit_once c (a @ c # b) = Some (a, b)"
  by (simp add: rsplit_once_def)

lemma rsplit_once_SomeD: "rsplit_once c s = Some (a, b) \<Longrightarrow> s = a @ c # b \<and> c \<notin> set b"
proof -
  assume "rsplit_once c s = Some (a, b)"
  then obtain x y where xy: "split_once c (rev s) = Some (x, y)" and ab: "a = rev y" "b = rev x"
    by (auto simp: rsplit_once_def)
  from split_once_SomeD [OF xy] have "rev s = x @ c # y" and "c \<notin> set x" by auto
  then show ?thesis using ab by (metis append_Cons append_assoc append_Nil rev.simps(2) rev_append rev_rev_ident set_rev)
qed

lemma split_on_ne [simp]: "split_on c s \<noteq> []"
  by (induction s) (auto split: list.splits)

lemma split_on_no_sep: "c \<notin> set s \<Longrightarrow> split_on c s = [s]"
  by (induction s) auto

lemma split_on_append: "c \<notin> set a \<Longrightarrow> split_on c (a @ c # b) = a # split_on c b"
  by (induction a) auto

lemma split_on_sep_free: "p \<in> set (split_on c s) \<Longrightarrow> c \<notin> set p"
  by (induction s arbitrary: p) (auto split: if_splits list.splits)

lemma join_split_on: "join [c] (split_on c s) = s"
proof (induction s)
  case (Cons x xs)
  then show ?case by (cases "split_on c xs"; cases "tl (split_on c xs)") auto
qed simp

lemma ord_char_of [simp]: "n < 256 \<Longrightarrow> ord (char_of n) = n"
  by (simp add: ord_def)

lemma digits_val_append:
  "digits_val a (xs @ ys) = Option.bind (digits_val a xs) (\<lambda>b. digits_val b ys)"
  by (induction xs arbitrary: a) auto

lemma digit_char_digit [simp]: "d < 10 \<Longrightarrow> is_ascii_digit (digit_char d)"
  by (simp add: is_ascii_digit_def digit_char_def)

lemma ord_digit_char [simp]: "d < 10 \<Longrightarrow> ord (digit_char d) = 48 + d"
  by (simp add: digit_char_def)

lemma digits_val_show_nat [simp]: "digits_val 0 (show_nat n) = Some n"
proof (induction n rule: show_nat.induct)
  case (1 n)
  show ?case
  proof (cases "n < 10")
    case True
    then show ?thesis by (simp add: show_nat.simps [of n])
  next
    case False
    then have "digits_val 0 (show_nat (n div 10)) = Some (n div 10)" using 1 by simp
    with False show ?thesis
      by (simp add: show_nat.simps [of n] digits_val_append)
  qed
qed

lemma show_nat_digits: "c \<in> set (show_nat n) \<Longrightarrow> is_ascii_digit c"
proof (induction n rule: show_nat.induct)
  case (1 n)
  then show ?case by (subst (asm) show_nat.simps) (auto split: if_splits)
qed

lemma show_nat_ne [simp]: "show_nat n \<noteq> []"
  by (subst show_nat.simps) simp

lemma drop_plus_show_nat [simp]: "drop_plus (show_nat n) = show_nat n"
proof (cases "show_nat n")
  case (Cons c cs)
  then have "is_ascii_digit c" using show_nat_digits [of c n] by simp
  then have "c \<noteq> CHR ''+''" by (auto simp: is_ascii_digit_def ord_def)
  with Cons show ?thesis by (simp add: drop_plus_def)
qed (simp add: drop_plus_def)

lemma parse_show_unsigned [simp]: "n < 2 ^ w \<Longrightarrow> parse_unsigned w (show_nat n) = Some n"
  by (simp add: parse_unsigned_def)

lemma parse_unsigned_bound: "parse_unsigned w s = Some n \<Longrightarrow> n < 2 ^ w"
  by (auto simp: parse_unsigned_def split: if_splits option.splits)

lemma show_nat_not_in [simp]: "\<not> is_ascii_digit c \<Longrightarrow> c \<notin> set (show_nat n)"
  using show_nat_digits by blast

lemma show_nat_inj: "show_nat m = show_nat n \<Longrightarrow> m = n"
  by (metis digits_val_show_nat option.inject)

lemma set_trim_subset: "set (trim s) \<subseteq> set s"
  unfolding trim_def trim_end_by_def trim_start_by_def
  by (metis set_dropWhileD set_rev subsetI)

lemma trim_Nil [simp]: "trim [] = []"
  by (simp add: trim_def trim_end_by_def trim_start_by_def)

lemma trim_no_ws: "(\<And>c. c \<in> set s \<Longrightarrow> \<not> is_whitespace c) \<Longrightarrow> trim s = s"
  unfolding trim_def trim_end_by_def trim_start_by_def
  by (metis (no_types, lifting) dropWhile_eq_self_iff hd_in_set rev_rev_ident set_rev)

lemma alphanumeric_not_ws: "is_alphanumeric c \<Longrightarrow> \<not> is_whitespace c"
  by (auto simp: char_class_defs)

end
