(* ===== verification/Prelude.thy ===== *)
theory Prelude
  imports Rust_Text "HOL-Library.Word"
begin

unbundle bit_operations_syntax

text \<open>
  What the components share: the integer types, the failures the code reports, records kept
  in a list and looked up by a predicate, and the JSON index file that every store reads and
  rewrites under a lock (\<open>src/storage/index_lock.rs\<close> and the \<open>load_unlocked\<close> /
  \<open>save_unlocked\<close> pair each store repeats).
\<close>

section \<open>Integers and failures\<close>

type_synonym byte = "8 word"
type_synonym u16 = "16 word"
type_synonym u32 = "32 word"

text \<open>
  One constructor for each kind of message the code builds with \<open>anyhow!\<close>, carrying what
  the message quotes.
\<close>

datatype error =
    Lock_failed
  | Io_failed
  | Empty_query
  | Not_found str
  | Already_exists str
  | Invalid_name str
  | Name_conflict str str
  | In_use str str
  | Active_endpoints str
  | Not_connected str str
  | Protected_network
  | Bad_number str
  | Invalid_range str
  | Range_mismatch str
  | Range_expands str nat
  | Invalid_port_spec str
  | Duplicate_port u16
  | Port_conflict str u16 str str
  | Invalid_cidr str
  | Invalid_address str
  | Unsupported_prefix nat
  | No_address str
  | Invalid_policy str
  | Invalid_limit str
  | Empty_spec
  | Invalid_spec str
  | Path_traversal str
  | Invalid_component str
  | Cyclic_dependency str
  | Undefined_dependency str str
  | Not_running str
  | Not_paused str
  | Not_mounted str
  | Still_active str
  | Invalid_signal str
  | Invalid_instruction str
  | Unsupported str
  | Exec_failed

type_synonym 'a res = "error + 'a"

definition is_ok :: "'a res \<Rightarrow> bool" where
  "is_ok r \<longleftrightarrow> (case r of Inl _ \<Rightarrow> False | Inr _ \<Rightarrow> True)"

definition bind_res :: "'a res \<Rightarrow> ('a \<Rightarrow> 'b res) \<Rightarrow> 'b res" where
  "bind_res r f = (case r of Inl e \<Rightarrow> Inl e | Inr a \<Rightarrow> f a)"

definition ok_or :: "'a option \<Rightarrow> error \<Rightarrow> 'a res" where
  "ok_or x e = (case x of None \<Rightarrow> Inl e | Some a \<Rightarrow> Inr a)"

definition unwrap_or :: "'a option \<Rightarrow> 'a \<Rightarrow> 'a" where
  "unwrap_or x d = (case x of None \<Rightarrow> d | Some a \<Rightarrow> a)"

definition or_else :: "'a option \<Rightarrow> 'a option \<Rightarrow> 'a option" where
  "or_else x y = (case x of None \<Rightarrow> y | Some a \<Rightarrow> Some a)"

lemma is_ok_simps [simp]: "is_ok (Inr a)" "\<not> is_ok (Inl e)"
  by (simp_all add: is_ok_def)

lemma bind_res_simps [simp]: "bind_res (Inl e) f = Inl e" "bind_res (Inr a) f = f a"
  by (simp_all add: bind_res_def)

lemma bind_res_Inr_iff: "bind_res r f = Inr b \<longleftrightarrow> (\<exists>a. r = Inr a \<and> f a = Inr b)"
  by (cases r) auto

lemma ok_or_simps [simp]: "ok_or None e = Inl e" "ok_or (Some a) e = Inr a"
  by (simp_all add: ok_or_def)

lemma unwrap_or_simps [simp]: "unwrap_or None d = d" "unwrap_or (Some a) d = a"
  by (simp_all add: unwrap_or_def)

lemma or_else_simps [simp]: "or_else None y = y" "or_else (Some a) y = Some a"
  by (simp_all add: or_else_def)

section \<open>Records in a list\<close>

text \<open>
  \<open>iter().position\<close>, \<open>Vec::remove\<close> and an in-place change of the first element that
  \<open>iter_mut().find\<close> returns. \<open>iter().find\<close> is the library's \<open>find\<close> and \<open>retain\<close> its
  \<open>filter\<close>.
\<close>

fun position :: "('a \<Rightarrow> bool) \<Rightarrow> 'a list \<Rightarrow> nat option" where
  "position p [] = None"
| "position p (x # xs) = (if p x then Some 0 else map_option Suc (position p xs))"

definition remove_at :: "nat \<Rightarrow> 'a list \<Rightarrow> 'a list" where
  "remove_at i xs = take i xs @ drop (Suc i) xs"

fun update_first :: "('a \<Rightarrow> bool) \<Rightarrow> ('a \<Rightarrow> 'a) \<Rightarrow> 'a list \<Rightarrow> 'a list" where
  "update_first p f [] = []"
| "update_first p f (x # xs) = (if p x then f x # xs else x # update_first p f xs)"

lemma find_SomeD: "find p xs = Some x \<Longrightarrow> p x \<and> x \<in> set xs"
  by (induction xs) (auto split: if_splits)

lemma find_None_iff_all: "find p xs = None \<longleftrightarrow> (\<forall>x\<in>set xs. \<not> p x)"
  by (induction xs) auto

lemma find_unique:
  assumes "x \<in> set xs" and "p x" and "\<And>y. y \<in> set xs \<Longrightarrow> p y \<Longrightarrow> y = x"
  shows "find p xs = Some x"
proof (cases "find p xs")
  case None
  with assms(1,2) show ?thesis by (auto simp: find_None_iff_all)
next
  case (Some y)
  with assms(3) show ?thesis by (auto dest: find_SomeD)
qed

lemma position_None_iff [simp]: "position p xs = None \<longleftrightarrow> find p xs = None"
  by (induction xs) auto

lemma position_SomeD:
  "position p xs = Some i \<Longrightarrow>
     i < length xs \<and> p (xs ! i) \<and> (\<forall>j<i. \<not> p (xs ! j)) \<and> find p xs = Some (xs ! i)"
proof (induction xs arbitrary: i)
  case (Cons x xs)
  show ?case
  proof (cases "p x")
    case False
    with Cons.prems obtain j where "position p xs = Some j" "i = Suc j" by auto
    with Cons.IH [of j] have IH: "j < length xs \<and> p (xs ! j) \<and> (\<forall>k<j. \<not> p (xs ! k)) \<and>
      find p xs = Some (xs ! j)" by simp
    have "\<forall>k<Suc j. \<not> p ((x # xs) ! k)"
    proof (intro allI impI)
      fix k assume "k < Suc j"
      then show "\<not> p ((x # xs) ! k)" using IH False by (cases k) auto
    qed
    with IH False \<open>i = Suc j\<close> show ?thesis by simp
  qed (use Cons.prems in auto)
qed simp

lemma position_less: "position p xs = Some i \<Longrightarrow> i < length xs"
  and position_holds: "position p xs = Some i \<Longrightarrow> p (xs ! i)"
  and position_find_nth: "position p xs = Some i \<Longrightarrow> find p xs = Some (xs ! i)"
  by (auto dest: position_SomeD)

lemma position_find: "find p xs = Some x \<Longrightarrow> \<exists>i. position p xs = Some i \<and> xs ! i = x"
  by (induction xs) (force split: if_splits)+

lemma length_remove_at [simp]: "i < length xs \<Longrightarrow> length (remove_at i xs) = length xs - 1"
  by (simp add: remove_at_def)

lemma map_remove_at [simp]: "map f (remove_at i xs) = remove_at i (map f xs)"
  by (simp add: remove_at_def take_map drop_map)

lemma set_remove_at_subset: "set (remove_at i xs) \<subseteq> set xs"
  by (auto simp: remove_at_def dest: in_set_takeD in_set_dropD)

lemma remove_at_split:
  assumes "i < length xs"
  obtains ys zs where "xs = ys @ xs ! i # zs" and "remove_at i xs = ys @ zs"
proof -
  have "xs = take i xs @ xs ! i # drop (Suc i) xs" using assms by (rule id_take_nth_drop)
  then show ?thesis using that by (simp add: remove_at_def)
qed

lemma distinct_remove_at: "i < length xs \<Longrightarrow> distinct xs \<Longrightarrow> distinct (remove_at i xs)"
proof -
  assume i: "i < length xs" and d: "distinct xs"
  obtain ys zs where xs: "xs = ys @ xs ! i # zs" and r: "remove_at i xs = ys @ zs"
    using i by (rule remove_at_split)
  have "distinct (ys @ xs ! i # zs)" using d xs by simp
  then show ?thesis by (simp add: r)
qed

lemma set_remove_at:
  assumes "distinct xs" and "i < length xs"
  shows "set (remove_at i xs) = set xs - {xs ! i}"
proof -
  obtain ys zs where xs: "xs = ys @ xs ! i # zs" and r: "remove_at i xs = ys @ zs"
    using assms(2) by (rule remove_at_split)
  have "distinct (ys @ xs ! i # zs)" using assms(1) xs by simp
  moreover have "set xs = insert (xs ! i) (set ys \<union> set zs)" using arg_cong [OF xs, of set] by auto
  ultimately show ?thesis by (auto simp: r)
qed

lemma length_update_first [simp]: "length (update_first p f xs) = length xs"
  by (induction xs) auto

lemma update_first_id: "find p xs = None \<Longrightarrow> update_first p f xs = xs"
  by (induction xs) (auto split: if_splits)

lemma map_update_first_frame [simp]:
  "(\<And>x. g (f x) = g x) \<Longrightarrow> map g (update_first p f xs) = map g xs"
  by (induction xs) auto

lemma find_update_first:
  "find p xs = Some x \<Longrightarrow> p (f x) \<Longrightarrow> find p (update_first p f xs) = Some (f x)"
  by (induction xs) (auto split: if_splits)

lemma set_update_first:
  "find p xs = Some x \<Longrightarrow> distinct xs \<Longrightarrow>
     set (update_first p f xs) = insert (f x) (set xs - {x})"
  by (induction xs) (auto split: if_splits dest: find_SomeD)

lemma update_first_SomeD:
  "find p xs = Some x \<Longrightarrow>
     \<exists>ys zs. xs = ys @ x # zs \<and> (\<forall>y\<in>set ys. \<not> p y) \<and> update_first p f xs = ys @ f x # zs"
proof (induction xs)
  case (Cons a xs)
  show ?case
  proof (cases "p a")
    case True
    with Cons.prems have "a # xs = [] @ x # xs \<and> update_first p f (a # xs) = [] @ f x # xs" by simp
    then show ?thesis by (metis empty_iff empty_set)
  next
    case False
    with Cons obtain ys zs where "xs = ys @ x # zs" "\<forall>y\<in>set ys. \<not> p y"
      "update_first p f xs = ys @ f x # zs" by auto
    with False show ?thesis by (intro exI [of _ "a # ys"] exI [of _ zs]) auto
  qed
qed simp


lemma set_update_first_subset:
  "find p xs = Some x \<Longrightarrow> set (update_first p f xs) \<subseteq> insert (f x) (set xs)"
  by (auto dest!: update_first_SomeD [where f = f])

lemma all_update_first:
  assumes "find p xs = Some x" and "\<forall>y\<in>set xs. P y" and "P x \<Longrightarrow> P (f x)"
  shows "\<forall>y\<in>set (update_first p f xs). P y"
  using set_update_first_subset [OF assms(1), of f] assms(2,3) find_SomeD [OF assms(1)] by blast

section \<open>Records by their key\<close>

text \<open>
  The abstract view of a store: the map from a key of the records to the records. Appending,
  removing and changing records in the list are updates of that map.
\<close>

definition by_key :: "('a \<Rightarrow> 'k) \<Rightarrow> 'a list \<Rightarrow> 'k \<rightharpoonup> 'a" where
  "by_key k xs = map_of (map (\<lambda>x. (k x, x)) xs)"

named_theorems by_key_simps

lemma by_key_Nil [by_key_simps]: "by_key k [] = Map.empty"
  by (simp add: by_key_def)

lemma by_key_Cons: "by_key k (x # xs) = (by_key k xs)(k x \<mapsto> x)"
  by (simp add: by_key_def)

lemma dom_by_key: "dom (by_key k xs) = k ` set xs"
  by (simp add: by_key_def dom_map_of_conv_image_fst image_image)

lemma by_key_None: "a \<notin> k ` set xs \<Longrightarrow> by_key k xs a = None"
  using dom_by_key [of k xs] by blast

lemma by_key_Some:
  "distinct (map k xs) \<Longrightarrow> x \<in> set xs \<Longrightarrow> by_key k xs (k x) = Some x"
  unfolding by_key_def by (rule map_of_is_SomeI) (auto simp: comp_def)

lemma by_key_SomeD: "by_key k xs a = Some x \<Longrightarrow> x \<in> set xs \<and> k x = a"
  by (induction xs) (auto simp: by_key_Cons by_key_Nil split: if_splits)

lemma by_key_append: "by_key k (xs @ ys) = by_key k ys ++ by_key k xs"
  by (simp add: by_key_def)

lemma by_key_snoc [by_key_simps]:
  "k r \<notin> k ` set xs \<Longrightarrow> by_key k (xs @ [r]) = (by_key k xs)(k r \<mapsto> r)"
  by (auto simp: by_key_append by_key_Cons by_key_Nil map_add_def by_key_None fun_eq_iff
      split: option.splits)

lemma by_key_filter_ne [by_key_simps]:
  "by_key k (filter (\<lambda>x. k x \<noteq> a) xs) = (by_key k xs)(a := None)"
  by (induction xs) (auto simp: by_key_Cons by_key_Nil)

lemma by_key_replace [by_key_simps]:
  "by_key k (filter (\<lambda>x. k x \<noteq> k r) xs @ [r]) = (by_key k xs)(k r \<mapsto> r)"
  by (subst by_key_snoc) (auto simp: by_key_filter_ne)

lemma by_key_remove_at [by_key_simps]:
  assumes "distinct (map k xs)" and "i < length xs"
  shows "by_key k (remove_at i xs) = (by_key k xs)(k (xs ! i) := None)"
proof -
  obtain ys zs where xs: "xs = ys @ xs ! i # zs" and r: "remove_at i xs = ys @ zs"
    using assms(2) by (rule remove_at_split)
  have "distinct (map k (ys @ xs ! i # zs))" using assms(1) xs by simp
  then have n: "k (xs ! i) \<notin> k ` set ys" "k (xs ! i) \<notin> k ` set zs" by auto
  have "by_key k xs = by_key k (ys @ xs ! i # zs)" using xs by simp
  also have "\<dots> = by_key k (xs ! i # zs) ++ by_key k ys" by (rule by_key_append)
  finally show ?thesis using n
    by (auto simp: r by_key_append by_key_Cons map_add_def by_key_None fun_eq_iff split: option.splits)
qed

lemma by_key_update_first [by_key_simps]:
  assumes "distinct (map k xs)" and "find p xs = Some x" and "k (f x) = k x"
  shows "by_key k (update_first p f xs) = (by_key k xs)(k x \<mapsto> f x)"
proof -
  obtain ys zs where xs: "xs = ys @ x # zs" and u: "update_first p f xs = ys @ f x # zs"
    using update_first_SomeD [OF assms(2)] by blast
  have "k x \<notin> k ` set ys" using assms(1) by (auto simp: xs)
  then have "by_key k ys (k x) = None" by (rule by_key_None)
  moreover have "by_key k (ys @ f x # zs) = (by_key k zs)(k x \<mapsto> f x) ++ by_key k ys"
    using assms(3) by (simp add: by_key_append by_key_Cons)
  moreover have "by_key k (ys @ x # zs) = (by_key k zs)(k x \<mapsto> x) ++ by_key k ys"
    by (simp add: by_key_append by_key_Cons)
  ultimately show ?thesis
    by (auto simp: xs u [unfolded xs] map_add_def fun_eq_iff split: option.splits)
qed

lemma distinct_map_filter_ne_snoc:
  "distinct (map g xs) \<Longrightarrow> (\<forall>x\<in>set xs. g x = g r \<longrightarrow> k x = k r) \<Longrightarrow>
     distinct (map g (filter (\<lambda>x. k x \<noteq> k r) xs @ [r]))"
  by (force simp: distinct_map_filter)

end
