(* ===== verification/Index_File.thy ===== *)
theory Index_File
  imports Prelude
begin

text \<open>
  The JSON index file behind every store, and the exclusive lock around it
  (\<open>src/storage/index_lock.rs\<close>).

  The first part is the view of one process: \<open>load_unlocked\<close>, \<open>save_unlocked\<close> and
  \<open>with_index_lock\<close>, with what the operating system answers (the lock is granted, the
  write and the rename succeed) as an explicit \<open>io\<close> argument. A file is represented by
  what \<open>serde_json\<close> parses from it. The locale \<open>index_transactions\<close> is the contract every
  store's operations keep towards the file; the stores interpret it.

  The second part is the view of several processes: a step relation for the lock protocol,
  with reachability and the invariant that makes the read-modify-write of a store atomic.
\<close>

section \<open>One process\<close>

text \<open>\<open>Missing\<close>: no readable file; \<open>Malformed\<close>: a file whose content does not parse.\<close>

datatype 'r index_file = Missing | Malformed | Records "'r list"

record io =
  lock_ok :: bool
  save_ok :: bool

definition io_good :: io where
  "io_good = \<lparr>lock_ok = True, save_ok = True\<rparr>"

text \<open>\<open>load_unlocked\<close>: \<open>unwrap_or_default\<close> makes a malformed file an empty store.\<close>

definition load_unlocked :: "'r index_file \<Rightarrow> 'r list" where
  "load_unlocked f = (case f of Records rs \<Rightarrow> rs | _ \<Rightarrow> [])"

text \<open>
  \<open>save_unlocked\<close> writes a temporary file and renames it over the index: the index changes
  as a whole or, when a step fails, not at all.
\<close>

definition save_unlocked :: "io \<Rightarrow> 'r list \<Rightarrow> 'r index_file \<Rightarrow> unit res \<times> 'r index_file" where
  "save_unlocked io data f = (if save_ok io then (Inr (), Records data) else (Inl Io_failed, f))"

text \<open>The idiom \<open>self.save_unlocked(&data)?; Ok(a)\<close>.\<close>

definition commit :: "io \<Rightarrow> 'a \<Rightarrow> 'r list \<Rightarrow> 'r index_file \<Rightarrow> 'a res \<times> 'r index_file" where
  "commit io a data f =
     (case save_unlocked io data f of (Inl e, f') \<Rightarrow> (Inl e, f') | (Inr _, f') \<Rightarrow> (Inr a, f'))"

definition with_index_lock :: "io \<Rightarrow> ('f \<Rightarrow> 'a res \<times> 'f) \<Rightarrow> 'f \<Rightarrow> 'a res \<times> 'f" where
  "with_index_lock io body f = (if lock_ok io then body f else (Inl Lock_failed, f))"

text \<open>
  Reads under the lock: \<open>list\<close> gives the records (\<open>unwrap_or_default\<close> on a lock failure),
  \<open>find\<close> the first that satisfies the query.
\<close>

definition list_locked :: "io \<Rightarrow> 'r index_file \<Rightarrow> 'r list" where
  "list_locked io f = (if lock_ok io then load_unlocked f else [])"

definition find_locked :: "io \<Rightarrow> ('r \<Rightarrow> bool) \<Rightarrow> 'r index_file \<Rightarrow> 'r option" where
  "find_locked io p f = (if lock_ok io then find p (load_unlocked f) else None)"

lemma load_unlocked_simps [simp]:
  "load_unlocked Missing = []" "load_unlocked Malformed = []"
  "load_unlocked (Records rs) = rs"
  by (simp_all add: load_unlocked_def)

lemma io_good_simps [simp]: "lock_ok io_good" "save_ok io_good"
  by (simp_all add: io_good_def)

lemma commit_Inr_iff [simp]:
  "commit io a data f = (Inr b, f') \<longleftrightarrow> save_ok io \<and> b = a \<and> f' = Records data"
  by (auto simp: commit_def save_unlocked_def)

lemma commit_Inl_iff [simp]:
  "commit io a data f = (Inl e, f') \<longleftrightarrow> \<not> save_ok io \<and> e = Io_failed \<and> f' = f"
  by (auto simp: commit_def save_unlocked_def)

lemma with_index_lock_Inr_iff [simp]:
  "with_index_lock io body f = (Inr b, f') \<longleftrightarrow> lock_ok io \<and> body f = (Inr b, f')"
  by (auto simp: with_index_lock_def)

lemma with_index_lock_Inl_iff:
  "with_index_lock io body f = (Inl e, f') \<longleftrightarrow>
     (if lock_ok io then body f = (Inl e, f') else e = Lock_failed \<and> f' = f)"
  by (auto simp: with_index_lock_def)

lemma commit_good [simp]: "commit io_good a data f = (Inr a, Records data)"
  by (simp add: commit_def save_unlocked_def)

lemma with_index_lock_good [simp]: "with_index_lock io_good body f = body f"
  by (simp add: with_index_lock_def)

section \<open>The contract of a store's operations\<close>

fun run_requests ::
  "(io \<Rightarrow> 'q \<Rightarrow> 'r index_file \<Rightarrow> 'a res \<times> 'r index_file) \<Rightarrow> (io \<times> 'q) list \<Rightarrow>
     'r index_file \<Rightarrow> 'r index_file" where
  "run_requests step [] f = f"
| "run_requests step ((io, q) # qs) f = run_requests step qs (snd (step io q f))"

locale index_transactions =
  fixes step :: "io \<Rightarrow> 'q \<Rightarrow> 'r index_file \<Rightarrow> 'a res \<times> 'r index_file"
    and inv :: "'r list \<Rightarrow> bool"
  assumes failed_keeps: "step io q f = (Inl e, f') \<Longrightarrow> f' = f"
    and ok_keeps_inv:
      "inv (load_unlocked f) \<Longrightarrow> step io q f = (Inr a, f') \<Longrightarrow> inv (load_unlocked f')"
begin

lemma step_keeps_inv: "inv (load_unlocked f) \<Longrightarrow> inv (load_unlocked (snd (step io q f)))"
proof (cases "step io q f")
  case (Pair r f')
  then show "inv (load_unlocked f) \<Longrightarrow> inv (load_unlocked (snd (step io q f)))"
    by (cases r) (auto dest: failed_keeps ok_keeps_inv)
qed

lemma run_keeps_inv:
  "inv (load_unlocked f) \<Longrightarrow> inv (load_unlocked (run_requests step qs f))"
proof (induction qs arbitrary: f)
  case (Cons q qs)
  then show ?case by (cases q) (simp add: step_keeps_inv)
qed simp

lemma run_from_empty:
  "inv [] \<Longrightarrow> inv (load_unlocked (run_requests step qs Missing))"
  by (rule run_keeps_inv) simp

end

section \<open>Records found by id prefix or by name\<close>

text \<open>
  Containers, networks, pods and secrets are looked up by the same test: the query is a
  prefix of the record's id, or its exact name. The locale states that contract; each store
  interprets it on its own test.
\<close>

locale query_index =
  fixes matches :: "str \<Rightarrow> 'r \<Rightarrow> bool"
    and ident :: "'r \<Rightarrow> str"
    and label :: "'r \<Rightarrow> str"
  assumes matches_iff: "matches q r \<longleftrightarrow> starts_with (ident r) q \<or> label r = q"
begin

lemma find_by_ident:
  assumes "r \<in> set rs" and "distinct (map ident rs)"
    and "\<And>s. s \<in> set rs \<Longrightarrow> length (ident s) = n"
    and "\<And>s. s \<in> set rs \<Longrightarrow> s \<noteq> r \<Longrightarrow> label s \<noteq> ident r"
  shows "find (matches (ident r)) rs = Some r"
proof (rule find_unique)
  fix s assume s: "s \<in> set rs" and m: "matches (ident r) s"
  show "s = r"
  proof (rule ccontr)
    assume "s \<noteq> r"
    with s m assms(4) have "starts_with (ident s) (ident r)" by (auto simp: matches_iff)
    with s assms(1,3) have "ident s = ident r" by (metis starts_with_eq_length)
    with s assms(1,2) \<open>s \<noteq> r\<close> show False by (auto simp: distinct_map inj_on_def)
  qed
qed (use assms(1) in \<open>auto simp: matches_iff\<close>)

lemma find_by_label:
  assumes "r \<in> set rs" and "distinct (map label rs)"
    and "\<And>s. s \<in> set rs \<Longrightarrow> s \<noteq> r \<Longrightarrow> \<not> starts_with (ident s) (label r)"
  shows "find (matches (label r)) rs = Some r"
proof (rule find_unique)
  fix s assume s: "s \<in> set rs" and m: "matches (label r) s"
  show "s = r"
    using s m assms by (auto simp: matches_iff distinct_map inj_on_def)
qed (use assms(1) in \<open>auto simp: matches_iff\<close>)

lemma find_empty_query: "find (matches []) rs = (case rs of [] \<Rightarrow> None | r # _ \<Rightarrow> Some r)"
  by (cases rs) (auto simp: matches_iff)

lemma find_shadowed:
  assumes "starts_with (ident r) q"
  shows "find (matches q) (r # rs) = Some r"
  using assms by (simp add: matches_iff)

end

end
