(* ===== verification/Lock_Protocol.thy ===== *)
theory Lock_Protocol
  imports Index_File
begin

text \<open>
  Several processes over one index file: \<open>with_index_lock\<close> of
  \<open>src/storage/index_lock.rs\<close> as a step relation.

  A process asks for the lock, is granted it when nobody holds it (or is interrupted and asks
  again, or is refused and gives up), runs the closure it was given (load the file, then save
  a new one or return without saving) and drops the guard. It may die at any point; the
  kernel then releases its lock. \<open>work i\<close> is the closure of process \<open>i\<close>: the file it writes
  for the file it read, \<open>None\<close> when it returns without saving.

  Shown: the lock excludes, and the file is at every moment the result of the saves in the
  order they happened, each applied to the result of the one before: no update is lost. The
  second relation is the same read-modify-write without the lock, as the artifact, farm,
  mount and credential stores do it; there an update can be lost.
\<close>

datatype 'f phase = Outside | Waiting | Holding | Loaded 'f | Done

record 'f lock_sys =
  holder :: "nat option"
  index :: 'f
  phases :: "nat \<Rightarrow> 'f phase"
  history :: "nat list"

definition init_sys :: "'f \<Rightarrow> 'f lock_sys" where
  "init_sys f = \<lparr>holder = None, index = f, phases = (\<lambda>_. Outside), history = []\<rparr>"

definition set_phase :: "nat \<Rightarrow> 'f phase \<Rightarrow> 'f lock_sys \<Rightarrow> 'f lock_sys" where
  "set_phase i p s = s\<lparr>phases := (phases s)(i := p)\<rparr>"

inductive lock_step :: "(nat \<Rightarrow> 'f \<Rightarrow> 'f option) \<Rightarrow> 'f lock_sys \<Rightarrow> 'f lock_sys \<Rightarrow> bool"
  for work :: "nat \<Rightarrow> 'f \<Rightarrow> 'f option" where
  open_lock: "phases s i = Outside \<Longrightarrow> lock_step work s (set_phase i Waiting s)"
| granted: "phases s i = Waiting \<Longrightarrow> holder s = None \<Longrightarrow>
    lock_step work s (set_phase i Holding s\<lparr>holder := Some i\<rparr>)"
| interrupted: "phases s i = Waiting \<Longrightarrow> lock_step work s s"
| refused: "phases s i = Waiting \<Longrightarrow> lock_step work s (set_phase i Outside s)"
| load: "phases s i = Holding \<Longrightarrow> lock_step work s (set_phase i (Loaded (index s)) s)"
| save: "phases s i = Loaded f \<Longrightarrow> work i f = Some g \<Longrightarrow>
    lock_step work s (set_phase i Done s\<lparr>index := g, history := history s @ [i]\<rparr>)"
| give_up: "phases s i = Loaded f \<Longrightarrow> lock_step work s (set_phase i Done s)"
| unlock: "phases s i = Done \<Longrightarrow> lock_step work s (set_phase i Outside s\<lparr>holder := None\<rparr>)"
| dies_waiting: "phases s i = Waiting \<Longrightarrow> lock_step work s (set_phase i Outside s)"
| dies_inside: "phases s i \<notin> {Outside, Waiting} \<Longrightarrow>
    lock_step work s (set_phase i Outside s\<lparr>holder := None\<rparr>)"

inductive lock_reachable :: "(nat \<Rightarrow> 'f \<Rightarrow> 'f option) \<Rightarrow> 'f \<Rightarrow> 'f lock_sys \<Rightarrow> bool"
  for work :: "nat \<Rightarrow> 'f \<Rightarrow> 'f option" and f0 :: 'f where
  start: "lock_reachable work f0 (init_sys f0)"
| step: "lock_reachable work f0 s \<Longrightarrow> lock_step work s t \<Longrightarrow> lock_reachable work f0 t"

definition inside :: "'f phase \<Rightarrow> bool" where
  "inside p \<longleftrightarrow> p \<noteq> Outside \<and> p \<noteq> Waiting"

definition apply_work :: "(nat \<Rightarrow> 'f \<Rightarrow> 'f option) \<Rightarrow> 'f \<Rightarrow> nat \<Rightarrow> 'f" where
  "apply_work work f i = unwrap_or (work i f) f"

definition lock_inv :: "(nat \<Rightarrow> 'f \<Rightarrow> 'f option) \<Rightarrow> 'f \<Rightarrow> 'f lock_sys \<Rightarrow> bool" where
  "lock_inv work f0 s \<longleftrightarrow>
     (\<forall>i. inside (phases s i) \<longleftrightarrow> holder s = Some i) \<and>
     (\<forall>i f. phases s i = Loaded f \<longrightarrow> f = index s) \<and>
     index s = foldl (apply_work work) f0 (history s)"

lemma phases_set_phase [simp]: "phases (set_phase i p s) = (phases s)(i := p)"
  and holder_set_phase [simp]: "holder (set_phase i p s) = holder s"
  and index_set_phase [simp]: "index (set_phase i p s) = index s"
  and history_set_phase [simp]: "history (set_phase i p s) = history s"
  by (simp_all add: set_phase_def)

lemma inside_simps [simp]:
  "\<not> inside Outside" "\<not> inside Waiting" "inside Holding" "inside (Loaded f)" "inside Done"
  by (simp_all add: inside_def)

lemma lock_inv_init: "lock_inv work f0 (init_sys f0)"
  by (simp add: lock_inv_def init_sys_def)

lemma lock_inv_holder:
  "lock_inv work f0 s \<Longrightarrow> inside (phases s i) \<Longrightarrow> holder s = Some i"
  by (simp add: lock_inv_def)

lemma lock_step_inv: "lock_step work s t \<Longrightarrow> lock_inv work f0 s \<Longrightarrow> lock_inv work f0 t"
proof (induction rule: lock_step.induct)
  case (save s i f g)
  then have h: "holder s = Some i" by (metis inside_simps(4) lock_inv_holder)
  have f: "f = index s" using save.hyps(1) save.prems unfolding lock_inv_def by blast
  have others: "\<And>j. j \<noteq> i \<Longrightarrow> \<not> inside (phases s j)" using save.prems h by (simp add: lock_inv_def)
  then have "\<And>j x. j \<noteq> i \<Longrightarrow> phases s j \<noteq> Loaded x" by (metis inside_simps(4))
  then show ?case using save h f by (auto simp: lock_inv_def apply_work_def)
next
  case (dies_inside s i)
  then have i: "inside (phases s i)" by (simp add: inside_def)
  then have "holder s = Some i" using dies_inside.prems by (rule lock_inv_holder [rotated])
  then show ?case using dies_inside.prems by (auto simp: lock_inv_def)
qed (auto simp: lock_inv_def split: if_splits, (metis inside_simps(1,2))+)

lemma lock_reachable_inv: "lock_reachable work f0 s \<Longrightarrow> lock_inv work f0 s"
  by (induction rule: lock_reachable.induct) (auto intro: lock_inv_init lock_step_inv)

inductive_cases from_init: "lock_step work (init_sys f) t"

section \<open>The same steps without the lock\<close>

inductive free_step :: "(nat \<Rightarrow> 'f \<Rightarrow> 'f option) \<Rightarrow> 'f lock_sys \<Rightarrow> 'f lock_sys \<Rightarrow> bool"
  for work :: "nat \<Rightarrow> 'f \<Rightarrow> 'f option" where
  free_load: "phases s i = Outside \<Longrightarrow> free_step work s (set_phase i (Loaded (index s)) s)"
| free_save: "phases s i = Loaded f \<Longrightarrow> work i f = Some g \<Longrightarrow>
    free_step work s (set_phase i Outside s\<lparr>index := g, history := history s @ [i]\<rparr>)"
| free_give_up: "phases s i = Loaded f \<Longrightarrow> free_step work s (set_phase i Outside s)"

inductive free_reachable :: "(nat \<Rightarrow> 'f \<Rightarrow> 'f option) \<Rightarrow> 'f \<Rightarrow> 'f lock_sys \<Rightarrow> bool"
  for work :: "nat \<Rightarrow> 'f \<Rightarrow> 'f option" and f0 :: 'f where
  free_start: "free_reachable work f0 (init_sys f0)"
| free_next: "free_reachable work f0 s \<Longrightarrow> free_step work s t \<Longrightarrow> free_reachable work f0 t"

lemma free_race:
  assumes "work i f = Some g" and "work j f = Some h" and "i \<noteq> j"
  shows "\<exists>s. free_reachable work f s \<and> history s = [i, j] \<and> index s = h"
proof -
  let ?s1 = "set_phase i (Loaded f) (init_sys f)"
  let ?s2 = "set_phase j (Loaded f) ?s1"
  let ?s3 = "set_phase i Outside ?s2\<lparr>index := g, history := history ?s2 @ [i]\<rparr>"
  let ?s4 = "set_phase j Outside ?s3\<lparr>index := h, history := history ?s3 @ [j]\<rparr>"
  have "free_reachable work f ?s1"
    using free_next [OF free_start free_load [of "init_sys f" i work]] by (simp add: init_sys_def)
  then have "free_reachable work f ?s2"
    using free_next [OF _ free_load [of ?s1 j work]] assms(3) by (simp add: init_sys_def)
  then have "free_reachable work f ?s3"
    by (rule free_next) (rule free_save [of ?s2 i f work g], use assms in \<open>auto simp: init_sys_def\<close>)
  then have "free_reachable work f ?s4"
    by (rule free_next) (rule free_save [of ?s3 j f work h], use assms in \<open>auto simp: init_sys_def\<close>)
  then show ?thesis by (intro exI [of _ ?s4]) (simp add: init_sys_def)
qed

section \<open>Properties\<close>

text \<open>
  C1. Under the index lock at most one process is between its load and its unlock, and the
  index file is exactly the saves of the history applied one after the other to the initial
  file: whatever the interleaving, interruptions and crashes, no store update is lost.
\<close>

theorem index_lock_serialises:
  assumes "lock_reachable work f0 s"
  shows "(inside (phases s i) \<longrightarrow> inside (phases s j) \<longrightarrow> i = j) \<and>
    index s = foldl (apply_work work) f0 (history s)"
  using lock_reachable_inv [OF assms] by (auto simp: lock_inv_def)

text \<open>Witness: process 0 has added 1 to a file that held 5, process 1 is waiting.\<close>

theorem index_lock_serialises_witness:
  "\<exists>s. lock_reachable (\<lambda>_ n. Some (n + 1 :: nat)) 5 s \<and> inside (phases s 0) \<and> history s = [0] \<and>
     index s = foldl (apply_work (\<lambda>_ n. Some (n + 1))) 5 (history s) \<and> index s = 6"
proof -
  let ?w = "\<lambda>_ n. Some (n + 1 :: nat)"
  let ?s1 = "set_phase 0 Waiting (init_sys (5::nat))"
  let ?s2 = "set_phase 0 Holding ?s1\<lparr>holder := Some 0\<rparr>"
  let ?s3 = "set_phase 0 (Loaded 5) ?s2"
  let ?s4 = "set_phase 0 Done ?s3\<lparr>index := 6, history := history ?s3 @ [0]\<rparr>"
  have "lock_reachable ?w 5 ?s1"
    by (rule lock_reachable.step [OF start]) (rule open_lock, simp add: init_sys_def)
  then have "lock_reachable ?w 5 ?s2"
    by (rule lock_reachable.step) (rule granted, simp_all add: init_sys_def)
  then have "lock_reachable ?w 5 ?s3"
    by (rule lock_reachable.step)
      (use load [of ?s2 0 ?w] in \<open>simp add: init_sys_def\<close>)
  then have r: "lock_reachable ?w 5 ?s4"
    by (rule lock_reachable.step) (rule save [of ?s3 0 5 ?w 6], simp_all)
  from index_lock_serialises [OF r, of 0 0] r show ?thesis
    by (intro exI [of _ ?s4]) (simp add: init_sys_def)
qed

end
