(* ===== verification/Packets.thy ===== *)
theory Packets
  imports Prelude "HOL-Library.Monad_Syntax"
begin

text \<open>
  The wire formats of the user-mode network (\<open>src/network/usernet/packets.rs\<close>): Ethernet,
  ARP, IPv4, UDP and TCP headers with their parsers and writers, and the Internet checksum.

  A buffer is a list of bytes; \<open>write_to\<close> appends to the buffer it is given. Every index, slice
  and \<open>copy_from_slice\<close> of the source goes through \<open>byte_at\<close>, \<open>slice_at\<close>, \<open>set_byte\<close> or
  \<open>store_slice\<close>, whose \<open>None\<close> is the panic of an access out of range: a parser returns \<open>None\<close>
  when it panics, \<open>Some None\<close> when it rejects the buffer and \<open>Some (Some x)\<close> otherwise. The
  total functions \<open>*_fields\<close> are what the parsers are shown to compute (they never panic). The
  locale \<open>wire_codec\<close> states what a header's writer promises its parser.
\<close>

section \<open>Addresses and byte order\<close>

datatype mac = Mac byte byte byte byte byte byte
datatype ipv4 = Ipv4 byte byte byte byte

fun mac_bytes :: "mac \<Rightarrow> byte list" where
  "mac_bytes (Mac a b c d e f) = [a, b, c, d, e, f]"

fun octets :: "ipv4 \<Rightarrow> byte list" where
  "octets (Ipv4 a b c d) = [a, b, c, d]"

text \<open>Indexing and slicing as the source does it: \<open>None\<close> is the panic.\<close>

definition byte_at :: "byte list \<Rightarrow> nat \<Rightarrow> byte option" where
  "byte_at buf i = (if i < length buf then Some (buf ! i) else None)"

definition slice_at :: "byte list \<Rightarrow> nat \<Rightarrow> nat \<Rightarrow> byte list option" where
  "slice_at buf i j = (if i \<le> j \<and> j \<le> length buf then Some (drop i (take j buf)) else None)"

definition set_byte :: "byte list \<Rightarrow> nat \<Rightarrow> byte \<Rightarrow> byte list option" where
  "set_byte buf i b = (if i < length buf then Some (buf[i := b]) else None)"

definition store_slice :: "byte list \<Rightarrow> nat \<Rightarrow> nat \<Rightarrow> byte list \<Rightarrow> byte list option" where
  "store_slice buf i j src =
     (if i \<le> j \<and> j \<le> length buf \<and> length src = j - i
      then Some (take i buf @ src @ drop j buf) else None)"

text \<open>\<open>copy_from_slice\<close> into a six-byte array.\<close>

fun mac_of :: "byte list \<Rightarrow> mac option" where
  "mac_of [a, b, c, d, e, f] = Some (Mac a b c d e f)"
| "mac_of _ = None"

definition mac_read :: "byte list \<Rightarrow> nat \<Rightarrow> mac option" where
  "mac_read buf i = do { s \<leftarrow> slice_at buf i (i + 6); mac_of s }"

definition ipv4_read :: "byte list \<Rightarrow> nat \<Rightarrow> ipv4 option" where
  "ipv4_read buf i = do {
     a \<leftarrow> byte_at buf i; b \<leftarrow> byte_at buf (i + 1); c \<leftarrow> byte_at buf (i + 2);
     d \<leftarrow> byte_at buf (i + 3); Some (Ipv4 a b c d) }"

definition mac_at :: "byte list \<Rightarrow> nat \<Rightarrow> mac" where
  "mac_at buf i = Mac (buf ! i) (buf ! (i + 1)) (buf ! (i + 2)) (buf ! (i + 3)) (buf ! (i + 4))
     (buf ! (i + 5))"

definition ipv4_at :: "byte list \<Rightarrow> nat \<Rightarrow> ipv4" where
  "ipv4_at buf i = Ipv4 (buf ! i) (buf ! (i + 1)) (buf ! (i + 2)) (buf ! (i + 3))"

definition be16 :: "byte \<Rightarrow> byte \<Rightarrow> u16" where
  "be16 a b = (push_bit 8 (ucast a) OR ucast b)"

definition be32 :: "byte \<Rightarrow> byte \<Rightarrow> byte \<Rightarrow> byte \<Rightarrow> u32" where
  "be32 a b c d =
     (push_bit 24 (ucast a) OR push_bit 16 (ucast b) OR push_bit 8 (ucast c) OR ucast d)"

definition to_be16 :: "u16 \<Rightarrow> byte list" where
  "to_be16 w = [ucast (drop_bit 8 w), ucast w]"

definition to_be32 :: "u32 \<Rightarrow> byte list" where
  "to_be32 w = [ucast (drop_bit 24 w), ucast (drop_bit 16 w), ucast (drop_bit 8 w), ucast w]"

definition be16_at :: "byte list \<Rightarrow> nat \<Rightarrow> u16" where
  "be16_at buf i = be16 (buf ! i) (buf ! (i + 1))"

definition be32_at :: "byte list \<Rightarrow> nat \<Rightarrow> u32" where
  "be32_at buf i = be32 (buf ! i) (buf ! (i + 1)) (buf ! (i + 2)) (buf ! (i + 3))"

definition be16_read :: "byte list \<Rightarrow> nat \<Rightarrow> u16 option" where
  "be16_read buf i = do { a \<leftarrow> byte_at buf i; b \<leftarrow> byte_at buf (i + 1); Some (be16 a b) }"

definition be32_read :: "byte list \<Rightarrow> nat \<Rightarrow> u32 option" where
  "be32_read buf i = do {
     a \<leftarrow> byte_at buf i; b \<leftarrow> byte_at buf (i + 1); c \<leftarrow> byte_at buf (i + 2);
     d \<leftarrow> byte_at buf (i + 3); Some (be32 a b c d) }"

text \<open>In range, an access is the plain one.\<close>

lemma byte_at_in [simp]: "i < length buf \<Longrightarrow> byte_at buf i = Some (buf ! i)"
  by (simp add: byte_at_def)

lemma slice_at_in [simp]: "i \<le> j \<Longrightarrow> j \<le> length buf \<Longrightarrow> slice_at buf i j = Some (drop i (take j buf))"
  by (simp add: slice_at_def)

lemma be16_read_in [simp]: "i + 1 < length buf \<Longrightarrow> be16_read buf i = Some (be16_at buf i)"
  by (simp add: be16_read_def be16_at_def)

lemma be32_read_in [simp]: "i + 3 < length buf \<Longrightarrow> be32_read buf i = Some (be32_at buf i)"
  by (simp add: be32_read_def be32_at_def)

lemma ipv4_read_in [simp]: "i + 3 < length buf \<Longrightarrow> ipv4_read buf i = Some (ipv4_at buf i)"
  by (simp add: ipv4_read_def ipv4_at_def)

lemma six_bytes: "i + 6 \<le> length buf \<Longrightarrow> drop i (take (i + 6) buf) =
    [buf ! i, buf ! (i + 1), buf ! (i + 2), buf ! (i + 3), buf ! (i + 4), buf ! (i + 5)]"
  by (rule nth_equalityI) (auto simp: less_Suc_eq numeral_eq_Suc)

lemma mac_read_in [simp]: "i + 5 < length buf \<Longrightarrow> mac_read buf i = Some (mac_at buf i)"
  by (simp add: mac_read_def mac_at_def six_bytes)

definition DEFAULT_CONTAINER_IP :: ipv4 where "DEFAULT_CONTAINER_IP = Ipv4 10 0 2 15"
definition DEFAULT_GATEWAY_IP :: ipv4 where "DEFAULT_GATEWAY_IP = Ipv4 10 0 2 2"
definition DEFAULT_DNS_IP :: ipv4 where "DEFAULT_DNS_IP = Ipv4 10 0 2 3"
definition VIRTUAL_GATEWAY_MAC :: mac where
  "VIRTUAL_GATEWAY_MAC = Mac 0x02 0x00 0x0a 0x00 0x02 0x02"

definition ETHERTYPE_IPV4 :: u16 where "ETHERTYPE_IPV4 = 0x0800"
definition ETHERTYPE_ARP :: u16 where "ETHERTYPE_ARP = 0x0806"
definition IP_PROTO_ICMP :: byte where "IP_PROTO_ICMP = 1"
definition IP_PROTO_TCP :: byte where "IP_PROTO_TCP = 6"
definition IP_PROTO_UDP :: byte where "IP_PROTO_UDP = 17"

section \<open>The Internet checksum\<close>

text \<open>
  \<open>compute_checksum\<close>: the first loop adds big-endian words (an odd last byte is the high
  half), the second folds the carries. The sum is a \<open>u32\<close>: it wraps at 2^32 as the release
  build does.
\<close>

fun sum_words :: "u32 \<Rightarrow> byte list \<Rightarrow> u32" where
  "sum_words s (a # b # bs) = sum_words (s + ucast (be16 a b)) bs"
| "sum_words s [a] = s + push_bit 8 (ucast a)"
| "sum_words s [] = s"

lemma unat_fold_step:
  "unat ((s AND 0xffff) + drop_bit 16 s :: u32) = unat s mod 65536 + unat s div 65536"
proof -
  have m: "(0xffff :: u32) = mask 16" by (simp add: mask_eq_exp_minus_1)
  have a: "unat (s AND 0xffff :: u32) = unat s mod 65536"
    unfolding m by (simp flip: take_bit_eq_mask add: unsigned_take_bit_eq take_bit_eq_mod unat_mod)
  have b: "unat (drop_bit 16 s :: u32) = unat s div 65536"
    by (simp add: drop_bit_eq_div unat_div)
  have "unat s < 4294967296" using unsigned_less [where w = s and 'a = nat] by simp
  then have "unat s mod 65536 + unat s div 65536 < 4294967296"
    by (simp add: less_mult_imp_div_less)
  then show ?thesis using a b by (simp add: unat_word_ariths)
qed

function fold_carry :: "u32 \<Rightarrow> u32" where
  "fold_carry s = (if drop_bit 16 s > 0 then fold_carry ((s AND 0xffff) + drop_bit 16 s) else s)"
  by pat_completeness auto
termination
proof (relation "measure unat", goal_cases)
  case (2 s)
  then have "unat (drop_bit 16 s) > 0" by (simp add: word_less_nat_alt)
  then have "unat s div 65536 > 0" by (simp add: drop_bit_eq_div unat_div)
  moreover have "unat s = unat s div 65536 * 65536 + unat s mod 65536" by (simp only: div_mult_mod_eq)
  ultimately have "unat s mod 65536 + unat s div 65536 < unat s" by linarith
  then show ?case by (simp only: unat_fold_step in_measure)
qed simp

declare fold_carry.simps [simp del]

definition compute_checksum :: "byte list \<Rightarrow> u16" where
  "compute_checksum data = NOT (ucast (fold_carry (sum_words 0 data)))"


fun wsum :: "byte list \<Rightarrow> nat" where
  "wsum (a # b # bs) = 256 * unat a + unat b + wsum bs"
| "wsum [a] = 256 * unat a"
| "wsum [] = 0"

lemma unat_byte_less: "unat (a :: byte) < 256"
  using unsigned_less [where w = a and 'a = nat] by simp

lemma be16_sum: "be16 a b = ucast a * 256 + ucast b"
proof -
  have "(push_bit 8 (ucast a) OR ucast b :: u16) = push_bit 8 (ucast a) + ucast b"
    by (rule disjunctive_add [symmetric]) (auto simp: bit_simps dest: bit_imp_le_length)
  then show ?thesis by (simp add: be16_def push_bit_eq_mult)
qed

lemma unat_be16 [simp]: "unat (be16 a b) = 256 * unat a + unat b"
proof -
  have "unat a < 256" and "unat b < 256" by (rule unat_byte_less)+
  then have "unat a mod 65536 = unat a" "unat b mod 65536 = unat b"
    "256 * unat a + unat b < 65536" by simp_all
  then show ?thesis by (simp add: be16_sum mult.commute unat_word_ariths unsigned_ucast_eq take_bit_eq_mod)
qed

lemma be32_sum: "be32 a b c d = ucast (be16 a b) * 65536 + ucast (be16 c d)"
proof -
  have "(push_bit 16 (ucast (be16 a b)) OR ucast (be16 c d) :: u32) =
      push_bit 16 (ucast (be16 a b)) + ucast (be16 c d)"
    by (rule disjunctive_add [symmetric]) (auto simp: bit_simps dest: bit_imp_le_length)
  moreover have "be32 a b c d = push_bit 16 (ucast (be16 a b)) OR ucast (be16 c d)"
    by (rule bit_word_eqI) (simp add: be32_def be16_def bit_simps; fastforce dest: bit_imp_le_length)
  ultimately show ?thesis by (simp add: push_bit_eq_mult)
qed

lemma unat_be32:
  "unat (be32 a b c d) = (256 * unat a + unat b) * 65536 + (256 * unat c + unat d)"
proof -
  have "256 * unat a + unat b < 65536" "256 * unat c + unat d < 65536"
    using unat_byte_less [of a] unat_byte_less [of b] unat_byte_less [of c] unat_byte_less [of d]
    by linarith+
  then show ?thesis by (simp add: be32_sum unat_word_ariths unsigned_ucast_eq take_bit_eq_mod)
qed

lemma wsum_bound: "wsum bs \<le> 65535 * length bs"
proof (induction bs rule: wsum.induct)
  case (1 a b bs)
  have "unat a < 256" and "unat b < 256" by (rule unat_byte_less)+
  then have "256 * unat a + unat b \<le> 131070" by linarith
  with 1 show ?case by simp
next
  case (2 a)
  have "unat a < 256" by (rule unat_byte_less)
  then have "256 * unat a \<le> 65535" by linarith
  then show ?case by simp
qed simp

lemma wsum_append: "even (length xs) \<Longrightarrow> wsum (xs @ ys) = wsum xs + wsum ys"
  by (induction xs rule: wsum.induct) auto

lemma unat_sum_words:
  "unat s + wsum bs < 2 ^ 32 \<Longrightarrow> unat (sum_words s bs) = unat s + wsum bs"
proof (induction s bs rule: sum_words.induct)
  case (1 s a b bs)
  then have "unat (s + ucast (be16 a b)) = unat s + (256 * unat a + unat b)"
    by (simp add: unat_word_ariths unsigned_ucast_eq take_bit_eq_mod)
  with 1 show ?case by simp
next
  case (2 s a)
  then show ?case by (simp add: unat_word_ariths unsigned_ucast_eq take_bit_eq_mod push_bit_eq_mult)
qed simp


lemma unat_fold_carry:
  "unat (fold_carry s) = (if s = 0 then 0 else (unat s - 1) mod 65535 + 1)"
proof (induction s rule: fold_carry.induct)
  case (1 s)
  have eq: "unat s = unat s div 65536 * 65536 + unat s mod 65536" by (simp only: div_mult_mod_eq)
  have hi: "drop_bit 16 s > 0 \<longleftrightarrow> unat s div 65536 > 0"
    by (simp add: word_less_nat_alt drop_bit_eq_div unat_div)
  show ?case
  proof (cases "drop_bit 16 s > 0")
    case True
    let ?t = "(s AND 0xffff) + drop_bit 16 s"
    have q: "unat s div 65536 > 0" using True hi by simp
    have ut: "unat ?t = unat s mod 65536 + unat s div 65536" by (rule unat_fold_step)
    with q have t0: "?t \<noteq> 0" by (metis add_gr_0 less_irrefl unat_0)
    have "unat s - 1 = (unat ?t - 1) + unat s div 65536 * 65535" using eq q ut by linarith
    then have "(unat s - 1) mod 65535 = (unat ?t - 1) mod 65535" by simp
    with 1 [OF True] True t0 q show ?thesis by (auto simp: fold_carry.simps [of s])
  next
    case False
    then have lt: "unat s < 65536" using hi eq by simp
    show ?thesis
    proof (cases "s = 0")
      case False
      then have "unat s > 0" by (simp add: unat_gt_0)
      with lt have "(unat s - 1) mod 65535 = unat s - 1" by simp
      with \<open>unat s > 0\<close> \<open>\<not> drop_bit 16 s > 0\<close> False show ?thesis
        by (simp add: fold_carry.simps [of s])
    qed (simp add: fold_carry.simps [of 0])
  qed
qed

lemma unat_not_u16: "unat (NOT w :: u16) = 65535 - unat w"
proof -
  have "unat w < 65536" using unsigned_less [where w = w and 'a = nat] by simp
  moreover have "unat (NOT w) < 65536" using unsigned_less [where w = "NOT w" and 'a = nat] by simp
  moreover have "(unat (NOT w) + unat w) mod 65536 = 65535"
  proof -
    have "(unat (NOT w) + unat w) mod 2 ^ LENGTH(16) = unat (NOT w + w)"
      by (simp only: unat_word_ariths)
    also have "NOT w + w = - 1" by (simp add: not_eq_complement)
    also have "unat (- 1 :: u16) = 65535" by (simp add: unsigned_minus_1_eq_mask mask_eq_exp_minus_1)
    finally show ?thesis by simp
  qed
  ultimately show ?thesis by (cases "unat (NOT w) + unat w < 65536") (auto simp: mod_if split: if_splits)
qed

lemma unat_compute_checksum:
  assumes "length data \<le> 65536"
  shows "unat (compute_checksum data) =
    (if wsum data = 0 then 65535 else 65534 - (wsum data - 1) mod 65535)"
proof -
  have "wsum data < 2 ^ 32" using wsum_bound [of data] assms by simp
  then have s: "unat (sum_words 0 data) = wsum data" by (simp add: unat_sum_words)
  then have z: "sum_words 0 data = 0 \<longleftrightarrow> wsum data = 0" by (metis unat_0 unat_eq_0)
  have f: "unat (fold_carry (sum_words 0 data)) =
      (if wsum data = 0 then 0 else (wsum data - 1) mod 65535 + 1)"
    by (simp add: unat_fold_carry s z)
  then have "unat (fold_carry (sum_words 0 data)) < 65536" by simp
  then show ?thesis
    by (simp add: compute_checksum_def unat_not_u16 unsigned_ucast_eq take_bit_eq_mod f)
qed


lemma be16_to_be16 [simp]: "be16 (ucast (drop_bit 8 w)) (ucast w) = (w :: u16)"
  unfolding be16_def by (rule bit_word_eqI) (auto simp: bit_simps)

lemma be16_zero [simp]: "be16 0 b = ucast b"
  by (simp add: be16_def)

lemma be32_to_be32 [simp]:
  fixes w :: u32
  shows "be32 (ucast (drop_bit 24 w)) (ucast (drop_bit 16 w)) (ucast (drop_bit 8 w)) (ucast w) = w"
    (is "?l = w")
proof (rule bit_word_eqI)
  fix n :: nat
  assume "n < LENGTH(32)"
  consider "n < 8" | "8 \<le> n" "n < 16" | "16 \<le> n" "n < 24" | "24 \<le> n" by linarith
  then show "bit ?l n = bit w n"
    using \<open>n < LENGTH(32)\<close> by cases (auto simp: be32_def bit_simps dest: bit_imp_le_length)
qed

lemma wsum_to_be16: "wsum (to_be16 w @ bs) = unat w + wsum bs"
  using unat_be16 [of "ucast (drop_bit 8 w)" "ucast w"] by (simp add: to_be16_def)

lemma length_to_be [simp]: "length (to_be16 w) = 2" "length (to_be32 v) = 4"
  by (simp_all add: to_be16_def to_be32_def)

lemma complement_sum:
  assumes "0 < (n :: nat)"
  shows "\<exists>k. n + (65534 - (n - 1) mod 65535) = 65535 * Suc k"
proof -
  obtain q r where n: "n - 1 = q * 65535 + r" and r: "r < 65535" and m: "(n - 1) mod 65535 = r"
    by (metis div_mult_mod_eq mod_less_divisor zero_less_numeral)
  have "n = Suc (q * 65535 + r)" using n assms by simp
  then have "n + (65534 - r) = 65535 * Suc q" using r by simp
  then show ?thesis unfolding m by blast
qed

text \<open>A checksum stored at an even offset makes the whole verify: its own checksum is 0.\<close>

lemma checksum_verifies:
  assumes "even (length pre)" and "length pre + length post + 2 \<le> 65536"
  shows "compute_checksum (pre @ to_be16 (compute_checksum (pre @ [0, 0] @ post)) @ post) = 0"
proof -
  let ?c = "compute_checksum (pre @ [0, 0] @ post)"
  let ?W = "wsum pre + wsum post"
  have w0: "wsum (pre @ [0, 0] @ post) = ?W" using assms(1) by (simp add: wsum_append)
  have w1: "wsum (pre @ to_be16 ?c @ post) = ?W + unat ?c"
    using assms(1) by (simp add: wsum_append wsum_to_be16)
  have c: "unat ?c = (if ?W = 0 then 65535 else 65534 - (?W - 1) mod 65535)"
    using unat_compute_checksum [of "pre @ [0, 0] @ post"] assms(2) w0 by simp
  obtain k where k: "?W + unat ?c = 65535 * Suc k"
  proof (cases "?W = 0")
    case True
    then show ?thesis using that [of 0] c by simp
  next
    case False
    then have "0 < ?W" by (rule neq0_conv [THEN iffD1])
    from complement_sum [OF this]
    obtain k where "?W + (65534 - (?W - 1) mod 65535) = 65535 * Suc k" by (rule exE)
    moreover have "unat ?c = 65534 - (?W - 1) mod 65535" using c False by (simp only: if_False)
    ultimately show ?thesis using that [of k] by (simp only:)
  qed
  then have "wsum (pre @ to_be16 ?c @ post) - 1 = 65534 + k * 65535" using w1 by simp
  then have "(wsum (pre @ to_be16 ?c @ post) - 1) mod 65535 = 65534" by simp
  then have "unat (compute_checksum (pre @ to_be16 ?c @ post)) = 0"
    using unat_compute_checksum [of "pre @ to_be16 ?c @ post"] assms(2) w1 k by simp
  then show ?thesis by (simp add: unat_eq_0)
qed

text \<open>\<open>compute_tcp_checksum\<close>: the pseudo header, with the segment's length cut to 16 bits.\<close>

definition pseudo_header :: "ipv4 \<Rightarrow> ipv4 \<Rightarrow> byte \<Rightarrow> nat \<Rightarrow> byte list" where
  "pseudo_header src dst proto n = octets src @ octets dst @ [0, proto] @ to_be16 (of_nat n)"

definition compute_tcp_checksum :: "ipv4 \<Rightarrow> ipv4 \<Rightarrow> byte \<Rightarrow> byte list \<Rightarrow> u16" where
  "compute_tcp_checksum src dst proto seg =
     compute_checksum (pseudo_header src dst proto (length seg) @ seg)"

lemma length_octets [simp]: "length (octets a) = 4" and length_mac [simp]: "length (mac_bytes m) = 6"
  by (cases a; simp) (cases m; simp)

lemma length_pseudo [simp]: "length (pseudo_header s d p n) = 12"
  by (simp add: pseudo_header_def)

lemma tcp_checksum_verifies:
  assumes "even (length pre)" and "length pre + length post \<le> 65000"
  shows "compute_tcp_checksum s d p
    (pre @ to_be16 (compute_tcp_checksum s d p (pre @ [0, 0] @ post)) @ post) = 0"
  using checksum_verifies [of "pseudo_header s d p (length pre + 2 + length post) @ pre" post] assms
  by (simp add: compute_tcp_checksum_def)


section \<open>Headers\<close>

record ethernet_header =
  dst_mac :: mac
  src_mac :: mac
  ethertype :: u16

definition ethernet_parse :: "byte list \<Rightarrow> (ethernet_header \<times> byte list) option option" where
  "ethernet_parse buf =
     (if length buf < 14 then Some None
      else do {
        dst \<leftarrow> mac_read buf 0;
        src \<leftarrow> mac_read buf 6;
        ty \<leftarrow> be16_read buf 12;
        rest \<leftarrow> slice_at buf 14 (length buf);
        Some (Some (\<lparr>dst_mac = dst, src_mac = src, ethertype = ty\<rparr>, rest)) })"

definition ethernet_fields :: "byte list \<Rightarrow> (ethernet_header \<times> byte list) option" where
  "ethernet_fields buf =
     (if length buf < 14 then None
      else Some (\<lparr>dst_mac = mac_at buf 0, src_mac = mac_at buf 6, ethertype = be16_at buf 12\<rparr>,
                 drop 14 buf))"

definition ethernet_write :: "ethernet_header \<Rightarrow> byte list \<Rightarrow> byte list" where
  "ethernet_write h out =
     out @ mac_bytes (dst_mac h) @ mac_bytes (src_mac h) @ to_be16 (ethertype h)"

record arp_packet =
  htype :: u16
  ptype :: u16
  hlen :: byte
  plen :: byte
  opcode :: u16
  sender_mac :: mac
  sender_ip :: ipv4
  target_mac :: mac
  target_ip :: ipv4

definition arp_parse :: "byte list \<Rightarrow> arp_packet option option" where
  "arp_parse buf =
     (if length buf < 28 then Some None
      else do {
        ht \<leftarrow> be16_read buf 0;
        pt \<leftarrow> be16_read buf 2;
        hl \<leftarrow> byte_at buf 4;
        pl \<leftarrow> byte_at buf 5;
        oper \<leftarrow> be16_read buf 6;
        sm \<leftarrow> mac_read buf 8;
        si \<leftarrow> ipv4_read buf 14;
        tm \<leftarrow> mac_read buf 18;
        ti \<leftarrow> ipv4_read buf 24;
        Some (Some \<lparr>htype = ht, ptype = pt, hlen = hl, plen = pl, opcode = oper,
                    sender_mac = sm, sender_ip = si, target_mac = tm, target_ip = ti\<rparr>) })"

definition arp_fields :: "byte list \<Rightarrow> arp_packet option" where
  "arp_fields buf =
     (if length buf < 28 then None
      else Some \<lparr>htype = be16_at buf 0, ptype = be16_at buf 2, hlen = buf ! 4, plen = buf ! 5,
                 opcode = be16_at buf 6, sender_mac = mac_at buf 8, sender_ip = ipv4_at buf 14,
                 target_mac = mac_at buf 18, target_ip = ipv4_at buf 24\<rparr>)"

definition arp_write_request :: "arp_packet \<Rightarrow> byte list \<Rightarrow> byte list" where
  "arp_write_request a out =
     out @ to_be16 (htype a) @ to_be16 (ptype a) @ [hlen a, plen a] @ to_be16 1 @
     mac_bytes (sender_mac a) @ octets (sender_ip a) @
     mac_bytes (target_mac a) @ octets (target_ip a)"

definition arp_write_reply :: "arp_packet \<Rightarrow> mac \<Rightarrow> byte list \<Rightarrow> byte list" where
  "arp_write_reply a reply_mac out =
     out @ to_be16 (htype a) @ to_be16 (ptype a) @ [hlen a, plen a] @ to_be16 2 @
     mac_bytes reply_mac @ octets (target_ip a) @
     mac_bytes (sender_mac a) @ octets (sender_ip a)"

record ipv4_header =
  ihl :: byte
  tos :: byte
  total_length :: u16
  ident :: u16
  flags_and_frag :: u16
  ttl :: byte
  protocol :: byte
  ip_checksum :: u16
  src_ip :: ipv4
  dst_ip :: ipv4

definition ipv4_parse :: "byte list \<Rightarrow> (ipv4_header \<times> byte list) option option" where
  "ipv4_parse buf =
     (if length buf < 20 then Some None
      else do {
        ver_ihl \<leftarrow> byte_at buf 0;
        let ver = drop_bit 4 ver_ihl;
        let il = ver_ihl AND 0x0f;
        if ver \<noteq> 4 \<or> il < 5 then Some None
        else do {
          let header_len = unat il * 4;
          if length buf < header_len then Some None
          else do {
            ts \<leftarrow> byte_at buf 1;
            tl \<leftarrow> be16_read buf 2;
            idn \<leftarrow> be16_read buf 4;
            ff \<leftarrow> be16_read buf 6;
            tt \<leftarrow> byte_at buf 8;
            pr \<leftarrow> byte_at buf 9;
            ck \<leftarrow> be16_read buf 10;
            si \<leftarrow> ipv4_read buf 12;
            di \<leftarrow> ipv4_read buf 16;
            let payload_len = unat tl - header_len;
            let stop = min (header_len + payload_len) (length buf);
            payload \<leftarrow> slice_at buf header_len stop;
            Some (Some (\<lparr>ihl = il, tos = ts, total_length = tl, ident = idn,
                         flags_and_frag = ff, ttl = tt, protocol = pr, ip_checksum = ck,
                         src_ip = si, dst_ip = di\<rparr>, payload)) } } })"

definition ipv4_fields :: "byte list \<Rightarrow> (ipv4_header \<times> byte list) option" where
  "ipv4_fields buf =
     (if length buf < 20 then None
      else let ver_ihl = buf ! 0; ver = drop_bit 4 ver_ihl; il = ver_ihl AND 0x0f in
        if ver \<noteq> 4 \<or> il < 5 then None
        else let header_len = unat il * 4 in
          if length buf < header_len then None
          else let tl = be16_at buf 2;
                   payload_len = unat tl - header_len;
                   stop = min (header_len + payload_len) (length buf)
               in Some (\<lparr>ihl = il, tos = buf ! 1, total_length = tl, ident = be16_at buf 4,
                         flags_and_frag = be16_at buf 6, ttl = buf ! 8, protocol = buf ! 9,
                         ip_checksum = be16_at buf 10, src_ip = ipv4_at buf 12,
                         dst_ip = ipv4_at buf 16\<rparr>,
                        drop header_len (take stop buf)))"

text \<open>
  The 20 bytes before the checksum is known; \<open>write_to\<close> then sums \<open>ihl * 4\<close> bytes of them
  (a slice that panics when it reaches past the buffer) and stores the sum.
\<close>

definition ipv4_bytes :: "ipv4_header \<Rightarrow> u16 \<Rightarrow> byte list" where
  "ipv4_bytes h csum =
     [0x40 OR (ihl h AND 0x0f), tos h] @ to_be16 (total_length h) @ to_be16 (ident h) @
     to_be16 (flags_and_frag h) @ [ttl h, protocol h] @ to_be16 csum @
     octets (src_ip h) @ octets (dst_ip h)"

definition ipv4_write :: "ipv4_header \<Rightarrow> byte list \<Rightarrow> byte list option" where
  "ipv4_write h out =
     (if unat (ihl h) * 4 > length (ipv4_bytes h 0) then None
      else let csum = compute_checksum (take (unat (ihl h) * 4) (ipv4_bytes h 0))
           in Some (out @ ipv4_bytes h csum))"

record udp_header =
  udp_src :: u16
  udp_dst :: u16
  udp_length :: u16
  udp_checksum :: u16

definition udp_parse :: "byte list \<Rightarrow> (udp_header \<times> byte list) option option" where
  "udp_parse buf =
     (if length buf < 8 then Some None
      else do {
        sp \<leftarrow> be16_read buf 0;
        dp \<leftarrow> be16_read buf 2;
        len \<leftarrow> be16_read buf 4;
        ck \<leftarrow> be16_read buf 6;
        let payload_len = unat len - 8;
        let stop = min (8 + payload_len) (length buf);
        payload \<leftarrow> slice_at buf 8 stop;
        Some (Some (\<lparr>udp_src = sp, udp_dst = dp, udp_length = len, udp_checksum = ck\<rparr>,
                    payload)) })"

definition udp_fields :: "byte list \<Rightarrow> (udp_header \<times> byte list) option" where
  "udp_fields buf =
     (if length buf < 8 then None
      else let len = be16_at buf 4;
               payload_len = unat len - 8;
               stop = min (8 + payload_len) (length buf)
           in Some (\<lparr>udp_src = be16_at buf 0, udp_dst = be16_at buf 2, udp_length = len,
                     udp_checksum = be16_at buf 6\<rparr>, drop 8 (take stop buf)))"

definition udp_write :: "udp_header \<Rightarrow> byte list \<Rightarrow> byte list" where
  "udp_write h out =
     out @ to_be16 (udp_src h) @ to_be16 (udp_dst h) @ to_be16 (udp_length h) @
     to_be16 (udp_checksum h)"

record tcp_header =
  tcp_src :: u16
  tcp_dst :: u16
  seq_num :: u32
  ack_num :: u32
  data_offset :: byte
  tcp_flags :: u16
  window_size :: u16
  tcp_checksum :: u16
  urgent_ptr :: u16

definition tcp_parse :: "byte list \<Rightarrow> (tcp_header \<times> byte list) option option" where
  "tcp_parse buf =
     (if length buf < 20 then Some None
      else do {
        sp \<leftarrow> be16_read buf 0;
        dp \<leftarrow> be16_read buf 2;
        sq \<leftarrow> be32_read buf 4;
        ak \<leftarrow> be32_read buf 8;
        o12 \<leftarrow> byte_at buf 12;
        let off = drop_bit 4 o12 * 4;
        o13 \<leftarrow> byte_at buf 13;
        win \<leftarrow> be16_read buf 14;
        ck \<leftarrow> be16_read buf 16;
        up \<leftarrow> be16_read buf 18;
        if unat off < 20 \<or> length buf < unat off then Some None
        else do {
          payload \<leftarrow> slice_at buf (unat off) (length buf);
          Some (Some (\<lparr>tcp_src = sp, tcp_dst = dp, seq_num = sq, ack_num = ak,
                       data_offset = off, tcp_flags = be16 (o12 AND 1) o13, window_size = win,
                       tcp_checksum = ck, urgent_ptr = up\<rparr>, payload)) } })"

definition tcp_fields :: "byte list \<Rightarrow> (tcp_header \<times> byte list) option" where
  "tcp_fields buf =
     (if length buf < 20 then None
      else let off = drop_bit 4 (buf ! 12) * 4 in
        if unat off < 20 \<or> length buf < unat off then None
        else Some (\<lparr>tcp_src = be16_at buf 0, tcp_dst = be16_at buf 2, seq_num = be32_at buf 4,
                    ack_num = be32_at buf 8, data_offset = off,
                    tcp_flags = be16 (buf ! 12 AND 1) (buf ! 13), window_size = be16_at buf 14,
                    tcp_checksum = be16_at buf 16, urgent_ptr = be16_at buf 18\<rparr>,
                   drop (unat off) buf))"

definition tcp_write :: "tcp_header \<Rightarrow> byte list \<Rightarrow> byte list" where
  "tcp_write h out =
     out @ to_be16 (tcp_src h) @ to_be16 (tcp_dst h) @ to_be32 (seq_num h) @
     to_be32 (ack_num h) @ [push_bit 4 (data_offset h div 4), ucast (tcp_flags h AND 0xff)] @
     to_be16 (window_size h) @ to_be16 (tcp_checksum h) @ to_be16 (urgent_ptr h)"


section \<open>The parsers stay in range\<close>

text \<open>
  The length guards of each parser cover every index and slice it then takes: it returns, and
  what it returns is the plain reading of the fields.
\<close>

lemma ethernet_parse_eq [simp]: "ethernet_parse buf = Some (ethernet_fields buf)"
  by (cases "length buf < 14"; cases "buf = []")
    (simp_all add: ethernet_parse_def ethernet_fields_def)

lemma arp_parse_eq [simp]: "arp_parse buf = Some (arp_fields buf)"
  by (cases "length buf < 28"; cases "buf = []")
    (simp_all add: arp_parse_def arp_fields_def)

lemma ipv4_parse_eq [simp]: "ipv4_parse buf = Some (ipv4_fields buf)"
  by (cases "length buf < 20"; cases "buf = []")
    (simp_all add: ipv4_parse_def ipv4_fields_def Let_def)

lemma udp_parse_eq [simp]: "udp_parse buf = Some (udp_fields buf)"
  by (cases "length buf < 8"; cases "buf = []")
    (simp_all add: udp_parse_def udp_fields_def Let_def)

lemma tcp_parse_eq [simp]: "tcp_parse buf = Some (tcp_fields buf)"
  by (cases "length buf < 20"; cases "buf = []")
    (simp_all add: tcp_parse_def tcp_fields_def Let_def)


section \<open>Writers and parsers agree\<close>

lemmas wire_defs =
  mac_at_def ipv4_at_def be16_at_def be32_at_def to_be16_def to_be32_def

lemmas wire_types = mac.splits ipv4.splits

text \<open>
  The contract of a header: what the writer puts before a payload parses back to the header
  (as \<open>seen\<close> on the wire) and leaves the payload.
\<close>

locale wire_codec =
  fixes fits :: "'h \<Rightarrow> byte list \<Rightarrow> bool"
    and seen :: "'h \<Rightarrow> 'h"
    and emit :: "'h \<Rightarrow> byte list"
    and decode :: "byte list \<Rightarrow> ('h \<times> byte list) option option"
  assumes decode_emit: "fits h p \<Longrightarrow> decode (emit h @ p) = Some (Some (seen h, p))"
begin

lemma emit_inj: "fits h p \<Longrightarrow> fits k p \<Longrightarrow> emit h = emit k \<Longrightarrow> seen h = seen k"
  using decode_emit [of h p] decode_emit [of k p] by simp

lemma decode_prefix_free:
  "fits h p \<Longrightarrow> fits k q \<Longrightarrow> emit h @ p = emit k @ q \<Longrightarrow> seen h = seen k \<and> p = q"
  using decode_emit [of h p] decode_emit [of k q] by simp

end

lemma ethernet_fields_write: "ethernet_fields (ethernet_write h [] @ p) = Some (h, p)"
  by (cases h; cases "dst_mac h"; cases "src_mac h")
    (simp add: ethernet_fields_def ethernet_write_def wire_defs)

lemma arp_fields_request: "arp_fields (arp_write_request a [] @ p) = Some (a\<lparr>opcode := 1\<rparr>)"
  by (cases a; cases "sender_mac a"; cases "sender_ip a"; cases "target_mac a"; cases "target_ip a")
    (simp add: arp_fields_def arp_write_request_def wire_defs)

lemma arp_fields_reply:
  "arp_fields (arp_write_reply a m [] @ p) =
     Some (a\<lparr>opcode := 2, sender_mac := m, sender_ip := target_ip a,
             target_mac := sender_mac a, target_ip := sender_ip a\<rparr>)"
  by (cases a; cases "sender_mac a"; cases "sender_ip a"; cases "target_ip a"; cases m)
    (simp add: arp_fields_def arp_write_reply_def wire_defs)

definition udp_fits :: "udp_header \<Rightarrow> byte list \<Rightarrow> bool" where
  "udp_fits h p \<longleftrightarrow> unat (udp_length h) = 8 + length p"

lemma udp_fields_write: "udp_fits h p \<Longrightarrow> udp_fields (udp_write h [] @ p) = Some (h, p)"
  by (cases h) (simp add: udp_fields_def udp_write_def udp_fits_def wire_defs Let_def)

interpretation ethernet: wire_codec "\<lambda>_ _. True" "\<lambda>h. h" "\<lambda>h. ethernet_write h []" ethernet_parse
  by unfold_locales (simp add: ethernet_fields_write)

interpretation udp: wire_codec udp_fits "\<lambda>h. h" "\<lambda>h. udp_write h []" udp_parse
  by unfold_locales (simp add: udp_fields_write)


definition ipv4_fits :: "ipv4_header \<Rightarrow> byte list \<Rightarrow> bool" where
  "ipv4_fits h p \<longleftrightarrow> ihl h = 5 \<and> unat (total_length h) = 20 + length p"

definition ipv4_sealed :: "ipv4_header \<Rightarrow> ipv4_header" where
  "ipv4_sealed h = h\<lparr>ip_checksum := compute_checksum (ipv4_bytes h 0)\<rparr>"

lemma length_ipv4_bytes [simp]: "length (ipv4_bytes h c) = 20"
  by (simp add: ipv4_bytes_def)

lemma ipv4_write_ihl5:
  "ihl h = 5 \<Longrightarrow> ipv4_write h out = Some (out @ ipv4_bytes h (compute_checksum (ipv4_bytes h 0)))"
  by (simp add: ipv4_write_def Let_def)

lemma ipv4_write_panics: "unat (ihl h) > 5 \<Longrightarrow> ipv4_write h out = None"
  by (simp add: ipv4_write_def)

lemma ipv4_fields_bytes:
  assumes "ihl h = 5" and "unat (total_length h) = 20 + length p"
  shows "ipv4_fields (ipv4_bytes h c @ p) = Some (h\<lparr>ip_checksum := c\<rparr>, p)"
  using assms by (cases h; cases "src_ip h"; cases "dst_ip h")
    (simp add: ipv4_fields_def ipv4_bytes_def wire_defs Let_def)

lemma ipv4_bytes_verify: "compute_checksum (ipv4_bytes h (compute_checksum (ipv4_bytes h 0))) = 0"
proof -
  let ?pre = "[0x40 OR (ihl h AND 0x0f), tos h] @ to_be16 (total_length h) @ to_be16 (ident h) @
     to_be16 (flags_and_frag h) @ [ttl h, protocol h]"
  have b: "ipv4_bytes h c = ?pre @ to_be16 c @ octets (src_ip h) @ octets (dst_ip h)" for c
    by (simp add: ipv4_bytes_def)
  have z: "to_be16 0 = [0, 0]" by (simp add: to_be16_def)
  show ?thesis
    using checksum_verifies [of ?pre "octets (src_ip h) @ octets (dst_ip h)"]
    by (simp add: b z)
qed

definition tcp_fits :: "tcp_header \<Rightarrow> byte list \<Rightarrow> bool" where
  "tcp_fits h p \<longleftrightarrow> data_offset h = 20 \<and> unat (tcp_flags h) < 256"

lemma flags_low_byte: "unat (f :: u16) < 256 \<Longrightarrow> ucast (ucast (f AND 0xff) :: byte) = f"
proof -
  assume "unat f < 256"
  then have "unat (take_bit 8 f) = unat f"
    by (simp add: take_bit_eq_mod unat_mod)
  then have "take_bit 8 f = f" by (simp only: word_unat_eq_iff)
  moreover have "(0xff :: u16) = mask 8" by (simp add: mask_eq_exp_minus_1)
  moreover have "ucast (ucast (f AND mask 8) :: byte) = take_bit 8 f"
    by (rule bit_word_eqI) (auto simp: bit_simps)
  ultimately show ?thesis by simp
qed

lemma tcp_fields_write: "tcp_fits h p \<Longrightarrow> tcp_fields (tcp_write h [] @ p) = Some (h, p)"
  by (cases h) (simp add: tcp_fields_def tcp_write_def tcp_fits_def wire_defs Let_def flags_low_byte)

interpretation tcp: wire_codec tcp_fits "\<lambda>h. h" "\<lambda>h. tcp_write h []" tcp_parse
  by unfold_locales (simp add: tcp_fields_write)

interpretation ipv4: wire_codec ipv4_fits ipv4_sealed
  "\<lambda>h. ipv4_bytes h (compute_checksum (ipv4_bytes h 0))" ipv4_parse
  by unfold_locales (simp add: ipv4_fits_def ipv4_sealed_def ipv4_fields_bytes)

end
