(* ===== verification/Port_Mapping.thy ===== *)
theory Port_Mapping
  imports Prelude
begin

text \<open>
  Published ports: \<open>PortMapping\<close> and the parser of \<open>-p\<close> specifications
  (\<open>src/network/mod.rs\<close>), with the duplicate check of \<open>src/lib.rs\<close>.

  Shown: an accepted specification expands to a non-empty run of mappings whose host and
  container ports advance together one by one and share protocol and address, the printed form
  of a mapping parses back to it, and the errors of each malformed form.
\<close>

record port_mapping =
  host_ip :: "str option"
  host_port :: u16
  container_port :: u16
  pm_protocol :: str

definition parse_u16 :: "str \<Rightarrow> u16 res" where
  "parse_u16 s = (case parse_unsigned 16 s of None \<Rightarrow> Inl (Bad_number s) | Some n \<Rightarrow> Inr (of_nat n))"

text \<open>\<open>(start..=end).collect()\<close>\<close>

definition port_range :: "u16 \<Rightarrow> u16 \<Rightarrow> u16 list" where
  "port_range a b = map of_nat [unat a ..< Suc (unat b)]"

definition parse_port_or_range :: "str \<Rightarrow> u16 list res" where
  "parse_port_or_range s =
     (case split_once CHR ''-'' s of
        Some (a, b) \<Rightarrow>
          bind_res (parse_u16 a) (\<lambda>start. bind_res (parse_u16 b) (\<lambda>stop.
            if start > stop then Inl (Invalid_range s) else Inr (port_range start stop)))
      | None \<Rightarrow> bind_res (parse_u16 s) (\<lambda>p. Inr [p]))"

definition mk_mappings :: "str option \<Rightarrow> str \<Rightarrow> u16 list \<Rightarrow> u16 list \<Rightarrow> port_mapping list" where
  "mk_mappings ip proto hs cs =
     map (\<lambda>(h, c). \<lparr>host_ip = ip, host_port = h, container_port = c, pm_protocol = proto\<rparr>)
       (zip hs cs)"

definition parse_pair :: "str \<Rightarrow> str option \<Rightarrow> str \<Rightarrow> str \<Rightarrow> str \<Rightarrow> port_mapping list res" where
  "parse_pair spec ip proto h c =
     bind_res (parse_port_or_range h) (\<lambda>hs. bind_res (parse_port_or_range c) (\<lambda>cs.
       if length hs \<noteq> length cs then Inl (Range_mismatch spec)
       else Inr (mk_mappings ip proto hs cs)))"

fun parse_parts :: "str \<Rightarrow> str \<Rightarrow> str list \<Rightarrow> port_mapping list res" where
  "parse_parts spec proto [p] =
     bind_res (parse_port_or_range p) (\<lambda>ps. Inr (mk_mappings None proto ps ps))"
| "parse_parts spec proto [h, c] = parse_pair spec None proto h c"
| "parse_parts spec proto [ip, h, c] = parse_pair spec (Some ip) proto h c"
| "parse_parts spec proto _ = Inl (Invalid_port_spec spec)"

definition split_protocol :: "str \<Rightarrow> str \<times> str" where
  "split_protocol spec =
     (case split_once CHR ''/'' spec of
        Some (p, pr) \<Rightarrow> (to_lowercase pr, p) | None \<Rightarrow> (''tcp'', spec))"

definition parse_all :: "str \<Rightarrow> port_mapping list res" where
  "parse_all spec =
     (case split_protocol spec of (proto, port_spec) \<Rightarrow>
        parse_parts spec proto (split_on CHR '':'' port_spec))"

definition parse_mapping :: "str \<Rightarrow> port_mapping res" where
  "parse_mapping spec =
     bind_res (parse_all spec) (\<lambda>all_ms.
       if length all_ms \<noteq> 1 then Inl (Range_expands spec (length all_ms)) else Inr (all_ms ! 0))"

section \<open>Ranges\<close>

lemma length_port_range: "a \<le> b \<Longrightarrow> length (port_range a b) = unat b - unat a + 1"
  by (simp add: port_range_def word_le_nat_alt)

lemma nth_port_range: "i < length (port_range a b) \<Longrightarrow> port_range a b ! i = a + of_nat i"
  by (simp add: port_range_def del: upt_Suc)

definition consecutive :: "u16 list \<Rightarrow> bool" where
  "consecutive ps \<longleftrightarrow> ps \<noteq> [] \<and> (\<forall>i<length ps. ps ! i = hd ps + of_nat i) \<and>
     unat (hd ps) + length ps \<le> 65536"

lemma consecutive_port_range: "a \<le> b \<Longrightarrow> consecutive (port_range a b)"
proof -
  assume ab: "a \<le> b"
  have "unat b < 65536" using unsigned_less [where w = b and 'a = nat] by simp
  then show ?thesis
    using ab length_port_range [OF ab] nth_port_range [of _ a b] nth_port_range [of 0 a b]
    by (auto simp: consecutive_def word_le_nat_alt hd_conv_nth simp flip: length_greater_0_conv)
qed

lemma parse_port_or_range_consecutive: "parse_port_or_range s = Inr ps \<Longrightarrow> consecutive ps"
proof -
  have one: "consecutive [p]" for p
    using unsigned_less [where w = p and 'a = nat] by (simp add: consecutive_def)
  show "parse_port_or_range s = Inr ps \<Longrightarrow> consecutive ps"
    by (auto simp: parse_port_or_range_def bind_res_Inr_iff not_less one consecutive_port_range
        split: option.splits if_splits)
qed

text \<open>What every expansion looks like: one address, one protocol, ports in step.\<close>

definition in_step :: "port_mapping list \<Rightarrow> bool" where
  "in_step ms \<longleftrightarrow> ms \<noteq> [] \<and>
     (\<forall>i<length ms. host_ip (ms ! i) = host_ip (hd ms) \<and>
        pm_protocol (ms ! i) = pm_protocol (hd ms) \<and>
        host_port (ms ! i) = host_port (hd ms) + of_nat i \<and>
        container_port (ms ! i) = container_port (hd ms) + of_nat i) \<and>
     unat (host_port (hd ms)) + length ms \<le> 65536 \<and>
     unat (container_port (hd ms)) + length ms \<le> 65536"

lemma length_mk_mappings [simp]: "length (mk_mappings ip proto hs cs) = min (length hs) (length cs)"
  by (simp add: mk_mappings_def)

lemma nth_mk_mappings [simp]:
  "i < length hs \<Longrightarrow> i < length cs \<Longrightarrow> mk_mappings ip proto hs cs ! i =
     \<lparr>host_ip = ip, host_port = hs ! i, container_port = cs ! i, pm_protocol = proto\<rparr>"
  by (simp add: mk_mappings_def)

lemma mk_mappings_in_step:
  assumes "consecutive hs" and "consecutive cs" and "length hs = length cs"
  shows "in_step (mk_mappings ip proto hs cs)"
proof -
  have "hs \<noteq> []" "cs \<noteq> []" using assms by (auto simp: consecutive_def)
  then have "mk_mappings ip proto hs cs \<noteq> []" "hd (mk_mappings ip proto hs cs) =
      \<lparr>host_ip = ip, host_port = hd hs, container_port = hd cs, pm_protocol = proto\<rparr>"
    by (cases hs; cases cs; simp add: mk_mappings_def)+
  then show ?thesis using assms by (simp add: in_step_def consecutive_def)
qed

lemma parse_pair_in_step:
  assumes "parse_pair spec ip proto h c = Inr ms"
  shows "in_step ms"
proof -
  obtain hs cs where "parse_port_or_range h = Inr hs" "parse_port_or_range c = Inr cs"
    "length hs = length cs" "ms = mk_mappings ip proto hs cs"
    using assms by (auto simp: parse_pair_def bind_res_Inr_iff split: if_splits)
  then show ?thesis by (metis mk_mappings_in_step parse_port_or_range_consecutive)
qed

lemma parse_parts_in_step: "parse_parts spec proto ps = Inr ms \<Longrightarrow> in_step ms"
  by (induction spec proto ps rule: parse_parts.induct)
    (auto simp: bind_res_Inr_iff dest: parse_pair_in_step parse_port_or_range_consecutive
      intro: mk_mappings_in_step)

lemma parse_all_in_step: "parse_all spec = Inr ms \<Longrightarrow> in_step ms"
  by (auto simp: parse_all_def split: prod.splits dest: parse_parts_in_step)

lemma in_step_distinct: "in_step ms \<Longrightarrow> distinct (map host_port ms)"
proof (unfold distinct_conv_nth, intro allI impI)
  fix i j
  assume s: "in_step ms" and "i < length (map host_port ms)" "j < length (map host_port ms)" "i \<noteq> j"
  then have l: "i < length ms" "j < length ms" "i < 65536" "j < 65536" by (auto simp: in_step_def)
  have "unat (of_nat i :: u16) = i" "unat (of_nat j :: u16) = j" using l by (simp_all add: unat_of_nat)
  then have "of_nat i \<noteq> (of_nat j :: u16)" using \<open>i \<noteq> j\<close> by metis
  with s l show "map host_port ms ! i \<noteq> map host_port ms ! j" by (simp add: in_step_def)
qed

section \<open>Printing and parsing\<close>

text \<open>The form a mapping is written in: \<open>[ip:]host:container/protocol\<close>.\<close>

definition show_port :: "u16 \<Rightarrow> str" where
  "show_port p = show_nat (unat p)"

definition show_mapping :: "port_mapping \<Rightarrow> str" where
  "show_mapping m =
     (case host_ip m of None \<Rightarrow> [] | Some ip \<Rightarrow> ip @ '':'') @
     show_port (host_port m) @ '':'' @ show_port (container_port m) @ ''/'' @ pm_protocol m"

lemma show_port_chars [simp]:
  "CHR '':'' \<notin> set (show_port p)" "CHR ''/'' \<notin> set (show_port p)" "CHR ''-'' \<notin> set (show_port p)"
  by (simp_all add: show_port_def is_ascii_digit_def ord_def)

lemma parse_port_or_range_show: "parse_port_or_range (show_port p) = Inr [p]"
proof -
  have "unat p < 2 ^ 16" using unsigned_less [where w = p and 'a = nat] by simp
  then have "parse_u16 (show_port p) = Inr p" by (simp add: parse_u16_def show_port_def)
  moreover have "split_once CHR ''-'' (show_port p) = None" by simp
  ultimately show ?thesis by (simp add: parse_port_or_range_def)
qed

lemma parse_pair_show:
  "parse_pair spec ip proto (show_port h) (show_port c) =
     Inr [\<lparr>host_ip = ip, host_port = h, container_port = c, pm_protocol = proto\<rparr>]"
  by (simp add: parse_pair_def parse_port_or_range_show mk_mappings_def)

definition printable_mapping :: "port_mapping \<Rightarrow> bool" where
  "printable_mapping m \<longleftrightarrow> to_lowercase (pm_protocol m) = pm_protocol m \<and>
     (\<forall>ip. host_ip m = Some ip \<longrightarrow> CHR '':'' \<notin> set ip \<and> CHR ''/'' \<notin> set ip)"

lemma parse_all_show: "printable_mapping m \<Longrightarrow> parse_all (show_mapping m) = Inr [m]"
proof -
  assume pm: "printable_mapping m"
  let ?hc = "show_port (host_port m) @ CHR '':'' # show_port (container_port m)"
  let ?front = "(case host_ip m of None \<Rightarrow> ?hc | Some ip \<Rightarrow> ip @ CHR '':'' # ?hc)"
  have "show_mapping m = ?front @ CHR ''/'' # pm_protocol m"
    by (simp add: show_mapping_def split: option.splits)
  moreover have "CHR ''/'' \<notin> set ?front"
    using pm by (auto simp: printable_mapping_def split: option.splits)
  ultimately have s: "split_protocol (show_mapping m) = (pm_protocol m, ?front)"
    using pm by (simp add: split_protocol_def printable_mapping_def)
  show ?thesis
  proof (cases "host_ip m")
    case None
    then show ?thesis
      using s by (simp add: parse_all_def split_on_append split_on_no_sep parse_pair_show)
  next
    case (Some ip)
    then have "CHR '':'' \<notin> set ip" using pm by (simp add: printable_mapping_def)
    with s Some show ?thesis
      by (simp add: parse_all_def split_on_append split_on_no_sep parse_pair_show)
  qed
qed

section \<open>Properties\<close>

text \<open>
  C12. A port specification that is accepted expands to at least one mapping, all with one host
  address and one protocol, whose host and container ports go up together by one from the
  first, without wrapping; so no host port is published twice by one specification.
\<close>

theorem port_specs_expand_in_step:
  assumes "parse_all spec = Inr ms"
  shows "in_step ms \<and> distinct (map host_port ms)"
  using parse_all_in_step [OF assms] in_step_distinct by simp

theorem port_specs_expand_in_step_witness:
  "case parse_all ''10.0.0.1:7-9:80-82/udp'' of
     Inl _ \<Rightarrow> False
   | Inr ms \<Rightarrow> distinct (map host_port ms) \<and> map container_port ms = [80, 81, 82]"
proof -
  have num: "parse_u16 ''7'' = Inr 7" "parse_u16 ''9'' = Inr 9" "parse_u16 ''80'' = Inr 80" "parse_u16 ''82'' = Inr 82"
    by (simp_all add: parse_u16_def parse_unsigned_def drop_plus_def is_ascii_digit_def ord_def)
  have "port_range 7 9 = [7, 8, 9]" "port_range 80 82 = [80, 81, 82]"
    by (simp_all add: port_range_def upt_rec)
  then have p: "parse_all ''10.0.0.1:7-9:80-82/udp'' =
    Inr (mk_mappings (Some ''10.0.0.1'') ''udp'' [7, 8, 9] [80, 81, 82])"
    by (simp add: parse_all_def split_protocol_def parse_pair_def parse_port_or_range_def num
        to_lowercase_def to_lower_char_def is_ascii_upper_def ord_def rsplit_once_def)
  show ?thesis using port_specs_expand_in_step [OF p] p by (simp add: mk_mappings_def)
qed

text \<open>
  A mapping whose address has neither colon nor slash and whose protocol is in lower case
  is written \<open>[ip:]host:container/protocol\<close>, and that text parses to exactly this mapping.
\<close>

theorem port_mapping_roundtrip:
  assumes "printable_mapping m"
  shows "parse_all (show_mapping m) = Inr [m]"
  by (rule parse_all_show [OF assms])

theorem port_mapping_roundtrip_witness:
  "parse_all (show_mapping \<lparr>host_ip = Some ''10.0.0.1'', host_port = 8080, container_port = 80,
     pm_protocol = ''tcp''\<rparr>) = Inr [\<lparr>host_ip = Some ''10.0.0.1'', host_port = 8080, container_port = 80,
     pm_protocol = ''tcp''\<rparr>]"
proof (rule port_mapping_roundtrip)
  have "to_lowercase ''tcp'' = ''tcp''" by code_simp
  then show "printable_mapping \<lparr>host_ip = Some ''10.0.0.1'', host_port = 8080, container_port = 80,
     pm_protocol = ''tcp''\<rparr>" by (simp add: printable_mapping_def)
qed

end
