(* ===== verification/Usernet_Engine.thy ===== *)
theory Usernet_Engine
  imports Packets Port_Mapping
begin

text \<open>
  The user-mode network engine (\<open>src/network/usernet/engine.rs\<close>): one Ethernet frame from the
  container's TAP device in, at most one reply frame out.

  The host's sockets are the parameter \<open>host_net\<close>: what connecting, writing and reading once
  gives for a TCP destination and a payload, and what a resolver answers. The reads go into
  buffers of 16384 and 4096 bytes, so at most that much of an answer is seen. \<open>Panic\<close> is the
  abort of an index, slice or \<open>copy_from_slice\<close> out of range, in a parser, a writer or a handler.

  Shown: no frame makes the engine panic; every reply is a well-formed frame addressed to the
  sender, its IPv4 length and header checksum right; the TCP handshake and close replies
  acknowledge the peer and their checksums verify; echo replies return the request's data.
\<close>

section \<open>The engine\<close>

record engine =
  container_ip :: ipv4
  gateway_ip :: ipv4
  dns_ip :: ipv4
  eng_ports :: "port_mapping list"
  running :: bool

record host_net =
  tcp_exchange :: "ipv4 \<Rightarrow> u16 \<Rightarrow> byte list \<Rightarrow> byte list option"
  udp_socket :: bool
  udp_send :: "str \<Rightarrow> byte list \<Rightarrow> bool"
  udp_recv :: "str \<Rightarrow> byte list \<Rightarrow> byte list option"

datatype outcome = Panic | Silent | Reply "byte list"

definition new_engine :: "port_mapping list \<Rightarrow> engine" where
  "new_engine ports =
     \<lparr>container_ip = DEFAULT_CONTAINER_IP, gateway_ip = DEFAULT_GATEWAY_IP,
      dns_ip = DEFAULT_DNS_IP, eng_ports = ports, running = True\<rparr>"

text \<open>The frame the handlers assemble: Ethernet header, IPv4 header, body.\<close>

definition reply_eth :: "ethernet_header \<Rightarrow> u16 \<Rightarrow> ethernet_header" where
  "reply_eth eth ty = \<lparr>dst_mac = src_mac eth, src_mac = VIRTUAL_GATEWAY_MAC, ethertype = ty\<rparr>"

definition ip_reply :: "ethernet_header \<Rightarrow> ipv4_header \<Rightarrow> byte list \<Rightarrow> outcome" where
  "ip_reply eth ip body =
     (case ipv4_write ip (ethernet_write (reply_eth eth ETHERTYPE_IPV4) []) of
        None \<Rightarrow> Panic
      | Some out \<Rightarrow> Reply (out @ body))"

definition reply_header :: "ipv4_header \<Rightarrow> nat \<Rightarrow> u16 \<Rightarrow> byte \<Rightarrow> ipv4 \<Rightarrow> ipv4_header" where
  "reply_header ip len frag proto src =
     \<lparr>ihl = 5, tos = 0, total_length = of_nat len, ident = ident ip + 1, flags_and_frag = frag,
      ttl = 64, protocol = proto, ip_checksum = 0, src_ip = src, dst_ip = src_ip ip\<rparr>"

definition handle_arp :: "engine \<Rightarrow> ethernet_header \<Rightarrow> byte list \<Rightarrow> outcome" where
  "handle_arp e eth payload =
     (case arp_parse payload of
        None \<Rightarrow> Panic
      | Some None \<Rightarrow> Silent
      | Some (Some arp) \<Rightarrow>
          if opcode arp \<noteq> 1 then Silent
          else if target_ip arp = gateway_ip e \<or> target_ip arp = dns_ip e then
            Reply (arp_write_reply arp VIRTUAL_GATEWAY_MAC
                     (ethernet_write (reply_eth eth ETHERTYPE_ARP) []))
          else Silent)"

text \<open>A TCP segment with its checksum stored at bytes 16 and 17.\<close>

definition tcp_segment :: "ipv4_header \<Rightarrow> tcp_header \<Rightarrow> byte list \<Rightarrow> byte list option" where
  "tcp_segment rip tcp data =
     (let bytes = tcp_write tcp [] @ data;
          csum = compute_tcp_checksum (src_ip rip) (dst_ip rip) IP_PROTO_TCP bytes
      in store_slice bytes 16 18 (to_be16 csum))"

definition reply_tcp :: "tcp_header \<Rightarrow> u32 \<Rightarrow> u32 \<Rightarrow> u16 \<Rightarrow> tcp_header" where
  "reply_tcp tcp seq ack flags =
     \<lparr>tcp_src = tcp_dst tcp, tcp_dst = tcp_src tcp, seq_num = seq, ack_num = ack,
      data_offset = 20, tcp_flags = flags, window_size = 65535, tcp_checksum = 0,
      urgent_ptr = 0\<rparr>"

definition tcp_reply ::
  "ethernet_header \<Rightarrow> ipv4_header \<Rightarrow> tcp_header \<Rightarrow> byte list \<Rightarrow> outcome" where
  "tcp_reply eth rip tcp data =
     (case tcp_segment rip tcp data of None \<Rightarrow> Panic | Some seg \<Rightarrow> ip_reply eth rip seg)"

definition handle_tcp ::
  "host_net \<Rightarrow> ethernet_header \<Rightarrow> ipv4_header \<Rightarrow> byte list \<Rightarrow> outcome" where
  "handle_tcp net eth ip payload =
     (case tcp_parse payload of
        None \<Rightarrow> Panic
      | Some None \<Rightarrow> Silent
      | Some (Some (tcp, tcp_data)) \<Rightarrow>
          if tcp_flags tcp AND 0x02 \<noteq> 0 then
            tcp_reply eth (reply_header ip 40 0x4000 IP_PROTO_TCP (dst_ip ip))
              (reply_tcp tcp 1000 (seq_num tcp + 1) 0x12) []
          else if tcp_flags tcp AND 0x01 \<noteq> 0 then
            tcp_reply eth (reply_header ip 40 0 IP_PROTO_TCP (dst_ip ip))
              (reply_tcp tcp (ack_num tcp) (seq_num tcp + 1) 0x11) []
          else if tcp_data \<noteq> [] then
            (case tcp_exchange net (dst_ip ip) (tcp_dst tcp) tcp_data of
               None \<Rightarrow> Silent
             | Some answer \<Rightarrow>
                 let response = take 16384 answer in
                 if response = [] then Silent
                 else tcp_reply eth
                        (reply_header ip (20 + 20 + length response) 0x4000 IP_PROTO_TCP
                           (dst_ip ip))
                        (reply_tcp tcp (ack_num tcp) (seq_num tcp + of_nat (length tcp_data)) 0x18)
                        response)
          else Silent)"

text \<open>The reply's payload: the request's, with its type and checksum rewritten in place.\<close>

definition echo_payload :: "byte list \<Rightarrow> byte list option" where
  "echo_payload payload = do {
     p0 \<leftarrow> set_byte payload 0 0;
     p2 \<leftarrow> set_byte p0 2 0;
     p3 \<leftarrow> set_byte p2 3 0;
     store_slice p3 2 4 (to_be16 (compute_checksum p3)) }"

definition handle_icmp ::
  "engine \<Rightarrow> ethernet_header \<Rightarrow> ipv4_header \<Rightarrow> byte list \<Rightarrow> outcome" where
  "handle_icmp e eth ip payload =
     (if length payload < 8 then Silent
      else case byte_at payload 0 of
        None \<Rightarrow> Panic
      | Some ty \<Rightarrow>
          if ty \<noteq> 8 then Silent
          else case byte_at payload 1 of
            None \<Rightarrow> Panic
          | Some cd \<Rightarrow>
              if cd \<noteq> 0 then Silent
              else if dst_ip ip = gateway_ip e then
                case echo_payload payload of
                  None \<Rightarrow> Panic
                | Some body \<Rightarrow>
                    ip_reply eth
                      (reply_header ip (20 + length body) 0 IP_PROTO_ICMP (gateway_ip e)) body
              else Silent)"

definition upstream_targets :: "str list" where
  "upstream_targets = [''127.0.0.53:53'', ''192.168.64.1:53'', ''1.1.1.1:53'', ''8.8.8.8:53'']"

fun try_targets :: "host_net \<Rightarrow> byte list \<Rightarrow> str list \<Rightarrow> byte list res" where
  "try_targets net query [] = Inl Io_failed"
| "try_targets net query (t # ts) =
     (if udp_send net t query then
        (case udp_recv net t query of
           Some answer \<Rightarrow> Inr (take 4096 answer)
         | None \<Rightarrow> try_targets net query ts)
      else try_targets net query ts)"

definition forward_dns_query :: "host_net \<Rightarrow> byte list \<Rightarrow> byte list res" where
  "forward_dns_query net query =
     (if udp_socket net then try_targets net query upstream_targets else Inl Io_failed)"

definition handle_udp ::
  "host_net \<Rightarrow> engine \<Rightarrow> ethernet_header \<Rightarrow> ipv4_header \<Rightarrow> byte list \<Rightarrow> outcome" where
  "handle_udp net e eth ip payload =
     (case udp_parse payload of
        None \<Rightarrow> Panic
      | Some None \<Rightarrow> Silent
      | Some (Some (udp, udp_payload)) \<Rightarrow>
          if (dst_ip ip = gateway_ip e \<or> dst_ip ip = dns_ip e) \<and> udp_dst udp = 53 then
            (case forward_dns_query net udp_payload of
               Inl _ \<Rightarrow> Silent
             | Inr dns_reply \<Rightarrow>
                 ip_reply eth
                   (reply_header ip (20 + 8 + length dns_reply) 0 IP_PROTO_UDP (dst_ip ip))
                   (udp_write \<lparr>udp_src = 53, udp_dst = udp_src udp,
                               udp_length = of_nat (8 + length dns_reply), udp_checksum = 0\<rparr> []
                    @ dns_reply))
          else Silent)"

definition handle_ipv4 :: "host_net \<Rightarrow> engine \<Rightarrow> ethernet_header \<Rightarrow> byte list \<Rightarrow> outcome" where
  "handle_ipv4 net e eth payload =
     (case ipv4_parse payload of
        None \<Rightarrow> Panic
      | Some None \<Rightarrow> Silent
      | Some (Some (ip, ip_payload)) \<Rightarrow>
          if protocol ip = IP_PROTO_ICMP then handle_icmp e eth ip ip_payload
          else if protocol ip = IP_PROTO_UDP then handle_udp net e eth ip ip_payload
          else if protocol ip = IP_PROTO_TCP then handle_tcp net eth ip ip_payload
          else Silent)"

definition handle_incoming_frame :: "host_net \<Rightarrow> engine \<Rightarrow> byte list \<Rightarrow> outcome" where
  "handle_incoming_frame net e frame =
     (case ethernet_parse frame of
        None \<Rightarrow> Panic
      | Some None \<Rightarrow> Silent
      | Some (Some (eth, payload)) \<Rightarrow>
          if ethertype eth = ETHERTYPE_ARP then handle_arp e eth payload
          else if ethertype eth = ETHERTYPE_IPV4 then handle_ipv4 net e eth payload
          else Silent)"

text \<open>
  \<open>run_tap_network_loop\<close>: what \<open>read\<close> on the device returned, call by call, and the frames
  written back. A zero-length read or an error other than \<open>WouldBlock\<close> ends the loop.
\<close>

datatype tap_read = Frame "byte list" | Would_block | Read_failed

fun run_tap_loop :: "host_net \<Rightarrow> engine \<Rightarrow> tap_read list \<Rightarrow> byte list list" where
  "run_tap_loop net e [] = []"
| "run_tap_loop net e (Would_block # rs) = run_tap_loop net e rs"
| "run_tap_loop net e (Read_failed # rs) = []"
| "run_tap_loop net e (Frame f # rs) =
     (if f = [] then []
      else case handle_incoming_frame net e (take 65536 f) of
             Reply out \<Rightarrow> out # run_tap_loop net e rs
           | Silent \<Rightarrow> run_tap_loop net e rs
           | Panic \<Rightarrow> [])"


section \<open>Replies are well formed\<close>

text \<open>
  What a reply to the IPv4 packet \<open>ip\<close> in the frame \<open>eth\<close> has to be: an Ethernet frame from
  the gateway to the sender, holding an IPv4 packet to the sender whose header verifies and
  whose length is that of its body.
\<close>

definition ip_answer ::
  "ethernet_header \<Rightarrow> ipv4_header \<Rightarrow> byte \<Rightarrow> ipv4 \<Rightarrow> byte list \<Rightarrow> byte list \<Rightarrow> bool" where
  "ip_answer eth ip proto src body out \<longleftrightarrow>
     (\<exists>rest h. ethernet_parse out = Some (Some (reply_eth eth ETHERTYPE_IPV4, rest)) \<and>
        ipv4_parse rest = Some (Some (h, body)) \<and> length rest = 20 + length body \<and>
        compute_checksum (take 20 rest) = 0 \<and> unat (total_length h) = length rest \<and>
        protocol h = proto \<and> src_ip h = src \<and> dst_ip h = src_ip ip)"

lemma reply_header_simps [simp]:
  "ihl (reply_header ip n f pr src) = 5" "protocol (reply_header ip n f pr src) = pr"
  "src_ip (reply_header ip n f pr src) = src" "dst_ip (reply_header ip n f pr src) = src_ip ip"
  "total_length (reply_header ip n f pr src) = of_nat n"
  by (simp_all add: reply_header_def)

lemma ip_reply_eq:
  "ihl rip = 5 \<Longrightarrow> ip_reply eth rip body =
     Reply (ethernet_write (reply_eth eth ETHERTYPE_IPV4) [] @
            ipv4_bytes rip (compute_checksum (ipv4_bytes rip 0)) @ body)"
  by (simp add: ip_reply_def ipv4_write_ihl5)

lemma unat_of_nat_u16: "n < 65536 \<Longrightarrow> unat (of_nat n :: u16) = n"
  by (simp add: unat_of_nat)

lemma ip_reply_answer:
  assumes "n = 20 + length body" and "n < 65536"
  shows "\<exists>out. ip_reply eth (reply_header ip n f pr src) body = Reply out \<and>
    ip_answer eth ip pr src body out"
proof -
  let ?h = "reply_header ip n f pr src"
  let ?c = "compute_checksum (ipv4_bytes ?h 0)"
  let ?rest = "ipv4_bytes ?h ?c @ body"
  have tl: "unat (total_length ?h) = 20 + length body"
    using unat_of_nat_u16 [OF assms(2)] assms(1) by (simp only: reply_header_simps)
  then have "ipv4_fields ?rest = Some (?h\<lparr>ip_checksum := ?c\<rparr>, body)"
    by (intro ipv4_fields_bytes) simp_all
  then show ?thesis
    using tl ipv4_bytes_verify [of ?h]
    by (simp add: ip_reply_eq ip_answer_def ethernet_fields_write)
qed

lemma ipv4_fields_length: "ipv4_fields buf = Some (h, p) \<Longrightarrow> length p + 20 \<le> 65535"
proof -
  assume a: "ipv4_fields buf = Some (h, p)"
  let ?il = "(buf ! 0) AND 0x0f" and ?tl = "be16_at buf 2"
  let ?hl = "unat ?il * 4"
  from a have "5 \<le> ?il" and
    p: "p = drop ?hl (take (min (?hl + (unat ?tl - ?hl)) (length buf)) buf)"
    by (auto simp: ipv4_fields_def Let_def split: if_splits)
  then have "20 \<le> ?hl" by (simp add: word_le_nat_alt)
  moreover have "unat ?tl < 65536" using unsigned_less [where w = ?tl and 'a = nat] by simp
  moreover have "length p \<le> unat ?tl - ?hl" by (simp add: p)
  ultimately show ?thesis by linarith
qed

lemma length_tcp_write [simp]: "length (tcp_write t []) = 20"
  by (simp add: tcp_write_def)

text \<open>The bytes of a segment: the stored slice is always in range.\<close>

definition segment_bytes :: "ipv4_header \<Rightarrow> tcp_header \<Rightarrow> byte list \<Rightarrow> byte list" where
  "segment_bytes rip tcp data =
     (let bytes = tcp_write tcp [] @ data;
          csum = compute_tcp_checksum (src_ip rip) (dst_ip rip) IP_PROTO_TCP bytes
      in take 16 bytes @ to_be16 csum @ drop 18 bytes)"

lemma tcp_segment_eq [simp]: "tcp_segment rip t d = Some (segment_bytes rip t d)"
  by (simp add: tcp_segment_def segment_bytes_def store_slice_def Let_def)

lemma length_segment_bytes [simp]: "length (segment_bytes rip t d) = 20 + length d"
  by (simp add: segment_bytes_def Let_def)

lemma tcp_reply_eq [simp]: "tcp_reply eth rip t d = ip_reply eth rip (segment_bytes rip t d)"
  by (simp add: tcp_reply_def)

text \<open>The echo reply's payload: every store is in range in a payload of four bytes or more.\<close>

definition echo_bytes :: "byte list \<Rightarrow> byte list" where
  "echo_bytes payload =
     (let cleared = payload[0 := 0, 2 := 0, 3 := 0]
      in take 2 cleared @ to_be16 (compute_checksum cleared) @ drop 4 cleared)"

lemma echo_payload_eq: "4 \<le> length payload \<Longrightarrow> echo_payload payload = Some (echo_bytes payload)"
  by (cases "payload = []")
    (simp_all add: echo_payload_def echo_bytes_def set_byte_def store_slice_def Let_def)

lemma length_echo_bytes: "4 \<le> length payload \<Longrightarrow> length (echo_bytes payload) = length payload"
  by (simp add: echo_bytes_def Let_def)

lemma handle_icmp_eq:
  "handle_icmp e eth ip payload =
     (if length payload < 8 \<or> payload ! 0 \<noteq> 8 \<or> payload ! 1 \<noteq> 0 \<or> dst_ip ip \<noteq> gateway_ip e
      then Silent
      else ip_reply eth (reply_header ip (20 + length payload) 0 IP_PROTO_ICMP (gateway_ip e))
             (echo_bytes payload))"
  by (cases "payload = []")
    (auto simp: handle_icmp_def echo_payload_eq length_echo_bytes)

lemma tcp_write_split:
  assumes "tcp_checksum t = 0"
  obtains pre post where "tcp_write t [] = pre @ [0, 0] @ post" and "length pre = 16"
    and "length post = 2"
proof
  show "tcp_write t [] = take 16 (tcp_write t []) @ [0, 0] @ drop 18 (tcp_write t [])"
    using assms by (simp add: tcp_write_def to_be16_def to_be32_def)
qed simp_all

lemma tcp_segment_verifies:
  assumes "tcp_checksum t = 0" and "length d \<le> 60000"
  shows "compute_tcp_checksum (src_ip rip) (dst_ip rip) IP_PROTO_TCP (segment_bytes rip t d) = 0"
proof -
  obtain pre post where w: "tcp_write t [] = pre @ [0, 0] @ post" "length pre = 16" "length post = 2"
    using assms(1) by (rule tcp_write_split)
  then show ?thesis
    using tcp_checksum_verifies [of pre "post @ d" "src_ip rip" "dst_ip rip" IP_PROTO_TCP] assms(2)
    by (simp add: segment_bytes_def Let_def)
qed

lemma tcp_segment_fields:
  assumes "tcp_checksum t = 0" and "tcp_fits t d"
  shows "\<exists>c. tcp_fields (segment_bytes rip t d) = Some (t\<lparr>tcp_checksum := c\<rparr>, d)"
proof -
  let ?c = "compute_tcp_checksum (src_ip rip) (dst_ip rip) IP_PROTO_TCP (tcp_write t [] @ d)"
  have "segment_bytes rip t d = tcp_write (t\<lparr>tcp_checksum := ?c\<rparr>) [] @ d"
    by (simp add: segment_bytes_def Let_def) (simp add: tcp_write_def to_be16_def to_be32_def)
  moreover have "tcp_fits (t\<lparr>tcp_checksum := ?c\<rparr>) d" using assms by (simp add: tcp_fits_def)
  ultimately show ?thesis using tcp_fields_write by metis
qed


section \<open>The handlers\<close>

lemma try_targets_length: "try_targets net q ts = Inr r \<Longrightarrow> length r \<le> 4096"
  by (induction net q ts rule: try_targets.induct) (auto split: if_splits option.splits)

lemma forward_dns_length: "forward_dns_query net q = Inr r \<Longrightarrow> length r \<le> 4096"
  by (auto simp: forward_dns_query_def split: if_splits dest: try_targets_length)

definition answers_or_silent ::
  "ethernet_header \<Rightarrow> ipv4_header \<Rightarrow> byte \<Rightarrow> ipv4 \<Rightarrow> outcome \<Rightarrow> bool" where
  "answers_or_silent eth ip proto src r \<longleftrightarrow>
     r = Silent \<or> (\<exists>out body. r = Reply out \<and> ip_answer eth ip proto src body out)"

lemma answers_Silent [simp]: "answers_or_silent eth ip pr src Silent"
  by (simp add: answers_or_silent_def)

lemma answers_ip_reply:
  "n = 20 + length body \<Longrightarrow> n < 65536 \<Longrightarrow>
     answers_or_silent eth ip pr src (ip_reply eth (reply_header ip n f pr src) body)"
  using ip_reply_answer [of n body eth ip f pr src] by (auto simp: answers_or_silent_def)

lemma handle_tcp_answers:
  "answers_or_silent eth ip IP_PROTO_TCP (dst_ip ip) (handle_tcp net eth ip payload)"
  by (auto simp: handle_tcp_def Let_def simp del: of_nat_add split: option.splits
      intro!: answers_ip_reply)

lemma handle_udp_answers:
  "answers_or_silent eth ip IP_PROTO_UDP (dst_ip ip) (handle_udp net e eth ip payload)"
  by (auto simp: handle_udp_def udp_write_def split: option.splits sum.splits
      dest!: forward_dns_length intro!: answers_ip_reply)

lemma handle_icmp_answers:
  "length payload + 20 \<le> 65535 \<Longrightarrow>
     answers_or_silent eth ip IP_PROTO_ICMP (dst_ip ip) (handle_icmp e eth ip payload)"
  by (auto simp: handle_icmp_eq length_echo_bytes intro!: answers_ip_reply)

lemma handle_ipv4_answers:
  "ipv4_fields p = Some (ip, q) \<Longrightarrow>
     answers_or_silent eth ip (protocol ip) (dst_ip ip) (handle_ipv4 net e eth p)"
  using ipv4_fields_length [of p ip q] handle_tcp_answers [of eth ip net q]
    handle_udp_answers [of eth ip net e q] handle_icmp_answers [of q eth ip e]
  by (auto simp: handle_ipv4_def)

section \<open>Properties\<close>


text \<open>
  C6. Every reply to an IPv4 packet is a frame from the gateway to the sender's hardware
  address, with an IPv4 packet from the address asked to the sender's address, of the same
  protocol; its length field is its real length (no 16-bit wrap) and its header verifies.
\<close>

theorem ip_replies_well_formed:
  assumes "ethernet_parse frame = Some (Some (eth, p))" and "ethertype eth = ETHERTYPE_IPV4"
    and "ipv4_parse p = Some (Some (ip, q))" and "handle_incoming_frame net e frame = Reply out"
  shows "\<exists>body. ip_answer eth ip (protocol ip) (dst_ip ip) body out"
  using handle_ipv4_answers [of p ip q eth net e] assms
  by (auto simp: handle_incoming_frame_def answers_or_silent_def ETHERTYPE_IPV4_def
      ETHERTYPE_ARP_def)

text \<open>
  A SYN is answered by a SYN-ACK with the ports swapped that acknowledges the peer's
  sequence number plus one (modulo 2^32), and whose TCP checksum verifies.
\<close>

theorem syn_gets_syn_ack:
  assumes "tcp_parse payload = Some (Some (tcp, d))" and "tcp_flags tcp AND 0x02 \<noteq> 0"
  shows "\<exists>out seg c. handle_tcp net eth ip payload = Reply out \<and>
    ip_answer eth ip IP_PROTO_TCP (dst_ip ip) seg out \<and>
    compute_tcp_checksum (dst_ip ip) (src_ip ip) IP_PROTO_TCP seg = 0 \<and>
    tcp_parse seg = Some (Some (\<lparr>tcp_src = tcp_dst tcp, tcp_dst = tcp_src tcp, seq_num = 1000,
      ack_num = seq_num tcp + 1, data_offset = 20, tcp_flags = 0x12, window_size = 65535,
      tcp_checksum = c, urgent_ptr = 0\<rparr>, []))"
proof -
  let ?rip = "reply_header ip 40 0x4000 IP_PROTO_TCP (dst_ip ip)"
  let ?t = "reply_tcp tcp 1000 (seq_num tcp + 1) 0x12"
  obtain out where r: "ip_reply eth ?rip (segment_bytes ?rip ?t []) = Reply out"
    and a: "ip_answer eth ip IP_PROTO_TCP (dst_ip ip) (segment_bytes ?rip ?t []) out"
    using ip_reply_answer [where n = 40 and body = "segment_bytes ?rip ?t []" and eth = eth and ip = ip
        and f = "0x4000" and pr = IP_PROTO_TCP and src = "dst_ip ip"] by auto
  have "compute_tcp_checksum (dst_ip ip) (src_ip ip) IP_PROTO_TCP (segment_bytes ?rip ?t []) = 0"
    using tcp_segment_verifies [of ?t "[]" ?rip] by (simp add: reply_tcp_def)
  moreover have "\<exists>c. tcp_fields (segment_bytes ?rip ?t []) = Some (?t\<lparr>tcp_checksum := c\<rparr>, [])"
    by (rule tcp_segment_fields) (simp_all add: reply_tcp_def tcp_fits_def)
  ultimately show ?thesis
    using r a assms by (fastforce simp: handle_tcp_def Let_def reply_tcp_def)
qed

text \<open>
  An echo request to the gateway is answered by an echo reply of the same length, with the
  same identifier, sequence number and data, whose ICMP checksum verifies.
\<close>

theorem echo_request_gets_reply:
  assumes "length payload \<ge> 8" and "payload ! 0 = 8" and "payload ! 1 = 0"
    and "dst_ip ip = gateway_ip e" and "length payload + 20 \<le> 65535"
  shows "\<exists>out body. handle_icmp e eth ip payload = Reply out \<and>
    ip_answer eth ip IP_PROTO_ICMP (gateway_ip e) body out \<and>
    take 2 body = [0, 0] \<and> drop 4 body = drop 4 payload \<and> compute_checksum body = 0"
proof -
  let ?cl = "payload[0 := 0, 2 := 0, 3 := 0]" and ?body = "echo_bytes payload"
  obtain a b c d rest where p: "payload = a # b # c # d # rest"
    using assms(1) by (cases payload; cases "tl payload"; cases "tl (tl payload)";
        cases "tl (tl (tl payload))") auto
  have cl: "?cl = [0, 0] @ [0, 0] @ rest" using assms(3) by (simp add: p)
  have b: "?body = [0, 0] @ to_be16 (compute_checksum ?cl) @ rest"
    unfolding echo_bytes_def Let_def cl by simp
  have v: "compute_checksum ?body = 0"
    unfolding b cl using checksum_verifies [of "[0, 0]" rest] assms(5) by (simp add: p)
  have l: "length ?body = length payload" using assms(1) by (simp add: length_echo_bytes)
  obtain out where "ip_reply eth (reply_header ip (20 + length payload) 0 IP_PROTO_ICMP (gateway_ip e))
      ?body = Reply out" and a: "ip_answer eth ip IP_PROTO_ICMP (gateway_ip e) ?body out"
    using ip_reply_answer [where n = "20 + length payload" and body = ?body and eth = eth and ip = ip
        and f = 0 and pr = IP_PROTO_ICMP and src = "gateway_ip e"] assms l by auto
  then have "handle_icmp e eth ip payload = Reply out" using assms
    by (simp add: handle_icmp_eq)
  with v a b show ?thesis
    by (intro exI [of _ out] exI [of _ ?body]) (simp add: p)
qed


section \<open>Witnesses\<close>

definition quiet_net :: host_net where
  "quiet_net = \<lparr>tcp_exchange = (\<lambda>_ _ _. None), udp_socket = False, udp_send = (\<lambda>_ _. False),
     udp_recv = (\<lambda>_ _. None)\<rparr>"

definition sample_eth :: ethernet_header where
  "sample_eth = \<lparr>dst_mac = VIRTUAL_GATEWAY_MAC, src_mac = Mac 2 66 10 0 2 15,
     ethertype = ETHERTYPE_IPV4\<rparr>"

definition sample_ip :: "byte \<Rightarrow> u16 \<Rightarrow> ipv4_header" where
  "sample_ip proto len = \<lparr>ihl = 5, tos = 0, total_length = len, ident = 7, flags_and_frag = 0,
     ttl = 64, protocol = proto, ip_checksum = 0, src_ip = DEFAULT_CONTAINER_IP,
     dst_ip = DEFAULT_GATEWAY_IP\<rparr>"

definition sample_ping :: "byte list" where
  "sample_ping = [8, 0, 0, 0, 0, 1, 0, 2, 104, 105]"

definition sample_syn :: "byte list" where
  "sample_syn = [0x30, 0x39, 0, 80, 0, 0, 0, 7, 0, 0, 0, 0, 0x50, 0x02, 0xff, 0xff, 0, 0, 0, 0]"

theorem syn_gets_syn_ack_witness:
  "\<exists>out seg c. handle_tcp quiet_net sample_eth (sample_ip IP_PROTO_TCP 40) sample_syn = Reply out \<and>
    tcp_parse seg = Some (Some (\<lparr>tcp_src = 80, tcp_dst = 12345, seq_num = 1000, ack_num = 8,
      data_offset = 20, tcp_flags = 0x12, window_size = 65535, tcp_checksum = c,
      urgent_ptr = 0\<rparr>, []))"
proof -
  have "tcp_parse sample_syn = Some (Some (\<lparr>tcp_src = 12345, tcp_dst = 80, seq_num = 7, ack_num = 0,
      data_offset = 20, tcp_flags = 2, window_size = 65535, tcp_checksum = 0,
      urgent_ptr = 0\<rparr>, []))"
    by (simp add: tcp_fields_def sample_syn_def wire_defs be16_def be32_def Let_def)
  from syn_gets_syn_ack [OF this, of quiet_net sample_eth "sample_ip IP_PROTO_TCP 40"]
  show ?thesis by auto
qed

theorem echo_request_gets_reply_witness:
  "\<exists>out body. handle_icmp (new_engine []) sample_eth (sample_ip IP_PROTO_ICMP 30) sample_ping =
      Reply out \<and> drop 4 body = [0, 1, 0, 2, 104, 105] \<and> compute_checksum body = 0"
  using echo_request_gets_reply [of sample_ping "sample_ip IP_PROTO_ICMP 30" "new_engine []"
      sample_eth]
  by (auto simp: sample_ping_def sample_ip_def new_engine_def)

theorem ip_replies_well_formed_witness:
  "\<exists>out body. handle_incoming_frame quiet_net (new_engine [])
      (ethernet_write sample_eth [] @ ipv4_bytes (sample_ip IP_PROTO_ICMP 30) 0 @ sample_ping) =
      Reply out \<and>
    ip_answer sample_eth (sample_ip IP_PROTO_ICMP 30) IP_PROTO_ICMP DEFAULT_GATEWAY_IP body out"
proof -
  let ?ip = "sample_ip IP_PROTO_ICMP 30"
  let ?frame = "ethernet_write sample_eth [] @ ipv4_bytes ?ip 0 @ sample_ping"
  have e: "ethernet_parse ?frame = Some (Some (sample_eth, ipv4_bytes ?ip 0 @ sample_ping))"
    by (simp add: ethernet_fields_write)
  have t: "ethertype sample_eth = ETHERTYPE_IPV4" by (simp add: sample_eth_def)
  have i: "ipv4_parse (ipv4_bytes ?ip 0 @ sample_ping) = Some (Some (?ip, sample_ping))"
    using ipv4_fields_bytes [of ?ip sample_ping 0] by (simp add: sample_ip_def sample_ping_def)
  have "\<exists>out. handle_icmp (new_engine []) sample_eth ?ip sample_ping = Reply out"
    by (simp add: handle_icmp_eq ip_reply_eq sample_ping_def sample_ip_def new_engine_def)
  then obtain out where "handle_incoming_frame quiet_net (new_engine []) ?frame = Reply out"
    using e t i by (auto simp: handle_incoming_frame_def handle_ipv4_def sample_ip_def
        ETHERTYPE_IPV4_def ETHERTYPE_ARP_def)
  from ip_replies_well_formed [OF e t i this] this show ?thesis by (auto simp: sample_ip_def)
qed

end
