(* ===== verification/Image_Ref.thy ===== *)
theory Image_Ref
  imports Prelude
begin

text \<open>
  Image references (\<open>src/oci/reference.rs\<close>): \<open>ImageReference::parse\<close> splits a reference into
  registry, repository, tag and digest; \<open>canonical\<close> and \<open>display_name\<close> print it.
  Positions in the text are the lengths of the parts before them.

  Shown: the canonical name of a parsed reference parses back to the same reference, and what
  the parts of every parsed reference look like.
\<close>

record image_ref =
  registry :: str
  repository :: str
  ref_tag :: str
  digest :: "str option"

definition DEFAULT_REGISTRY :: str where "DEFAULT_REGISTRY = ''registry-1.docker.io''"
definition DEFAULT_TAG :: str where "DEFAULT_TAG = ''latest''"

definition split_digest :: "str \<Rightarrow> str \<times> str option" where
  "split_digest s =
     (case split_once CHR ''@'' s of Some (n, d) \<Rightarrow> (n, Some d) | None \<Rightarrow> (s, None))"

definition split_tag :: "str \<Rightarrow> str \<times> str" where
  "split_tag r =
     (case rsplit_once CHR '':'' r of
        None \<Rightarrow> (r, DEFAULT_TAG)
      | Some (before, after) \<Rightarrow>
          (case split_once CHR ''/'' r of
             Some (host, _) \<Rightarrow>
               if length before < length host then (r, DEFAULT_TAG) else (before, after)
           | None \<Rightarrow> (before, after)))"

definition hub_alias :: "str \<Rightarrow> bool" where
  "hub_alias h \<longleftrightarrow> h = ''docker.io'' \<or> h = ''index.docker.io'' \<or> h = ''registry-1.docker.io''"

definition registry_like :: "str \<Rightarrow> bool" where
  "registry_like h \<longleftrightarrow> contains_char h CHR ''.'' \<or> contains_char h CHR '':'' \<or> h = ''localhost''"

definition split_registry :: "str \<Rightarrow> str \<times> str" where
  "split_registry name =
     (case split_once CHR ''/'' name of
        Some (h, rest) \<Rightarrow>
          if hub_alias h then (DEFAULT_REGISTRY, rest)
          else if registry_like h then (h, rest)
          else (DEFAULT_REGISTRY, name)
      | None \<Rightarrow> (DEFAULT_REGISTRY, ''library/'' @ name))"

definition ref_parse :: "str \<Rightarrow> image_ref res" where
  "ref_parse input =
     (let s = trim input in
      if s = [] then Inl (Invalid_spec input)
      else let (remainder, dig) = split_digest s;
               (name_part, t) = split_tag remainder;
               (reg, repo) = split_registry name_part;
               repo' = (if reg = DEFAULT_REGISTRY \<and> \<not> contains_char repo CHR ''/''
                        then ''library/'' @ repo else repo)
           in Inr \<lparr>registry = reg, repository = repo', ref_tag = t, digest = dig\<rparr>)"

definition canonical :: "image_ref \<Rightarrow> str" where
  "canonical r = registry r @ ''/'' @ repository r @ '':'' @ ref_tag r"

definition display_name :: "image_ref \<Rightarrow> str" where
  "display_name r =
     (if registry r = DEFAULT_REGISTRY then
        (case strip_prefix ''library/'' (repository r) of
           Some stripped \<Rightarrow> stripped @ '':'' @ ref_tag r
         | None \<Rightarrow> repository r @ '':'' @ ref_tag r)
      else registry r @ ''/'' @ repository r @ '':'' @ ref_tag r)"

section \<open>The parts of a parsed reference\<close>

text \<open>What holds of a reference without a digest that \<open>ref_parse\<close> returns.\<close>

definition ref_wf :: "image_ref \<Rightarrow> bool" where
  "ref_wf r \<longleftrightarrow> digest r = None \<and>
     CHR ''@'' \<notin> set (registry r) \<union> set (repository r) \<union> set (ref_tag r) \<and>
     CHR '':'' \<notin> set (ref_tag r) \<and> CHR ''/'' \<notin> set (registry r) \<and>
     (registry r = DEFAULT_REGISTRY \<and> CHR ''/'' \<in> set (repository r) \<or>
      \<not> hub_alias (registry r) \<and> registry_like (registry r)) \<and>
     (registry r = [] \<or> \<not> is_whitespace (hd (registry r))) \<and>
     (ref_tag r = [] \<or> \<not> is_whitespace (last (ref_tag r)))"

lemma trim_idem_ends:
  "s \<noteq> [] \<Longrightarrow> \<not> is_whitespace (hd s) \<Longrightarrow> \<not> is_whitespace (last s) \<Longrightarrow> trim s = s"
  unfolding trim_def trim_start_by_def trim_end_by_def
  by (metis dropWhile_eq_self_iff hd_rev rev_is_Nil_conv rev_rev_ident)

lemma trim_ends:
  assumes "trim s \<noteq> []"
  shows "\<not> is_whitespace (hd (trim s))" and "\<not> is_whitespace (last (trim s))"
proof -
  let ?t = "dropWhile is_whitespace s"
  have t: "trim s = rev (dropWhile is_whitespace (rev ?t))"
    by (simp add: trim_def trim_start_by_def trim_end_by_def)
  with assms have ne: "dropWhile is_whitespace (rev ?t) \<noteq> []" by simp
  then show "\<not> is_whitespace (last (trim s))" using hd_dropWhile [OF ne] by (simp add: t last_rev)
  obtain z where "rev ?t = z @ dropWhile is_whitespace (rev ?t)" by (metis takeWhile_dropWhile_id)
  then have "?t = trim s @ rev z" by (metis rev_append rev_rev_ident t)
  then have "hd (trim s) = hd ?t" and "?t \<noteq> []" using assms by auto
  then show "\<not> is_whitespace (hd (trim s))" using hd_dropWhile by metis
qed

lemma default_registry_facts:
  "hub_alias DEFAULT_REGISTRY" "CHR ''@'' \<notin> set DEFAULT_REGISTRY" "CHR ''/'' \<notin> set DEFAULT_REGISTRY"
  "\<not> is_whitespace (hd DEFAULT_REGISTRY)" "DEFAULT_REGISTRY \<noteq> []"
  "CHR ''@'' \<notin> set DEFAULT_TAG" "CHR '':'' \<notin> set DEFAULT_TAG" "DEFAULT_TAG \<noteq> []"
  "\<not> is_whitespace (last DEFAULT_TAG)"
  by (simp_all add: hub_alias_def DEFAULT_REGISTRY_def DEFAULT_TAG_def is_whitespace_def ord_def)

lemma hub_not_like: "hub_alias h \<Longrightarrow> registry_like h"
  by (auto simp: hub_alias_def registry_like_def contains_char_def)


lemma split_tag_cases:
  assumes "split_tag r = (name, t)"
  obtains "name = r" "t = DEFAULT_TAG" | "r = name @ CHR '':'' # t" "CHR '':'' \<notin> set t"
proof (cases "rsplit_once CHR '':'' r")
  case None
  then show ?thesis using assms that(1) by (simp add: split_tag_def)
next
  case (Some ba)
  then obtain b a where ba: "rsplit_once CHR '':'' r = Some (b, a)" by (cases ba) auto
  then have "r = b @ CHR '':'' # a \<and> CHR '':'' \<notin> set a" by (rule rsplit_once_SomeD)
  moreover have "(name = r \<and> t = DEFAULT_TAG) \<or> (name = b \<and> t = a)"
    using assms ba by (auto simp: split_tag_def split: option.splits if_splits)
  ultimately show ?thesis using that by auto
qed

lemma split_registry_cases:
  assumes "split_registry name = (reg, repo)"
  obtains h where "name = h @ CHR ''/'' # repo" "hub_alias h" "reg = DEFAULT_REGISTRY"
  | "name = reg @ CHR ''/'' # repo" "CHR ''/'' \<notin> set reg" "\<not> hub_alias reg" "registry_like reg"
  | "reg = DEFAULT_REGISTRY" "repo = name" "CHR ''/'' \<in> set name"
  | "reg = DEFAULT_REGISTRY" "repo = ''library/'' @ name"
proof (cases "split_once CHR ''/'' name")
  case None
  then show ?thesis using assms that(4) by (simp add: split_registry_def)
next
  case (Some hr)
  then obtain h rest where hr: "split_once CHR ''/'' name = Some (h, rest)" by (cases hr) auto
  then have n: "name = h @ CHR ''/'' # rest" "CHR ''/'' \<notin> set h" by (auto dest: split_once_SomeD)
  show ?thesis
  proof (cases "hub_alias h")
    case True
    then show ?thesis using assms hr n that(1) by (simp add: split_registry_def)
  next
    case False
    then show ?thesis using assms hr n that(2,3) by (auto simp: split_registry_def split: if_splits)
  qed
qed

lemma ref_parse_wf:
  assumes "ref_parse input = Inr r" and "digest r = None"
  shows "ref_wf r"
proof -
  let ?s = "trim input"
  have ne: "?s \<noteq> []" using assms(1) by (auto simp: ref_parse_def Let_def)
  have at: "CHR ''@'' \<notin> set ?s"
    using assms by (auto simp: ref_parse_def Let_def split_digest_def split: if_splits prod.splits option.splits)
  then have dig: "split_digest ?s = (?s, None)" by (simp add: split_digest_def)
  obtain name t where st: "split_tag ?s = (name, t)" by fastforce
  obtain reg repo where sr: "split_registry name = (reg, repo)" by fastforce
  let ?repo' = "if reg = DEFAULT_REGISTRY \<and> \<not> contains_char repo CHR ''/'' then ''library/'' @ repo else repo"
  have r: "r = \<lparr>registry = reg, repository = ?repo', ref_tag = t, digest = None\<rparr>"
    using assms ne dig st sr by (auto simp: ref_parse_def)
  have pre: "\<exists>z. ?s = name @ z" and tag: "CHR '':'' \<notin> set t"
    "t = [] \<or> \<not> is_whitespace (last t)" "CHR ''@'' \<notin> set t" "CHR ''@'' \<notin> set name"
    using st at trim_ends [OF ne] default_registry_facts
    by (cases rule: split_tag_cases; auto)+
  have reg: "CHR ''/'' \<notin> set reg" "CHR ''@'' \<notin> set reg" "CHR ''@'' \<notin> set repo"
    "reg = DEFAULT_REGISTRY \<or> \<not> hub_alias reg \<and> registry_like reg"
    "reg = DEFAULT_REGISTRY \<or> (\<exists>z. name = reg @ z)"
    using sr tag(4) default_registry_facts by (cases rule: split_registry_cases; auto)+
  have "reg = [] \<or> \<not> is_whitespace (hd reg)"
  proof (cases "reg = DEFAULT_REGISTRY")
    case False
    then show ?thesis using reg(5) pre trim_ends(1) [OF ne] by (cases reg) auto
  qed (simp add: default_registry_facts)
  then show ?thesis
    using tag reg default_registry_facts by (auto simp: ref_wf_def r contains_char_def)
qed

lemma ref_parse_canonical:
  assumes wf: "ref_wf r"
  shows "ref_parse (canonical r) = Inr r"
proof -
  let ?reg = "registry r" and ?repo = "repository r" and ?tag = "ref_tag r"
  let ?name = "?reg @ CHR ''/'' # ?repo"
  have c: "canonical r = ?name @ CHR '':'' # ?tag" by (simp add: canonical_def)
  have "?reg \<noteq> []"
    using wf by (auto simp: ref_wf_def registry_like_def contains_char_def default_registry_facts)
  then have tr: "trim (canonical r) = canonical r"
    using wf by (intro trim_idem_ends)
      (auto simp: c ref_wf_def is_whitespace_def ord_def)
  have d: "split_digest (canonical r) = (canonical r, None)"
    using wf by (auto simp: split_digest_def c ref_wf_def)
  have "rsplit_once CHR '':'' (canonical r) = Some (?name, ?tag)"
    using wf by (simp only: c) (rule rsplit_once_append, simp add: ref_wf_def)
  moreover have "split_once CHR ''/'' (canonical r) = Some (?reg, ?repo @ CHR '':'' # ?tag)"
    using wf by (simp add: c ref_wf_def)
  ultimately have t: "split_tag (canonical r) = (?name, ?tag)" by (simp add: split_tag_def)
  have "split_once CHR ''/'' ?name = Some (?reg, ?repo)" using wf by (simp add: ref_wf_def)
  then have n: "split_registry ?name = (?reg, ?repo)"
    using wf by (auto simp: split_registry_def ref_wf_def default_registry_facts)
  have rp: "\<not> (?reg = DEFAULT_REGISTRY \<and> \<not> contains_char ?repo CHR ''/'')"
    using wf by (auto simp: ref_wf_def contains_char_def default_registry_facts)
  have "canonical r \<noteq> []" by (simp add: c)
  then show ?thesis
    using rp wf by (simp add: ref_parse_def tr d t n ref_wf_def)
qed

section \<open>Properties\<close>

text \<open>
  The canonical name of a parsed image reference (one without a digest) parses back to
  exactly that reference, whatever registry, port, path and tag it had.
\<close>

theorem canonical_roundtrip:
  assumes "ref_parse input = Inr r" and "digest r = None"
  shows "ref_parse (canonical r) = Inr r"
  using ref_parse_canonical [OF ref_parse_wf [OF assms]] .

theorem canonical_roundtrip_witness:
  "ref_parse (canonical \<lparr>registry = ''localhost:5000'', repository = ''team/app'',
      ref_tag = ''v1'', digest = None\<rparr>) =
   Inr \<lparr>registry = ''localhost:5000'', repository = ''team/app'', ref_tag = ''v1'', digest = None\<rparr>"
proof (rule canonical_roundtrip)
  show "ref_parse ''localhost:5000/team/app:v1'' =
    Inr \<lparr>registry = ''localhost:5000'', repository = ''team/app'', ref_tag = ''v1'', digest = None\<rparr>"
    by code_simp
qed simp

text \<open>
  The display name does not identify an image: a Docker Hub repository below
  \<open>library/\<close> whose next component looks like a registry is displayed as the image of that
  registry, and parsing the displayed name gives the other image.
\<close>

theorem display_name_ambiguous:
  "\<exists>a b. ref_parse ''docker.io/library/ghcr.io/app'' = Inr a \<and> ref_parse ''ghcr.io/app'' = Inr b \<and>
     a \<noteq> b \<and> display_name a = display_name b \<and> ref_parse (display_name a) = Inr b"
proof -
  let ?a = "\<lparr>registry = ''registry-1.docker.io'', repository = ''library/ghcr.io/app'',
    ref_tag = ''latest'', digest = None\<rparr> :: image_ref"
  let ?b = "\<lparr>registry = ''ghcr.io'', repository = ''app'', ref_tag = ''latest'', digest = None\<rparr> :: image_ref"
  have "ref_parse ''docker.io/library/ghcr.io/app'' = Inr ?a" by code_simp
  moreover have "ref_parse ''ghcr.io/app'' = Inr ?b" by code_simp
  moreover have "display_name ?a = ''ghcr.io/app:latest''" by code_simp
  moreover have "display_name ?b = ''ghcr.io/app:latest''" by code_simp
  moreover have "ref_parse ''ghcr.io/app:latest'' = Inr ?b" by code_simp
  ultimately show ?thesis by (intro exI [of _ ?a] exI [of _ ?b]) simp
qed

end
