(* ===== verification/Health.thy ===== *)
theory Health
  imports Prelude
begin

text \<open>
  Health checks and restart policies (\<open>src/health/mod.rs\<close>) and the restart loop of
  \<open>run_container\<close> (\<open>src/lib.rs\<close>).

  The exit code of the probe run inside the bundle and the exit codes of the container's
  successive executions are arguments. Shown: a probe history leads to \<open>Unhealthy\<close> exactly
  when the last \<open>retries\<close> probes failed; restart policies print and parse back; the restart
  loop of \<open>on-failure\<close> returns after at most \<open>max_retries\<close> restarts, and that of \<open>always\<close>
  never returns while executions succeed in starting.
\<close>

section \<open>Health checks\<close>

datatype health_status = Health_None | Starting | Healthy | Unhealthy

record health_config =
  health_test :: "str list"
  interval_secs :: nat
  timeout_secs :: nat
  start_period_secs :: nat
  retries :: u32

definition default_health_config :: health_config where
  "default_health_config =
     \<lparr>health_test = [], interval_secs = 30, timeout_secs = 30, start_period_secs = 0,
      retries = 3\<rparr>"

record health_result =
  hr_status :: health_status
  failing_streak :: u32
  last_output :: str
  last_checked :: int

definition default_health_result :: "int \<Rightarrow> health_result" where
  "default_health_result now =
     \<lparr>hr_status = Starting, failing_streak = 0, last_output = [], last_checked = now\<rparr>"

definition show_health :: "health_status \<Rightarrow> str" where
  "show_health s = (case s of Health_None \<Rightarrow> [] | Starting \<Rightarrow> ''health: starting''
     | Healthy \<Rightarrow> ''healthy'' | Unhealthy \<Rightarrow> ''unhealthy'')"

text \<open>
  \<open>check_container_health\<close>: \<open>probe\<close> is what \<open>exec_in_bundle\<close> returns, \<open>now\<close> the time after
  it. The new result record is returned with the status.
\<close>

definition check_container_health ::
  "int res \<Rightarrow> int \<Rightarrow> health_config \<Rightarrow> health_result \<Rightarrow> health_status res \<times> health_result" where
  "check_container_health probe now config current =
     (if health_test config = [] then
        (Inr Health_None, current\<lparr>hr_status := Health_None\<rparr>)
      else case probe of
        Inl e \<Rightarrow> (Inl e, current)
      | Inr code \<Rightarrow>
          let current = current\<lparr>last_checked := now\<rparr> in
          if code = 0 then
            (Inr Healthy,
             current\<lparr>failing_streak := 0, hr_status := Healthy, last_output := ''OK''\<rparr>)
          else
            let streak = failing_streak current + 1;
                st = (if streak \<ge> retries config then Unhealthy else Starting)
            in (Inr st,
                current\<lparr>failing_streak := streak, hr_status := st,
                  last_output := ''Probe exited with code '' @ show_int code\<rparr>))"

fun run_probes :: "health_config \<Rightarrow> int list \<Rightarrow> health_result \<Rightarrow> health_result" where
  "run_probes config [] cur = cur"
| "run_probes config (c # cs) cur =
     run_probes config cs (snd (check_container_health (Inr c) (last_checked cur) config cur))"

text \<open>The number of failures since the last success, oldest probe first.\<close>

definition trailing_failures :: "int list \<Rightarrow> nat" where
  "trailing_failures cs = length (takeWhile (\<lambda>c. c \<noteq> 0) (rev cs))"

lemma trailing_failures_snoc:
  "trailing_failures (cs @ [c]) = (if c = 0 then 0 else Suc (trailing_failures cs))"
  by (simp add: trailing_failures_def)

lemma trailing_failures_le: "trailing_failures cs \<le> length cs"
  unfolding trailing_failures_def by (metis length_rev length_takeWhile_le)

lemma run_probes_append:
  "run_probes config (cs @ ds) cur = run_probes config ds (run_probes config cs cur)"
  by (induction cs arbitrary: cur) auto

lemma check_step:
  assumes "health_test config \<noteq> []"
  shows "snd (check_container_health (Inr c) now config cur) =
    (if c = 0 then cur\<lparr>last_checked := now, failing_streak := 0, hr_status := Healthy,
                       last_output := ''OK''\<rparr>
     else cur\<lparr>last_checked := now, failing_streak := failing_streak cur + 1,
              hr_status := (if failing_streak cur + 1 \<ge> retries config then Unhealthy else Starting),
              last_output := ''Probe exited with code '' @ show_int c\<rparr>)"
  using assms by (simp add: check_container_health_def Let_def)

lemma run_probes_streak:
  assumes "health_test config \<noteq> []"
  shows "failing_streak (run_probes config cs (default_health_result now)) =
    of_nat (trailing_failures cs)"
proof (induction cs rule: rev_induct)
  case (snoc c cs)
  then show ?case
    by (simp add: run_probes_append check_step [OF assms] trailing_failures_snoc)
qed (simp add: trailing_failures_def default_health_result_def)

lemma run_probes_status:
  assumes "health_test config \<noteq> []" and "length cs < 2 ^ 32" and "cs \<noteq> []"
  shows "hr_status (run_probes config cs (default_health_result now)) =
    (if last cs = 0 then Healthy
     else if unat (retries config) \<le> trailing_failures cs then Unhealthy else Starting)"
proof -
  obtain c ds where cs: "cs = ds @ [c]" using assms(3) by (metis append_butlast_last_id)
  have "trailing_failures cs < 2 ^ 32" using trailing_failures_le [of cs] assms(2) by linarith
  then have u: "unat (of_nat (trailing_failures cs) :: u32) = trailing_failures cs"
    by (simp add: unat_of_nat)
  have "failing_streak (run_probes config ds (default_health_result now)) + 1 =
      of_nat (trailing_failures cs)" if "c \<noteq> 0"
    using that by (simp add: run_probes_streak [OF assms(1)] cs trailing_failures_snoc)
  then show ?thesis
    using u by (auto simp: cs run_probes_append check_step [OF assms(1)] word_le_nat_alt)
qed

section \<open>Restart policies\<close>

datatype restart_policy = No | Always | On_Failure u32 | Unless_Stopped

definition show_policy :: "restart_policy \<Rightarrow> str" where
  "show_policy p = (case p of No \<Rightarrow> ''no'' | Always \<Rightarrow> ''always''
     | On_Failure n \<Rightarrow> ''on-failure:'' @ show_nat (unat n) | Unless_Stopped \<Rightarrow> ''unless-stopped'')"

definition parse_restart_policy :: "str \<Rightarrow> restart_policy res" where
  "parse_restart_policy input =
     (let i = to_lowercase (trim input) in
      if i = ''no'' \<or> i = [] then Inr No
      else if i = ''always'' then Inr Always
      else if i = ''unless-stopped'' then Inr Unless_Stopped
      else if i = ''on-failure'' then Inr (On_Failure 3)
      else case strip_prefix ''on-failure:'' i of
             Some n \<Rightarrow>
               (case parse_unsigned 32 n of
                  Some k \<Rightarrow> Inr (On_Failure (of_nat k)) | None \<Rightarrow> Inl (Bad_number n))
           | None \<Rightarrow> Inl (Invalid_policy i))"

lemma to_lower_digit [simp]: "is_ascii_digit c \<Longrightarrow> to_lower_char c = c"
  by (auto simp: to_lower_char_def is_ascii_digit_def is_ascii_upper_def)

lemma to_lowercase_show_nat [simp]: "to_lowercase (show_nat n) = show_nat n"
  by (auto simp: to_lowercase_def map_idI show_nat_digits)

lemma digit_not_ws: "is_ascii_digit c \<Longrightarrow> \<not> is_whitespace c"
  by (auto simp: is_ascii_digit_def is_whitespace_def)

lemma to_lowercase_append [simp]: "to_lowercase (a @ b) = to_lowercase a @ to_lowercase b"
  by (simp add: to_lowercase_def)

lemma parse_show_policy: "parse_restart_policy (show_policy p) = Inr p"
proof (cases p)
  case (On_Failure n)
  let ?s = "''on-failure:'' @ show_nat (unat n)"
  have "trim ?s = ?s"
    by (rule trim_no_ws) (auto simp: is_whitespace_def ord_def is_ascii_digit_def dest!: show_nat_digits)
  moreover have "to_lowercase ''on-failure:'' = ''on-failure:''" by code_simp
  ultimately have i: "to_lowercase (trim ?s) = ?s" by (simp only: to_lowercase_append to_lowercase_show_nat)
  have "unat n < 2 ^ 32" using unsigned_less [where w = n and 'a = nat] by simp
  moreover have "?s \<noteq> ''on-failure''" "?s \<noteq> ''no''" "?s \<noteq> []" "?s \<noteq> ''always''" "?s \<noteq> ''unless-stopped''"
    by simp_all
  moreover have "strip_prefix ''on-failure:'' ?s = Some (show_nat (unat n))" by (rule strip_prefix_append)
  moreover have "of_nat (unat n) = n" by simp
  ultimately show ?thesis
    unfolding On_Failure show_policy_def parse_restart_policy_def restart_policy.case i Let_def
    by (simp only: if_False simp_thms option.case parse_show_unsigned)
qed (simp_all add: show_policy_def, code_simp+)

text \<open>
  The loop at the end of a foreground \<open>run_container\<close>: \<open>exec k\<close> is what the \<open>k\<close>-th restart
  returns; an error leaves the function. \<open>None\<close> is running out of \<open>fuel\<close>.
\<close>

definition should_restart :: "restart_policy \<Rightarrow> int \<Rightarrow> u32 \<Rightarrow> bool" where
  "should_restart p exit_code restart_count =
     (case p of Always \<Rightarrow> True
      | On_Failure max_retries \<Rightarrow> exit_code \<noteq> 0 \<and> restart_count < max_retries
      | _ \<Rightarrow> False)"

fun restart_loop :: "nat \<Rightarrow> restart_policy \<Rightarrow> (u32 \<Rightarrow> int res) \<Rightarrow> u32 \<Rightarrow> int \<Rightarrow> (int \<times> u32) res option" where
  "restart_loop 0 p exec count code = None"
| "restart_loop (Suc fuel) p exec count code =
     (if should_restart p code count then
        (case exec (count + 1) of
           Inl e \<Rightarrow> Some (Inl e)
         | Inr code' \<Rightarrow> restart_loop fuel p exec (count + 1) code')
      else Some (Inr (code, count)))"

lemma restart_loop_always:
  assumes "\<And>k. \<exists>c. exec k = Inr c"
  shows "restart_loop fuel Always exec count code = None"
proof (induction fuel arbitrary: count code)
  case (Suc fuel)
  obtain c where "exec (count + 1) = Inr c" using assms by blast
  then show ?case by (simp add: should_restart_def Suc.IH)
qed simp

text \<open>What an \<open>on-failure\<close> loop that started at \<open>count\<close> with exit code \<open>code\<close> may return.\<close>

definition loop_result :: "u32 \<Rightarrow> (u32 \<Rightarrow> int res) \<Rightarrow> u32 \<Rightarrow> int \<Rightarrow> (int \<times> u32) res \<Rightarrow> bool" where
  "loop_result n exec count code r =
     (case r of Inl _ \<Rightarrow> True
      | Inr (c, k) \<Rightarrow> count \<le> k \<and> k \<le> n \<and> (c = 0 \<or> k = n) \<and>
          (if k = count then c = code else exec k = Inr c))"

lemma loop_result_step:
  assumes "loop_result n exec (count + 1) c r" and "exec (count + 1) = Inr c"
    and "unat (count + 1) = unat count + 1"
  shows "loop_result n exec count code r"
  using assms by (auto simp: loop_result_def word_le_nat_alt split: sum.splits if_splits)

lemma restart_loop_on_failure:
  assumes "count \<le> n" and "unat n - unat count < fuel"
  shows "\<exists>r. restart_loop fuel (On_Failure n) exec count code = Some r \<and>
    loop_result n exec count code r"
  using assms
proof (induction fuel arbitrary: count code)
  case (Suc fuel)
  show ?case
  proof (cases "code \<noteq> 0 \<and> count < n")
    case False
    then show ?thesis using Suc.prems by (auto simp: should_restart_def loop_result_def)
  next
    case True
    then have u: "unat (count + 1) = unat count + 1"
      using unsigned_less [where w = n and 'a = nat] by (simp add: unat_word_ariths word_less_nat_alt)
    then have le: "count + 1 \<le> n" and m: "unat n - unat (count + 1) < fuel"
      using True Suc.prems(2) by (auto simp: word_le_nat_alt word_less_nat_alt)
    show ?thesis
    proof (cases "exec (count + 1)")
      case (Inl e)
      then show ?thesis using True by (simp add: should_restart_def loop_result_def)
    next
      case (Inr c)
      then have "loop_result n exec count code r" if "loop_result n exec (count + 1) c r" for r
        using loop_result_step [OF that _ u] by blast
      with Suc.IH [OF le m, of c] show ?thesis using True Inr by (auto simp: should_restart_def)
    qed
  qed
qed simp

section \<open>Properties\<close>

text \<open>
  After any history of fewer than 2^32 probes of a container with a health test, the
  status is \<open>Healthy\<close> if the last probe succeeded, \<open>Unhealthy\<close> if at least \<open>retries\<close> probes
  have failed since the last success, and \<open>Starting\<close> otherwise.
\<close>

theorem health_follows_history:
  assumes "health_test config \<noteq> []" and "length cs < 2 ^ 32" and "cs \<noteq> []"
  shows "hr_status (run_probes config cs (default_health_result now)) =
    (if last cs = 0 then Healthy
     else if unat (retries config) \<le> trailing_failures cs then Unhealthy else Starting)"
  by (rule run_probes_status [OF assms])

theorem health_follows_history_witness:
  "hr_status (run_probes (default_health_config\<lparr>health_test := [''check'']\<rparr>) [1, 0, 1, 2, 1]
     (default_health_result 0)) = Unhealthy"
  using health_follows_history [of "default_health_config\<lparr>health_test := [''check'']\<rparr>"
      "[1, 0, 1, 2, 1]" 0]
  by (simp add: default_health_config_def trailing_failures_def)

text \<open>
  The restart loop of \<open>on-failure:n\<close> always returns, with at most \<open>n\<close> restarts, and with
  a failing exit code only after exactly \<open>n\<close> of them; the exit code is that of the last
  execution.
\<close>

theorem on_failure_loop_terminates:
  "\<exists>r. restart_loop (unat n + 1) (On_Failure n) exec 0 code = Some r \<and> loop_result n exec 0 code r"
  by (rule restart_loop_on_failure) simp_all

text \<open>Every restart policy prints to a text that parses back to it.\<close>

theorem restart_policy_roundtrip: "parse_restart_policy (show_policy p) = Inr p"
  by (rule parse_show_policy)

text \<open>
  A container with the policy \<open>unless-stopped\<close> is never restarted when it exits, whatever
  its exit code: the loop treats the policy as \<open>no\<close>.
\<close>

theorem unless_stopped_never_restarts:
  "restart_loop (Suc fuel) Unless_Stopped exec 0 code = Some (Inr (code, 0))"
  by (simp add: should_restart_def)

end
