(* ===== verification/Container_Store.thy ===== *)
theory Container_Store
  imports Index_File Health Port_Mapping
begin

text \<open>
  The container index (\<open>src/storage/container_store.rs\<close>): every operation of
  \<open>ContainerStore\<close> as a function from the index file to a result and the index file, with
  what the operating system answers as arguments.

  Shown: ids and names stay unique whatever is requested and whatever fails; the operations
  refine the updates of a finite map keyed by id; lookups, renames and removals do what their
  callers rely on.
\<close>

section \<open>Data\<close>

datatype container_status = Created | Running | Paused | Exited int | Failed str

definition show_status :: "container_status \<Rightarrow> str" where
  "show_status s = (case s of Created \<Rightarrow> ''Created'' | Running \<Rightarrow> ''Up'' | Paused \<Rightarrow> ''Paused''
     | Exited code \<Rightarrow> ''Exited ('' @ show_int code @ '')'' | Failed err \<Rightarrow> ''Failed: '' @ err)"

record container =
  c_id :: str
  c_name :: str
  c_image :: str
  c_command :: "str list"
  c_created_at :: int
  c_status :: container_status
  c_bundle_path :: str
  c_restart_policy :: restart_policy
  c_health_status :: health_status
  c_restart_count :: u32
  c_ports :: "port_mapping list"
  c_exposed_ports :: "str list"

type_synonym container_file = "container index_file"

section \<open>Operations\<close>

definition c_matches :: "str \<Rightarrow> container \<Rightarrow> bool" where
  "c_matches q c \<longleftrightarrow> c_id c = q \<or> starts_with (c_id c) q \<or> c_name c = q"

definition container_name_char :: "char \<Rightarrow> bool" where
  "container_name_char ch \<longleftrightarrow> is_alphanumeric ch \<or> ch \<in> {CHR ''_'', CHR ''-'', CHR ''.''}"

definition valid_container_name :: "str \<Rightarrow> bool" where
  "valid_container_name n \<longleftrightarrow> trim n \<noteq> [] \<and> list_all container_name_char (trim n)"

definition container_list :: "io \<Rightarrow> container_file \<Rightarrow> container list" where
  "container_list io f = list_locked io f"

definition container_find :: "io \<Rightarrow> str \<Rightarrow> container_file \<Rightarrow> container option" where
  "container_find io query f =
     (let q = trim query in if q = [] then None else find_locked io (c_matches q) f)"

definition container_add :: "io \<Rightarrow> container \<Rightarrow> container_file \<Rightarrow> unit res \<times> container_file" where
  "container_add io r f =
     (if \<not> valid_container_name (c_name r) then (Inl (Invalid_name (c_name r)), f)
      else with_index_lock io (\<lambda>f.
        let cs = load_unlocked f in
        case find (\<lambda>c. c_name c = c_name r \<and> c_id c \<noteq> c_id r) cs of
          Some existing \<Rightarrow> (Inl (Name_conflict (c_name r) (c_id existing)), f)
        | None \<Rightarrow> commit io () (filter (\<lambda>c. c_id c \<noteq> c_id r) cs @ [r]) f) f)"

text \<open>The common body of \<open>update_status\<close> and \<open>update_health_status\<close>: no guard on the query.\<close>

definition change_first ::
  "io \<Rightarrow> str \<Rightarrow> (container \<Rightarrow> container) \<Rightarrow> container_file \<Rightarrow> unit res \<times> container_file" where
  "change_first io query upd f =
     with_index_lock io (\<lambda>f.
       let cs = load_unlocked f in
       case find (c_matches query) cs of
         Some _ \<Rightarrow> commit io () (update_first (c_matches query) upd cs) f
       | None \<Rightarrow> (Inl (Not_found query), f)) f"

definition update_status ::
  "io \<Rightarrow> str \<Rightarrow> container_status \<Rightarrow> container_file \<Rightarrow> unit res \<times> container_file" where
  "update_status io query st = change_first io query (\<lambda>c. c\<lparr>c_status := st\<rparr>)"

definition update_health_status ::
  "io \<Rightarrow> str \<Rightarrow> health_status \<Rightarrow> container_file \<Rightarrow> unit res \<times> container_file" where
  "update_health_status io query st = change_first io query (\<lambda>c. c\<lparr>c_health_status := st\<rparr>)"

definition container_rename ::
  "io \<Rightarrow> str \<Rightarrow> str \<Rightarrow> container_file \<Rightarrow> unit res \<times> container_file" where
  "container_rename io old_query new_name f =
     (let n = trim new_name in
      if \<not> valid_container_name new_name then (Inl (Invalid_name new_name), f)
      else with_index_lock io (\<lambda>f.
        let cs = load_unlocked f in
        case find (c_matches old_query) cs of
          None \<Rightarrow> (Inl (Not_found old_query), f)
        | Some old \<Rightarrow>
            if c_name old = n then (Inr (), f)
            else if \<exists>c\<in>set cs. c_name c = n \<and> c_id c \<noteq> c_id old then (Inl (Already_exists n), f)
            else commit io () (update_first (\<lambda>c. c_id c = c_id old) (\<lambda>c. c\<lparr>c_name := n\<rparr>) cs) f) f)"

text \<open>
  Signals sent and files deleted, in order. \<open>bundle_host\<close> is what the removal of a bundle
  sees: whether the directory exists, the text of its two pid files, and whether a process is
  still alive when the grace period after \<open>SIGTERM\<close> is over.
\<close>

datatype effect =
    Signal int int | Remove_dir str | Remove_file str str
  | Record_event str str str | Set_frozen str bool

record bundle_host =
  bundle_exists :: "str \<Rightarrow> bool"
  pid_text :: "str \<Rightarrow> str \<Rightarrow> str option"
  still_alive :: "int \<Rightarrow> bool"

definition SIGTERM :: int where "SIGTERM = 15"
definition SIGKILL :: int where "SIGKILL = 9"

definition pid_in :: "bundle_host \<Rightarrow> str \<Rightarrow> str \<Rightarrow> int list" where
  "pid_in h bundle file =
     (case pid_text h bundle file of
        None \<Rightarrow> []
      | Some t \<Rightarrow> (case parse_signed 32 (trim t) of Some p \<Rightarrow> [p] | None \<Rightarrow> []))"

definition bundle_pids :: "bundle_host \<Rightarrow> str \<Rightarrow> int list" where
  "bundle_pids h bundle = pid_in h bundle ''vm.pid'' @ pid_in h bundle ''container.pid''"

definition kill_pid :: "bundle_host \<Rightarrow> int \<Rightarrow> int \<Rightarrow> effect list" where
  "kill_pid h sig pid =
     [Signal pid sig, Signal (- pid) sig] @
     (if still_alive h pid then [Signal pid SIGKILL, Signal (- pid) SIGKILL] else [])"

definition clean_bundle :: "bundle_host \<Rightarrow> str \<Rightarrow> effect list" where
  "clean_bundle h bundle =
     (if bundle_exists h bundle
      then concat (map (kill_pid h SIGTERM) (bundle_pids h bundle)) @ [Remove_dir bundle]
      else [])"

definition container_remove ::
  "io \<Rightarrow> bundle_host \<Rightarrow> str \<Rightarrow> container_file \<Rightarrow> (container \<times> effect list) res \<times> container_file" where
  "container_remove io h query f =
     (let q = trim query in
      if q = [] then (Inl (Not_found []), f)
      else with_index_lock io (\<lambda>f.
        let cs = load_unlocked f in
        case position (c_matches q) cs of
          Some i \<Rightarrow> commit io (cs ! i, clean_bundle h (c_bundle_path (cs ! i))) (remove_at i cs) f
        | None \<Rightarrow> (Inl (Not_found query), f)) f)"

section \<open>One step of the store\<close>

datatype container_request =
    Add container | Set_status str container_status | Set_health str health_status
  | Rename str str | Remove str bundle_host

datatype container_reply = Done | Removed container "effect list"

definition reply :: "('a \<Rightarrow> container_reply) \<Rightarrow> 'a res \<times> 'f \<Rightarrow> container_reply res \<times> 'f" where
  "reply g r = (map_sum (\<lambda>e. e) g (fst r), snd r)"

fun container_step ::
  "io \<Rightarrow> container_request \<Rightarrow> container_file \<Rightarrow> container_reply res \<times> container_file" where
  "container_step io (Add r) f = reply (\<lambda>_. Done) (container_add io r f)"
| "container_step io (Set_status q s) f = reply (\<lambda>_. Done) (update_status io q s f)"
| "container_step io (Set_health q s) f = reply (\<lambda>_. Done) (update_health_status io q s f)"
| "container_step io (Rename q n) f = reply (\<lambda>_. Done) (container_rename io q n f)"
| "container_step io (Remove q h) f =
     reply (\<lambda>(c, es). Removed c es) (container_remove io h q f)"


section \<open>Lookup\<close>

lemma c_matches_iff: "c_matches q c \<longleftrightarrow> starts_with (c_id c) q \<or> c_name c = q"
  by (auto simp: c_matches_def)

interpretation containers: query_index c_matches c_id c_name
  by unfold_locales (rule c_matches_iff)

section \<open>The invariant\<close>

definition containers_ok :: "container list \<Rightarrow> bool" where
  "containers_ok cs \<longleftrightarrow> distinct (map c_id cs) \<and> distinct (map c_name cs)"

lemma reply_Inr: "reply g r = (Inr y, f') \<longleftrightarrow> (\<exists>a. r = (Inr a, f') \<and> y = g a)"
  by (cases r; cases "fst r") (auto simp: reply_def)

lemma reply_Inl: "reply g r = (Inl e, f') \<longleftrightarrow> r = (Inl e, f')"
  by (cases r; cases "fst r") (auto simp: reply_def)

lemmas store_simps = Let_def with_index_lock_Inl_iff

lemma container_add_Inr:
  "container_add io r f = (Inr (), f') \<longleftrightarrow>
     valid_container_name (c_name r) \<and> lock_ok io \<and> save_ok io \<and>
     (\<forall>c\<in>set (load_unlocked f). c_name c = c_name r \<longrightarrow> c_id c = c_id r) \<and>
     f' = Records (filter (\<lambda>c. c_id c \<noteq> c_id r) (load_unlocked f) @ [r])"
  by (auto simp: container_add_def store_simps find_None_iff_all split: option.splits if_splits)
    (auto dest: find_SomeD)

lemma change_first_Inr:
  "change_first io q upd f = (Inr (), f') \<longleftrightarrow>
     lock_ok io \<and> save_ok io \<and> find (c_matches q) (load_unlocked f) \<noteq> None \<and>
     f' = Records (update_first (c_matches q) upd (load_unlocked f))"
  by (auto simp: change_first_def store_simps split: option.splits)

lemma container_rename_Inr:
  "container_rename io q n f = (Inr (), f') \<longleftrightarrow>
     valid_container_name n \<and> lock_ok io \<and>
     (\<exists>old. find (c_matches q) (load_unlocked f) = Some old \<and>
        (if c_name old = trim n then f' = f
         else save_ok io \<and>
              (\<forall>c\<in>set (load_unlocked f). c_name c = trim n \<longrightarrow> c_id c = c_id old) \<and>
              f' = Records (update_first (\<lambda>c. c_id c = c_id old) (\<lambda>c. c\<lparr>c_name := trim n\<rparr>)
                     (load_unlocked f))))"
  by (auto simp: container_rename_def store_simps split: option.splits if_splits)

lemma container_remove_Inr:
  "container_remove io h q f = (Inr (r, es), f') \<longleftrightarrow>
     trim q \<noteq> [] \<and> lock_ok io \<and> save_ok io \<and>
     (\<exists>i. position (c_matches (trim q)) (load_unlocked f) = Some i \<and>
        r = load_unlocked f ! i \<and> es = clean_bundle h (c_bundle_path r) \<and>
        f' = Records (remove_at i (load_unlocked f)))"
  by (auto simp: container_remove_def store_simps split: option.splits if_splits
      dest: position_find_nth)

lemma container_failed:
  "container_add io r f = (Inl e, f') \<Longrightarrow> f' = f"
  "change_first io q upd f = (Inl e, f') \<Longrightarrow> f' = f"
  "container_rename io q n f = (Inl e, f') \<Longrightarrow> f' = f"
  "container_remove io h q f = (Inl e, f') \<Longrightarrow> f' = f"
  by (auto simp: container_add_def change_first_def container_rename_def container_remove_def
      store_simps split: option.splits if_splits)

lemma add_keeps_ok:
  assumes "containers_ok cs" and "\<forall>c\<in>set cs. c_name c = c_name r \<longrightarrow> c_id c = c_id r"
  shows "containers_ok (filter (\<lambda>c. c_id c \<noteq> c_id r) cs @ [r])"
  using assms distinct_map_filter_ne_snoc [of c_id cs r c_id]
    distinct_map_filter_ne_snoc [of c_name cs r c_id]
  by (simp add: containers_ok_def)

lemma update_keeps_ok:
  "containers_ok cs \<Longrightarrow> (\<And>c. c_id (g c) = c_id c) \<Longrightarrow> (\<And>c. c_name (g c) = c_name c) \<Longrightarrow>
     containers_ok (update_first p g cs)"
  by (simp add: containers_ok_def)

lemma rename_keeps_ok:
  assumes "containers_ok cs" and "find p cs = Some old"
    and "\<forall>c\<in>set cs. c_name c = n \<longrightarrow> c_id c = c_id old"
  shows "containers_ok (update_first (\<lambda>c. c_id c = c_id old) (\<lambda>c. c\<lparr>c_name := n\<rparr>) cs)"
proof -
  have old: "old \<in> set cs" using assms(2) by (auto dest: find_SomeD)
  have d: "distinct (map c_id cs)" "distinct (map c_name cs)" using assms(1) by (auto simp: containers_ok_def)
  have "find (\<lambda>c. c_id c = c_id old) cs = Some old"
    using old d(1) by (intro find_unique) (auto simp: distinct_map inj_on_def)
  from update_first_SomeD [OF this, of "\<lambda>c. c\<lparr>c_name := n\<rparr>"]
  obtain ys zs where cs: "cs = ys @ old # zs"
    and u: "update_first (\<lambda>c. c_id c = c_id old) (\<lambda>c. c\<lparr>c_name := n\<rparr>) cs = ys @ old\<lparr>c_name := n\<rparr> # zs"
    by blast
  have "c_id y \<noteq> c_id old" if "y \<in> set ys \<union> set zs" for y
  proof -
    have "c_id old \<notin> c_id ` (set ys \<union> set zs)" using d(1) by (auto simp: cs)
    then show ?thesis using that by (metis image_eqI)
  qed
  then have "n \<notin> c_name ` (set ys \<union> set zs)" using assms(3) by (auto simp: cs)
  then have "containers_ok (ys @ old\<lparr>c_name := n\<rparr> # zs)" using d by (auto simp: containers_ok_def cs)
  then show ?thesis by (simp only: u)
qed

lemma remove_keeps_ok: "containers_ok cs \<Longrightarrow> i < length cs \<Longrightarrow> containers_ok (remove_at i cs)"
  by (simp add: containers_ok_def distinct_remove_at)

lemma container_step_ok:
  assumes inv: "containers_ok (load_unlocked f)" and step: "container_step io q f = (Inr y, f')"
  shows "containers_ok (load_unlocked f')"
proof (cases q)
  case (Add r)
  then show ?thesis using step inv by (auto simp: reply_Inr container_add_Inr intro: add_keeps_ok)
next
  case (Set_status a b)
  then show ?thesis
    using step inv by (auto simp: reply_Inr update_status_def change_first_Inr intro: update_keeps_ok)
next
  case (Set_health a b)
  then show ?thesis using step inv
    by (auto simp: reply_Inr update_health_status_def change_first_Inr intro: update_keeps_ok)
next
  case (Rename a n)
  then have "container_rename io a n f = (Inr (), f')" using step by (auto simp: reply_Inr)
  then obtain old where "find (c_matches a) (load_unlocked f) = Some old"
    "f' = f \<or> (\<forall>c\<in>set (load_unlocked f). c_name c = trim n \<longrightarrow> c_id c = c_id old) \<and>
       f' = Records (update_first (\<lambda>c. c_id c = c_id old) (\<lambda>c. c\<lparr>c_name := trim n\<rparr>) (load_unlocked f))"
    by (auto simp: container_rename_Inr split: if_splits)
  then show ?thesis using inv rename_keeps_ok by auto
next
  case (Remove a h)
  then show ?thesis using step inv
    by (auto simp: reply_Inr container_remove_Inr intro: remove_keeps_ok [OF _ position_less])
qed

lemma container_step_failed: "container_step io q f = (Inl e, f') \<Longrightarrow> f' = f"
  by (cases q) (auto simp: reply_Inl update_status_def update_health_status_def dest: container_failed)

interpretation container_store: index_transactions container_step containers_ok
  by unfold_locales (fact container_step_failed container_step_ok)+


section \<open>The store refines a map from ids to containers\<close>

text \<open>
  The specification: what a successful request does to the map from ids to records. A lookup
  picks some record that the query matches.
\<close>

type_synonym container_map = "str \<rightharpoonup> container"

definition changes ::
  "str \<Rightarrow> (container \<Rightarrow> container) \<Rightarrow> container_map \<Rightarrow> container_map \<Rightarrow> bool" where
  "changes q g m m' \<longleftrightarrow>
     (\<exists>c. m (c_id c) = Some c \<and> c_matches q c \<and> m' = m(c_id c \<mapsto> g c))"

fun spec_step :: "container_request \<Rightarrow> container_map \<Rightarrow> container_reply \<Rightarrow> container_map \<Rightarrow> bool" where
  "spec_step (Add r) m y m' \<longleftrightarrow> y = Done \<and> m' = m(c_id r \<mapsto> r)"
| "spec_step (Set_status q s) m y m' \<longleftrightarrow> y = Done \<and> changes q (\<lambda>c. c\<lparr>c_status := s\<rparr>) m m'"
| "spec_step (Set_health q s) m y m' \<longleftrightarrow>
     y = Done \<and> changes q (\<lambda>c. c\<lparr>c_health_status := s\<rparr>) m m'"
| "spec_step (Rename q n) m y m' \<longleftrightarrow>
     y = Done \<and> changes q (\<lambda>c. c\<lparr>c_name := trim n\<rparr>) m m'"
| "spec_step (Remove q h) m y m' \<longleftrightarrow>
     (\<exists>c. m (c_id c) = Some c \<and> c_matches (trim q) c \<and>
        y = Removed c (clean_bundle h (c_bundle_path c)) \<and> m' = m(c_id c := None))"

lemma found_by_key:
  "containers_ok cs \<Longrightarrow> find p cs = Some c \<Longrightarrow> by_key c_id cs (c_id c) = Some c"
  by (auto simp: containers_ok_def by_key_Some dest: find_SomeD)

lemma change_first_refines:
  assumes "containers_ok (load_unlocked f)" and "change_first io q g f = (Inr (), f')"
    and "\<And>c. c_id (g c) = c_id c"
  shows "changes q g (by_key c_id (load_unlocked f)) (by_key c_id (load_unlocked f'))"
proof -
  let ?cs = "load_unlocked f"
  obtain c where c: "find (c_matches q) ?cs = Some c"
    and f': "f' = Records (update_first (c_matches q) g ?cs)"
    using assms(2) by (auto simp: change_first_Inr)
  have "by_key c_id (update_first (c_matches q) g ?cs) = (by_key c_id ?cs)(c_id c \<mapsto> g c)"
    using assms c by (intro by_key_update_first) (auto simp: containers_ok_def)
  then show ?thesis
    using found_by_key [OF assms(1) c] c f' by (auto simp: changes_def dest: find_SomeD)
qed

lemma add_refines:
  assumes "container_add io r f = (Inr (), f')"
  shows "by_key c_id (load_unlocked f') = (by_key c_id (load_unlocked f))(c_id r \<mapsto> r)"
  using assms by (auto simp: container_add_Inr by_key_replace)

lemma rename_refines:
  assumes ok: "containers_ok (load_unlocked f)" and ren: "container_rename io q n f = (Inr (), f')"
  shows "changes q (\<lambda>c. c\<lparr>c_name := trim n\<rparr>) (by_key c_id (load_unlocked f))
    (by_key c_id (load_unlocked f'))"
proof -
  let ?cs = "load_unlocked f" and ?g = "\<lambda>c. c\<lparr>c_name := trim n\<rparr>"
  obtain old where old: "find (c_matches q) ?cs = Some old" and f': "f' = f \<and> c_name old = trim n \<or>
      f' = Records (update_first (\<lambda>c. c_id c = c_id old) ?g ?cs)"
    using ren by (auto simp: container_rename_Inr split: if_splits)
  have k: "by_key c_id ?cs (c_id old) = Some old" by (rule found_by_key [OF ok old])
  have "find (\<lambda>c. c_id c = c_id old) ?cs = Some old"
    using ok old by (intro find_unique) (auto simp: containers_ok_def distinct_map inj_on_def dest: find_SomeD)
  then have u: "by_key c_id (update_first (\<lambda>c. c_id c = c_id old) ?g ?cs) = (by_key c_id ?cs)(c_id old \<mapsto> ?g old)"
    using ok by (intro by_key_update_first) (auto simp: containers_ok_def)
  have "?g old = old" if "c_name old = trim n" using that by (cases old) simp
  then have "by_key c_id (load_unlocked f') = (by_key c_id ?cs)(c_id old \<mapsto> ?g old)"
    using f' u k by (auto simp: fun_eq_iff)
  then show ?thesis using k old by (auto simp: changes_def dest: find_SomeD)
qed

lemma remove_refines:
  assumes "containers_ok (load_unlocked f)" and "container_remove io h q f = (Inr (c, es), f')"
  shows "by_key c_id (load_unlocked f) (c_id c) = Some c \<and> c_matches (trim q) c \<and>
    es = clean_bundle h (c_bundle_path c) \<and>
    by_key c_id (load_unlocked f') = (by_key c_id (load_unlocked f))(c_id c := None)"
proof -
  obtain i where i: "position (c_matches (trim q)) (load_unlocked f) = Some i"
    and "c = load_unlocked f ! i" and "es = clean_bundle h (c_bundle_path c)"
    and "f' = Records (remove_at i (load_unlocked f))"
    using assms(2) by (auto simp: container_remove_Inr)
  moreover note position_less [OF i] position_holds [OF i] assms(1)
  ultimately show ?thesis by (auto simp: containers_ok_def by_key_remove_at by_key_Some)
qed

section \<open>Properties\<close>

text \<open>
  Whatever sequence of requests is run on a missing or malformed index, under whatever
  failures of the lock and of the disk, no two containers of the index share an id or a name.
\<close>

theorem container_ids_and_names_unique:
  "distinct (map c_id (load_unlocked (run_requests container_step qs Missing))) \<and>
   distinct (map c_name (load_unlocked (run_requests container_step qs Missing)))"
  using container_store.run_from_empty [of qs] by (simp add: containers_ok_def)

text \<open>
  C2. The store refines a finite map keyed by id: a successful request changes the map exactly
  as its specification says, and a failed one leaves the index file as it was.
\<close>

theorem container_store_refines_map:
  assumes "containers_ok (load_unlocked f)"
  shows "case container_step io q f of
      (Inl e, f') \<Rightarrow> f' = f
    | (Inr y, f') \<Rightarrow> spec_step q (by_key c_id (load_unlocked f)) y (by_key c_id (load_unlocked f'))"
proof (cases "container_step io q f")
  case (Pair r f')
  then show ?thesis
  proof (cases r)
    case (Inr y)
    have "spec_step q (by_key c_id (load_unlocked f)) y (by_key c_id (load_unlocked f'))"
      using Pair [unfolded Inr] assms
      by (cases q) (auto simp: reply_Inr update_status_def update_health_status_def add_refines
          dest: remove_refines rename_refines intro: change_first_refines)
    then show ?thesis using Pair Inr by simp
  qed (auto dest: container_step_failed)
qed

definition sample_container :: "str \<Rightarrow> str \<Rightarrow> container" where
  "sample_container i n =
     \<lparr>c_id = i, c_name = n, c_image = ''alpine:latest'', c_command = [''sh''], c_created_at = 0,
      c_status = Created, c_bundle_path = ''/b'', c_restart_policy = No,
      c_health_status = Health_None, c_restart_count = 0, c_ports = [], c_exposed_ports = []\<rparr>"

theorem container_store_refines_map_witness:
  "\<exists>f'. container_step io_good (Rename ''aa'' ''web'') (Records [sample_container ''aa1'' ''old'']) =
      (Inr Done, f') \<and>
    by_key c_id (load_unlocked f') ''aa1'' = Some (sample_container ''aa1'' ''web'')"
proof -
  let ?f = "Records [sample_container ''aa1'' ''old'']"
  have ok: "containers_ok (load_unlocked ?f)" by (simp add: containers_ok_def)
  have s: "container_step io_good (Rename ''aa'' ''web'') ?f =
      (Inr Done, Records [sample_container ''aa1'' ''web''])"
    by code_simp
  from container_store_refines_map [OF ok, where io = io_good and q = "Rename ''aa'' ''web''"] s show ?thesis
    by (auto simp: changes_def by_key_def sample_container_def split: if_splits)
qed

text \<open>
  A container whose id starts with the name of a container stored after it hides that
  name: looking the name up, and removing by it, reaches the other container.
\<close>

theorem id_prefix_hides_name:
  assumes "starts_with (c_id c) (trim q)" and "trim q \<noteq> []"
  shows "container_find io_good q (Records (c # cs)) = Some c \<and>
    container_remove io_good h q (Records (c # cs)) =
      (Inr (c, clean_bundle h (c_bundle_path c)), Records cs)"
  using assms containers.find_shadowed [of c "trim q" cs]
  by (simp add: container_find_def find_locked_def container_remove_def c_matches_def Let_def
      remove_at_def)

theorem id_prefix_hides_name_witness:
  "container_find io_good ''ab''
     (Records [sample_container ''ab12'' ''web'', sample_container ''cd34'' ''ab'']) =
   Some (sample_container ''ab12'' ''web'')"
proof -
  have t: "trim ''ab'' = ''ab''" by code_simp
  show ?thesis
    by (rule conjunct1 [OF id_prefix_hides_name])
      (simp_all add: t sample_container_def starts_with_def)
qed

text \<open>
  \<open>rename\<close> does not guard against an empty query, which every id starts with: it renames
  the first container of the index (unless another one has the new name), where \<open>find\<close> and
  \<open>remove\<close> report that nothing was found.
\<close>

theorem empty_rename_hits_first:
  assumes "valid_container_name n" and "c_name c \<noteq> trim n" and "trim n \<notin> c_name ` set cs"
  shows "container_rename io_good [] n (Records (c # cs)) =
      (Inr (), Records (c\<lparr>c_name := trim n\<rparr> # cs)) \<and>
    container_find io_good [] (Records (c # cs)) = None"
  using assms by (auto simp: container_rename_def container_find_def c_matches_def Let_def)
    (metis image_eqI)

theorem empty_rename_hits_first_witness:
  "container_rename io_good [] ''web'' (Records [sample_container ''aa'' ''db'']) =
     (Inr (), Records [sample_container ''aa'' ''web''])"
proof -
  have t: "trim ''web'' = ''web''" and v: "valid_container_name ''web''" by code_simp+
  show ?thesis
    using empty_rename_hits_first [of "''web''" "sample_container ''aa'' ''db''" "[]"] v
    by (simp add: sample_container_def t)
qed

end
