(* ===== verification/Ipv4_Text.thy ===== *)
theory Ipv4_Text
  imports Packets
begin

text \<open>
  \<open>std::net::Ipv4Addr\<close> as the network components use it: its decimal text form, its parser
  (four groups of at most three digits without leading zeros, at most 255) and its conversion
  to and from \<open>u32\<close>.
\<close>

definition parse_octet :: "str \<Rightarrow> byte option" where
  "parse_octet s =
     (if s = [] \<or> 3 < length s \<or> (hd s = CHR ''0'' \<and> 1 < length s) then None
      else case digits_val 0 s of
             None \<Rightarrow> None
           | Some n \<Rightarrow> if n < 256 then Some (of_nat n) else None)"

definition parse_ipv4 :: "str \<Rightarrow> ipv4 option" where
  "parse_ipv4 s =
     (case map parse_octet (split_on CHR ''.'' s) of
        [Some a, Some b, Some c, Some d] \<Rightarrow> Some (Ipv4 a b c d)
      | _ \<Rightarrow> None)"

definition show_octet :: "byte \<Rightarrow> str" where
  "show_octet b = show_nat (unat b)"

fun show_ipv4 :: "ipv4 \<Rightarrow> str" where
  "show_ipv4 (Ipv4 a b c d) =
     show_octet a @ ''.'' @ show_octet b @ ''.'' @ show_octet c @ ''.'' @ show_octet d"

fun ipv4_u32 :: "ipv4 \<Rightarrow> u32" where
  "ipv4_u32 (Ipv4 a b c d) = be32 a b c d"

definition u32_ipv4 :: "u32 \<Rightarrow> ipv4" where
  "u32_ipv4 w =
     Ipv4 (ucast (drop_bit 24 w)) (ucast (drop_bit 16 w)) (ucast (drop_bit 8 w)) (ucast w)"

text \<open>\<open>{:02x}\<close>\<close>

definition hex_digit :: "nat \<Rightarrow> char" where
  "hex_digit n = (if n < 10 then char_of (48 + n) else char_of (87 + n))"

definition show_hex2 :: "byte \<Rightarrow> str" where
  "show_hex2 b = [hex_digit (unat b div 16), hex_digit (unat b mod 16)]"

lemma ipv4_u32_u32_ipv4 [simp]: "ipv4_u32 (u32_ipv4 w) = w"
  by (simp add: u32_ipv4_def)

lemma be32_bytes:
  "ucast (drop_bit 24 (be32 a b c d)) = a" "ucast (drop_bit 16 (be32 a b c d)) = b"
  "ucast (drop_bit 8 (be32 a b c d)) = c" "ucast (be32 a b c d) = d"
  by (rule bit_word_eqI; auto simp: be32_def bit_simps dest: bit_imp_le_length)+

lemma u32_ipv4_ipv4_u32 [simp]: "u32_ipv4 (ipv4_u32 ip) = ip"
  by (cases ip) (simp add: u32_ipv4_def be32_bytes)

lemma ipv4_u32_inj: "ipv4_u32 a = ipv4_u32 b \<longleftrightarrow> a = b"
  by (metis u32_ipv4_ipv4_u32)

lemma show_nat_small:
  assumes "n < 256"
  shows "length (show_nat n) \<le> 3" and "hd (show_nat n) = CHR ''0'' \<Longrightarrow> n = 0"
proof -
  have one: "show_nat m = [digit_char m]" if "m < 10" for m using that by (simp add: show_nat.simps)
  have z: "digit_char m = CHR ''0'' \<Longrightarrow> m < 10 \<Longrightarrow> m = 0" for m
    using ord_digit_char [of m] by (simp add: ord_def)
  consider "n < 10" | "10 \<le> n" "n < 100" | "100 \<le> n" by linarith
  then have "length (show_nat n) \<le> 3 \<and> (hd (show_nat n) = CHR ''0'' \<longrightarrow> n = 0)"
  proof cases
    case 1
    then show ?thesis using z by (simp add: one)
  next
    case 2
    then have "show_nat n = [digit_char (n div 10), digit_char (n mod 10)]"
      by (simp add: show_nat.simps [of n] one)
    moreover have "n div 10 \<noteq> 0" "n div 10 < 10" using 2 by auto
    ultimately show ?thesis using z [of "n div 10"] by auto
  next
    case 3
    then have "show_nat n = [digit_char (n div 100), digit_char (n div 10 mod 10), digit_char (n mod 10)]"
      using assms by (simp add: show_nat.simps [of n] show_nat.simps [of "n div 10"] one div_mult2_eq [symmetric])
    moreover have "n div 100 \<noteq> 0" "n div 100 < 10" using 3 assms by auto
    ultimately show ?thesis using z [of "n div 100"] by auto
  qed
  then show "length (show_nat n) \<le> 3" and "hd (show_nat n) = CHR ''0'' \<Longrightarrow> n = 0" by auto
qed

lemma parse_show_octet [simp]: "parse_octet (show_octet b) = Some b"
proof -
  have b: "unat b < 256" by (rule unat_byte_less)
  have "length (show_nat 0) = 1" by (simp add: show_nat.simps)
  then have "\<not> (hd (show_nat (unat b)) = CHR ''0'' \<and> 1 < length (show_nat (unat b)))"
    using show_nat_small(2) [OF b] by auto
  then show ?thesis using show_nat_small(1) [OF b] b by (simp add: parse_octet_def show_octet_def)
qed

lemma dot_not_octet [simp]: "CHR ''.'' \<notin> set (show_octet b)"
  by (simp add: show_octet_def is_ascii_digit_def ord_def)

lemma parse_show_ipv4 [simp]: "parse_ipv4 (show_ipv4 ip) = Some ip"
  by (cases ip) (simp add: parse_ipv4_def split_on_append split_on_no_sep)

lemma show_ipv4_inj [simp]: "show_ipv4 a = show_ipv4 b \<longleftrightarrow> a = b"
  by (metis option.inject parse_show_ipv4)

end
