(* ===== verification/Network_Store.thy ===== *)
theory Network_Store
  imports Index_File Ipv4_Text "HOL-Library.AList"
begin

text \<open>
  Networks and address allocation (\<open>src/network/mod.rs\<close>): \<open>allocate_ip_in_subnet\<close> and the
  operations of \<open>NetworkStore\<close>. Hash maps are association lists in the order an iteration
  visits them; the random id and the time of creation are arguments.

  Shown: an allocated address is the lowest free host address of the subnet, and allocation
  fails only when there is none; in every reachable store network names are unique and within
  a network endpoints have distinct keys and distinct addresses, none the gateway's.
\<close>

section \<open>Address allocation\<close>

record endpoint =
  e_container_id :: str
  e_container_name :: str
  e_ipv4_address :: str
  e_mac_address :: str

type_synonym endpoints = "(str \<times> endpoint) list"

definition prefix_mask :: "nat \<Rightarrow> u32" where
  "prefix_mask n = (if n = 0 then 0 else push_bit (32 - n) (NOT 0))"

definition used_ips :: "endpoints \<Rightarrow> ipv4 list" where
  "used_ips eps = List.map_filter (\<lambda>(_, e). parse_ipv4 (e_ipv4_address e)) eps"

text \<open>The loop \<open>for host_int in start_host..=end_host\<close>.\<close>

definition first_free :: "ipv4 \<Rightarrow> ipv4 list \<Rightarrow> u32 \<Rightarrow> u32 \<Rightarrow> ipv4 option" where
  "first_free gateway used start stop =
     map_option u32_ipv4
       (find (\<lambda>w. u32_ipv4 w \<noteq> gateway \<and> u32_ipv4 w \<notin> set used)
          (map of_nat [unat start ..< Suc (unat stop)]))"

definition host_range :: "ipv4 \<Rightarrow> nat \<Rightarrow> u32 \<times> u32" where
  "host_range base_ip prefix_len =
     (let mask = prefix_mask prefix_len;
          base = ipv4_u32 base_ip AND mask;
          bcast = base OR NOT mask
      in (base + 1, if bcast = 0 then 0 else bcast - 1))"

definition allocate_ip :: "str \<Rightarrow> str \<Rightarrow> endpoints \<Rightarrow> ipv4 res" where
  "allocate_ip subnet_str gateway_str existing =
     bind_res (ok_or (split_once CHR ''/'' subnet_str) (Invalid_cidr subnet_str)) (\<lambda>(ip_part, mask_part).
     bind_res (ok_or (parse_ipv4 ip_part) (Invalid_address ip_part)) (\<lambda>base_ip.
     bind_res (ok_or (parse_unsigned 32 mask_part) (Invalid_cidr mask_part)) (\<lambda>prefix_len.
     bind_res (ok_or (parse_ipv4 gateway_str) (Invalid_address gateway_str)) (\<lambda>gateway.
       if prefix_len > 30 \<or> prefix_len < 8 then Inl (Unsupported_prefix prefix_len)
       else let (start, stop) = host_range base_ip prefix_len
            in ok_or (first_free gateway (used_ips existing) start stop) (No_address subnet_str)))))"

text \<open>What \<open>allocate_ip\<close> has read from its arguments when it reaches the search.\<close>

definition subnet_args :: "str \<Rightarrow> str \<Rightarrow> ipv4 \<Rightarrow> nat \<Rightarrow> ipv4 \<Rightarrow> bool" where
  "subnet_args subnet gw base n gateway \<longleftrightarrow>
     (\<exists>a b. split_once CHR ''/'' subnet = Some (a, b) \<and> parse_ipv4 a = Some base \<and>
        parse_unsigned 32 b = Some n) \<and> parse_ipv4 gw = Some gateway \<and> 8 \<le> n \<and> n \<le> 30"

text \<open>A host address of the subnet: neither its network nor its broadcast address.\<close>

definition host_of :: "ipv4 \<Rightarrow> nat \<Rightarrow> ipv4 \<Rightarrow> bool" where
  "host_of base n ip \<longleftrightarrow>
     unat (ipv4_u32 ip) div 2 ^ (32 - n) = unat (ipv4_u32 base) div 2 ^ (32 - n) \<and>
     unat (ipv4_u32 ip) mod 2 ^ (32 - n) \<notin> {0, 2 ^ (32 - n) - 1}"

definition free_host :: "ipv4 \<Rightarrow> nat \<Rightarrow> ipv4 \<Rightarrow> endpoints \<Rightarrow> ipv4 \<Rightarrow> bool" where
  "free_host base n gateway eps ip \<longleftrightarrow>
     host_of base n ip \<and> ip \<noteq> gateway \<and> ip \<notin> set (used_ips eps)"

lemma masked_base:
  assumes "n \<le> 32"
  shows "unat (w AND prefix_mask n) = unat w div 2 ^ (32 - n) * 2 ^ (32 - n)"
proof (cases "n = 0")
  case True
  have "unat w < 2 ^ 32" using unsigned_less [where w = w and 'a = nat] by simp
  then show ?thesis using True by (simp add: prefix_mask_def)
next
  case False
  have "w AND prefix_mask n = push_bit (32 - n) (drop_bit (32 - n) w)"
    using False by (intro bit_word_eqI) (auto simp: prefix_mask_def bit_simps)
  moreover have "push_bit (32 - n) (drop_bit (32 - n) w) = w - take_bit (32 - n) w"
    using bits_ident [of "32 - n" w] by (metis add_diff_cancel_right')
  moreover have t: "unat (take_bit (32 - n) w) = unat w mod 2 ^ (32 - n)"
    by (rule trans [OF unsigned_take_bit_eq take_bit_eq_mod])
  then have "take_bit (32 - n) w \<le> w" by (simp only: word_le_nat_alt mod_less_eq_dividend)
  ultimately have "unat (w AND prefix_mask n) = unat w - unat w mod 2 ^ (32 - n)"
    by (simp only: unat_sub t)
  then show ?thesis by (metis minus_mod_eq_div_mult)
qed

lemma host_range_bounds:
  assumes "n \<le> 30"
  shows "unat (fst (host_range base n)) =
      unat (ipv4_u32 base) div 2 ^ (32 - n) * 2 ^ (32 - n) + 1"
    and "unat (snd (host_range base n)) =
      unat (ipv4_u32 base) div 2 ^ (32 - n) * 2 ^ (32 - n) + 2 ^ (32 - n) - 2"
proof -
  let ?k = "32 - n" and ?w = "ipv4_u32 base"
  let ?net = "?w AND prefix_mask n"
  have k: "2 \<le> ?k" "?k \<le> 32" using assms by auto
  have K4: "4 \<le> (2::nat) ^ ?k" using power_increasing [OF k(1), of "2::nat"] by simp
  have net: "unat ?net = unat ?w div 2 ^ ?k * 2 ^ ?k" using assms by (intro masked_base) simp
  have "unat ?w < 2 ^ 32" using unsigned_less [where w = ?w and 'a = nat] by simp
  then have "unat ?w div 2 ^ ?k < 2 ^ n"
    using assms by (simp add: less_mult_imp_div_less flip: power_add)
  then have "unat ?w div 2 ^ ?k + 1 \<le> 2 ^ n" by simp
  then have "(unat ?w div 2 ^ ?k + 1) * 2 ^ ?k \<le> 2 ^ n * 2 ^ ?k" by (rule mult_le_mono1)
  also have "2 ^ n * 2 ^ ?k = (2::nat) ^ 32" using assms by (simp flip: power_add)
  finally have top: "unat ?net + 2 ^ ?k \<le> 2 ^ 32" using net by (simp add: algebra_simps)
  have "?net OR NOT (prefix_mask n) = ?net + NOT (prefix_mask n)"
    by (rule disjunctive_add [symmetric]) (auto simp: bit_simps)
  moreover have "unat (NOT (prefix_mask n)) = 2 ^ ?k - 1"
  proof -
    have "NOT (prefix_mask n) = (mask ?k :: u32)"
      using assms by (intro bit_word_eqI) (auto simp: prefix_mask_def bit_simps)
    moreover have "unat (mask ?k :: u32) = mask ?k"
      using k by (intro bit_eqI) (auto simp: bit_simps)
    ultimately show ?thesis by (simp add: mask_eq_exp_minus_1)
  qed
  ultimately have b: "unat (?net OR NOT (prefix_mask n)) = unat ?net + (2 ^ ?k - 1)"
    using top K4 by (simp add: unat_word_ariths)
  have "unat ?net + 1 < 2 ^ 32" using top K4 by linarith
  then show "unat (fst (host_range base n)) = unat ?w div 2 ^ ?k * 2 ^ ?k + 1"
    using net by (simp add: host_range_def Let_def unat_word_ariths)
  have "unat (?net OR NOT (prefix_mask n)) > 0" using b K4 by linarith
  then have "?net OR NOT (prefix_mask n) \<noteq> 0" by (metis less_irrefl unat_0)
  then have "unat ((?net OR NOT (prefix_mask n)) - 1) = unat ?net + (2 ^ ?k - 1) - 1"
    using b by (simp add: unat_minus_one)
  then show "unat (snd (host_range base n)) = unat ?w div 2 ^ ?k * 2 ^ ?k + 2 ^ ?k - 2"
    using net K4 \<open>?net OR NOT (prefix_mask n) \<noteq> 0\<close>
    by (simp add: host_range_def Let_def numeral_2_eq_2)
qed


lemma host_window:
  fixes w :: nat
  assumes "4 \<le> K"
  shows "q * K + 1 \<le> w \<and> w \<le> q * K + K - 2 \<longleftrightarrow> w div K = q \<and> w mod K \<notin> {0, K - 1}"
proof
  assume r: "q * K + 1 \<le> w \<and> w \<le> q * K + K - 2"
  define d where "d = w - q * K"
  from r have r1: "q * K + 1 \<le> w" and r2: "w \<le> q * K + K - 2" by blast+
  have "w = q * K + d" "1 \<le> d" "d \<le> K - 2" using r1 r2 assms unfolding d_def by linarith+
  then show "w div K = q \<and> w mod K \<notin> {0, K - 1}" using assms by auto
next
  assume a: "w div K = q \<and> w mod K \<notin> {0, K - 1}"
  define m where "m = w mod K"
  have "w = q * K + m" using a unfolding m_def by (metis div_mult_mod_eq)
  moreover have "m < K" using assms by (simp add: m_def)
  moreover have "m \<noteq> 0" "m \<noteq> K - 1" using a by (auto simp: m_def)
  ultimately show "q * K + 1 \<le> w \<and> w \<le> q * K + K - 2" using assms by linarith
qed

lemma host_range_iff:
  assumes "n \<le> 30"
  shows "unat (fst (host_range base n)) \<le> unat (ipv4_u32 ip) \<and>
    unat (ipv4_u32 ip) \<le> unat (snd (host_range base n)) \<longleftrightarrow> host_of base n ip"
proof -
  have "4 \<le> (2::nat) ^ (32 - n)" using power_increasing [of 2 "32 - n" "2::nat"] assms by simp
  from host_window [OF this, of "unat (ipv4_u32 base) div 2 ^ (32 - n)" "unat (ipv4_u32 ip)"]
  show ?thesis by (simp only: host_range_bounds [OF assms] host_of_def)
qed

lemma first_free_Some:
  assumes "first_free gw used start stop = Some ip"
  shows "unat start \<le> unat (ipv4_u32 ip) \<and> unat (ipv4_u32 ip) \<le> unat stop \<and> ip \<noteq> gw \<and>
    ip \<notin> set used \<and> (\<forall>ip'. unat start \<le> unat (ipv4_u32 ip') \<and> ip' \<noteq> gw \<and> ip' \<notin> set used \<longrightarrow>
      unat (ipv4_u32 ip) \<le> unat (ipv4_u32 ip'))"
proof -
  let ?xs = "[unat start ..< Suc (unat stop)]"
  let ?p = "\<lambda>w. u32_ipv4 w \<noteq> gw \<and> u32_ipv4 w \<notin> set used"
  obtain i where i: "i < length ?xs" "?p (of_nat (?xs ! i))" "ip = u32_ipv4 (of_nat (?xs ! i))"
    and least: "\<forall>j<i. \<not> ?p (of_nat (?xs ! j))"
    using assms by (auto simp: first_free_def find_Some_iff simp del: upt_Suc)
  have lt: "unat stop < 2 ^ 32" using unsigned_less [where w = stop and 'a = nat] by simp
  have u: "unat (of_nat (unat start + j) :: u32) = unat start + j" if "j \<le> i" for j
    using i(1) lt that by (simp add: unat_of_nat del: of_nat_add upt_Suc)
  have v: "unat (ipv4_u32 ip) = unat start + i" using i u [of i] by (simp del: upt_Suc of_nat_add)
  have "unat (ipv4_u32 ip) \<le> unat (ipv4_u32 ip')"
    if "unat start \<le> unat (ipv4_u32 ip')" "ip' \<noteq> gw" "ip' \<notin> set used" for ip'
  proof (rule ccontr)
    assume lt': "\<not> unat (ipv4_u32 ip) \<le> unat (ipv4_u32 ip')"
    define j where "j = unat (ipv4_u32 ip') - unat start"
    have j: "unat (ipv4_u32 ip') = unat start + j" "j < i"
      using lt' that(1) v unfolding j_def by linarith+
    then have "of_nat (?xs ! j) = ipv4_u32 ip'"
      using i(1) u [of j] by (simp add: word_unat_eq_iff del: upt_Suc of_nat_add)
    then show False using least j(2) that(2,3) by force
  qed
  then show ?thesis using i v by (auto simp del: upt_Suc)
qed

lemma first_free_None:
  assumes "first_free gw used start stop = None"
    and "unat start \<le> unat (ipv4_u32 ip)" and "unat (ipv4_u32 ip) \<le> unat stop"
  shows "ip = gw \<or> ip \<in> set used"
proof -
  let ?xs = "map of_nat [unat start ..< Suc (unat stop)] :: u32 list"
  have "unat (ipv4_u32 ip) \<in> set [unat start ..< Suc (unat stop)]"
    using assms by (simp only: set_upt atLeastLessThan_iff less_Suc_eq_le)
  then have "of_nat (unat (ipv4_u32 ip)) \<in> set ?xs" by (simp only: set_map image_eqI)
  then have m: "ipv4_u32 ip \<in> set ?xs" by simp
  have "find (\<lambda>w. u32_ipv4 w \<noteq> gw \<and> u32_ipv4 w \<notin> set used) ?xs = None"
    using assms(1) by (simp only: first_free_def option.map_disc_iff)
  then have "\<not> (u32_ipv4 (ipv4_u32 ip) \<noteq> gw \<and> u32_ipv4 (ipv4_u32 ip) \<notin> set used)"
    using m unfolding find_None_iff_all by (rule bspec)
  then show ?thesis by simp
qed

lemma allocate_ip_eq:
  "subnet_args subnet gw base n gateway \<Longrightarrow>
     allocate_ip subnet gw eps =
       ok_or (first_free gateway (used_ips eps) (fst (host_range base n)) (snd (host_range base n)))
         (No_address subnet)"
  by (auto simp: allocate_ip_def subnet_args_def split: prod.splits)

lemma allocate_ip_InrD:
  assumes "allocate_ip subnet gw eps = Inr ip"
  shows "\<exists>base n gateway. subnet_args subnet gw base n gateway"
proof -
  obtain a b where s: "split_once CHR ''/'' subnet = Some (a, b)"
    using assms by (cases "split_once CHR ''/'' subnet") (auto simp: allocate_ip_def)
  moreover obtain base where "parse_ipv4 a = Some base"
    using assms s by (cases "parse_ipv4 a") (auto simp: allocate_ip_def)
  moreover obtain n where "parse_unsigned 32 b = Some n"
    using assms calculation by (cases "parse_unsigned 32 b") (auto simp: allocate_ip_def)
  moreover obtain g where "parse_ipv4 gw = Some g"
    using assms calculation by (cases "parse_ipv4 gw") (auto simp: allocate_ip_def)
  moreover have "8 \<le> n \<and> n \<le> 30"
    using assms calculation by (auto simp: allocate_ip_def split: if_splits)
  ultimately show ?thesis by (auto simp: subnet_args_def)
qed

lemma allocate_ip_sound:
  assumes "subnet_args subnet gw base n gateway" and "allocate_ip subnet gw eps = Inr ip"
  shows "free_host base n gateway eps ip \<and>
    (\<forall>ip'. free_host base n gateway eps ip' \<longrightarrow> ipv4_u32 ip \<le> ipv4_u32 ip')"
proof -
  have n: "n \<le> 30" using assms(1) by (auto simp: subnet_args_def)
  have "first_free gateway (used_ips eps) (fst (host_range base n)) (snd (host_range base n)) = Some ip"
    using assms allocate_ip_eq [OF assms(1), of eps] by (auto simp: ok_or_def split: option.splits)
  from first_free_Some [OF this] show ?thesis
    using host_range_iff [OF n, of base] by (auto simp: free_host_def word_le_nat_alt)
qed

lemma allocate_ip_complete:
  assumes "subnet_args subnet gw base n gateway" and "allocate_ip subnet gw eps = Inl e"
  shows "\<not> free_host base n gateway eps ip"
proof -
  have n: "n \<le> 30" using assms(1) by (auto simp: subnet_args_def)
  have "first_free gateway (used_ips eps) (fst (host_range base n)) (snd (host_range base n)) = None"
    using assms allocate_ip_eq [OF assms(1), of eps] by (auto simp: ok_or_def split: option.splits)
  from first_free_None [OF this] show ?thesis
    using host_range_iff [OF n, of base] by (auto simp: free_host_def)
qed


section \<open>The store\<close>

record network =
  n_id :: str
  n_name :: str
  n_driver :: str
  n_subnet :: str
  n_gateway :: str
  n_internal :: bool
  n_attachable :: bool
  n_labels :: "(str \<times> str) list"
  n_dns_servers :: "str list"
  n_created_at :: int
  n_containers :: endpoints

type_synonym network_file = "network index_file"

definition DEFAULT_NETWORK :: str where "DEFAULT_NETWORK = ''boxr0''"

definition default_network :: "int \<Rightarrow> network" where
  "default_network now =
     \<lparr>n_id = ''boxr00000000'', n_name = DEFAULT_NETWORK, n_driver = ''bridge'',
      n_subnet = ''172.28.0.0/16'', n_gateway = ''172.28.0.1'', n_internal = False,
      n_attachable = False, n_labels = [], n_dns_servers = [], n_created_at = now,
      n_containers = []\<rparr>"

definition n_matches :: "str \<Rightarrow> network \<Rightarrow> bool" where
  "n_matches q n \<longleftrightarrow> n_id n = q \<or> starts_with (n_id n) q \<or> n_name n = q"

text \<open>\<open>ensure_default_network\<close>: failures are ignored.\<close>

definition ensure_default_network :: "io \<Rightarrow> int \<Rightarrow> network_file \<Rightarrow> unit res \<times> network_file" where
  "ensure_default_network io now f =
     (Inr (), snd (with_index_lock io (\<lambda>f.
        let ns = load_unlocked f in
        if \<exists>n\<in>set ns. n_name n = DEFAULT_NETWORK then (Inr (), f)
        else commit io () (ns @ [default_network now]) f) f))"

definition network_list :: "io \<Rightarrow> network_file \<Rightarrow> network list" where
  "network_list io f = list_locked io f"

definition network_find :: "io \<Rightarrow> str \<Rightarrow> network_file \<Rightarrow> network option" where
  "network_find io query f =
     (let q = trim query in if q = [] then None else find_locked io (n_matches q) f)"

definition network_name_char :: "char \<Rightarrow> bool" where
  "network_name_char ch \<longleftrightarrow> is_alphanumeric ch \<or> ch = CHR ''_'' \<or> ch = CHR ''-''"

record network_options =
  opt_driver :: str
  opt_subnet :: "str option"
  opt_gateway :: "str option"
  opt_internal :: bool
  opt_attachable :: bool
  opt_labels :: "(str \<times> str) list"

definition network_create ::
  "io \<Rightarrow> str \<Rightarrow> int \<Rightarrow> str \<Rightarrow> network_options \<Rightarrow> network_file \<Rightarrow> network res \<times> network_file" where
  "network_create io rid now name opts f =
     (let n = trim name in
      if n = [] \<or> \<not> list_all network_name_char n then (Inl (Invalid_name name), f)
      else with_index_lock io (\<lambda>f.
        let ns = load_unlocked f in
        if \<exists>x\<in>set ns. n_name x = n then (Inl (Already_exists n), f)
        else let count = length ns;
                 default_subnet = ''172.'' @ show_nat (29 + count) @ ''.0.0/16'';
                 default_gw = ''172.'' @ show_nat (29 + count) @ ''.0.1'';
                 r = \<lparr>n_id = rid, n_name = n, n_driver = opt_driver opts,
                      n_subnet = unwrap_or (opt_subnet opts) default_subnet,
                      n_gateway = unwrap_or (opt_gateway opts) default_gw,
                      n_internal = opt_internal opts, n_attachable = opt_attachable opts,
                      n_labels = opt_labels opts, n_dns_servers = [], n_created_at = now,
                      n_containers = []\<rparr>
             in commit io r (ns @ [r]) f) f)"

definition add_dns :: "str list \<Rightarrow> str list \<Rightarrow> str list" where
  "add_dns new ds = foldl (\<lambda>ds d. if d \<in> set ds then ds else ds @ [d]) ds new"

definition drop_dns :: "str list \<Rightarrow> str list \<Rightarrow> str list" where
  "drop_dns old ds = foldl (\<lambda>ds d. filter (\<lambda>x. x \<noteq> d) ds) ds old"

definition add_label :: "(str \<times> str) list \<Rightarrow> str \<Rightarrow> (str \<times> str) list" where
  "add_label ls l =
     (case split_once CHR ''='' l of
        Some (k, v) \<Rightarrow> AList.update k v ls | None \<Rightarrow> AList.update l [] ls)"

definition network_update ::
  "io \<Rightarrow> str \<Rightarrow> str list \<Rightarrow> str list \<Rightarrow> str list \<Rightarrow> str list \<Rightarrow> network_file \<Rightarrow>
     network res \<times> network_file" where
  "network_update io query dns_add dns_drop label_add label_drop f =
     (let q = trim query in
      if q = [] then (Inl Empty_query, f)
      else with_index_lock io (\<lambda>f.
        let ns = load_unlocked f in
        case find (n_matches q) ns of
          None \<Rightarrow> (Inl (Not_found q), f)
        | Some net \<Rightarrow>
            let upd = (\<lambda>n. n\<lparr>n_dns_servers := drop_dns dns_drop (add_dns dns_add (n_dns_servers n)),
                            n_labels := foldl (\<lambda>ls k. AList.delete k ls)
                              (foldl add_label (n_labels n) label_add) label_drop\<rparr>)
            in commit io (upd net) (update_first (n_matches q) upd ns) f) f)"

definition network_remove :: "io \<Rightarrow> str \<Rightarrow> bool \<Rightarrow> network_file \<Rightarrow> network res \<times> network_file" where
  "network_remove io query force f =
     (let q = trim query in
      if q = [] then (Inl (Not_found []), f)
      else with_index_lock io (\<lambda>f.
        let ns = load_unlocked f in
        if q = DEFAULT_NETWORK then (Inl Protected_network, f)
        else case position (n_matches q) ns of
          None \<Rightarrow> (Inl (Not_found query), f)
        | Some i \<Rightarrow>
            if \<not> force \<and> n_containers (ns ! i) \<noteq> [] then (Inl (Active_endpoints (n_name (ns ! i))), f)
            else commit io (ns ! i) (remove_at i ns) f) f)"

text \<open>Attaching looks networks up by another test: the name first, no trimming.\<close>

definition attach_matches :: "str \<Rightarrow> network \<Rightarrow> bool" where
  "attach_matches q n \<longleftrightarrow> n_name n = q \<or> starts_with (n_id n) q"

fun endpoint_mac :: "ipv4 \<Rightarrow> str" where
  "endpoint_mac (Ipv4 a b c d) =
     ''02:42:'' @ show_hex2 a @ '':'' @ show_hex2 b @ '':'' @ show_hex2 c @ '':'' @ show_hex2 d"

definition new_endpoint :: "str \<Rightarrow> str \<Rightarrow> ipv4 \<Rightarrow> endpoint" where
  "new_endpoint cid cname ip =
     \<lparr>e_container_id = cid, e_container_name = cname, e_ipv4_address = show_ipv4 ip,
      e_mac_address = endpoint_mac ip\<rparr>"

definition connect_container ::
  "io \<Rightarrow> str \<Rightarrow> str \<Rightarrow> str \<Rightarrow> network_file \<Rightarrow> endpoint res \<times> network_file" where
  "connect_container io net_name cid cname f =
     with_index_lock io (\<lambda>f.
       let ns = load_unlocked f in
       case find (attach_matches net_name) ns of
         None \<Rightarrow> (Inl (Not_found net_name), f)
       | Some net \<Rightarrow>
           (case map_of (n_containers net) cid of
              Some ep \<Rightarrow> (Inr ep, f)
            | None \<Rightarrow>
                (case allocate_ip (n_subnet net) (n_gateway net) (n_containers net) of
                   Inl e \<Rightarrow> (Inl e, f)
                 | Inr ip \<Rightarrow>
                     let ep = new_endpoint cid cname ip
                     in commit io ep
                          (update_first (attach_matches net_name)
                             (\<lambda>n. n\<lparr>n_containers := AList.update cid ep (n_containers n)\<rparr>) ns) f))) f"

definition endpoint_key :: "endpoints \<Rightarrow> str \<Rightarrow> str option" where
  "endpoint_key eps cid =
     (if map_of eps cid \<noteq> None then Some cid
      else map_option fst (find (\<lambda>(_, ep). e_container_name ep = cid) eps))"

definition disconnect_container ::
  "io \<Rightarrow> str \<Rightarrow> str \<Rightarrow> network_file \<Rightarrow> unit res \<times> network_file" where
  "disconnect_container io net_name cid f =
     with_index_lock io (\<lambda>f.
       let ns = load_unlocked f in
       case find (attach_matches net_name) ns of
         None \<Rightarrow> (Inl (Not_found net_name), f)
       | Some net \<Rightarrow>
           (case endpoint_key (n_containers net) cid of
              None \<Rightarrow> (Inl (Not_connected cid net_name), f)
            | Some k \<Rightarrow>
                commit io ()
                  (update_first (attach_matches net_name)
                     (\<lambda>n. n\<lparr>n_containers := AList.delete k (n_containers n)\<rparr>) ns) f)) f"

definition tab :: char where "tab = char_of (9 :: nat)"

definition hosts_file :: "io \<Rightarrow> str \<Rightarrow> network_file \<Rightarrow> str res" where
  "hosts_file io net_name f =
     (if \<not> lock_ok io then Inl Lock_failed
      else Inr (join [newline]
        ([''127.0.0.1'' @ [tab] @ ''localhost'',
          ''::1'' @ [tab] @ ''localhost ip6-localhost ip6-loopback''] @
         (case find (attach_matches net_name) (load_unlocked f) of
            None \<Rightarrow> []
          | Some net \<Rightarrow>
              map (\<lambda>(cid, ep). e_ipv4_address ep @ [tab] @ e_container_name ep @ [tab] @ take 12 cid)
                (n_containers net))) @ [newline]))"


section \<open>One step of the store\<close>

datatype network_request =
    Ensure_default int
  | Create str int str network_options
  | Update str "str list" "str list" "str list" "str list"
  | Remove_network str bool
  | Connect str str str
  | Disconnect str str

datatype network_reply = Ok_unit | Ok_network network | Ok_endpoint endpoint

definition answer :: "('a \<Rightarrow> 'b) \<Rightarrow> 'a res \<times> 'f \<Rightarrow> 'b res \<times> 'f" where
  "answer g r = (map_sum (\<lambda>e. e) g (fst r), snd r)"

lemma answer_Inr: "answer g r = (Inr y, f') \<longleftrightarrow> (\<exists>a. r = (Inr a, f') \<and> y = g a)"
  by (cases r; cases "fst r") (auto simp: answer_def)

lemma answer_Inl: "answer g r = (Inl e, f') \<longleftrightarrow> r = (Inl e, f')"
  by (cases r; cases "fst r") (auto simp: answer_def)

fun network_step ::
  "io \<Rightarrow> network_request \<Rightarrow> network_file \<Rightarrow> network_reply res \<times> network_file" where
  "network_step io (Ensure_default now) f = answer (\<lambda>_. Ok_unit) (ensure_default_network io now f)"
| "network_step io (Create rid now n opts) f = answer Ok_network (network_create io rid now n opts f)"
| "network_step io (Update q da dd la ld) f = answer Ok_network (network_update io q da dd la ld f)"
| "network_step io (Remove_network q force) f = answer Ok_network (network_remove io q force f)"
| "network_step io (Connect q cid cname) f = answer Ok_endpoint (connect_container io q cid cname f)"
| "network_step io (Disconnect q cid) f = answer (\<lambda>_. Ok_unit) (disconnect_container io q cid f)"

section \<open>The invariant\<close>

definition addresses :: "network \<Rightarrow> str list" where
  "addresses n = map (\<lambda>(_, e). e_ipv4_address e) (n_containers n)"

definition endpoints_ok :: "network \<Rightarrow> bool" where
  "endpoints_ok n \<longleftrightarrow> distinct (map fst (n_containers n)) \<and> distinct (addresses n) \<and>
     (\<forall>a\<in>set (addresses n). \<exists>ip. parse_ipv4 a = Some ip \<and> parse_ipv4 (n_gateway n) \<noteq> Some ip)"

definition networks_ok :: "network list \<Rightarrow> bool" where
  "networks_ok ns \<longleftrightarrow> distinct (map n_name ns) \<and> (\<forall>n\<in>set ns. endpoints_ok n)"

lemma networks_ok_Nil [simp]: "networks_ok []"
  by (simp add: networks_ok_def)

lemma networks_ok_snoc:
  "networks_ok ns \<Longrightarrow> n_containers n = [] \<Longrightarrow> n_name n \<notin> n_name ` set ns \<Longrightarrow> networks_ok (ns @ [n])"
  by (auto simp: networks_ok_def endpoints_ok_def addresses_def)

lemma networks_ok_remove: "networks_ok ns \<Longrightarrow> i < length ns \<Longrightarrow> networks_ok (remove_at i ns)"
  using set_remove_at_subset [of i ns] by (auto simp: networks_ok_def distinct_remove_at)

lemma networks_ok_update:
  assumes "networks_ok ns" and "find p ns = Some n" and "\<And>x. n_name (f x) = n_name x"
    and "endpoints_ok n \<Longrightarrow> endpoints_ok (f n)"
  shows "networks_ok (update_first p f ns)"
  using assms all_update_first [of p ns n endpoints_ok f] by (simp add: networks_ok_def)

lemma used_ips_mem:
  "(k, e) \<in> set eps \<Longrightarrow> parse_ipv4 (e_ipv4_address e) = Some ip \<Longrightarrow> ip \<in> set (used_ips eps)"
  by (force simp: used_ips_def List.map_filter_def)

lemma AList_update_fresh: "map_of al k = None \<Longrightarrow> AList.update k v al = al @ [(k, v)]"
  by (induction al) (auto split: if_splits)

lemma endpoints_ok_connect:
  assumes ok: "endpoints_ok n" and fresh: "map_of (n_containers n) cid = None"
    and alloc: "allocate_ip (n_subnet n) (n_gateway n) (n_containers n) = Inr ip"
  shows "endpoints_ok (n\<lparr>n_containers := AList.update cid (new_endpoint cid cname ip) (n_containers n)\<rparr>)"
proof -
  obtain base k g where args: "subnet_args (n_subnet n) (n_gateway n) base k g"
    using allocate_ip_InrD [OF alloc] by blast
  from allocate_ip_sound [OF args alloc]
  have ip: "ip \<noteq> g" "ip \<notin> set (used_ips (n_containers n))" by (auto simp: free_host_def)
  have g: "parse_ipv4 (n_gateway n) = Some g" using args by (auto simp: subnet_args_def)
  have "show_ipv4 ip \<notin> set (addresses n)"
  proof
    assume "show_ipv4 ip \<in> set (addresses n)"
    then obtain k e where "(k, e) \<in> set (n_containers n)" "e_ipv4_address e = show_ipv4 ip"
      by (auto simp: addresses_def)
    then show False using ip(2) used_ips_mem [of k e "n_containers n" ip] by simp
  qed
  moreover have "cid \<notin> fst ` set (n_containers n)" using fresh by (simp add: map_of_eq_None_iff)
  ultimately show ?thesis
    using ok ip(1) g by (auto simp: endpoints_ok_def addresses_def AList_update_fresh [OF fresh]
        new_endpoint_def)
qed

lemma endpoints_ok_delete:
  "endpoints_ok n \<Longrightarrow> endpoints_ok (n\<lparr>n_containers := AList.delete k (n_containers n)\<rparr>)"
  by (auto simp: endpoints_ok_def addresses_def AList.delete_eq distinct_map inj_on_def)

lemma network_step_failed: "network_step io q f = (Inl e, f') \<Longrightarrow> f' = f"
  by (cases q) (auto simp: answer_Inl ensure_default_network_def network_create_def network_update_def
      network_remove_def connect_container_def disconnect_container_def Let_def with_index_lock_Inl_iff
      split: option.splits sum.splits if_splits)


lemma ensure_default_Inr:
  "ensure_default_network io now f = (Inr u, f') \<Longrightarrow>
     f' = f \<or> f' = Records (load_unlocked f @ [default_network now]) \<and>
       DEFAULT_NETWORK \<notin> n_name ` set (load_unlocked f)"
  by (auto simp: ensure_default_network_def with_index_lock_def commit_def save_unlocked_def Let_def
      split: if_splits)

lemma network_create_Inr:
  assumes "network_create io rid now name opts f = (Inr r, f')"
  shows "f' = Records (load_unlocked f @ [r]) \<and> n_name r \<notin> n_name ` set (load_unlocked f) \<and>
    n_name r = trim name \<and> n_containers r = [] \<and> n_subnet r = unwrap_or (opt_subnet opts)
      (''172.'' @ show_nat (29 + length (load_unlocked f)) @ ''.0.0/16'')"
  using assms by (auto simp: network_create_def Let_def split: if_splits)

lemma network_update_Inr:
  assumes "network_update io q da dd la ld f = (Inr r, f')"
  shows "\<exists>net upd. find (n_matches (trim q)) (load_unlocked f) = Some net \<and>
    f' = Records (update_first (n_matches (trim q)) upd (load_unlocked f)) \<and>
    (\<forall>n. n_name (upd n) = n_name n \<and> n_containers (upd n) = n_containers n \<and>
       n_gateway (upd n) = n_gateway n)"
proof (cases "find (n_matches (trim q)) (load_unlocked f)")
  case None
  then show ?thesis using assms by (auto simp: network_update_def Let_def split: if_splits)
next
  case (Some net)
  let ?upd = "\<lambda>n. n\<lparr>n_dns_servers := drop_dns dd (add_dns da (n_dns_servers n)),
     n_labels := foldl (\<lambda>ls k. AList.delete k ls) (foldl add_label (n_labels n) la) ld\<rparr>"
  have "f' = Records (update_first (n_matches (trim q)) ?upd (load_unlocked f))"
    using assms Some by (auto simp: network_update_def Let_def split: if_splits)
  with Some show ?thesis by (intro exI [of _ net] exI [of _ ?upd]) simp
qed

lemma network_remove_Inr:
  "network_remove io q force f = (Inr r, f') \<Longrightarrow>
     \<exists>i. position (n_matches (trim q)) (load_unlocked f) = Some i \<and> r = load_unlocked f ! i \<and>
       f' = Records (remove_at i (load_unlocked f)) \<and> (force \<or> n_containers r = [])"
  by (auto simp: network_remove_def Let_def split: if_splits option.splits)

lemma connect_Inr:
  assumes "connect_container io q cid cname f = (Inr ep, f')"
  shows "\<exists>net. find (attach_matches q) (load_unlocked f) = Some net \<and>
    (map_of (n_containers net) cid = Some ep \<and> f' = f \<or>
     map_of (n_containers net) cid = None \<and>
     (\<exists>ip. allocate_ip (n_subnet net) (n_gateway net) (n_containers net) = Inr ip \<and>
        ep = new_endpoint cid cname ip \<and>
        f' = Records (update_first (attach_matches q)
               (\<lambda>n. n\<lparr>n_containers := AList.update cid ep (n_containers n)\<rparr>) (load_unlocked f))))"
  using assms by (auto simp: connect_container_def Let_def split: option.splits sum.splits)

lemma disconnect_Inr:
  "disconnect_container io q cid f = (Inr u, f') \<Longrightarrow>
     \<exists>net k. find (attach_matches q) (load_unlocked f) = Some net \<and>
       f' = Records (update_first (attach_matches q)
              (\<lambda>n. n\<lparr>n_containers := AList.delete k (n_containers n)\<rparr>) (load_unlocked f))"
  by (auto simp: disconnect_container_def Let_def split: option.splits)

lemma network_step_ok:
  assumes inv: "networks_ok (load_unlocked f)" and step: "network_step io q f = (Inr y, f')"
  shows "networks_ok (load_unlocked f')"
proof (cases q)
  case (Ensure_default now)
  then show ?thesis using step inv
    by (auto simp: answer_Inr default_network_def dest!: ensure_default_Inr intro!: networks_ok_snoc)
next
  case (Create rid now n opts)
  then obtain a where "network_create io rid now n opts f = (Inr a, f')"
    using step by (auto simp: answer_Inr)
  then have "f' = Records (load_unlocked f @ [a])" "n_containers a = []"
    "n_name a \<notin> n_name ` set (load_unlocked f)" by (auto dest: network_create_Inr)
  then show ?thesis using networks_ok_snoc [OF inv] by simp
next
  case (Update q da dd la ld)
  then obtain r where "network_update io q da dd la ld f = (Inr r, f')" using step by (auto simp: answer_Inr)
  then show ?thesis using inv
    by (auto dest!: network_update_Inr intro!: networks_ok_update simp: endpoints_ok_def addresses_def)
next
  case (Remove_network q force)
  then show ?thesis using step inv
    by (auto simp: answer_Inr dest!: network_remove_Inr intro: networks_ok_remove [OF _ position_less])
next
  case (Connect q cid cname)
  then obtain ep where "connect_container io q cid cname f = (Inr ep, f')"
    using step by (auto simp: answer_Inr)
  then show ?thesis using inv
    by (auto dest!: connect_Inr intro!: networks_ok_update endpoints_ok_connect)
next
  case (Disconnect q cid)
  then obtain u where "disconnect_container io q cid f = (Inr u, f')" using step by (auto simp: answer_Inr)
  then show ?thesis using inv
    by (auto dest!: disconnect_Inr intro!: networks_ok_update endpoints_ok_delete)
qed

interpretation network_store: index_transactions network_step networks_ok
  by unfold_locales (fact network_step_failed network_step_ok)+

lemma n_matches_iff: "n_matches q n \<longleftrightarrow> starts_with (n_id n) q \<or> n_name n = q"
  by (auto simp: n_matches_def)

interpretation networks: query_index n_matches n_id n_name
  by unfold_locales (rule n_matches_iff)

interpretation attached: query_index attach_matches n_id n_name
  by unfold_locales (auto simp: attach_matches_def)


section \<open>Properties\<close>

text \<open>
  C4. An allocated address is the lowest host address of the subnet that is neither the
  gateway nor in use, and allocation on well-formed arguments fails only when every host
  address is taken.
\<close>

theorem allocation_lowest_free:
  assumes "subnet_args subnet gw base n gateway"
  shows "case allocate_ip subnet gw eps of
      Inr ip \<Rightarrow> free_host base n gateway eps ip \<and>
        (\<forall>ip'. free_host base n gateway eps ip' \<longrightarrow> ipv4_u32 ip \<le> ipv4_u32 ip')
    | Inl _ \<Rightarrow> \<forall>ip'. \<not> free_host base n gateway eps ip'"
  using allocate_ip_sound [OF assms] allocate_ip_complete [OF assms]
  by (auto split: sum.splits)

lemma sample_free:
  "free_host (Ipv4 10 1 0 0) 30 (Ipv4 10 1 0 1) [] (Ipv4 10 1 0 2)"
  "free_host (Ipv4 172 28 0 0) 16 (Ipv4 172 28 0 1) [] (Ipv4 172 28 0 2)"
  by (simp_all add: free_host_def host_of_def used_ips_def List.map_filter_def unat_be32)

theorem allocation_lowest_free_witness:
  "\<exists>ip. allocate_ip ''10.1.0.0/30'' ''10.1.0.1'' [] = Inr ip \<and>
     free_host (Ipv4 10 1 0 0) 30 (Ipv4 10 1 0 1) [] ip"
proof -
  have a: "subnet_args ''10.1.0.0/30'' ''10.1.0.1'' (Ipv4 10 1 0 0) 30 (Ipv4 10 1 0 1)"
  proof -
    have "split_once CHR ''/'' ''10.1.0.0/30'' = Some (''10.1.0.0'', ''30'')" by code_simp
    moreover have "parse_ipv4 ''10.1.0.0'' = Some (Ipv4 10 1 0 0)" by code_simp
    moreover have "parse_unsigned 32 ''30'' = Some 30"
      by (simp add: parse_unsigned_def drop_plus_def is_ascii_digit_def ord_def)
    moreover have "parse_ipv4 ''10.1.0.1'' = Some (Ipv4 10 1 0 1)" by code_simp
    ultimately show ?thesis by (auto simp: subnet_args_def)
  qed
  have "free_host (Ipv4 10 1 0 0) 30 (Ipv4 10 1 0 1) [] (Ipv4 10 1 0 2)" by (rule sample_free(1))
  with allocation_lowest_free [OF a, of "[]"] show ?thesis by (auto split: sum.splits)
qed

text \<open>
  C5. In every store reached from a missing index by any requests under any failures, network
  names are unique, and within a network no two endpoints share a key or an address and no
  endpoint has the gateway's address.
\<close>

theorem networks_stay_consistent:
  "networks_ok (load_unlocked (run_requests network_step qs Missing))"
  by (rule network_store.run_from_empty) simp

text \<open>
  Attaching a container that is not attached yet gives it an endpoint whose address is a
  free host address of the network's subnet and stores it; attaching it again returns the
  stored endpoint and writes nothing.
\<close>

theorem connect_allocates_then_reuses:
  assumes "connect_container io_good q cid cname (Records (net # ns)) = (Inr ep, f')"
    and "attach_matches q net" and "map_of (n_containers net) cid = None"
  shows "\<exists>base n gw ip. subnet_args (n_subnet net) (n_gateway net) base n gw \<and>
    free_host base n gw (n_containers net) ip \<and> e_ipv4_address ep = show_ipv4 ip \<and>
    connect_container io_good q cid cname' f' = (Inr ep, f')"
proof -
  obtain ip where alloc: "allocate_ip (n_subnet net) (n_gateway net) (n_containers net) = Inr ip"
    and ep: "ep = new_endpoint cid cname ip"
    and f': "f' = Records (net\<lparr>n_containers := AList.update cid ep (n_containers net)\<rparr> # ns)"
    using connect_Inr [OF assms(1)] assms(2,3) by auto
  obtain base n gw where args: "subnet_args (n_subnet net) (n_gateway net) base n gw"
    using allocate_ip_InrD [OF alloc] by blast
  have "connect_container io_good q cid cname' f' = (Inr ep, f')"
    using assms(2) by (simp add: connect_container_def f' attach_matches_def update_conv')
  then show ?thesis
    using args allocate_ip_sound [OF args alloc] ep by (auto simp: new_endpoint_def)
qed

definition plain_options :: network_options where
  "plain_options = \<lparr>opt_driver = ''bridge'', opt_subnet = None, opt_gateway = None,
     opt_internal = False, opt_attachable = False, opt_labels = []\<rparr>"

theorem connect_allocates_then_reuses_witness:
  "\<exists>ep f'. connect_container io_good ''boxr0'' ''c1'' ''web'' (Records [default_network 0]) = (Inr ep, f') \<and>
     connect_container io_good ''boxr0'' ''c1'' ''other'' f' = (Inr ep, f')"
proof -
  have m: "attach_matches ''boxr0'' (default_network 0)" by code_simp
  have k: "map_of (n_containers (default_network 0)) ''c1'' = None" by code_simp
  have p: "parse_ipv4 ''172.28.0.0'' = Some (Ipv4 172 28 0 0)"
    "parse_ipv4 ''172.28.0.1'' = Some (Ipv4 172 28 0 1)" by code_simp+
  have s: "split_once CHR ''/'' ''172.28.0.0/16'' = Some (''172.28.0.0'', ''16'')" by code_simp
  have n: "parse_unsigned 32 ''16'' = Some 16"
    by (simp add: parse_unsigned_def drop_plus_def is_ascii_digit_def ord_def)
  have args: "subnet_args ''172.28.0.0/16'' ''172.28.0.1'' (Ipv4 172 28 0 0) 16 (Ipv4 172 28 0 1)"
    by (simp add: subnet_args_def p s n)
  from sample_free(2) obtain ip where "allocate_ip ''172.28.0.0/16'' ''172.28.0.1'' [] = Inr ip"
    using allocate_ip_complete [OF args, of "[]"] by (metis sum.exhaust)
  then obtain ep f' where
    "connect_container io_good ''boxr0'' ''c1'' ''web'' (Records [default_network 0]) = (Inr ep, f')"
    using m k by (auto simp: connect_container_def default_network_def Let_def)
  from connect_allocates_then_reuses [OF this m k, of "''other''"] this show ?thesis by blast
qed


text \<open>
  The guard that protects the default bridge network compares names only: removing by
  its id, or by any longer prefix of the id than the name, removes it.
\<close>

theorem default_network_removable_by_id:
  "network_remove io_good ''boxr0'' False (Records [default_network now]) =
     (Inl Protected_network, Records [default_network now]) \<and>
   network_remove io_good ''boxr00000000'' False (Records [default_network now]) =
     (Inr (default_network now), Records [])"
proof -
  have t: "trim ''boxr0'' = ''boxr0''" "trim ''boxr00000000'' = ''boxr00000000''" by code_simp+
  show ?thesis
    by (simp add: network_remove_def t DEFAULT_NETWORK_def default_network_def n_matches_def
        Let_def remove_at_def)
qed

text \<open>
  The default subnet of a new network depends only on the number of networks stored, so
  after a removal it is the subnet of a network that is still there: three creations with a
  removal between them leave two networks with the same subnet.
\<close>

theorem default_subnets_collide:
  "case load_unlocked (run_requests network_step
        [(io_good, Ensure_default 0), (io_good, Create ''a1'' 0 ''a'' plain_options),
         (io_good, Create ''b1'' 0 ''b'' plain_options), (io_good, Remove_network ''a'' False),
         (io_good, Create ''c1'' 0 ''c'' plain_options)] Missing) of
     [d, b, c] \<Rightarrow> n_name b = ''b'' \<and> n_name c = ''c'' \<and> n_subnet b = n_subnet c \<and>
       n_gateway b = n_gateway c
   | _ \<Rightarrow> False"
  by code_simp

end
