(* ===== verification/Limits.thy ===== *)
theory Limits
  imports Prelude
begin

text \<open>
  Sizes, durations and resource limits given as text: \<open>LogRotator::parse_size\<close>
  (\<open>src/guardrails/mod.rs\<close>), \<open>ResourceLimits::parse_memory\<close> and
  \<open>CgroupV2Manager\<close> (\<open>src/cgroups/mod.rs\<close>), and the flag parsers and validators of
  \<open>src/lib.rs\<close>. Results are words of the source's width; a product that does not fit wraps,
  as in the release build.

  \<open>parse_cpus\<close>, which goes through binary floating point, is left out.
\<close>

section \<open>Sizes\<close>

definition strip_unit :: "str \<Rightarrow> str \<times> nat" where
  "strip_unit s =
     (case strip_suffix ''g'' s of Some n \<Rightarrow> (n, 1024 * 1024 * 1024) | None \<Rightarrow>
     (case strip_suffix ''gb'' s of Some n \<Rightarrow> (n, 1024 * 1024 * 1024) | None \<Rightarrow>
     (case strip_suffix ''m'' s of Some n \<Rightarrow> (n, 1024 * 1024) | None \<Rightarrow>
     (case strip_suffix ''mb'' s of Some n \<Rightarrow> (n, 1024 * 1024) | None \<Rightarrow>
     (case strip_suffix ''k'' s of Some n \<Rightarrow> (n, 1024) | None \<Rightarrow>
     (case strip_suffix ''kb'' s of Some n \<Rightarrow> (n, 1024) | None \<Rightarrow>
     (case strip_suffix ''b'' s of Some n \<Rightarrow> (n, 1) | None \<Rightarrow> (s, 1))))))))"

definition parse_size :: "str \<Rightarrow> 64 word res" where
  "parse_size input =
     (let (num, mult) = strip_unit (to_lowercase (trim input))
      in case parse_unsigned 64 num of
           None \<Rightarrow> Inl (Bad_number num)
         | Some v \<Rightarrow> Inr (of_nat v * of_nat mult))"

definition parse_memory :: "str \<Rightarrow> 64 word res" where
  "parse_memory input =
     (let i = to_lowercase (trim input); (num, mult) = strip_unit i
      in case parse_signed 64 num of
           None \<Rightarrow> Inl (Bad_number num)
         | Some v \<Rightarrow> if v \<le> 0 then Inl (Invalid_limit i) else Inr (of_int v * of_nat mult))"

datatype size_unit = Unit_g | Unit_gb | Unit_m | Unit_mb | Unit_k | Unit_kb | Unit_b | Unit_none

fun unit_suffix :: "size_unit \<Rightarrow> str" where
  "unit_suffix Unit_g = ''g''" | "unit_suffix Unit_gb = ''gb''"
| "unit_suffix Unit_m = ''m''" | "unit_suffix Unit_mb = ''mb''"
| "unit_suffix Unit_k = ''k''" | "unit_suffix Unit_kb = ''kb''"
| "unit_suffix Unit_b = ''b''" | "unit_suffix Unit_none = ''''"

fun unit_factor :: "size_unit \<Rightarrow> nat" where
  "unit_factor Unit_g = 2 ^ 30" | "unit_factor Unit_gb = 2 ^ 30"
| "unit_factor Unit_m = 2 ^ 20" | "unit_factor Unit_mb = 2 ^ 20"
| "unit_factor Unit_k = 2 ^ 10" | "unit_factor Unit_kb = 2 ^ 10"
| "unit_factor Unit_b = 1" | "unit_factor Unit_none = 1"

lemma last_show_nat: "is_ascii_digit (last (show_nat n))"
  using show_nat_digits [of "last (show_nat n)" n] by simp

lemma ends_with_last: "ends_with s p \<Longrightarrow> p \<noteq> [] \<Longrightarrow> s \<noteq> [] \<and> last s = last p"
  by (auto simp: ends_with_iff)

lemma strip_suffix_last:
  "s = [] \<or> last s \<noteq> last p \<Longrightarrow> p \<noteq> [] \<Longrightarrow> strip_suffix p s = None"
  using ends_with_last [of s p] by (auto simp: strip_suffix_def)

lemma strip_suffix_two:
  "strip_suffix [a, b] (s @ [b]) = (if s \<noteq> [] \<and> last s = a then Some (butlast s) else None)"
proof (cases s rule: rev_cases)
  case (snoc t c)
  then show ?thesis by (auto simp: strip_suffix_def ends_with_def)
qed (simp add: strip_suffix_def ends_with_def)

lemma digit_letters: "is_ascii_digit c \<Longrightarrow> c \<notin> {CHR ''g'', CHR ''m'', CHR ''k'', CHR ''b'', CHR ''s'', CHR ''h''}"
  by (auto simp: is_ascii_digit_def ord_def)

lemma strip_unit_show: "strip_unit (show_nat n @ unit_suffix u) = (show_nat n, unit_factor u)"
proof -
  have l: "last (show_nat n) \<notin> {CHR ''g'', CHR ''m'', CHR ''k'', CHR ''b'', CHR ''s'', CHR ''h''}"
    by (rule digit_letters [OF last_show_nat])
  have one: "strip_suffix [c] (show_nat n @ [c]) = Some (show_nat n)" for c
    using strip_suffix_append [of "[c]" "show_nat n"] by simp
  have two: "strip_suffix [c, d] (show_nat n @ [c, d]) = Some (show_nat n)" for c d
    using strip_suffix_append [of "[c, d]" "show_nat n"] by simp
  have mix: "strip_suffix [c, d] (show_nat n @ [e, d]) = None" if "c \<noteq> e" for c d e
    using strip_suffix_two [of c d "show_nat n @ [e]"] that by simp
  have no: "strip_suffix [c, d] (show_nat n @ [d]) = None" if "last (show_nat n) \<noteq> c" for c d
    using strip_suffix_two [of c d "show_nat n"] that by simp
  show ?thesis
    using l by (cases u) (simp_all add: strip_unit_def one two mix no strip_suffix_last)
qed

lemma unit_text_normal:
  "to_lowercase (trim (show_nat n @ unit_suffix u)) = show_nat n @ unit_suffix u"
proof -
  have "trim (show_nat n @ unit_suffix u) = show_nat n @ unit_suffix u"
    by (rule trim_no_ws; cases u)
      (auto simp: is_whitespace_def ord_def is_ascii_digit_def dest!: show_nat_digits)
  moreover have "map to_lower_char (show_nat n) = show_nat n"
    by (rule map_idI) (auto simp: to_lower_char_def is_ascii_digit_def is_ascii_upper_def
        dest!: show_nat_digits)
  moreover have "map to_lower_char (unit_suffix u) = unit_suffix u"
    by (cases u) (simp_all add: to_lower_char_def is_ascii_upper_def ord_def)
  ultimately show ?thesis by (simp add: to_lowercase_def)
qed

lemma parse_size_show:
  assumes "n < 2 ^ 64"
  shows "parse_size (show_nat n @ unit_suffix u) = Inr (of_nat (n * unit_factor u))"
  using assms by (simp add: parse_size_def unit_text_normal strip_unit_show)

lemma parse_signed_show:
  assumes "n < 2 ^ (w - 1)"
  shows "parse_signed w (show_nat n) = Some (int n)"
proof (cases "show_nat n")
  case (Cons c cs)
  then have "is_ascii_digit c" using show_nat_digits [of c n] by simp
  then have "c \<noteq> CHR ''-''" by (auto simp: is_ascii_digit_def ord_def)
  with Cons parse_show_unsigned [OF assms] show ?thesis by (simp add: parse_signed_def)
qed simp

lemma parse_memory_show:
  assumes "0 < n" and "n < 2 ^ 63"
  shows "parse_memory (show_nat n @ unit_suffix u) = Inr (of_nat (n * unit_factor u))"
  using assms parse_signed_show [of n 64]
  by (simp add: parse_memory_def unit_text_normal strip_unit_show Let_def)

section \<open>Durations\<close>

text \<open>\<open>parse_duration_flag\<close>: seconds from text with an optional unit.\<close>

definition parse_u64 :: "str \<Rightarrow> error \<Rightarrow> 64 word res" where
  "parse_u64 s e = ok_or (map_option of_nat (parse_unsigned 64 s)) e"

definition parse_duration_flag :: "str \<Rightarrow> str \<Rightarrow> 64 word res" where
  "parse_duration_flag value flag =
     (let t = trim value in
      if t = [] then Inl (Invalid_spec flag)
      else case strip_suffix ''s'' t of
        Some n \<Rightarrow> parse_u64 n (Bad_number value)
      | None \<Rightarrow> (case strip_suffix ''ms'' t of
        Some n \<Rightarrow> bind_res (parse_u64 n (Bad_number value)) (\<lambda>ms. Inr (ms div 1000))
      | None \<Rightarrow> (case strip_suffix ''m'' t of
        Some n \<Rightarrow> bind_res (parse_u64 n (Bad_number value)) (\<lambda>m. Inr (m * 60))
      | None \<Rightarrow> (case strip_suffix ''h'' t of
        Some n \<Rightarrow> bind_res (parse_u64 n (Bad_number value)) (\<lambda>h. Inr (h * 3600))
      | None \<Rightarrow> parse_u64 t (Bad_number value)))))"

lemma parse_u64_show [simp]: "n < 2 ^ 64 \<Longrightarrow> parse_u64 (show_nat n) e = Inr (of_nat n)"
  by (simp add: parse_u64_def)

lemma digits_val_None: "c \<in> set s \<Longrightarrow> \<not> is_ascii_digit c \<Longrightarrow> digits_val a s = None"
  by (induction s arbitrary: a) auto

lemma parse_unsigned_junk: "digits_val 0 (drop_plus s) = None \<Longrightarrow> parse_unsigned w s = None"
  by (simp add: parse_unsigned_def)

lemma ms_is_not_a_number: "parse_unsigned w (s @ ''m'') = None"
proof (rule parse_unsigned_junk)
  have "CHR ''m'' \<in> set (drop_plus (s @ ''m''))" by (cases s) (auto simp: drop_plus_def)
  moreover have "\<not> is_ascii_digit CHR ''m''" by (simp add: is_ascii_digit_def ord_def)
  ultimately show "digits_val 0 (drop_plus (s @ ''m'')) = None" by (rule digits_val_None)
qed

lemma duration_trim:
  "u \<in> {[], ''s'', ''m'', ''h'', ''ms''} \<Longrightarrow> trim (show_nat n @ u) = show_nat n @ u"
  by (rule trim_no_ws) (auto simp: is_whitespace_def ord_def is_ascii_digit_def dest!: show_nat_digits)

lemma duration_units:
  assumes "n < 2 ^ 64"
  shows "parse_duration_flag (show_nat n @ ''s'') flag = Inr (of_nat n)"
    and "parse_duration_flag (show_nat n @ ''m'') flag = Inr (of_nat n * 60)"
    and "parse_duration_flag (show_nat n @ ''h'') flag = Inr (of_nat n * 3600)"
    and "parse_duration_flag (show_nat n) flag = Inr (of_nat n)"
proof -
  have l: "last (show_nat n) \<notin> {CHR ''g'', CHR ''m'', CHR ''k'', CHR ''b'', CHR ''s'', CHR ''h''}"
    by (rule digit_letters [OF last_show_nat])
  have one: "strip_suffix [c] (show_nat n @ [c]) = Some (show_nat n)" for c
    using strip_suffix_append [of "[c]" "show_nat n"] by simp
  note defs = parse_duration_flag_def Let_def duration_trim one strip_suffix_last
  show "parse_duration_flag (show_nat n @ ''s'') flag = Inr (of_nat n)"
    and "parse_duration_flag (show_nat n @ ''m'') flag = Inr (of_nat n * 60)"
    and "parse_duration_flag (show_nat n @ ''h'') flag = Inr (of_nat n * 3600)"
    using assms by (simp_all add: defs)
  show "parse_duration_flag (show_nat n) flag = Inr (of_nat n)"
    using assms l duration_trim [of "[]" n] by (simp add: defs)
qed

section \<open>Validators\<close>

definition ps_filter_keys :: "str list" where
  "ps_filter_keys = [''status'', ''name'', ''ancestor'', ''id'', ''label'', ''publish'', ''expose'',
     ''network'', ''volume'']"

definition validate_ps_filter_key :: "str \<Rightarrow> unit res" where
  "validate_ps_filter_key key =
     (if key \<notin> set ps_filter_keys then Inl (Invalid_spec key) else Inr ())"

definition image_filter_keys :: "str list" where
  "image_filter_keys = [''reference'', ''name'', ''id'', ''label'', ''dangling'', ''before'', ''since'']"

definition validate_image_filter_key :: "str \<Rightarrow> unit res" where
  "validate_image_filter_key key =
     (if key \<notin> set image_filter_keys then Inl (Invalid_spec key) else Inr ())"

definition validate_pull_option :: "str \<Rightarrow> unit res" where
  "validate_pull_option pull =
     (if pull \<in> {''always'', ''missing'', ''never''} then Inr () else Inl (Invalid_spec pull))"

section \<open>The cgroup manager\<close>

text \<open>
  \<open>CgroupV2Manager\<close>: which files of the container's cgroup are written, in order, with what.
  \<open>present\<close> says whether the cgroup directory exists; write errors are ignored except in
  \<open>freeze\<close> and \<open>unfreeze\<close>.
\<close>

record resource_limits =
  memory_max :: "int option"
  memory_swap_max :: "int option"
  memory_reservation :: "int option"
  cpu_quota_us :: "int option"
  cpu_period_us :: "nat option"
  cpu_shares :: "nat option"
  cpuset_cpus :: "str option"
  memory_swappiness :: "nat option"
  pids_max :: "int option"

type_synonym writes = "(str \<times> str) list"

definition opt_writes :: "'a option \<Rightarrow> ('a \<Rightarrow> writes) \<Rightarrow> writes" where
  "opt_writes x f = (case x of None \<Rightarrow> [] | Some a \<Rightarrow> f a)"

definition apply_limits :: "bool \<Rightarrow> resource_limits \<Rightarrow> writes" where
  "apply_limits present l =
     (if \<not> present then []
      else
        opt_writes (memory_max l) (\<lambda>m.
          [(''memory.max'', show_int m), (''memory.limit_in_bytes'', show_int m)]) @
        opt_writes (memory_reservation l) (\<lambda>r.
          [(''memory.low'', show_int r), (''memory.soft_limit_in_bytes'', show_int r)]) @
        (case (cpu_quota_us l, cpu_period_us l) of
           (Some q, Some p) \<Rightarrow>
             [(''cpu.max'', show_int q @ '' '' @ show_nat p), (''cpu.cfs_quota_us'', show_int q),
              (''cpu.cfs_period_us'', show_nat p)]
         | _ \<Rightarrow> []) @
        opt_writes (cpuset_cpus l) (\<lambda>c. [(''cpuset.cpus'', c)]) @
        opt_writes (memory_swappiness l) (\<lambda>s.
          [(''memory.swap.high'', show_nat s), (''memory.swappiness'', show_nat s)]) @
        opt_writes (pids_max l) (\<lambda>p.
          [(''pids.max'', if p > 0 then show_int p else ''max'')]))"

definition add_process :: "bool \<Rightarrow> int \<Rightarrow> writes" where
  "add_process present pid =
     (if \<not> present then [] else [(''cgroup.procs'', show_int pid), (''tasks'', show_int pid)])"

definition set_freeze :: "str \<Rightarrow> bool \<Rightarrow> bool \<Rightarrow> bool \<Rightarrow> unit res \<times> writes" where
  "set_freeze v present freezer write_ok =
     (if present \<and> freezer then
        (if write_ok then (Inr (), [(''cgroup.freeze'', v)]) else (Inl Io_failed, []))
      else (Inr (), []))"

definition freeze :: "bool \<Rightarrow> bool \<Rightarrow> bool \<Rightarrow> unit res \<times> writes" where
  "freeze = set_freeze ''1''"

definition unfreeze :: "bool \<Rightarrow> bool \<Rightarrow> bool \<Rightarrow> unit res \<times> writes" where
  "unfreeze = set_freeze ''0''"

section \<open>Properties\<close>

text \<open>
  A decimal number with any of the accepted units parses to the number times the unit's
  factor, for log sizes and for memory limits alike, as long as the number itself fits; when
  the product does not fit, the result is the product modulo 2^64.
\<close>

theorem sizes_parse:
  assumes "n < 2 ^ 63" and "0 < n"
  shows "parse_size (show_nat n @ unit_suffix u) = Inr (of_nat (n * unit_factor u)) \<and>
    parse_memory (show_nat n @ unit_suffix u) = Inr (of_nat (n * unit_factor u))"
  using parse_size_show [of n u] parse_memory_show [of n u] assms by auto

theorem sizes_parse_witness: "parse_memory (show_nat 512 @ ''m'') = Inr 536870912"
  using sizes_parse [of 512 Unit_m] by simp

text \<open>
  The check that a memory limit is positive comes before the multiplication by its unit,
  which can wrap: a limit of 2^33 gigabytes is accepted as a negative one, and one of 2^34
  gigabytes as zero.
\<close>

theorem memory_limit_wraps:
  "(\<exists>v. parse_memory (show_nat (2 ^ 33) @ ''g'') = Inr v \<and> sint v < 0) \<and>
   parse_memory (show_nat (2 ^ 34) @ ''g'') = Inr 0"
  using parse_memory_show [of "2 ^ 33" Unit_g] parse_memory_show [of "2 ^ 34" Unit_g] by simp

text \<open>
  A duration in seconds, minutes, hours or without a unit parses to its seconds; one in
  milliseconds never parses, because the suffix \<open>s\<close> is tried before \<open>ms\<close>.
\<close>

theorem durations_parse:
  assumes "n < 2 ^ 64"
  shows "parse_duration_flag (show_nat n @ ''s'') flag = Inr (of_nat n) \<and>
    parse_duration_flag (show_nat n @ ''m'') flag = Inr (of_nat n * 60) \<and>
    parse_duration_flag (show_nat n @ ''h'') flag = Inr (of_nat n * 3600) \<and>
    parse_duration_flag (show_nat n) flag = Inr (of_nat n) \<and>
    parse_duration_flag (show_nat n @ ''ms'') flag = Inl (Bad_number (show_nat n @ ''ms''))"
proof -
  have "strip_suffix ''s'' (show_nat n @ ''ms'') = Some (show_nat n @ ''m'')"
    using strip_suffix_append [of "''s''" "show_nat n @ ''m''"] by simp
  then have "parse_duration_flag (show_nat n @ ''ms'') flag = Inl (Bad_number (show_nat n @ ''ms''))"
    using duration_trim [of "''ms''" n]
    by (simp add: parse_duration_flag_def parse_u64_def ms_is_not_a_number)
  then show ?thesis using duration_units [OF assms] by simp
qed

theorem durations_parse_witness:
  "parse_duration_flag (show_nat 100 @ ''ms'') ''--timeout'' = Inl (Bad_number (show_nat 100 @ ''ms''))"
  using durations_parse [of 100 "''--timeout''"] by simp

end
