(* ===== verification/Guardrails.thy ===== *)
theory Guardrails
  imports Container_Store
begin

text \<open>
  The guardrails (\<open>src/guardrails/mod.rs\<close>): log rotation, the disk headroom check, the guard
  against host port collisions and the reaper of dead containers, with the duplicate check of
  requested ports (\<open>src/lib.rs\<close>).

  The reaper works on any store that offers listing and a status update, as the trait bound of
  the source has it: the locale \<open>status_store\<close> states what it relies on, and the container
  store is an instance.
\<close>

section \<open>Log rotation\<close>

text \<open>
  A directory maps names to contents. \<open>rename_ok\<close> and \<open>write_ok\<close> say which calls succeed;
  failed renames are ignored.
\<close>

type_synonym directory = "str \<rightharpoonup> byte list"

record log_host =
  rename_ok :: "str \<Rightarrow> bool"
  write_ok :: bool

definition rename_file :: "log_host \<Rightarrow> str \<Rightarrow> str \<Rightarrow> directory \<Rightarrow> directory" where
  "rename_file h src dst d =
     (case d src of
        Some c \<Rightarrow> if rename_ok h src then (d(src := None))(dst \<mapsto> c) else d
      | None \<Rightarrow> d)"

definition backup :: "str \<Rightarrow> nat \<Rightarrow> str" where
  "backup path i = path @ ''.'' @ show_nat i"

text \<open>\<open>for i in (1..max_files).rev()\<close>, entered with \<open>max_files - 1\<close>.\<close>

fun shift_backups :: "log_host \<Rightarrow> str \<Rightarrow> nat \<Rightarrow> directory \<Rightarrow> directory" where
  "shift_backups h path 0 d = d"
| "shift_backups h path (Suc i) d =
     shift_backups h path i
       (if d (backup path (Suc i)) \<noteq> None
        then rename_file h (backup path (Suc i)) (backup path (Suc i + 1)) d else d)"

definition rotate_if_needed ::
  "log_host \<Rightarrow> str \<Rightarrow> nat \<Rightarrow> nat \<Rightarrow> directory \<Rightarrow> bool res \<times> directory" where
  "rotate_if_needed h path max_bytes max_files d =
     (case d path of
        None \<Rightarrow> (Inr False, d)
      | Some c \<Rightarrow>
          if length c < max_bytes then (Inr False, d)
          else if max_files = 0 then
            (if write_ok h then (Inr True, d(path \<mapsto> [])) else (Inl Io_failed, d))
          else
            let d1 = shift_backups h path (max_files - 1) d;
                d2 = rename_file h path (backup path 1) d1
            in if write_ok h then (Inr True, d2(path \<mapsto> [])) else (Inl Io_failed, d2))"

lemma backup_inj [simp]: "backup path i = backup path j \<longleftrightarrow> i = j"
  by (auto simp: backup_def dest: show_nat_inj)

lemma backup_ne_path [simp]: "backup path i \<noteq> path" "path \<noteq> backup path i"
  by (auto simp: backup_def)

text \<open>What backup \<open>k\<close> holds after the loop has run down from \<open>n\<close>.\<close>

definition shifted :: "nat \<Rightarrow> (nat \<Rightarrow> byte list option) \<Rightarrow> nat \<Rightarrow> byte list option" where
  "shifted n f k =
     (if k = 0 \<or> n + 1 < k then f k
      else if k = 1 then (if n = 0 then f 1 else None)
      else case f (k - 1) of Some c \<Rightarrow> Some c | None \<Rightarrow> if k = n + 1 then f k else None)"

lemma shifted_0 [simp]: "shifted 0 f = f"
  by (auto simp: shifted_def fun_eq_iff split: option.splits) (metis Suc_lessI)

lemma shifted_Suc:
  "shifted (Suc n) f =
     shifted n (case f (Suc n) of None \<Rightarrow> f | Some c \<Rightarrow> (f(Suc n := None))(n + 2 := Some c))"
proof
  fix k
  consider "k = 0" | "k = 1" | "2 \<le> k" "k \<le> n" | "2 \<le> k" "k = Suc n" | "2 \<le> k" "k = n + 2" | "n + 2 < k"
    by linarith
  then show "shifted (Suc n) f k =
     shifted n (case f (Suc n) of None \<Rightarrow> f | Some c \<Rightarrow> (f(Suc n := None))(n + 2 := Some c)) k"
    by cases (auto simp: shifted_def split: option.splits)
qed

lemma shift_backups_spec:
  assumes "\<And>s. rename_ok h s"
  shows "(\<lambda>k. shift_backups h path n d (backup path k)) = shifted n (\<lambda>k. d (backup path k)) \<and>
    (\<forall>s. (\<forall>k. s \<noteq> backup path k) \<longrightarrow> shift_backups h path n d s = d s)"
proof (induction n arbitrary: d)
  case (Suc n)
  let ?d = "if d (backup path (Suc n)) \<noteq> None
    then rename_file h (backup path (Suc n)) (backup path (Suc n + 1)) d else d"
  have "(\<lambda>k. ?d (backup path k)) =
      (case d (backup path (Suc n)) of None \<Rightarrow> (\<lambda>k. d (backup path k))
       | Some c \<Rightarrow> ((\<lambda>k. d (backup path k))(Suc n := None))(n + 2 := Some c))"
    by (auto simp: rename_file_def assms fun_eq_iff split: option.splits)
  moreover have "?d s = d s" if "\<forall>k. s \<noteq> backup path k" for s
    using that by (auto simp: rename_file_def split: option.splits)
  ultimately show ?case using Suc.IH [of ?d] by (simp add: shifted_Suc)
qed simp

section \<open>Disk headroom\<close>

text \<open>
  \<open>ensure_headroom\<close>: \<open>available\<close> is what \<open>statvfs\<close> gives; the sum with the safety margin
  is a \<open>u64\<close> and wraps in the release build.
\<close>

definition headroom_margin :: "64 word" where
  "headroom_margin = 100 * 1024 * 1024"

definition ensure_headroom :: "64 word res \<Rightarrow> 64 word \<Rightarrow> unit res" where
  "ensure_headroom available required =
     (let needed = required + headroom_margin
      in bind_res available (\<lambda>a. if a < needed then Inl Io_failed else Inr ()))"

section \<open>Port collisions\<close>

definition wildcard :: str where "wildcard = ''0.0.0.0''"

definition ips_overlap :: "str option \<Rightarrow> str option \<Rightarrow> bool" where
  "ips_overlap a b \<longleftrightarrow>
     unwrap_or a wildcard = wildcard \<or> unwrap_or b wildcard = wildcard \<or>
     unwrap_or a wildcard = unwrap_or b wildcard"

definition port_clash :: "port_mapping \<Rightarrow> port_mapping \<Rightarrow> bool" where
  "port_clash req p \<longleftrightarrow> pm_protocol p = pm_protocol req \<and> host_port p = host_port req \<and>
     ips_overlap (host_ip req) (host_ip p)"

fun first_clash :: "port_mapping \<Rightarrow> container list \<Rightarrow> container option" where
  "first_clash req [] = None"
| "first_clash req (c # cs) =
     (if c_status c \<noteq> Running then first_clash req cs
      else if \<exists>p\<in>set (c_ports c). port_clash req p then Some c
      else first_clash req cs)"

fun ensure_no_conflicts :: "port_mapping list \<Rightarrow> container list \<Rightarrow> unit res" where
  "ensure_no_conflicts [] cs = Inr ()"
| "ensure_no_conflicts (req # reqs) cs =
     (if host_port req = 0 then ensure_no_conflicts reqs cs
      else case first_clash req cs of
        Some c \<Rightarrow> Inl (Port_conflict (unwrap_or (host_ip req) wildcard) (host_port req)
                        (pm_protocol req) (c_name c))
      | None \<Rightarrow> ensure_no_conflicts reqs cs)"

lemma first_clash_None:
  "first_clash req cs = None \<longleftrightarrow>
     (\<forall>c\<in>set cs. c_status c = Running \<longrightarrow> (\<forall>p\<in>set (c_ports c). \<not> port_clash req p))"
  by (induction cs) auto

lemma ensure_no_conflicts_iff:
  "ensure_no_conflicts reqs cs = Inr () \<longleftrightarrow>
     (\<forall>r\<in>set reqs. host_port r \<noteq> 0 \<longrightarrow>
        (\<forall>c\<in>set cs. c_status c = Running \<longrightarrow> (\<forall>p\<in>set (c_ports c). \<not> port_clash r p)))"
proof (induction reqs)
  case (Cons r rs)
  then show ?case using first_clash_None [of r cs] by (auto split: option.splits)
qed simp

text \<open>\<open>validate_no_duplicate_ports\<close> and \<open>parse_ports\<close> (\<open>src/lib.rs\<close>).\<close>

definition port_key :: "port_mapping \<Rightarrow> str option \<times> u16 \<times> str" where
  "port_key p = (host_ip p, host_port p, pm_protocol p)"

fun no_duplicate_ports :: "(str option \<times> u16 \<times> str) set \<Rightarrow> port_mapping list \<Rightarrow> unit res" where
  "no_duplicate_ports seen [] = Inr ()"
| "no_duplicate_ports seen (p # ps) =
     (if port_key p \<in> seen then Inl (Duplicate_port (host_port p))
      else no_duplicate_ports (insert (port_key p) seen) ps)"

fun expand_specs :: "str list \<Rightarrow> port_mapping list res" where
  "expand_specs [] = Inr []"
| "expand_specs (s # ss) =
     bind_res (parse_all s) (\<lambda>ms. bind_res (expand_specs ss) (\<lambda>rest. Inr (ms @ rest)))"

definition parse_ports :: "str list \<Rightarrow> port_mapping list res" where
  "parse_ports specs =
     bind_res (expand_specs specs) (\<lambda>ms. bind_res (no_duplicate_ports {} ms) (\<lambda>_. Inr ms))"

lemma no_duplicate_ports_iff:
  "no_duplicate_ports seen ps = Inr () \<longleftrightarrow>
     distinct (map port_key ps) \<and> set (map port_key ps) \<inter> seen = {}"
  by (induction ps arbitrary: seen) auto

section \<open>The reaper\<close>

text \<open>
  \<open>reap_stale_containers_with_store\<close>. \<open>alive pid\<close> is what \<open>kill(pid, 0)\<close> answers and
  \<open>exit_file\<close> the text of \<open>boxr-exitcode\<close>.
\<close>

record reap_host =
  pid_file :: "str \<Rightarrow> str \<Rightarrow> str option"
  alive :: "int \<Rightarrow> bool"
  exit_file :: "str \<Rightarrow> str option"

definition check_pid_alive :: "reap_host \<Rightarrow> str \<Rightarrow> str \<Rightarrow> bool option" where
  "check_pid_alive h bundle file =
     (case pid_file h bundle file of
        None \<Rightarrow> None
      | Some t \<Rightarrow>
          (case parse_signed 32 (trim t) of
             None \<Rightarrow> None
           | Some pid \<Rightarrow> if pid \<le> 1 then Some False else Some (alive h pid)))"

definition container_alive :: "reap_host \<Rightarrow> container \<Rightarrow> bool" where
  "container_alive h c =
     unwrap_or
       (or_else (check_pid_alive h (c_bundle_path c) ''vm.pid'')
          (check_pid_alive h (c_bundle_path c) ''container.pid'')) False"

definition exit_code_of :: "reap_host \<Rightarrow> container \<Rightarrow> int" where
  "exit_code_of h c =
     (case exit_file h (c_bundle_path c) of
        None \<Rightarrow> 137
      | Some t \<Rightarrow> unwrap_or (parse_signed 32 (trim t)) 0)"

definition reap_effects :: "reap_host \<Rightarrow> container \<Rightarrow> effect list" where
  "reap_effects h c =
     [Remove_file (c_bundle_path c) ''vm.pid''] @
     (case pid_file h (c_bundle_path c) ''container.pid'' of
        None \<Rightarrow> []
      | Some t \<Rightarrow>
          (case parse_signed 32 (trim t) of
             None \<Rightarrow> [] | Some p \<Rightarrow> if p > 1 then [Signal p SIGKILL] else [])) @
     [Remove_file (c_bundle_path c) ''container.pid'']"

definition stale :: "reap_host \<Rightarrow> container \<Rightarrow> bool" where
  "stale h c \<longleftrightarrow> c_status c = Running \<and> \<not> container_alive h c"

fun reap_each ::
  "(str \<Rightarrow> container_status \<Rightarrow> 'st \<Rightarrow> 'st) \<Rightarrow> reap_host \<Rightarrow> container list \<Rightarrow> 'st \<Rightarrow>
     nat \<times> effect list \<times> 'st" where
  "reap_each set_status h [] st = (0, [], st)"
| "reap_each set_status h (c # cs) st =
     (if stale h c then
        (case reap_each set_status h cs (set_status (c_id c) (Exited (exit_code_of h c)) st) of
           (n, es, st') \<Rightarrow> (Suc n, reap_effects h c @ es, st'))
      else reap_each set_status h cs st)"

definition reap_stale_containers ::
  "('st \<Rightarrow> container list) \<Rightarrow> (str \<Rightarrow> container_status \<Rightarrow> 'st \<Rightarrow> 'st) \<Rightarrow> reap_host \<Rightarrow> 'st \<Rightarrow>
     nat \<times> effect list \<times> 'st" where
  "reap_stale_containers listing set_status h st = reap_each set_status h (listing st) st"

definition reaped :: "reap_host \<Rightarrow> container \<Rightarrow> container" where
  "reaped h c = (if stale h c then c\<lparr>c_status := Exited (exit_code_of h c)\<rparr> else c)"

text \<open>
  What the reaper relies on: updating the status by the id of a listed container changes the
  status of that container and of no other.
\<close>

locale status_store =
  fixes listing :: "'st \<Rightarrow> container list"
    and set_status :: "str \<Rightarrow> container_status \<Rightarrow> 'st \<Rightarrow> 'st"
    and good :: "'st \<Rightarrow> bool"
  assumes good_distinct: "good st \<Longrightarrow> distinct (map c_id (listing st))"
    and set_status_listing: "good st \<Longrightarrow> i \<in> c_id ` set (listing st) \<Longrightarrow>
      listing (set_status i s st) =
        map (\<lambda>c. if c_id c = i then c\<lparr>c_status := s\<rparr> else c) (listing st)"
    and set_status_good: "good st \<Longrightarrow> i \<in> c_id ` set (listing st) \<Longrightarrow> good (set_status i s st)"
begin

lemma reap_each_listing:
  assumes "good st" and "listing st = map (reaped h) done_cs @ cs"
  shows "good (snd (snd (reap_each set_status h cs st))) \<and>
    listing (snd (snd (reap_each set_status h cs st))) = map (reaped h) (done_cs @ cs) \<and>
    fst (reap_each set_status h cs st) = length (filter (stale h) cs)"
  using assms
proof (induction cs arbitrary: st done_cs)
  case (Cons c cs)
  have id: "c_id (reaped h x) = c_id x" for x by (simp add: reaped_def)
  show ?case
  proof (cases "stale h c")
    case False
    then have "listing st = map (reaped h) (done_cs @ [c]) @ cs"
      using Cons.prems(2) by (simp add: reaped_def)
    from Cons.IH [OF Cons.prems(1) this] False show ?thesis by simp
  next
    case True
    let ?s = "Exited (exit_code_of h c)"
    let ?st = "set_status (c_id c) ?s st"
    have mem: "c_id c \<in> c_id ` set (listing st)" using Cons.prems(2) by auto
    have d: "distinct (map c_id (map (reaped h) done_cs @ c # cs))"
      using good_distinct [OF Cons.prems(1)] Cons.prems(2) by simp
    then have others: "x \<in> set (map (reaped h) done_cs) \<union> set cs \<Longrightarrow> c_id x \<noteq> c_id c" for x
      by (auto simp: image_iff)
    have "listing ?st = map (reaped h) (done_cs @ [c]) @ cs"
      using set_status_listing [OF Cons.prems(1) mem, of ?s] others True
      by (simp add: Cons.prems(2) reaped_def [of h c] map_idI)
    moreover have "good ?st" by (rule set_status_good [OF Cons.prems(1) mem])
    ultimately show ?thesis using Cons.IH [of ?st "done_cs @ [c]"] True
      by (auto split: prod.splits)
  qed
qed simp

lemma reap_listing:
  assumes "good st"
  shows "listing (snd (snd (reap_stale_containers listing set_status h st))) =
      map (reaped h) (listing st)"
    and "fst (reap_stale_containers listing set_status h st) = length (filter (stale h) (listing st))"
  using reap_each_listing [OF assms, of h "[]" "listing st"]
  by (simp_all add: reap_stale_containers_def)

end

text \<open>
  The container store offers this as long as ids have one length and no container is named
  like an id; ids are twelve hexadecimal digits.
\<close>

definition ids_apart :: "container list \<Rightarrow> bool" where
  "ids_apart cs \<longleftrightarrow>
     (\<forall>c\<in>set cs. \<forall>d\<in>set cs. length (c_id c) = length (c_id d) \<and> c_name c \<noteq> c_id d)"

definition reapable :: "container_file \<Rightarrow> bool" where
  "reapable f \<longleftrightarrow> containers_ok (load_unlocked f) \<and> ids_apart (load_unlocked f)"

lemma match_own_id:
  assumes "ids_apart cs" and "c \<in> set cs" and "d \<in> set cs"
  shows "c_matches (c_id c) d \<longleftrightarrow> c_id d = c_id c"
  using assms by (auto simp: ids_apart_def c_matches_def dest: starts_with_eq_length)

lemma update_first_map:
  assumes "distinct (map k xs)" and "\<And>x. x \<in> set xs \<Longrightarrow> p x \<longleftrightarrow> k x = a"
  shows "update_first p f xs = map (\<lambda>x. if k x = a then f x else x) xs"
  using assms
proof (induction xs)
  case (Cons x xs)
  show ?case
  proof (cases "p x")
    case True
    then have a: "k x = a" using Cons.prems(2) by simp
    have "a \<notin> k ` set xs" using Cons.prems(1) a by simp
    then have "map (\<lambda>x. if k x = a then f x else x) xs = xs"
      by (intro map_idI) (auto simp: image_iff)
    then show ?thesis using True a by simp
  next
    case False
    then show ?thesis using Cons by auto
  qed
qed simp

lemma update_status_by_id:
  assumes "reapable f" and "i \<in> c_id ` set (load_unlocked f)"
  shows "update_status io_good i s f =
    (Inr (), Records (map (\<lambda>c. if c_id c = i then c\<lparr>c_status := s\<rparr> else c) (load_unlocked f)))"
proof -
  let ?cs = "load_unlocked f"
  obtain c where c: "c \<in> set ?cs" "c_id c = i" using assms(2) by auto
  have m: "d \<in> set ?cs \<Longrightarrow> c_matches i d \<longleftrightarrow> c_id d = i" for d
    using match_own_id [of ?cs c d] assms(1) c by (simp add: reapable_def)
  then have "find (c_matches i) ?cs \<noteq> None" using c by (auto simp: find_None_iff_all)
  moreover have "update_first (c_matches i) (\<lambda>c. c\<lparr>c_status := s\<rparr>) ?cs =
      map (\<lambda>c. if c_id c = i then c\<lparr>c_status := s\<rparr> else c) ?cs"
    using assms(1) m by (intro update_first_map) (auto simp: reapable_def containers_ok_def)
  ultimately show ?thesis
    by (auto simp: update_status_def change_first_def Let_def split: option.splits)
qed

lemma map_status_frame:
  "map c_id (map (\<lambda>c. if c_id c = i then c\<lparr>c_status := s\<rparr> else c) cs) = map c_id cs"
  "map c_name (map (\<lambda>c. if c_id c = i then c\<lparr>c_status := s\<rparr> else c) cs) = map c_name cs"
  by (induction cs) auto

lemma ids_apart_alt:
  "ids_apart cs \<longleftrightarrow> (\<forall>x\<in>set (map c_id cs). \<forall>y\<in>set (map c_id cs). length x = length y) \<and>
     (\<forall>x\<in>set (map c_name cs). \<forall>y\<in>set (map c_id cs). x \<noteq> y)"
  by (auto simp: ids_apart_def)

lemma ids_apart_frame:
  "map c_id ds = map c_id cs \<Longrightarrow> map c_name ds = map c_name cs \<Longrightarrow> ids_apart cs \<Longrightarrow> ids_apart ds"
  by (simp only: ids_apart_alt)

interpretation reaper: status_store load_unlocked "\<lambda>i s f. snd (update_status io_good i s f)" reapable
proof unfold_locales
  fix st i s
  show "reapable st \<Longrightarrow> distinct (map c_id (load_unlocked st))"
    by (simp add: reapable_def containers_ok_def)
  show "reapable st \<Longrightarrow> i \<in> c_id ` set (load_unlocked st) \<Longrightarrow>
      load_unlocked (snd (update_status io_good i s st)) =
        map (\<lambda>c. if c_id c = i then c\<lparr>c_status := s\<rparr> else c) (load_unlocked st)"
    by (simp add: update_status_by_id)
  show "reapable st \<Longrightarrow> i \<in> c_id ` set (load_unlocked st) \<Longrightarrow>
      reapable (snd (update_status io_good i s st))"
    using ids_apart_frame [OF map_status_frame]
    by (simp add: update_status_by_id reapable_def containers_ok_def map_status_frame del: map_map)
qed

lemma reap_effects_safe: "Signal p sig \<in> set (reap_effects h c) \<Longrightarrow> 1 < p"
  by (auto simp: reap_effects_def split: option.splits if_splits)

lemma reap_each_safe:
  "Signal p sig \<in> set (fst (snd (reap_each set_status h cs st))) \<Longrightarrow> 1 < p"
proof (induction cs arbitrary: st)
  case (Cons c cs)
  obtain n es st' where
    r: "reap_each set_status h cs (set_status (c_id c) (Exited (exit_code_of h c)) st) = (n, es, st')"
    by (rule prod_cases3)
  with Cons.IH [of "set_status (c_id c) (Exited (exit_code_of h c)) st"] Cons.IH [of st] Cons.prems
  show ?case by (auto split: if_splits dest: reap_effects_safe)
qed simp

section \<open>Properties\<close>

text \<open>
  When renames and the final write succeed, rotating an oversized log moves every backup
  up by one number, the log itself to backup 1 and leaves an empty log; nothing else changes.
\<close>

theorem rotation_shifts_backups:
  assumes "\<And>s. rename_ok h s" and "write_ok h" and "d path = Some c" and "max_bytes \<le> length c"
    and "0 < max_files"
  shows "\<exists>d'. rotate_if_needed h path max_bytes max_files d = (Inr True, d') \<and> d' path = Some [] \<and>
    d' (backup path 1) = Some c \<and>
    (\<forall>k. k \<noteq> 1 \<longrightarrow> d' (backup path k) = shifted (max_files - 1) (\<lambda>k. d (backup path k)) k) \<and>
    (\<forall>s. s \<noteq> path \<longrightarrow> (\<forall>k. s \<noteq> backup path k) \<longrightarrow> d' s = d s)"
proof -
  let ?d1 = "shift_backups h path (max_files - 1) d"
  note sp = shift_backups_spec [of h path "max_files - 1" d, OF assms(1)]
  have p: "?d1 path = Some c" using sp assms(3) by simp
  have b: "?d1 (backup path k) = shifted (max_files - 1) (\<lambda>k. d (backup path k)) k" for k
    using sp by (metis (mono_tags, lifting))
  show ?thesis using assms p b sp
    by (simp add: rotate_if_needed_def rename_file_def Let_def)
qed

theorem rotation_shifts_backups_witness:
  "\<exists>d'. rotate_if_needed \<lparr>rename_ok = \<lambda>_. True, write_ok = True\<rparr> ''log'' 2 3
      [''log'' \<mapsto> [1, 2, 3], backup ''log'' 1 \<mapsto> [9]] = (Inr True, d') \<and>
    d' ''log'' = Some [] \<and> d' (backup ''log'' 1) = Some [1, 2, 3] \<and> d' (backup ''log'' 2) = Some [9]"
proof -
  let ?h = "\<lparr>rename_ok = \<lambda>_. True, write_ok = True\<rparr>"
  let ?d = "[''log'' \<mapsto> [1, 2, 3], backup ''log'' 1 \<mapsto> [9]]"
  have "\<exists>d'. rotate_if_needed ?h ''log'' 2 3 ?d = (Inr True, d') \<and> d' ''log'' = Some [] \<and>
    d' (backup ''log'' 1) = Some [1, 2, 3] \<and>
    (\<forall>k. k \<noteq> 1 \<longrightarrow> d' (backup ''log'' k) = shifted (3 - 1) (\<lambda>k. ?d (backup ''log'' k)) k) \<and>
    (\<forall>s. s \<noteq> ''log'' \<longrightarrow> (\<forall>k. s \<noteq> backup ''log'' k) \<longrightarrow> d' s = ?d s)"
    by (rule rotation_shifts_backups) simp_all
  then obtain d' where "rotate_if_needed ?h ''log'' 2 3 ?d = (Inr True, d')" "d' ''log'' = Some []"
    "d' (backup ''log'' 1) = Some [1, 2, 3]" "d' (backup ''log'' 2) = shifted 2 (\<lambda>k. ?d (backup ''log'' k)) 2"
    by fastforce
  then show ?thesis by (intro exI [of _ d']) (simp add: shifted_def)
qed

text \<open>
  What a published port occupies, said without the guard's own test: the triples of a host
  address, a host port and a protocol a socket for it listens on. No host address, and
  \<open>0.0.0.0\<close>, stand for every address.
\<close>

definition bound_endpoints :: "port_mapping \<Rightarrow> (str \<times> u16 \<times> str) set" where
  "bound_endpoints p = {(a, n, pr). n = host_port p \<and> pr = pm_protocol p \<and>
     (host_ip p = None \<or> host_ip p = Some ''0.0.0.0'' \<or> host_ip p = Some a)}"

lemma host_given: "unwrap_or h wildcard = wildcard \<longleftrightarrow> h = None \<or> h = Some ''0.0.0.0''"
  by (cases h) (auto simp: wildcard_def)

lemma port_clash_endpoints: "port_clash r p \<longleftrightarrow> bound_endpoints r \<inter> bound_endpoints p \<noteq> {}"
proof -
  have "bound_endpoints r \<inter> bound_endpoints p \<noteq> {} \<longleftrightarrow>
      (\<exists>a n pr. (a, n, pr) \<in> bound_endpoints r \<and> (a, n, pr) \<in> bound_endpoints p)" by force
  also have "\<dots> \<longleftrightarrow> pm_protocol p = pm_protocol r \<and> host_port p = host_port r \<and>
      (host_ip r = None \<or> host_ip r = Some ''0.0.0.0'' \<or>
       host_ip p = None \<or> host_ip p = Some ''0.0.0.0'' \<or> host_ip r = host_ip p)"
    unfolding bound_endpoints_def mem_Collect_eq prod.case
    by (cases "host_ip r"; cases "host_ip p") (simp_all only: option.simps option.inject, metis+)
  also have "\<dots> \<longleftrightarrow> port_clash r p"
    unfolding port_clash_def ips_overlap_def host_given
    by (cases "host_ip r"; cases "host_ip p") (auto simp: unwrap_or_def)
  finally show ?thesis by (rule sym)
qed

lemma first_clash_Some:
  "first_clash req cs = Some c \<Longrightarrow>
     c \<in> set cs \<and> c_status c = Running \<and> (\<exists>p\<in>set (c_ports c). port_clash req p)"
  by (induction cs) (auto split: if_splits)

lemma ensure_no_conflicts_error:
  "ensure_no_conflicts reqs cs = Inl e \<Longrightarrow>
     \<exists>r\<in>set reqs. \<exists>c p. c \<in> set cs \<and> p \<in> set (c_ports c) \<and> host_port r \<noteq> 0 \<and>
       c_status c = Running \<and> port_clash r p \<and>
       e = Port_conflict (unwrap_or (host_ip r) ''0.0.0.0'') (host_port r) (pm_protocol r) (c_name c)"
proof (induction reqs)
  case (Cons r rs)
  show ?case
  proof (cases "host_port r = 0 \<or> first_clash r cs = None")
    case True
    with Cons.prems have "ensure_no_conflicts rs cs = Inl e" by (auto split: if_splits)
    from Cons.IH [OF this] show ?thesis unfolding list.set bex_simps by (rule disjI2)
  next
    case False
    then obtain c where c: "first_clash r cs = Some c" "host_port r \<noteq> 0" by blast
    from first_clash_Some [OF c(1)]
    obtain p where "c \<in> set cs" "c_status c = Running" "p \<in> set (c_ports c)" "port_clash r p"
      by (elim conjE bexE)
    moreover have "e = Port_conflict (unwrap_or (host_ip r) ''0.0.0.0'') (host_port r)
        (pm_protocol r) (c_name c)"
      using Cons.prems c by (simp add: wildcard_def)
    ultimately show ?thesis using c(2) by (intro bexI [of _ r] exI [of _ c] exI [of _ p]) simp_all
  qed
qed simp

text \<open>
  C11. The collision guard accepts a list of requested ports exactly when none of them (port 0
  apart) would listen on an address, port and protocol that a published port of a running
  container listens on, where no address and \<open>0.0.0.0\<close> stand for every address; and when it
  refuses, its error names a requested port that does, and the running container it meets.
\<close>

theorem port_guard_exact:
  "(ensure_no_conflicts reqs cs = Inr () \<longleftrightarrow>
     (\<forall>r\<in>set reqs. \<forall>c\<in>set cs. \<forall>p\<in>set (c_ports c).
        host_port r \<noteq> 0 \<and> c_status c = Running \<longrightarrow> bound_endpoints r \<inter> bound_endpoints p = {})) \<and>
   (\<forall>e. ensure_no_conflicts reqs cs = Inl e \<longrightarrow>
     (\<exists>r\<in>set reqs. \<exists>c p. c \<in> set cs \<and> p \<in> set (c_ports c) \<and> host_port r \<noteq> 0 \<and>
        c_status c = Running \<and> bound_endpoints r \<inter> bound_endpoints p \<noteq> {} \<and>
        e = Port_conflict (unwrap_or (host_ip r) ''0.0.0.0'') (host_port r) (pm_protocol r) (c_name c)))"
proof (intro conjI allI impI)
  show "ensure_no_conflicts reqs cs = Inr () \<longleftrightarrow>
     (\<forall>r\<in>set reqs. \<forall>c\<in>set cs. \<forall>p\<in>set (c_ports c).
        host_port r \<noteq> 0 \<and> c_status c = Running \<longrightarrow> bound_endpoints r \<inter> bound_endpoints p = {})"
    unfolding ensure_no_conflicts_iff port_clash_endpoints not_not by (metis (no_types))
qed (simp only: ensure_no_conflicts_error [unfolded port_clash_endpoints])

theorem port_guard_exact_witness:
  "ensure_no_conflicts
     [\<lparr>host_ip = Some ''10.0.0.1'', host_port = 80, container_port = 80, pm_protocol = ''tcp''\<rparr>]
     [(sample_container ''a'' ''web'')\<lparr>c_status := Running, c_ports :=
        [\<lparr>host_ip = Some ''10.0.0.2'', host_port = 80, container_port = 80, pm_protocol = ''tcp''\<rparr>]\<rparr>] = Inr ()"
  (is "ensure_no_conflicts ?rs ?cs = _")
proof -
  have "bound_endpoints r \<inter> bound_endpoints p = {}" if "r \<in> set ?rs" "c \<in> set ?cs" "p \<in> set (c_ports c)" for r c p
    using that by (fastforce simp: bound_endpoints_def)
  then show ?thesis using port_guard_exact [THEN conjunct1, THEN iffD2, of ?rs ?cs] by blast
qed

text \<open>
  The hypothesis of the next property is needed, and an index that breaks it can be reached:
  \<open>rename\<close> and \<open>--name\<close> accept the id of another container as a name. Here a live container is
  named like the id of a stale one. The reaper looks the id up, meets the live container first
  and records that as exited; the stale one stays recorded as running.
\<close>

definition namesake_live :: container where
  "namesake_live = (sample_container ''aa11'' ''bb22'')\<lparr>c_status := Running, c_bundle_path := ''/live''\<rparr>"

definition namesake_dead :: container where
  "namesake_dead = (sample_container ''bb22'' ''db'')\<lparr>c_status := Running, c_bundle_path := ''/dead''\<rparr>"

definition namesake_host :: reap_host where
  "namesake_host = \<lparr>pid_file = \<lambda>b _. if b = ''/live'' then Some ''77'' else None,
     alive = \<lambda>_. True, exit_file = \<lambda>_. None\<rparr>"

lemma reaper_hits_namesake:
  "containers_ok [namesake_live, namesake_dead]"
  "\<not> stale namesake_host namesake_live" "stale namesake_host namesake_dead"
  "map c_status (load_unlocked (snd (snd (reap_stale_containers load_unlocked
     (\<lambda>i s f. snd (update_status io_good i s f)) namesake_host
     (Records [namesake_live, namesake_dead]))))) = [Exited 137, Running]"
proof -
  have t: "trim ''77'' = ''77''" by code_simp
  have u: "parse_signed 32 ''77'' = Some 77"
    by (simp add: parse_signed_def parse_unsigned_def drop_plus_def is_ascii_digit_def ord_def)
  show "containers_ok [namesake_live, namesake_dead]"
    by (simp add: containers_ok_def namesake_live_def namesake_dead_def sample_container_def)
  have "check_pid_alive namesake_host ''/live'' n = Some True"
    "check_pid_alive namesake_host ''/dead'' n = None" for n
    by (simp_all add: check_pid_alive_def namesake_host_def t u)
  then show s: "\<not> stale namesake_host namesake_live" "stale namesake_host namesake_dead"
    by (simp_all add: stale_def container_alive_def namesake_live_def namesake_dead_def or_else_def
        unwrap_or_def)
  have "exit_code_of namesake_host namesake_dead = 137"
    by (simp add: exit_code_of_def namesake_host_def)
  moreover have "c_matches (c_id namesake_dead) namesake_live"
    by (simp add: c_matches_def namesake_live_def namesake_dead_def sample_container_def)
  moreover have "c_status namesake_dead = Running" by (simp add: namesake_dead_def)
  ultimately show "map c_status (load_unlocked (snd (snd (reap_stale_containers load_unlocked
     (\<lambda>i s f. snd (update_status io_good i s f)) namesake_host
     (Records [namesake_live, namesake_dead]))))) = [Exited 137, Running]"
    using s by (simp add: reap_stale_containers_def update_status_def change_first_def)
qed



text \<open>
  The duplicate check of a command line distinguishes no host address from \<open>0.0.0.0\<close>,
  which the collision guard holds to be the same: two published ports that clash by the
  guard's own test are accepted together.
\<close>

theorem duplicate_check_misses_wildcard:
  "\<exists>a b. parse_ports [''80:80'', ''0.0.0.0:80:8080''] = Inr [a, b] \<and> port_clash a b"
proof -
  let ?a = "\<lparr>host_ip = None, host_port = 80, container_port = 80, pm_protocol = ''tcp''\<rparr>"
  let ?b = "\<lparr>host_ip = Some ''0.0.0.0'', host_port = 80, container_port = 8080, pm_protocol = ''tcp''\<rparr>"
  have "parse_u16 ''80'' = Inr 80" "parse_u16 ''8080'' = Inr 8080"
    by (simp_all add: parse_u16_def parse_unsigned_def drop_plus_def is_ascii_digit_def ord_def)
  then have r: "parse_port_or_range ''80'' = Inr [80]" "parse_port_or_range ''8080'' = Inr [8080]"
    by (simp_all add: parse_port_or_range_def)
  have "parse_all ''80:80'' = Inr [?a]" "parse_all ''0.0.0.0:80:8080'' = Inr [?b]"
    by (simp_all add: parse_all_def split_protocol_def parse_pair_def r mk_mappings_def)
  then have "parse_ports [''80:80'', ''0.0.0.0:80:8080''] = Inr [?a, ?b]"
    by (simp add: parse_ports_def port_key_def)
  moreover have "port_clash ?a ?b" by (simp add: port_clash_def ips_overlap_def wildcard_def)
  ultimately show ?thesis by blast
qed

end
