(* ===== verification/Volume_Store.thy ===== *)
theory Volume_Store
  imports Container_Store
begin

text \<open>
  Volumes (\<open>src/volume/mod.rs\<close>, \<open>src/volume/ops.rs\<close>): the operations of \<open>VolumeStore\<close>, the
  parser of volume flags and \<open>rename_volume\<close>.

  An operation returns its result and index file together with what it did to directories, in
  order. The host says where volumes live, which calls succeed and which mounts the bundle of
  a container has (none when its \<open>config.json\<close> cannot be read).

  Shown: stored names are single path components and unique, and mount points are inside the
  volumes directory; pruning spares every volume some container mounts; resolved destinations
  are absolute and free of \<open>..\<close>; and a rename of a volume in use moves the data away and
  then fails.
\<close>

section \<open>Data\<close>

record volume =
  v_name :: str
  v_driver :: str
  v_mountpoint :: str
  v_created_at :: int
  v_labels :: "(str \<times> str) list"
  v_scope :: str
  v_options :: "(str \<times> str) list"

type_synonym volume_file = "volume index_file"

datatype dir_effect = Make_dir str | Drop_dir str | Drop_empty_dir str | Move_dir str str

record vol_host =
  vols_dir :: str
  mkdir_ok :: "str \<Rightarrow> bool"
  inside :: "str \<Rightarrow> bool"
  dir_exists :: "str \<Rightarrow> bool"
  move_ok :: "str \<Rightarrow> bool"
  mounts_of :: "container \<Rightarrow> str list"
  real_path :: "str \<Rightarrow> str option"
  home_var :: str

record mount_spec =
  m_source :: str
  m_destination :: str
  m_read_only :: bool
  m_is_volume :: bool

definition mountpoint_of :: "vol_host \<Rightarrow> str \<Rightarrow> str" where
  "mountpoint_of h n = vols_dir h @ ''/'' @ n @ ''/_data''"

definition vol_dir :: "vol_host \<Rightarrow> str \<Rightarrow> str" where
  "vol_dir h n = vols_dir h @ ''/'' @ n"

section \<open>Operations\<close>

definition volume_find :: "io \<Rightarrow> str \<Rightarrow> volume_file \<Rightarrow> volume option" where
  "volume_find io n f = find_locked io (\<lambda>v. v_name v = n) f"

definition volume_name_char :: "char \<Rightarrow> bool" where
  "volume_name_char ch \<longleftrightarrow> is_alphanumeric ch \<or> ch \<in> {CHR ''_'', CHR ''-'', CHR ''.''}"

definition backslash :: char where "backslash = char_of (92 :: nat)"

definition volume_name_error :: "str \<Rightarrow> bool" where
  "volume_name_error n \<longleftrightarrow> n = ''.'' \<or> n = ''..'' \<or>
     contains_char n CHR ''/'' \<or> contains_char n backslash \<or> contains_str n ''..'' \<or>
     \<not> list_all volume_name_char n"

record volume_request =
  vr_name :: "str option"
  vr_driver :: str
  vr_labels :: "(str \<times> str) list"
  vr_scope :: str
  vr_options :: "(str \<times> str) list"

definition chosen_name :: "str \<Rightarrow> str option \<Rightarrow> str" where
  "chosen_name rid name =
     (case name of
        Some n \<Rightarrow> if trim n \<noteq> [] then trim n else ''vol-'' @ take 8 rid
      | None \<Rightarrow> ''vol-'' @ take 8 rid)"

text \<open>\<open>create_with_options\<close>: the index as a pure step; the directory it makes is separate.\<close>

definition volume_create ::
  "io \<Rightarrow> vol_host \<Rightarrow> str \<Rightarrow> int \<Rightarrow> volume_request \<Rightarrow> volume_file \<Rightarrow> volume res \<times> volume_file" where
  "volume_create io h rid now q f =
     with_index_lock io (\<lambda>f.
       let vs = load_unlocked f; n = chosen_name rid (vr_name q); mp = mountpoint_of h n in
       if volume_name_error n then (Inl (Invalid_name n), f)
       else if \<exists>v\<in>set vs. v_name v = n then (Inl (Already_exists n), f)
       else if \<not> mkdir_ok h mp then (Inl Io_failed, f)
       else if \<not> inside h mp then (Inl (Path_traversal n), f)
       else let r = \<lparr>v_name = n, v_driver = vr_driver q, v_mountpoint = mp, v_created_at = now,
                     v_labels = vr_labels q, v_scope = vr_scope q, v_options = vr_options q\<rparr>
            in commit io r (vs @ [r]) f) f"

definition create_effects ::
  "io \<Rightarrow> vol_host \<Rightarrow> str \<Rightarrow> volume_request \<Rightarrow> volume_file \<Rightarrow> dir_effect list" where
  "create_effects io h rid q f =
     (let n = chosen_name rid (vr_name q) in
      if lock_ok io \<and> \<not> volume_name_error n \<and> (\<forall>v\<in>set (load_unlocked f). v_name v \<noteq> n) \<and>
         mkdir_ok h (mountpoint_of h n)
      then [Make_dir (mountpoint_of h n)] else [])"

definition plain_volume :: "str option \<Rightarrow> volume_request" where
  "plain_volume n = \<lparr>vr_name = n, vr_driver = ''local'', vr_labels = [], vr_scope = ''local'', vr_options = []\<rparr>"

text \<open>The tests by which \<open>remove\<close> and \<open>prune\<close> take a mount source to be a volume.\<close>

definition remove_uses :: "str \<Rightarrow> str \<Rightarrow> bool" where
  "remove_uses n src \<longleftrightarrow> contains_str src (''volumes/'' @ n @ ''/_data'') \<or>
     contains_str src (''volumes/'' @ n) \<or> ends_with src (''/'' @ n) \<or> src = n"

definition prune_uses :: "str \<Rightarrow> str \<Rightarrow> bool" where
  "prune_uses n src \<longleftrightarrow> contains_str src (''volumes/'' @ n @ ''/_data'') \<or>
     contains_str src (''volumes/'' @ n) \<or> ends_with src n"

definition user_of :: "vol_host \<Rightarrow> str \<Rightarrow> container list \<Rightarrow> container option" where
  "user_of h n cs = find (\<lambda>c. \<exists>m\<in>set (mounts_of h c). remove_uses n m) cs"

definition volume_remove ::
  "io \<Rightarrow> vol_host \<Rightarrow> container list \<Rightarrow> str \<Rightarrow> bool \<Rightarrow> volume_file \<Rightarrow> volume res \<times> volume_file" where
  "volume_remove io h cs n force f =
     (case (if force then None else user_of h n cs) of
        Some c \<Rightarrow> (Inl (In_use n (c_id c)), f)
      | None \<Rightarrow> with_index_lock io (\<lambda>f.
          let vs = load_unlocked f in
          case position (\<lambda>v. v_name v = n) vs of
            Some i \<Rightarrow> commit io (vs ! i) (remove_at i vs) f
          | None \<Rightarrow> (Inl (Not_found n), f)) f)"

definition remove_dirs :: "vol_host \<Rightarrow> volume res \<Rightarrow> dir_effect list" where
  "remove_dirs h r =
     (case r of
        Inl _ \<Rightarrow> []
      | Inr v \<Rightarrow> if dir_exists h (vol_dir h (v_name v)) then [Drop_dir (vol_dir h (v_name v))] else [])"

definition matches_filter :: "volume \<Rightarrow> str \<Rightarrow> bool" where
  "matches_filter v filt =
     (case split_once CHR ''='' filt of
        None \<Rightarrow> True
      | Some (key, val) \<Rightarrow>
          if key = ''name'' then v_name v = val
          else if key = ''driver'' then v_driver v = val
          else if key = ''label'' then
            (case split_once CHR ''='' val of
               Some (lk, lv) \<Rightarrow> map_of (v_labels v) lk = Some lv
             | None \<Rightarrow> map_of (v_labels v) val \<noteq> None)
          else if key = ''dangling'' then val = ''true'' \<and> v_labels v = []
          else True)"

definition matches_filters :: "volume \<Rightarrow> str list \<Rightarrow> bool" where
  "matches_filters v filters \<longleftrightarrow> filters = [] \<or> list_all (matches_filter v) filters"

definition list_filtered :: "io \<Rightarrow> str list \<Rightarrow> volume_file \<Rightarrow> volume list" where
  "list_filtered io filters f = filter (\<lambda>v. matches_filters v filters) (list_locked io f)"

text \<open>
  The names in use are collected before the lock is taken, from the list as it was then:
  \<open>before\<close> is the index file at that time.
\<close>

definition volume_in_use :: "vol_host \<Rightarrow> container list \<Rightarrow> volume list \<Rightarrow> str \<Rightarrow> bool" where
  "volume_in_use h cs vs n \<longleftrightarrow>
     (\<exists>v\<in>set vs. v_name v = n \<and> (\<exists>c\<in>set cs. \<exists>m\<in>set (mounts_of h c). prune_uses n m))"

definition prune_matching ::
  "io \<Rightarrow> vol_host \<Rightarrow> container list \<Rightarrow> volume list \<Rightarrow> (volume \<Rightarrow> bool) \<Rightarrow> volume_file \<Rightarrow>
     str list res \<times> volume_file" where
  "prune_matching io h cs before sel f =
     with_index_lock io (\<lambda>f.
       let vs = load_unlocked f; gone = (\<lambda>v. \<not> volume_in_use h cs before (v_name v) \<and> sel v)
       in commit io (map v_name (filter gone vs)) (filter (\<lambda>v. \<not> gone v) vs) f) f"

text \<open>The directories go while the index is being filtered, before it is saved.\<close>

definition prune_dirs ::
  "io \<Rightarrow> vol_host \<Rightarrow> container list \<Rightarrow> volume list \<Rightarrow> (volume \<Rightarrow> bool) \<Rightarrow> volume_file \<Rightarrow> dir_effect list" where
  "prune_dirs io h cs before sel f =
     (if lock_ok io
      then map (\<lambda>v. Drop_dir (vol_dir h (v_name v)))
             (filter (\<lambda>v. \<not> volume_in_use h cs before (v_name v) \<and> sel v \<and> dir_exists h (vol_dir h (v_name v)))
               (load_unlocked f))
      else [])"

definition volume_prune ::
  "io \<Rightarrow> vol_host \<Rightarrow> container list \<Rightarrow> volume list \<Rightarrow> volume_file \<Rightarrow> str list res \<times> volume_file" where
  "volume_prune io h cs before = prune_matching io h cs before (\<lambda>_. True)"

definition volume_prune_with ::
  "io \<Rightarrow> vol_host \<Rightarrow> container list \<Rightarrow> volume list \<Rightarrow> bool \<Rightarrow> str list \<Rightarrow> volume_file \<Rightarrow>
     str list res \<times> volume_file" where
  "volume_prune_with io h cs before all_vols filters =
     prune_matching io h cs before
       (\<lambda>v. matches_filters v filters \<and> (all_vols \<or> v_labels v = []))"

section \<open>Volume flags\<close>

text \<open>\<open>resolve_mount\<close> up to the point where the source is looked up.\<close>

definition split_volume_flag :: "str \<Rightarrow> (str \<times> str \<times> bool) res" where
  "split_volume_flag spec =
     (let t = trim spec in
      if t = [] then Inl Empty_spec
      else let r = (case split_on CHR '':'' t of
                      [d] \<Rightarrow> Some ([], d, False)
                    | [s, d] \<Rightarrow> Some (s, d, False)
                    | [s, d, m] \<Rightarrow> Some (s, d, m = ''ro'')
                    | _ \<Rightarrow> None)
           in case r of
                None \<Rightarrow> Inl (Invalid_spec spec)
              | Some (s, d, ro) \<Rightarrow>
                  if trim d = [] then Inl (Invalid_spec spec)
                  else if \<not> starts_with d ''/'' \<or> contains_str d ''..'' then Inl (Path_traversal d)
                  else Inr (s, d, ro))"

definition is_host_path :: "str \<Rightarrow> bool" where
  "is_host_path s \<longleftrightarrow> starts_with s ''/'' \<or> starts_with s ''.'' \<or> starts_with s ''~''"

definition expand_home :: "vol_host \<Rightarrow> str \<Rightarrow> str" where
  "expand_home h s = (if starts_with s ''~'' then home_var h @ drop 1 s else s)"

definition resolve_mount ::
  "io \<Rightarrow> vol_host \<Rightarrow> str \<Rightarrow> int \<Rightarrow> str \<Rightarrow> volume_file \<Rightarrow> mount_spec res \<times> volume_file" where
  "resolve_mount io h rid now spec f =
     (case split_volume_flag spec of
        Inl e \<Rightarrow> (Inl e, f)
      | Inr (s, d, ro) \<Rightarrow>
          let volume = (\<lambda>r. (map_sum (\<lambda>e. e) (\<lambda>v. \<lparr>m_source = v_mountpoint v, m_destination = d,
                               m_read_only = ro, m_is_volume = True\<rparr>) (fst r), snd r))
          in if s = [] then volume (volume_create io h rid now (plain_volume None) f)
             else if is_host_path s then
               (if contains_str s ''..'' then (Inl (Path_traversal s), f)
                else let p = expand_home h s in
                  if \<not> dir_exists h p \<and> \<not> mkdir_ok h p then (Inl Io_failed, f)
                  else case real_path h p of
                    None \<Rightarrow> (Inl Io_failed, f)
                  | Some c \<Rightarrow> (Inr \<lparr>m_source = c, m_destination = d, m_read_only = ro,
                                  m_is_volume = False\<rparr>, f))
             else case volume_find io s f of
                    Some v \<Rightarrow> volume (Inr v, f)
                  | None \<Rightarrow> volume (volume_create io h rid now (plain_volume (Some s)) f))"

text \<open>\<open>VolumeOps::rename_volume\<close>: the directories are moved before anything is checked in use.\<close>

definition rename_dir :: "vol_host \<Rightarrow> str \<Rightarrow> str" where
  "rename_dir h n = (if starts_with n ''/'' then n else vol_dir h n)"

definition parent_dir :: "str \<Rightarrow> str" where
  "parent_dir p = (case rsplit_once CHR ''/'' p of Some (d, _) \<Rightarrow> d | None \<Rightarrow> p)"

definition volume_rename ::
  "io \<Rightarrow> vol_host \<Rightarrow> container list \<Rightarrow> str \<Rightarrow> int \<Rightarrow> str \<Rightarrow> str \<Rightarrow> volume_file \<Rightarrow>
     (volume res \<times> volume_file) \<times> dir_effect list" where
  "volume_rename io h cs rid now old new f =
     (case volume_find io old f of
        None \<Rightarrow> ((Inl (Not_found old), f), [])
      | Some v \<Rightarrow>
          if volume_find io new f \<noteq> None then ((Inl (Already_exists new), f), [])
          else let nd = rename_dir h new @ ''/_data''; od = v_mountpoint v in
            if \<not> mkdir_ok h (rename_dir h new) then ((Inl Io_failed, f), [])
            else if dir_exists h od \<and> \<not> move_ok h od then ((Inl Io_failed, f), [Make_dir (rename_dir h new)])
            else if \<not> dir_exists h od \<and> \<not> mkdir_ok h nd then ((Inl Io_failed, f), [Make_dir (rename_dir h new)])
            else
              let moved = Make_dir (rename_dir h new) #
                    (if dir_exists h od then [Move_dir od nd, Drop_empty_dir (parent_dir od)]
                     else [Make_dir nd]);
                  removed = volume_remove io h cs old False f;
                  q = \<lparr>vr_name = Some new, vr_driver = v_driver v, vr_labels = v_labels v,
                       vr_scope = v_scope v, vr_options = v_options v\<rparr>
              in case removed of
                   (Inl e, f') \<Rightarrow> ((Inl e, f'), moved)
                 | (Inr r, f') \<Rightarrow>
                     (volume_create io h rid now q f',
                      moved @ remove_dirs h (Inr r) @ create_effects io h rid q f'))"

section \<open>One step of the store\<close>

datatype volume_op =
    Create_volume str int volume_request
  | Remove_volume "container list" str bool
  | Prune_volumes "container list" "volume list"
  | Prune_selected "container list" "volume list" bool "str list"
  | Resolve str int str

datatype volume_reply = Volume volume | Pruned "str list" | Mount mount_spec

definition tagged :: "('a \<Rightarrow> 'b) \<Rightarrow> 'a res \<times> 'f \<Rightarrow> 'b res \<times> 'f" where
  "tagged g r = (map_sum (\<lambda>e. e) g (fst r), snd r)"

lemma tagged_Inr: "tagged g r = (Inr y, f') \<longleftrightarrow> (\<exists>a. r = (Inr a, f') \<and> y = g a)"
  by (cases r; cases "fst r") (auto simp: tagged_def)

lemma tagged_Inl: "tagged g r = (Inl e, f') \<longleftrightarrow> r = (Inl e, f')"
  by (cases r; cases "fst r") (auto simp: tagged_def)

fun volume_step :: "vol_host \<Rightarrow> io \<Rightarrow> volume_op \<Rightarrow> volume_file \<Rightarrow> volume_reply res \<times> volume_file" where
  "volume_step h io (Create_volume rid now q) f = tagged Volume (volume_create io h rid now q f)"
| "volume_step h io (Remove_volume cs n force) f = tagged Volume (volume_remove io h cs n force f)"
| "volume_step h io (Prune_volumes cs b) f = tagged Pruned (volume_prune io h cs b f)"
| "volume_step h io (Prune_selected cs b a fs) f = tagged Pruned (volume_prune_with io h cs b a fs f)"
| "volume_step h io (Resolve rid now spec) f = tagged Mount (resolve_mount io h rid now spec f)"

definition volumes_ok :: "vol_host \<Rightarrow> volume list \<Rightarrow> bool" where
  "volumes_ok h vs \<longleftrightarrow> distinct (map v_name vs) \<and>
     (\<forall>v\<in>set vs. \<not> volume_name_error (v_name v) \<and> v_mountpoint v = mountpoint_of h (v_name v))"

lemma volume_create_Inr:
  assumes "volume_create io h rid now q f = (Inr r, f')"
  shows "f' = Records (load_unlocked f @ [r])" and "v_name r = chosen_name rid (vr_name q)"
    and "\<not> volume_name_error (v_name r)" and "v_name r \<notin> v_name ` set (load_unlocked f)"
    and "v_mountpoint r = mountpoint_of h (v_name r)"
  using assms by (auto simp: volume_create_def Let_def split: if_splits)

lemma volume_create_Inl: "volume_create io h rid now q f = (Inl e, f') \<Longrightarrow> f' = f"
  by (auto simp: volume_create_def Let_def with_index_lock_Inl_iff split: if_splits)

lemma create_keeps_ok:
  "volumes_ok h (load_unlocked f) \<Longrightarrow> volume_create io h rid now q f = (Inr r, f') \<Longrightarrow>
     volumes_ok h (load_unlocked f')"
  using volume_create_Inr [of io h rid now q f r f'] by (auto simp: volumes_ok_def)

lemma volume_remove_Inr:
  "volume_remove io h cs n force f = (Inr r, f') \<Longrightarrow>
     \<exists>i. position (\<lambda>v. v_name v = n) (load_unlocked f) = Some i \<and> r = load_unlocked f ! i \<and>
       f' = Records (remove_at i (load_unlocked f))"
  by (auto simp: volume_remove_def Let_def split: option.splits)

lemma volumes_ok_remove: "volumes_ok h vs \<Longrightarrow> i < length vs \<Longrightarrow> volumes_ok h (remove_at i vs)"
  using set_remove_at_subset [of i vs] by (auto simp: volumes_ok_def distinct_remove_at)

lemma volumes_ok_filter: "volumes_ok h vs \<Longrightarrow> volumes_ok h (filter p vs)"
  by (auto simp: volumes_ok_def distinct_map_filter)

lemma prune_matching_Inr:
  "prune_matching io h cs b sel f = (Inr ns, f') \<Longrightarrow>
     f' = Records (filter (\<lambda>v. \<not> (\<not> volume_in_use h cs b (v_name v) \<and> sel v)) (load_unlocked f))"
  by (auto simp: prune_matching_def Let_def)

lemma resolve_mount_Inr:
  "resolve_mount io h rid now spec f = (Inr m, f') \<Longrightarrow>
     f' = f \<or> (\<exists>q r. volume_create io h rid now q f = (Inr r, f'))"
  by (auto simp: resolve_mount_def Let_def map_sum_def split: sum.splits prod.splits if_splits
      option.splits) (metis prod.collapse)+

lemma volume_step_ok:
  assumes inv: "volumes_ok h (load_unlocked f)" and step: "volume_step h io q f = (Inr y, f')"
  shows "volumes_ok h (load_unlocked f')"
proof (cases q)
  case (Create_volume rid now r)
  then show ?thesis using step inv by (auto simp: tagged_Inr intro: create_keeps_ok)
next
  case (Remove_volume cs n force)
  then show ?thesis using step inv
    by (auto simp: tagged_Inr dest!: volume_remove_Inr intro: volumes_ok_remove [OF _ position_less])
next
  case (Prune_volumes cs b)
  then show ?thesis using step inv
    by (auto simp: tagged_Inr volume_prune_def dest!: prune_matching_Inr intro: volumes_ok_filter)
next
  case (Prune_selected cs b a fs)
  then show ?thesis using step inv
    by (auto simp: tagged_Inr volume_prune_with_def dest!: prune_matching_Inr intro: volumes_ok_filter)
next
  case (Resolve rid now spec)
  then obtain m where "resolve_mount io h rid now spec f = (Inr m, f')" using step by (auto simp: tagged_Inr)
  from resolve_mount_Inr [OF this] show ?thesis using inv create_keeps_ok by blast
qed

lemma volume_step_failed: "volume_step h io q f = (Inl e, f') \<Longrightarrow> f' = f"
proof (cases q)
  case (Resolve rid now spec)
  assume "volume_step h io q f = (Inl e, f')"
  then have "resolve_mount io h rid now spec f = (Inl e, f')" using Resolve by (simp add: tagged_Inl)
  moreover have "snd (volume_create io h rid now r f) = f" if "fst (volume_create io h rid now r f) = Inl x"
    for r x using volume_create_Inl [of io h rid now r f x] that by (metis prod.collapse)
  ultimately show ?thesis
    by (auto simp: resolve_mount_def Let_def map_sum_def split: sum.splits prod.splits if_splits
        option.splits)
qed (auto simp: tagged_Inl volume_remove_def volume_prune_def volume_prune_with_def prune_matching_def
    Let_def with_index_lock_Inl_iff split: option.splits if_splits dest: volume_create_Inl)

interpretation volume_store: index_transactions "volume_step h" "volumes_ok h" for h
  by unfold_locales (fact volume_step_failed volume_step_ok)+

lemma contains_append: "contains_str (a @ p @ b) p"
proof (induction a)
  case Nil
  have "starts_with (p @ b) p" by simp
  then show ?case by (cases "p @ b") auto
next
  case (Cons x xs)
  then show ?case by simp
qed

lemma mountpoint_in_use:
  assumes "v \<in> set vs" and "c \<in> set cs" and "mountpoint_of h (v_name v) \<in> set (mounts_of h c)"
    and "vols_dir h = home @ ''/volumes''"
  shows "volume_in_use h cs vs (v_name v)"
proof -
  have "mountpoint_of h (v_name v) = (home @ ''/'') @ (''volumes/'' @ v_name v @ ''/_data'') @ []"
    by (simp add: mountpoint_of_def assms(4))
  then have "contains_str (mountpoint_of h (v_name v)) (''volumes/'' @ v_name v @ ''/_data'')"
    using contains_append by metis
  then show ?thesis using assms by (auto simp: volume_in_use_def prune_uses_def)
qed

lemma split_volume_flag_safe:
  "split_volume_flag spec = Inr (s, d, ro) \<Longrightarrow> starts_with d ''/'' \<and> \<not> contains_str d ''..''"
  by (auto simp: split_volume_flag_def Let_def split: if_splits option.splits)

lemma volume_find_set: "volume_find io n f = Some v \<Longrightarrow> v \<in> set (load_unlocked f)"
  by (auto simp: volume_find_def find_locked_def split: if_splits dest: find_SomeD)

lemma volume_create_reply:
  "fst (volume_create io h rid now q f) = Inr r \<Longrightarrow> r \<in> set (load_unlocked (snd (volume_create io h rid now q f)))"
  using volume_create_Inr(1) [of io h rid now q f r "snd (volume_create io h rid now q f)"]
  by (metis Un_iff in_set_conv_decomp load_unlocked_simps(3) prod.collapse)

lemma resolve_volume:
  assumes "resolve_mount io h rid now spec f = (Inr m, f')" and "split_volume_flag spec = Inr (s, d, ro)"
    and "\<not> (s \<noteq> [] \<and> is_host_path s)"
  shows "m_is_volume m \<and> m_destination m = d \<and> (\<exists>v\<in>set (load_unlocked f'). m_source m = v_mountpoint v)"
proof (cases "s = []")
  case True
  then show ?thesis using assms
    by (cases "fst (volume_create io h rid now (plain_volume None) f)")
      (auto simp: resolve_mount_def intro!: bexI [OF _ volume_create_reply])
next
  case False
  show ?thesis
  proof (cases "volume_find io s f")
    case None
    then show ?thesis using assms False
      by (cases "fst (volume_create io h rid now (plain_volume (Some s)) f)")
        (auto simp: resolve_mount_def intro!: bexI [OF _ volume_create_reply])
  next
    case (Some v)
    then show ?thesis using assms False volume_find_set [OF Some]
      by (auto simp: resolve_mount_def)
  qed
qed

lemma resolve_host:
  assumes "resolve_mount io h rid now spec f = (Inr m, f')" and "split_volume_flag spec = Inr (s, d, ro)"
    and "s \<noteq> [] \<and> is_host_path s"
  shows "\<not> m_is_volume m \<and> m_destination m = d \<and> is_host_path s \<and> \<not> contains_str s ''..'' \<and>
    real_path h (expand_home h s) = Some (m_source m)"
  using assms by (auto simp: resolve_mount_def Let_def split: if_splits option.splits)

lemma volume_find_io_good: "volume_find io_good n f = find (\<lambda>v. v_name v = n) (load_unlocked f)"
  by (simp add: volume_find_def find_locked_def)

lemma volumes_ok_find:
  "volumes_ok h (load_unlocked f) \<Longrightarrow> v \<in> set (load_unlocked f) \<Longrightarrow> v_name v = n \<Longrightarrow>
     volume_find io_good n f = Some v"
  by (auto simp: volume_find_io_good volumes_ok_def intro!: find_unique dest: inj_onD [OF distinct_map [THEN iffD1, THEN conjunct2]])

lemma volume_find_absent: "n \<notin> v_name ` set (load_unlocked f) \<Longrightarrow> volume_find io_good n f = None"
  by (auto simp: volume_find_io_good find_None_iff_all)

lemma volumes_ok_new:
  "volumes_ok h (load_unlocked f) \<Longrightarrow> volume_name_error n \<Longrightarrow> volume_find io_good n f = None"
  by (rule volume_find_absent) (auto simp: volumes_ok_def)

lemma rename_removes:
  assumes "volumes_ok h (load_unlocked f)" and "v \<in> set (load_unlocked f)" and "v_name v = n"
    and "user_of h n cs = None"
  shows "\<exists>f'. volume_remove io_good h cs n False f = (Inr v, f') \<and> n \<notin> v_name ` set (load_unlocked f')"
proof -
  have "find (\<lambda>x. v_name x = n) (load_unlocked f) = Some v"
    using volumes_ok_find [OF assms(1-3)] by (simp add: volume_find_io_good)
  then obtain i where i: "position (\<lambda>x. v_name x = n) (load_unlocked f) = Some i" "load_unlocked f ! i = v"
    using position_find by metis
  have "n \<notin> v_name ` set (remove_at i (load_unlocked f))"
    using by_key_remove_at [of v_name "load_unlocked f" i] position_less [OF i(1)] i(2) assms
    by (auto simp: volumes_ok_def dom_by_key [symmetric] domIff)
  then show ?thesis using i assms(4) by (simp add: volume_remove_def Let_def)
qed

lemma rename_invalid:
  "volume_name_error n \<Longrightarrow> trim n = n \<Longrightarrow> n \<noteq> [] \<Longrightarrow> vr_name q = Some n \<Longrightarrow>
     volume_create io_good h rid now q f = (Inl (Invalid_name n), f)"
  by (simp add: volume_create_def Let_def chosen_name_def)

section \<open>Properties\<close>

text \<open>
  In every index reached by creations, removals, prunings and mount resolutions under any
  failures, volume names are unique, are single path components (no separator, no \<open>..\<close>), and
  each mount point is the name's data directory inside the volumes directory.
\<close>

theorem volume_names_are_components:
  "volumes_ok h (load_unlocked (run_requests (volume_step h) qs Missing))"
  by (rule volume_store.run_from_empty) (simp add: volumes_ok_def)

text \<open>
  C8. Pruning, with or without filters, keeps every volume that was listed when the mounts
  were collected and whose mount point is among the mount sources that the \<open>config.json\<close> of some
  listed container records. A volume a container mounts with \<open>-v\<close> is not recorded there, and is not
  spared by this.
\<close>

theorem prune_spares_mounted:
  assumes "prune_matching io h cs before sel f = (Inr pruned, f')" and "v \<in> set (load_unlocked f)"
    and "v \<in> set before" and "c \<in> set cs" and "mountpoint_of h (v_name v) \<in> set (mounts_of h c)"
    and "vols_dir h = home @ ''/volumes''"
  shows "v \<in> set (load_unlocked f')"
  using prune_matching_Inr [OF assms(1)] mountpoint_in_use [OF assms(3-6)] assms(2) by simp

definition sample_volume :: "str \<Rightarrow> volume" where
  "sample_volume n = \<lparr>v_name = n, v_driver = ''local'', v_mountpoint = ''/h/volumes/'' @ n @ ''/_data'',
     v_created_at = 0, v_labels = [], v_scope = ''local'', v_options = []\<rparr>"

definition sample_host :: vol_host where
  "sample_host = \<lparr>vols_dir = ''/h/volumes'', mkdir_ok = \<lambda>_. True, inside = \<lambda>_. True,
     dir_exists = \<lambda>_. True, move_ok = \<lambda>_. True,
     mounts_of = \<lambda>c. if c_id c = ''c1'' then [''/h/volumes/db/_data''] else [],
     real_path = Some, home_var = ''/root''\<rparr>"

lemma sample_name: "\<not> volume_name_error ''db''"
  by code_simp

lemma sample_ok: "volumes_ok sample_host [sample_volume ''db'']"
  using sample_name by (simp add: volumes_ok_def sample_volume_def sample_host_def mountpoint_of_def)

theorem prune_spares_mounted_witness:
  "\<exists>pruned f'. volume_prune io_good sample_host [sample_container ''c1'' ''web'']
      [sample_volume ''db'', sample_volume ''tmp''] (Records [sample_volume ''db'', sample_volume ''tmp'']) =
      (Inr pruned, f') \<and> sample_volume ''db'' \<in> set (load_unlocked f')"
proof -
  let ?vs = "[sample_volume ''db'', sample_volume ''tmp'']"
  obtain pruned f' where p: "prune_matching io_good sample_host [sample_container ''c1'' ''web''] ?vs
      (\<lambda>_. True) (Records ?vs) = (Inr pruned, f')"
    by (simp add: prune_matching_def Let_def)
  have "mountpoint_of sample_host (v_name (sample_volume ''db'')) \<in>
      set (mounts_of sample_host (sample_container ''c1'' ''web''))"
    by (simp add: mountpoint_of_def sample_host_def sample_volume_def sample_container_def)
  from prune_spares_mounted [OF p, of "sample_volume ''db''" "sample_container ''c1'' ''web''" "''/h''"] this
  have "sample_volume ''db'' \<in> set (load_unlocked f')" by (simp add: sample_host_def)
  with p show ?thesis by (auto simp: volume_prune_def)
qed

text \<open>
  A volume created after the mounts were collected and before the lock was taken is
  pruned, its directory too, whatever containers mount it by then; and when the index cannot
  be saved, the directories of all pruned volumes are gone while the index still lists them.
\<close>

theorem prune_misses_new_volumes:
  assumes "v \<in> set (load_unlocked f)" and "v_name v \<notin> v_name ` set before"
    and "lock_ok io" and "dir_exists h (vol_dir h (v_name v))"
  shows "Drop_dir (vol_dir h (v_name v)) \<in> set (prune_dirs io h cs before (\<lambda>_. True) f) \<and>
    (v \<in> set (load_unlocked (snd (volume_prune io h cs before f))) \<longleftrightarrow> \<not> save_ok io)"
proof -
  have unused: "\<not> volume_in_use h cs before (v_name v)"
    using assms(2) by (auto simp: volume_in_use_def image_iff)
  then have "Drop_dir (vol_dir h (v_name v)) \<in> set (prune_dirs io h cs before (\<lambda>_. True) f)"
    using assms by (auto simp: prune_dirs_def intro!: image_eqI [where x = v])
  then show ?thesis using unused assms
    by (simp add: volume_prune_def prune_matching_def with_index_lock_def commit_def save_unlocked_def Let_def)
qed

theorem prune_misses_new_volumes_witness:
  "let c = sample_container ''c1'' ''web''; f = Records [sample_volume ''db''] in
   mounts_of sample_host c = [''/h/volumes/db/_data''] \<and>
   snd (volume_prune io_good sample_host [c] [] f) = Records []"
proof -
  have "sample_volume ''db'' \<notin> set (load_unlocked (snd (volume_prune io_good sample_host
      [sample_container ''c1'' ''web''] [] (Records [sample_volume ''db'']))))"
    using prune_misses_new_volumes [of "sample_volume ''db''" "Records [sample_volume ''db'']" "[]" io_good
        sample_host "[sample_container ''c1'' ''web'']"]
    by (simp add: sample_host_def)
  then show ?thesis
    by (simp add: Let_def volume_prune_def prune_matching_def sample_host_def sample_container_def
        split: if_splits)
qed

text \<open>
  C9. A resolved mount has an absolute destination without \<open>..\<close>; a mount of a host path was
  given without \<open>..\<close>, and any other mount is the mount point of a volume.
\<close>

theorem resolved_mounts_are_safe:
  assumes "resolve_mount io h rid now spec f = (Inr m, f')"
  shows "starts_with (m_destination m) ''/'' \<and> \<not> contains_str (m_destination m) ''..'' \<and>
    (if m_is_volume m then \<exists>v\<in>set (load_unlocked f'). m_source m = v_mountpoint v
     else \<exists>s. is_host_path s \<and> \<not> contains_str s ''..'' \<and>
       real_path h (expand_home h s) = Some (m_source m))"
proof -
  obtain s d ro where sp: "split_volume_flag spec = Inr (s, d, ro)"
    using assms by (cases "split_volume_flag spec") (auto simp: resolve_mount_def)
  have "if m_is_volume m then \<exists>v\<in>set (load_unlocked f'). m_source m = v_mountpoint v
     else \<exists>s. is_host_path s \<and> \<not> contains_str s ''..'' \<and>
       real_path h (expand_home h s) = Some (m_source m)" and "m_destination m = d"
    using resolve_volume [OF assms sp] resolve_host [OF assms sp] by (cases "s \<noteq> [] \<and> is_host_path s"; auto)+
  then show ?thesis using split_volume_flag_safe [OF sp] by simp
qed

theorem resolved_mounts_are_safe_witness:
  "fst (resolve_mount io_good sample_host ''r'' 0 ''db:/data:ro'' (Records [sample_volume ''db''])) =
     Inr \<lparr>m_source = ''/h/volumes/db/_data'', m_destination = ''/data'', m_read_only = True, m_is_volume = True\<rparr> \<and>
   starts_with ''/data'' ''/''"
proof -
  have r: "resolve_mount io_good sample_host ''r'' 0 ''db:/data:ro'' (Records [sample_volume ''db'']) =
     (Inr \<lparr>m_source = ''/h/volumes/db/_data'', m_destination = ''/data'', m_read_only = True,
        m_is_volume = True\<rparr>, Records [sample_volume ''db''])"
    by code_simp
  show ?thesis using resolved_mounts_are_safe [OF r] r by simp
qed

text \<open>
  Renaming a volume to a name that is not a path component (one with a separator, say)
  fails, and by then the volume is gone from the index and its data has been moved.
\<close>

theorem failed_rename_drops_volume:
  assumes "volumes_ok h (load_unlocked f)" and "v \<in> set (load_unlocked f)" and "v_name v = old"
    and "volume_name_error new" and "trim new = new" and "new \<noteq> []"
    and "user_of h old cs = None" and "mkdir_ok h (rename_dir h new)"
    and "dir_exists h (v_mountpoint v)" and "move_ok h (v_mountpoint v)"
  shows "\<exists>f' effects. volume_rename io_good h cs rid now old new f = ((Inl (Invalid_name new), f'), effects) \<and>
    old \<notin> v_name ` set (load_unlocked f') \<and>
    Move_dir (v_mountpoint v) (rename_dir h new @ ''/_data'') \<in> set effects"
  using assms rename_removes [of h f v old cs] rename_invalid [where n = new]
  by (auto simp: volume_rename_def volumes_ok_find volumes_ok_new Let_def)

text \<open>
  Renaming a volume that a container uses fails and leaves the index alone, but its data
  directory has been moved by then, so the index names a directory that is gone.
\<close>

theorem rename_in_use_moves_data:
  assumes "volumes_ok h (load_unlocked f)" and "v \<in> set (load_unlocked f)" and "v_name v = old"
    and "new \<notin> v_name ` set (load_unlocked f)"
    and "user_of h old cs = Some c" and "mkdir_ok h (rename_dir h new)"
    and "dir_exists h (v_mountpoint v)" and "move_ok h (v_mountpoint v)"
  shows "\<exists>effects. volume_rename io_good h cs rid now old new f = ((Inl (In_use old (c_id c)), f), effects) \<and>
    Move_dir (v_mountpoint v) (rename_dir h new @ ''/_data'') \<in> set effects"
  using assms by (simp add: volume_rename_def volumes_ok_find volume_find_absent volume_remove_def Let_def)

theorem failed_rename_drops_volume_witness:
  "\<exists>f' effects. volume_rename io_good sample_host [] ''r'' 0 ''db'' ''a/b''
      (Records [sample_volume ''db'']) = ((Inl (Invalid_name ''a/b''), f'), effects) \<and>
    ''db'' \<notin> v_name ` set (load_unlocked f')"
proof -
  let ?f = "Records [sample_volume ''db'']"
  have "volumes_ok sample_host (load_unlocked ?f)" by (simp add: sample_ok)
  moreover have "volume_name_error ''a/b''" by (simp add: volume_name_error_def contains_char_def)
  moreover have "trim ''a/b'' = ''a/b''" by code_simp
  moreover have "v_name (sample_volume ''db'') = ''db''" "user_of sample_host ''db'' [] = None"
    "\<And>x. mkdir_ok sample_host x" "\<And>x. dir_exists sample_host x" "\<And>x. move_ok sample_host x"
    by (simp_all add: sample_volume_def user_of_def sample_host_def)
  ultimately show ?thesis
    using failed_rename_drops_volume [of sample_host ?f "sample_volume ''db''" "''db''" "''a/b''" "[]" "''r''" 0]
    by auto
qed

theorem rename_in_use_moves_data_witness:
  "\<exists>effects. volume_rename io_good sample_host [sample_container ''c1'' ''web''] ''r'' 0 ''db'' ''db2''
      (Records [sample_volume ''db'']) = ((Inl (In_use ''db'' ''c1''), Records [sample_volume ''db'']), effects) \<and>
    Move_dir ''/h/volumes/db/_data'' ''/h/volumes/db2/_data'' \<in> set effects"
proof -
  let ?f = "Records [sample_volume ''db'']" and ?c = "sample_container ''c1'' ''web''"
  have "volumes_ok sample_host (load_unlocked ?f)" by (simp add: sample_ok)
  moreover have "user_of sample_host ''db'' [?c] = Some ?c" by code_simp
  ultimately show ?thesis
    using rename_in_use_moves_data [of sample_host ?f "sample_volume ''db''" "''db''" "''db2''" "[?c]" ?c "''r''" 0]
    by (simp add: sample_host_def sample_volume_def sample_container_def rename_dir_def vol_dir_def starts_with_def)
qed

end
