(* ===== verification/Lifecycle.thy ===== *)
theory Lifecycle
  imports Guardrails Volume_Store
begin

text \<open>
  The life of a container as the commands drive it: \<open>stop\<close>, \<open>start\<close>, \<open>restart\<close>, \<open>pause\<close>,
  \<open>unpause\<close>, \<open>wait\<close>, \<open>kill\<close>, \<open>rm\<close> and \<open>container prune\<close> (\<open>src/lib.rs\<close>,
  \<open>src/runtime/kill.rs\<close>) on the container index, with the signals, deletions, freezes and
  events of each as a list of effects in order.

  What the host answers is an argument: the files of a bundle and which processes are alive,
  at the moment the code asks. Waiting polls; the polls are a list, each with the host as it is
  then and what others do to the index during the sleep that follows.

  Shown: every command moves the status of a container along the edges of one state machine;
  a signal name and its number agree; what \<open>wait\<close> reports; what pruning keeps; and three
  places where the commands disagree with each other.
\<close>

section \<open>Signals\<close>

definition signal_table :: "(str \<times> int) list" where
  "signal_table =
     [(''HUP'', 1), (''1'', 1), (''INT'', 2), (''2'', 2), (''QUIT'', 3), (''3'', 3), (''KILL'', 9),
      (''9'', 9), (''USR1'', 10), (''10'', 10), (''USR2'', 12), (''12'', 12), (''TERM'', 15),
      (''15'', 15), (''CONT'', 18), (''18'', 18), (''STOP'', 19), (''19'', 19)]"

definition parse_signal :: "str \<Rightarrow> int res" where
  "parse_signal sig_str =
     (let upper = to_uppercase (trim sig_str); stripped = unwrap_or (strip_prefix ''SIG'' upper) upper in
      case map_of signal_table stripped of
        Some n \<Rightarrow> Inr n
      | None \<Rightarrow>
          (case parse_signed 32 stripped of
             Some n \<Rightarrow> if 1 \<le> n \<and> n \<le> 64 then Inr n else Inl (Invalid_signal stripped)
           | None \<Rightarrow> Inl (Invalid_signal sig_str)))"

definition signal_char :: "char \<Rightarrow> bool" where
  "signal_char c \<longleftrightarrow> is_ascii_upper c \<or> is_ascii_digit c"

lemma signal_char_upper:
  assumes "signal_char c"
  shows "to_upper_char c = [c]" and "to_upper_char (to_lower_char c) = [c]"
    and "\<not> is_whitespace c" and "\<not> is_whitespace (to_lower_char c)"
  using assms by (auto simp: signal_char_def char_class_defs of_char_of)

lemma signal_word:
  assumes "list_all signal_char s"
  shows "to_uppercase (trim s) = s" and "to_uppercase (trim (to_lowercase s)) = s"
proof -
  have t: "trim s = s" "trim (to_lowercase s) = to_lowercase s"
    using assms signal_char_upper(3,4) by (auto simp: to_lowercase_def list_all_iff intro!: trim_no_ws)
  have "concat (map to_upper_char s) = s" "concat (map (to_upper_char \<circ> to_lower_char) s) = s"
    using assms by (induction s) (auto simp: signal_char_upper)
  then show "to_uppercase (trim s) = s" "to_uppercase (trim (to_lowercase s)) = s"
    using t by (simp_all add: to_uppercase_def to_lowercase_def)
qed

lemma signal_names: "list_all (\<lambda>(name, n). list_all signal_char name) signal_table"
  by (simp add: signal_table_def signal_char_def is_ascii_upper_def is_ascii_digit_def ord_def)

lemma signal_lookup:
  "list_all (\<lambda>(name, n). map_of signal_table name = Some n \<and> strip_prefix ''SIG'' name = None) signal_table"
  by (simp add: signal_table_def strip_prefix_def starts_with_def)

lemma sig_prefix: "list_all signal_char ''SIG''"
  by (simp add: signal_char_def is_ascii_upper_def ord_def)

lemma signal_bounds: "list_all (\<lambda>(name, n). 1 \<le> n \<and> n \<le> 64) signal_table"
  by (simp add: signal_table_def)

lemma parse_signal_name:
  assumes "(name, n) \<in> set signal_table"
  shows "parse_signal name = Inr n" and "parse_signal (''SIG'' @ name) = Inr n"
    and "parse_signal (to_lowercase (''SIG'' @ name)) = Inr n"
proof -
  have w: "list_all signal_char name" and l: "map_of signal_table name = Some n" "strip_prefix ''SIG'' name = None"
    using assms signal_names signal_lookup by (auto simp: list_all_iff)
  then have v: "list_all signal_char (''SIG'' @ name)" using sig_prefix by simp
  show "parse_signal name = Inr n" using signal_word [OF w] l by (simp add: parse_signal_def Let_def)
  show "parse_signal (''SIG'' @ name) = Inr n" "parse_signal (to_lowercase (''SIG'' @ name)) = Inr n"
    using signal_word [OF v] l strip_prefix_append [of "''SIG''" name] by (simp_all add: parse_signal_def Let_def)
qed

section \<open>Control groups\<close>

text \<open>\<open>detect_cgroup_root\<close> and \<open>new\<close> of \<open>CgroupV2Manager\<close>: the container's cgroup directory.\<close>

definition user_slice :: "nat \<Rightarrow> str" where
  "user_slice uid = ''user.slice/user-'' @ show_nat uid @ ''.slice/user@'' @ show_nat uid @ ''.service''"

definition detect_cgroup_root :: "nat \<Rightarrow> (str \<Rightarrow> bool) \<Rightarrow> str" where
  "detect_cgroup_root uid present =
     (let slice = ''/sys/fs/cgroup/'' @ user_slice uid; unified = ''/sys/fs/cgroup/unified/'' @ user_slice uid
      in if uid \<noteq> 0 \<and> present slice then slice
         else if uid \<noteq> 0 \<and> present unified then unified
         else if present ''/sys/fs/cgroup'' then ''/sys/fs/cgroup''
         else ''/tmp/boxr-cgroup'')"

definition container_cgroup :: "nat \<Rightarrow> (str \<Rightarrow> bool) \<Rightarrow> str \<Rightarrow> str" where
  "container_cgroup uid present cid = detect_cgroup_root uid present @ ''/boxr/'' @ cid"

section \<open>Kill\<close>

record kill_host =
  bundle_text :: "str \<Rightarrow> str \<Rightarrow> str option"
  cgroup_procs :: "str \<Rightarrow> str option"

definition kill_cgroup :: "str \<Rightarrow> str" where
  "kill_cgroup cid = ''/sys/fs/cgroup/boxr/'' @ cid"

definition pid_signals :: "kill_host \<Rightarrow> str \<Rightarrow> int \<Rightarrow> str \<Rightarrow> effect list" where
  "pid_signals h bundle sig file =
     (case bundle_text h bundle file of
        None \<Rightarrow> []
      | Some t \<Rightarrow>
          (case parse_signed 32 (trim t) of
             Some pid \<Rightarrow> if pid > 1 then [Signal pid sig] else []
           | None \<Rightarrow> []))"

definition cgroup_signals :: "kill_host \<Rightarrow> str \<Rightarrow> int \<Rightarrow> effect list" where
  "cgroup_signals h cid sig =
     (case cgroup_procs h (kill_cgroup cid) of
        None \<Rightarrow> []
      | Some t \<Rightarrow> concat (map (\<lambda>l. case parse_signed 32 (trim l) of
                                 Some pid \<Rightarrow> [Signal pid sig] | None \<Rightarrow> []) (lines t)))"

definition is_fatal :: "int \<Rightarrow> bool" where
  "is_fatal sig \<longleftrightarrow> sig = 9 \<or> sig = 15 \<or> sig = 2 \<or> sig = 3"

definition killer_kill ::
  "io \<Rightarrow> kill_host \<Rightarrow> container \<Rightarrow> str option \<Rightarrow> container_file \<Rightarrow> (unit res \<times> container_file) \<times> effect list" where
  "killer_kill io h c signal f =
     (case (case signal of None \<Rightarrow> Inr 9 | Some s \<Rightarrow> parse_signal s) of
        Inl e \<Rightarrow> ((Inl e, f), [])
      | Inr sig \<Rightarrow>
          ((Inr (), if is_fatal sig then snd (update_status io (c_id c) (Exited (128 + sig)) f) else f),
           pid_signals h (c_bundle_path c) sig ''vm.pid'' @
           pid_signals h (c_bundle_path c) sig ''container.pid'' @
           cgroup_signals h (c_id c) sig @ [Record_event ''kill'' (c_id c) (c_name c)]))"

definition kill_container ::
  "io \<Rightarrow> kill_host \<Rightarrow> str \<Rightarrow> str option \<Rightarrow> container_file \<Rightarrow> (unit res \<times> container_file) \<times> effect list" where
  "kill_container io h query signal f =
     (case container_find io query f of
        None \<Rightarrow> ((Inl (Not_found query), f), [])
      | Some c \<Rightarrow> killer_kill io h c signal f)"

section \<open>Stop, start and restart\<close>

text \<open>The reaper on the container index: \<open>ProcessReaper::reap_stale_containers\<close>.\<close>

definition reap_index :: "io \<Rightarrow> reap_host \<Rightarrow> container_file \<Rightarrow> nat \<times> effect list \<times> container_file" where
  "reap_index io h f =
     reap_stale_containers (container_list io) (\<lambda>i s f. snd (update_status io i s f)) h f"

definition stop_signal :: "str option \<Rightarrow> int" where
  "stop_signal signal =
     (case signal of
        None \<Rightarrow> SIGTERM
      | Some s \<Rightarrow> (case parse_signal s of Inr n \<Rightarrow> n | Inl _ \<Rightarrow> SIGTERM))"

definition stop_effects :: "bundle_host \<Rightarrow> int \<Rightarrow> str \<Rightarrow> effect list" where
  "stop_effects h sig bundle =
     concat (map (kill_pid h sig) (bundle_pids h bundle)) @
     [Remove_file bundle ''vm.pid'', Remove_file bundle ''container.pid'']"

definition stop_container ::
  "io \<Rightarrow> bundle_host \<Rightarrow> reap_host \<Rightarrow> str \<Rightarrow> str option \<Rightarrow> container_file \<Rightarrow>
     (unit res \<times> container_file) \<times> effect list" where
  "stop_container io h rh query signal f =
     (case container_find io query f of
        None \<Rightarrow> ((Inl (Not_found query), f), [])
      | Some c \<Rightarrow>
          let es = stop_effects h (stop_signal signal) (c_bundle_path c) in
          case update_status io (c_id c) (Exited 0) f of
            (Inl e, f') \<Rightarrow> ((Inl e, f'), es)
          | (Inr _, f') \<Rightarrow>
              (case reap_index io rh f' of (_, es', f'') \<Rightarrow> ((Inr (), f''), es @ es')))"

text \<open>
  \<open>start\<close>: reading the bundle's specification, executing it and waiting for its published
  ports are the host's.
\<close>

record start_host =
  spec_ok :: "str \<Rightarrow> bool"
  execute_bundle :: "container \<Rightarrow> int res"
  ports_ok :: "port_mapping list \<Rightarrow> bool"

definition start_container :: "io \<Rightarrow> start_host \<Rightarrow> str \<Rightarrow> container_file \<Rightarrow> unit res \<times> container_file" where
  "start_container io h query f =
     (case container_find io query f of
        None \<Rightarrow> (Inl (Not_found query), f)
      | Some c \<Rightarrow>
          if \<not> spec_ok h (c_bundle_path c) then (Inl Io_failed, f)
          else case update_status io (c_id c) Running f of
            (Inl e, f') \<Rightarrow> (Inl e, f')
          | (Inr _, f') \<Rightarrow>
              (case execute_bundle h c of
                 Inl e \<Rightarrow> (Inl e, f')
               | Inr _ \<Rightarrow>
                   if c_ports c \<noteq> [] \<and> \<not> ports_ok h (c_ports c) then (Inl Io_failed, f')
                   else (Inr (), f')))"

definition restart_container ::
  "io \<Rightarrow> bundle_host \<Rightarrow> reap_host \<Rightarrow> start_host \<Rightarrow> str \<Rightarrow> container_file \<Rightarrow>
     (unit res \<times> container_file) \<times> effect list" where
  "restart_container io h rh sh query f =
     (case stop_container io h rh query None f of
        ((_, f'), es) \<Rightarrow> (start_container io sh query f', es))"

section \<open>Pause and unpause\<close>

definition switch_container ::
  "io \<Rightarrow> bool \<Rightarrow> str \<Rightarrow> container_file \<Rightarrow> (unit res \<times> container_file) \<times> effect list" where
  "switch_container io pausing query f =
     (case container_find io query f of
        None \<Rightarrow> ((Inl (Not_found query), f), [])
      | Some c \<Rightarrow>
          if c_status c \<noteq> (if pausing then Running else Paused)
          then ((Inl (if pausing then Not_running query else Not_paused query), f), [])
          else case update_status io (c_id c) (if pausing then Paused else Running) f of
            (Inl e, f') \<Rightarrow> ((Inl e, f'), [Set_frozen (c_id c) pausing])
          | (Inr _, f') \<Rightarrow>
              ((Inr (), f'), [Set_frozen (c_id c) pausing,
                 Record_event (if pausing then ''pause'' else ''unpause'') (c_id c) (c_name c)]))"

text \<open>The loop over the containers of the command, which stops at the first failure.\<close>

fun each_container ::
  "(str \<Rightarrow> 'f \<Rightarrow> (unit res \<times> 'f) \<times> effect list) \<Rightarrow> str list \<Rightarrow> 'f \<Rightarrow>
     (unit res \<times> 'f) \<times> effect list" where
  "each_container op [] f = ((Inr (), f), [])"
| "each_container op (q # qs) f =
     (case op q f of
        ((Inl e, f'), es) \<Rightarrow> ((Inl e, f'), es)
      | ((Inr _, f'), es) \<Rightarrow>
          (case each_container op qs f' of (r, es') \<Rightarrow> (r, es @ es')))"

definition pause_container ::
  "io \<Rightarrow> str list \<Rightarrow> container_file \<Rightarrow> (unit res \<times> container_file) \<times> effect list" where
  "pause_container io qs = each_container (switch_container io True) qs"

definition unpause_container ::
  "io \<Rightarrow> str list \<Rightarrow> container_file \<Rightarrow> (unit res \<times> container_file) \<times> effect list" where
  "unpause_container io qs = each_container (switch_container io False) qs"

section \<open>Wait\<close>

record wait_host =
  exit_text :: "str \<Rightarrow> str option"
  vm_pid :: "str \<Rightarrow> str option"
  process_alive :: "int \<Rightarrow> bool"

datatype poll = Finished "int res" container_file | Keep_waiting

definition exit_code_file :: "wait_host \<Rightarrow> str \<Rightarrow> int option" where
  "exit_code_file h bundle =
     (case exit_text h (bundle @ ''/rootfs/boxr-exitcode'') of
        None \<Rightarrow> None
      | Some t \<Rightarrow> parse_signed 32 (trim t))"

definition vm_running :: "wait_host \<Rightarrow> str \<Rightarrow> bool" where
  "vm_running h bundle =
     (case vm_pid h bundle of
        None \<Rightarrow> False
      | Some t \<Rightarrow> (case parse_signed 32 (trim t) of Some pid \<Rightarrow> process_alive h pid | None \<Rightarrow> False))"

definition wait_poll :: "io \<Rightarrow> wait_host \<Rightarrow> str \<Rightarrow> container_file \<Rightarrow> poll" where
  "wait_poll io h query f =
     (case container_find io query f of
        None \<Rightarrow> Finished (Inl (Not_found query)) f
      | Some c \<Rightarrow>
          let over = (\<lambda>code. Finished (Inr code) (snd (update_status io (c_id c) (Exited code) f))) in
          (case c_status c of
             Exited code \<Rightarrow> Finished (Inr code) f
           | Failed _ \<Rightarrow> Finished (Inr 1) f
           | _ \<Rightarrow>
               (case exit_code_file h (c_bundle_path c) of
                  Some code \<Rightarrow> over code
                | None \<Rightarrow> if vm_running h (c_bundle_path c) then Keep_waiting else over 137)))"

text \<open>
  The loop for one container over what happens at each poll: \<open>None\<close> when the polls are used
  up and it still waits. The rest of the polls is left for the next container.
\<close>

type_synonym polls = "(wait_host \<times> (container_file \<Rightarrow> container_file)) list"

fun wait_one :: "io \<Rightarrow> str \<Rightarrow> polls \<Rightarrow> container_file \<Rightarrow> ((int res \<times> container_file) \<times> polls) option" where
  "wait_one io query [] f = None"
| "wait_one io query ((h, others) # ps) f =
     (case wait_poll io h query f of
        Finished r f' \<Rightarrow> Some ((r, f'), ps)
      | Keep_waiting \<Rightarrow> wait_one io query ps (others f))"

fun wait_container :: "io \<Rightarrow> str list \<Rightarrow> int \<Rightarrow> polls \<Rightarrow> container_file \<Rightarrow> (int res \<times> container_file) option" where
  "wait_container io [] last_code ps f = Some (Inr last_code, f)"
| "wait_container io (q # qs) last_code ps f =
     (case wait_one io q ps f of
        None \<Rightarrow> None
      | Some ((Inl e, f'), _) \<Rightarrow> Some (Inl e, f')
      | Some ((Inr code, f'), ps') \<Rightarrow> wait_container io qs code ps' f')"

section \<open>Removal and pruning\<close>

definition rm_uses :: "str \<Rightarrow> str \<Rightarrow> bool" where
  "rm_uses n src \<longleftrightarrow> contains_str src (''volumes/'' @ n @ ''/_data'') \<or>
     contains_str src (''volumes/'' @ n) \<or> src = n"

text \<open>\<open>rm -v\<close>: for each mount source, every volume it seems to use is removed by force.\<close>

definition remove_used :: "io \<Rightarrow> vol_host \<Rightarrow> str \<Rightarrow> volume_file \<Rightarrow> volume_file" where
  "remove_used io h src f =
     foldl (\<lambda>g v. if rm_uses (v_name v) src then snd (volume_remove io h [] (v_name v) True g) else g)
       f (list_locked io f)"

definition remove_mounted_volumes :: "io \<Rightarrow> vol_host \<Rightarrow> container \<Rightarrow> volume_file \<Rightarrow> volume_file" where
  "remove_mounted_volumes io h c f = foldl (\<lambda>g src. remove_used io h src g) f (mounts_of h c)"

definition is_active :: "container \<Rightarrow> bool" where
  "is_active c \<longleftrightarrow> c_status c = Running \<or> c_status c = Paused"

definition remove_container_opts ::
  "io \<Rightarrow> bundle_host \<Rightarrow> reap_host \<Rightarrow> vol_host \<Rightarrow> str \<Rightarrow> bool \<Rightarrow> bool \<Rightarrow> container_file \<Rightarrow> volume_file \<Rightarrow>
     (unit res \<times> container_file \<times> volume_file) \<times> effect list" where
  "remove_container_opts io h rh vh query force rm_volumes f vf =
     (case container_find io query f of
        None \<Rightarrow> ((Inl (Not_found query), f, vf), [])
      | Some c \<Rightarrow>
          if is_active c \<and> \<not> force then ((Inl (Still_active (c_id c)), f, vf), [])
          else
            let (f1, es1) = (if is_active c
                   then (case stop_container io h rh query None f of ((_, f1), es1) \<Rightarrow> (f1, es1))
                   else (f, []));
                vf1 = (if rm_volumes then remove_mounted_volumes io vh c vf else vf)
            in case container_remove io h query f1 of
                 (Inl e, f2) \<Rightarrow> ((Inl e, f2, vf1), es1)
               | (Inr (_, es2), f2) \<Rightarrow>
                   (case reap_index io rh f2 of
                      (_, es3, f3) \<Rightarrow> ((Inr (), f3, vf1), es1 @ es2 @ es3)))"

definition remove_container ::
  "io \<Rightarrow> bundle_host \<Rightarrow> reap_host \<Rightarrow> vol_host \<Rightarrow> str \<Rightarrow> bool \<Rightarrow> container_file \<Rightarrow> volume_file \<Rightarrow>
     (unit res \<times> container_file \<times> volume_file) \<times> effect list" where
  "remove_container io h rh vh query force f vf =
     remove_container_opts io h rh vh query force False f vf"

fun prune_each :: "io \<Rightarrow> bundle_host \<Rightarrow> container list \<Rightarrow> container_file \<Rightarrow> str list \<times> effect list \<times> container_file" where
  "prune_each io h [] f = ([], [], f)"
| "prune_each io h (c # cs) f =
     (if c_status c = Running then prune_each io h cs f
      else
        let (es, f') = (case container_remove io h (c_id c) f of
                          (Inr (_, es), f') \<Rightarrow> (es, f') | (Inl _, f') \<Rightarrow> ([], f'))
        in case prune_each io h cs f' of (ids, es', f'') \<Rightarrow> (c_id c # ids, es @ es', f''))"

definition prune_containers ::
  "io \<Rightarrow> bundle_host \<Rightarrow> reap_host \<Rightarrow> container_file \<Rightarrow> str list \<times> effect list \<times> container_file" where
  "prune_containers io h rh f =
     (case prune_each io h (container_list io f) f of
        (ids, es, f') \<Rightarrow> (case reap_index io rh f' of (_, es', f'') \<Rightarrow> (ids, es @ es', f'')))"

section \<open>The state machine\<close>

datatype command =
    Stop_cmd bundle_host reap_host str "str option" | Start_cmd start_host str | Pause_cmd str
  | Unpause_cmd str | Kill_cmd kill_host str "str option" | Wait_cmd wait_host str | Reap_cmd reap_host

fun after_poll :: "container_file \<Rightarrow> poll \<Rightarrow> container_file" where
  "after_poll f (Finished _ f') = f'"
| "after_poll f Keep_waiting = f"

fun run_command :: "io \<Rightarrow> command \<Rightarrow> container_file \<Rightarrow> container_file" where
  "run_command io (Stop_cmd h rh q sig) f = snd (fst (stop_container io h rh q sig f))"
| "run_command io (Start_cmd h q) f = snd (start_container io h q f)"
| "run_command io (Pause_cmd q) f = snd (fst (switch_container io True q f))"
| "run_command io (Unpause_cmd q) f = snd (fst (switch_container io False q f))"
| "run_command io (Kill_cmd h q sig) f = snd (fst (kill_container io h q sig f))"
| "run_command io (Wait_cmd h q) f = after_poll f (wait_poll io h q f)"
| "run_command io (Reap_cmd h) f = snd (snd (reap_index io h f))"

text \<open>The edges each command may move a container along.\<close>

inductive may_become :: "command \<Rightarrow> container_status \<Rightarrow> container_status \<Rightarrow> bool" where
  stopped: "may_become (Stop_cmd h rh q sig) s (Exited 0)"
| reaped_on_stop: "may_become (Stop_cmd h rh q sig) Running (Exited n)"
| started: "may_become (Start_cmd sh q) s Running"
| paused: "may_become (Pause_cmd q) Running Paused"
| unpaused: "may_become (Unpause_cmd q) Paused Running"
| killed: "sig \<in> {2, 3, 9, 15} \<Longrightarrow> may_become (Kill_cmd kh q so) s (Exited (128 + sig))"
| waited: "s \<in> {Created, Running, Paused} \<Longrightarrow> may_become (Wait_cmd wh q) s (Exited n)"
| reaped: "may_become (Reap_cmd rh) Running (Exited n)"

inductive_cases may_becomeE: "may_become k s t"

definition moves :: "(container_status \<Rightarrow> container_status \<Rightarrow> bool) \<Rightarrow> container list \<Rightarrow> container list \<Rightarrow> bool" where
  "moves R cs ds \<longleftrightarrow> list_all2 (\<lambda>c d. d = c\<lparr>c_status := c_status d\<rparr> \<and>
     (c_status d = c_status c \<or> R (c_status c) (c_status d))) cs ds"

lemma moves_refl [simp]: "moves R cs cs"
  by (simp add: moves_def list.rel_refl)

lemma moves_map:
  "(\<And>c. c \<in> set cs \<Longrightarrow> g c = c\<lparr>c_status := c_status (g c)\<rparr> \<and>
      (c_status (g c) = c_status c \<or> R (c_status c) (c_status (g c)))) \<Longrightarrow> moves R cs (map g cs)"
  unfolding moves_def list.rel_map by (rule list.rel_refl_strong)

lemma moves_ids: "moves R cs ds \<Longrightarrow> map c_id ds = map c_id cs \<and> map c_name ds = map c_name cs"
  unfolding moves_def
proof (induction rule: list_all2_induct)
  case (Cons c cs d ds)
  have "c_id d = c_id c" "c_name d = c_name c" using Cons.hyps(1) by (cases c, cases d, simp)+
  then show ?case using Cons.IH by simp
qed simp

lemma moves_reapable:
  "moves R (load_unlocked f) (load_unlocked f') \<Longrightarrow> reapable f \<Longrightarrow> reapable f'"
  using ids_apart_frame [of "load_unlocked f'" "load_unlocked f"]
  by (auto simp: reapable_def containers_ok_def dest!: moves_ids)

lemma moves_mono: "moves R cs ds \<Longrightarrow> (\<And>s t. R s t \<Longrightarrow> S s t) \<Longrightarrow> moves S cs ds"
  unfolding moves_def by (erule list_all2_mono) blast

lemma io_cases: "io = io_good \<or> \<not> lock_ok io \<or> \<not> save_ok io"
  by (cases io) (auto simp: io_good_def)

lemma update_status_failed:
  "\<not> lock_ok io \<or> \<not> save_ok io \<Longrightarrow> snd (update_status io i s f) = f \<and> fst (update_status io i s f) \<noteq> Inr ()"
  by (auto simp: update_status_def change_first_def with_index_lock_def commit_def save_unlocked_def Let_def
      split: option.splits)

lemma find_reapable: "container_find io q f = Some c \<Longrightarrow> c \<in> set (load_unlocked f)"
  by (auto simp: container_find_def find_locked_def Let_def split: if_splits dest: find_SomeD)

text \<open>Setting a status by the id of a listed container, under any failures.\<close>

lemma set_status_cases:
  assumes "reapable f" and "c \<in> set (load_unlocked f)"
  obtains "snd (update_status io (c_id c) s f) = f" and "fst (update_status io (c_id c) s f) \<noteq> Inr ()"
  | "io = io_good" and "update_status io (c_id c) s f =
      (Inr (), Records (map (\<lambda>d. if c_id d = c_id c then d\<lparr>c_status := s\<rparr> else d) (load_unlocked f)))"
  using update_status_by_id [of f "c_id c" s] update_status_failed [of io "c_id c" s f] io_cases [of io] assms
  by auto

lemma moves_one:
  assumes "reapable f" and "c \<in> set (load_unlocked f)" and "R (c_status c) s"
  shows "moves R (load_unlocked f)
    (map (\<lambda>d. if c_id d = c_id c then d\<lparr>c_status := s\<rparr> else d) (load_unlocked f))"
proof (rule moves_map)
  fix d assume d: "d \<in> set (load_unlocked f)"
  have "d = c" if "c_id d = c_id c"
    using assms(1,2) d that by (auto simp: reapable_def containers_ok_def distinct_map dest: inj_onD)
  then show "(if c_id d = c_id c then d\<lparr>c_status := s\<rparr> else d) =
      d\<lparr>c_status := c_status (if c_id d = c_id c then d\<lparr>c_status := s\<rparr> else d)\<rparr> \<and>
      (c_status (if c_id d = c_id c then d\<lparr>c_status := s\<rparr> else d) = c_status d \<or>
       R (c_status d) (c_status (if c_id d = c_id c then d\<lparr>c_status := s\<rparr> else d)))"
    using assms(3) by (cases "c_id d = c_id c") auto
qed

lemma moves_set_status:
  assumes "reapable f" and "c \<in> set (load_unlocked f)" and "R (c_status c) s"
  shows "moves R (load_unlocked f) (load_unlocked (snd (update_status io (c_id c) s f)))"
  by (rule set_status_cases [OF assms(1,2), of io s]) (simp_all add: moves_one [of f c R s, OF assms])

lemma reap_noop:
  "(\<And>i s. set_status i s st = st) \<Longrightarrow> snd (snd (reap_each set_status h cs st)) = st"
  by (induction cs) (auto split: prod.splits)

lemma reap_index_listing:
  assumes "reapable f"
  shows "load_unlocked (snd (snd (reap_index io h f))) = load_unlocked f \<or>
    load_unlocked (snd (snd (reap_index io h f))) = map (reaped h) (load_unlocked f)"
proof (cases "io = io_good")
  case True
  then show ?thesis using reaper.reap_listing(1) [OF assms, of h]
    by (simp add: reap_index_def reap_stale_containers_def container_list_def list_locked_def)
next
  case False
  then have "snd (update_status io i s g) = g" for i s g using io_cases update_status_failed by blast
  then show ?thesis by (simp add: reap_index_def reap_stale_containers_def reap_noop)
qed

lemma moves_reap:
  assumes "reapable f" and "\<And>n. R Running (Exited n)"
  shows "moves R (load_unlocked f) (load_unlocked (snd (snd (reap_index io h f))))"
proof -
  have "moves R (load_unlocked f) (map (reaped h) (load_unlocked f))"
    by (rule moves_map) (auto simp: reaped_def stale_def assms(2))
  then show ?thesis using reap_index_listing [OF assms(1), of io h] by auto
qed

text \<open>Stopping sets one status and reaps the others.\<close>

lemma stop_listing:
  assumes "container_find io q f = Some c" and "reapable f"
  shows "load_unlocked (snd (fst (stop_container io h rh q sig f))) = load_unlocked f \<or>
    (\<exists>g. reapable g \<and>
      load_unlocked g = map (\<lambda>d. if c_id d = c_id c then d\<lparr>c_status := Exited 0\<rparr> else d) (load_unlocked f) \<and>
      snd (fst (stop_container io h rh q sig f)) = snd (snd (reap_index io rh g)))"
proof -
  have c: "c \<in> set (load_unlocked f)" by (rule find_reapable [OF assms(1)])
  show ?thesis
  proof (rule set_status_cases [OF assms(2) c, of io "Exited 0"])
    assume "snd (update_status io (c_id c) (Exited 0) f) = f" "fst (update_status io (c_id c) (Exited 0) f) \<noteq> Inr ()"
    then show ?thesis using assms(1)
      by (cases "update_status io (c_id c) (Exited 0) f"; cases "fst (update_status io (c_id c) (Exited 0) f)")
        (auto simp: stop_container_def Let_def)
  next
    let ?g = "Records (map (\<lambda>d. if c_id d = c_id c then d\<lparr>c_status := Exited 0\<rparr> else d) (load_unlocked f))"
    assume u: "update_status io (c_id c) (Exited 0) f = (Inr (), ?g)"
    have "reapable ?g"
      using moves_reapable [of "\<lambda>_ _. True" f ?g] moves_one [OF assms(2) c, of "\<lambda>_ _. True"] assms(2) by simp
    moreover have "snd (fst (stop_container io h rh q sig f)) = snd (snd (reap_index io rh ?g))"
      using u assms(1) by (simp add: stop_container_def Let_def split: prod.splits)
    ultimately show ?thesis by auto
  qed
qed

lemma moves_stop:
  assumes "reapable f" and "\<And>s. R s (Exited 0)" and "\<And>n. R Running (Exited n)"
  shows "moves R (load_unlocked f) (load_unlocked (snd (fst (stop_container io h rh q sig f))))"
proof (cases "container_find io q f")
  case None
  then show ?thesis by (simp add: stop_container_def)
next
  case (Some c)
  let ?set = "\<lambda>d. if c_id d = c_id c then d\<lparr>c_status := Exited 0\<rparr> else d"
  have one: "moves R (load_unlocked f) (map ?set (load_unlocked f))"
    using moves_one [of f c R "Exited 0"] assms(1,2) find_reapable [OF Some] by simp
  have "moves R (load_unlocked f) (map (reaped rh) (map ?set (load_unlocked f)))"
    unfolding map_map o_def by (rule moves_map) (auto simp: reaped_def stale_def assms)
  then show ?thesis
    using stop_listing [OF Some assms(1), of h rh sig] reap_index_listing [of _ io rh] one by fastforce
qed

lemma moves_start:
  assumes "reapable f" and "\<And>s. R s Running"
  shows "moves R (load_unlocked f) (load_unlocked (snd (start_container io h q f)))"
proof (cases "container_find io q f")
  case (Some c)
  have "snd (start_container io h q f) = f \<or>
      snd (start_container io h q f) = snd (update_status io (c_id c) Running f)"
    using Some by (auto simp: start_container_def split: prod.splits sum.splits)
  then show ?thesis using moves_set_status [of f c R Running io] find_reapable [OF Some] assms by auto
qed (simp add: start_container_def)

lemma moves_switch:
  assumes "reapable f" and "R (if pausing then Running else Paused) (if pausing then Paused else Running)"
  shows "moves R (load_unlocked f) (load_unlocked (snd (fst (switch_container io pausing q f))))"
proof (cases "container_find io q f")
  case (Some c)
  let ?from = "if pausing then Running else Paused" and ?to = "if pausing then Paused else Running"
  have "snd (fst (switch_container io pausing q f)) = f \<or> (c_status c = ?from \<and>
      snd (fst (switch_container io pausing q f)) = snd (update_status io (c_id c) ?to f))"
    using Some by (auto simp: switch_container_def split: prod.splits sum.splits)
  then show ?thesis using moves_set_status [of f c R ?to io] find_reapable [OF Some] assms by auto
qed (simp add: switch_container_def)

lemma moves_kill:
  assumes "reapable f" and "\<And>s sig. sig \<in> {2, 3, 9, 15} \<Longrightarrow> R s (Exited (128 + sig))"
  shows "moves R (load_unlocked f) (load_unlocked (snd (fst (kill_container io h q so f))))"
proof (cases "container_find io q f")
  case (Some c)
  have "snd (fst (kill_container io h q so f)) = f \<or> (\<exists>sig\<in>{2, 3, 9, 15}.
      snd (fst (kill_container io h q so f)) = snd (update_status io (c_id c) (Exited (128 + sig)) f))"
    using Some by (auto simp: kill_container_def killer_kill_def is_fatal_def split: sum.splits)
  then show ?thesis
    using moves_set_status [of f c R _ io] find_reapable [OF Some] assms by (metis moves_refl)
qed (simp add: kill_container_def)

lemma moves_wait:
  assumes "reapable f" and "\<And>s n. s \<in> {Created, Running, Paused} \<Longrightarrow> R s (Exited n)"
  shows "moves R (load_unlocked f) (load_unlocked (after_poll f (wait_poll io h q f)))"
proof (cases "container_find io q f")
  case (Some c)
  have "after_poll f (wait_poll io h q f) = f \<or> (c_status c \<in> {Created, Running, Paused} \<and>
      (\<exists>n. after_poll f (wait_poll io h q f) = snd (update_status io (c_id c) (Exited n) f)))"
    using Some by (auto simp: wait_poll_def Let_def split: container_status.splits option.splits)
  then show ?thesis
    using moves_set_status [of f c R _ io] find_reapable [OF Some] assms by (metis moves_refl)
qed (simp add: wait_poll_def)

lemma run_command_moves:
  assumes "reapable f"
  shows "moves (may_become k) (load_unlocked f) (load_unlocked (run_command io k f))"
proof (cases k)
  case (Wait_cmd h q)
  then show ?thesis using moves_wait [of f "may_become k" io h q] assms by (auto intro: may_become.intros)
next
  case (Kill_cmd h q s)
  then show ?thesis using moves_kill [of f "may_become k" io h q s] assms by (auto intro: may_become.intros)
next
  case (Pause_cmd q)
  then show ?thesis using moves_switch [of f "may_become k" True io q] assms by (auto intro: may_become.intros)
next
  case (Unpause_cmd q)
  then show ?thesis using moves_switch [of f "may_become k" False io q] assms by (auto intro: may_become.intros)
qed (use assms in \<open>auto intro: moves_stop moves_start moves_switch moves_reap may_become.intros\<close>)

section \<open>Pruning and removal\<close>

lemma remove_at_filter:
  assumes "distinct (map k xs)" and "i < length xs"
  shows "remove_at i xs = filter (\<lambda>x. k x \<noteq> k (xs ! i)) xs"
proof -
  obtain ys zs where xs: "xs = ys @ xs ! i # zs" and r: "remove_at i xs = ys @ zs"
    using remove_at_split [OF assms(2)] by metis
  have d: "distinct (map k (ys @ xs ! i # zs))" using assms(1) xs by simp
  then have "k x \<noteq> k (xs ! i)" if "x \<in> set ys \<union> set zs" for x
    using that by (auto simp: image_iff)
  then have "filter (\<lambda>x. k x \<noteq> k (xs ! i)) (ys @ xs ! i # zs) = ys @ zs" by simp
  then show ?thesis using xs r by simp
qed

definition proper_ids :: "container list \<Rightarrow> bool" where
  "proper_ids cs \<longleftrightarrow> (\<forall>c\<in>set cs. c_id c \<noteq> [] \<and> trim (c_id c) = c_id c)"

lemma find_own_id:
  assumes "reapable f" and "c \<in> set (load_unlocked f)"
  shows "find (c_matches (c_id c)) (load_unlocked f) = Some c"
proof (rule containers.find_by_ident [OF assms(2)])
  have apart: "ids_apart (load_unlocked f)" and ok: "containers_ok (load_unlocked f)"
    using assms(1) by (simp_all add: reapable_def)
  show "distinct (map c_id (load_unlocked f))" using ok by (simp add: containers_ok_def)
  show "length (c_id d) = length (c_id c)" if "d \<in> set (load_unlocked f)" for d
    using apart assms(2) that unfolding ids_apart_def by blast
  show "c_name d \<noteq> c_id c" if "d \<in> set (load_unlocked f)" for d
    using apart assms(2) that unfolding ids_apart_def by blast
qed

lemma remove_own_id:
  assumes "reapable f" and "c \<in> set (load_unlocked f)" and "proper_ids (load_unlocked f)"
  shows "container_remove io_good h (c_id c) f = (Inr (c, clean_bundle h (c_bundle_path c)),
    Records (filter (\<lambda>d. c_id d \<noteq> c_id c) (load_unlocked f)))"
proof -
  obtain i where i: "position (c_matches (c_id c)) (load_unlocked f) = Some i" "load_unlocked f ! i = c"
    using position_find [OF find_own_id [OF assms(1,2)]] by auto
  have "remove_at i (load_unlocked f) = filter (\<lambda>d. c_id d \<noteq> c_id c) (load_unlocked f)"
    using remove_at_filter [of c_id "load_unlocked f" i] i position_less [OF i(1)] assms(1)
    by (simp add: reapable_def containers_ok_def)
  moreover have "trim (c_id c) = c_id c" "c_id c \<noteq> []" using assms(2,3) by (auto simp: proper_ids_def)
  ultimately show ?thesis using i by (simp add: container_remove_def Let_def)
qed

lemma reapable_filter: "reapable f \<Longrightarrow> reapable (Records (filter p (load_unlocked f)))"
  by (auto simp: reapable_def containers_ok_def ids_apart_def distinct_map_filter)

lemma prune_each_all:
  assumes "reapable f" and "proper_ids (load_unlocked f)"
    and "set cs \<subseteq> set (load_unlocked f)" and "distinct (map c_id cs)"
  shows "fst (prune_each io_good h cs f) = map c_id (filter (\<lambda>c. c_status c \<noteq> Running) cs) \<and>
    load_unlocked (snd (snd (prune_each io_good h cs f))) =
      filter (\<lambda>d. c_id d \<notin> c_id ` {c \<in> set cs. c_status c \<noteq> Running}) (load_unlocked f) \<and>
    reapable (snd (snd (prune_each io_good h cs f)))"
  using assms
proof (induction cs arbitrary: f)
  case (Cons c cs)
  show ?case
  proof (cases "c_status c = Running")
    case True
    then have "{x \<in> set (c # cs). c_status x \<noteq> Running} = {x \<in> set cs. c_status x \<noteq> Running}" by auto
    then show ?thesis using Cons True by simp
  next
    case False
    let ?f = "Records (filter (\<lambda>d. c_id d \<noteq> c_id c) (load_unlocked f))"
    have r: "container_remove io_good h (c_id c) f = (Inr (c, clean_bundle h (c_bundle_path c)), ?f)"
      using remove_own_id [OF Cons.prems(1) _ Cons.prems(2)] Cons.prems(3) by simp
    have "set cs \<subseteq> set (load_unlocked ?f)" using Cons.prems(3,4) by (auto simp: image_iff)
    then have "fst (prune_each io_good h cs ?f) = map c_id (filter (\<lambda>c. c_status c \<noteq> Running) cs) \<and>
      load_unlocked (snd (snd (prune_each io_good h cs ?f))) =
        filter (\<lambda>d. c_id d \<notin> c_id ` {c \<in> set cs. c_status c \<noteq> Running}) (load_unlocked ?f) \<and>
      reapable (snd (snd (prune_each io_good h cs ?f)))"
      using Cons.prems reapable_filter [OF Cons.prems(1)]
      by (intro Cons.IH) (auto simp: proper_ids_def)
    moreover have "filter (\<lambda>d. c_id d \<notin> c_id ` {x \<in> set cs. c_status x \<noteq> Running}) (load_unlocked ?f) =
        filter (\<lambda>d. c_id d \<notin> c_id ` {x \<in> set (c # cs). c_status x \<noteq> Running}) (load_unlocked f)"
      using False by (auto simp: filter_filter intro!: filter_cong)
    ultimately show ?thesis using False r by (simp add: Let_def case_prod_unfold)
  qed
qed simp

lemma prune_listing:
  assumes "reapable f" and "proper_ids (load_unlocked f)"
  shows "fst (prune_containers io_good h rh f) = map c_id (filter (\<lambda>c. c_status c \<noteq> Running) (load_unlocked f))"
    and "load_unlocked (snd (snd (prune_containers io_good h rh f))) =
      map (reaped rh) (filter (\<lambda>c. c_status c = Running) (load_unlocked f))"
proof -
  let ?cs = "load_unlocked f"
  have all: "container_list io_good f = ?cs" by (simp add: container_list_def list_locked_def)
  have p: "fst (prune_each io_good h ?cs f) = map c_id (filter (\<lambda>c. c_status c \<noteq> Running) ?cs)"
    "load_unlocked (snd (snd (prune_each io_good h ?cs f))) =
      filter (\<lambda>d. c_id d \<notin> c_id ` {c \<in> set ?cs. c_status c \<noteq> Running}) ?cs"
    "reapable (snd (snd (prune_each io_good h ?cs f)))"
    using prune_each_all [OF assms, of ?cs h] assms(1) by (auto simp: reapable_def containers_ok_def)
  have inj: "inj_on c_id (set ?cs)" using assms(1) by (simp add: reapable_def containers_ok_def distinct_map)
  have "filter (\<lambda>d. c_id d \<notin> c_id ` {c \<in> set ?cs. c_status c \<noteq> Running}) ?cs =
      filter (\<lambda>c. c_status c = Running) ?cs"
    by (rule filter_cong) (use inj in \<open>auto dest: inj_onD\<close>)
  then have l: "load_unlocked (snd (snd (prune_each io_good h ?cs f))) = filter (\<lambda>c. c_status c = Running) ?cs"
    using p(2) by simp
  show "fst (prune_containers io_good h rh f) = map c_id (filter (\<lambda>c. c_status c \<noteq> Running) ?cs)"
    using p(1) all by (simp add: prune_containers_def case_prod_unfold)
  show "load_unlocked (snd (snd (prune_containers io_good h rh f))) =
      map (reaped rh) (filter (\<lambda>c. c_status c = Running) ?cs)"
    using reaper.reap_listing(1) [OF p(3), of rh] l all
    by (simp add: prune_containers_def reap_index_def reap_stale_containers_def container_list_def
        list_locked_def case_prod_unfold)
qed

lemma volume_gone:
  assumes "distinct (map v_name (load_unlocked f))"
  shows "load_unlocked (snd (volume_remove io_good h [] n True f)) =
    filter (\<lambda>v. v_name v \<noteq> n) (load_unlocked f)"
proof (cases "position (\<lambda>v. v_name v = n) (load_unlocked f)")
  case None
  then have "\<forall>v\<in>set (load_unlocked f). v_name v \<noteq> n" by (simp add: find_None_iff_all)
  then have "filter (\<lambda>v. v_name v \<noteq> n) (load_unlocked f) = load_unlocked f" by simp
  then show ?thesis using None by (simp add: volume_remove_def Let_def del: position_None_iff)
next
  case (Some i)
  have "v_name (load_unlocked f ! i) = n" using position_holds [OF Some] by simp
  then show ?thesis
    using Some remove_at_filter [OF assms position_less [OF Some]] by (simp add: volume_remove_def Let_def)
qed

lemma remove_used_filter:
  "distinct (map v_name (load_unlocked g)) \<Longrightarrow>
   load_unlocked (foldl (\<lambda>g v. if rm_uses (v_name v) src then snd (volume_remove io_good h [] (v_name v) True g)
       else g) g vs) =
     filter (\<lambda>v. \<not> (v_name v \<in> v_name ` set vs \<and> rm_uses (v_name v) src)) (load_unlocked g)"
proof (induction vs arbitrary: g)
  case (Cons w vs)
  let ?g = "if rm_uses (v_name w) src then snd (volume_remove io_good h [] (v_name w) True g) else g"
  have l: "load_unlocked ?g = filter (\<lambda>v. \<not> (v_name v = v_name w \<and> rm_uses (v_name v) src)) (load_unlocked g)"
    using volume_gone [OF Cons.prems, of h "v_name w"] by (auto intro: filter_cong)
  then have "distinct (map v_name (load_unlocked ?g))" using Cons.prems by (simp add: distinct_map_filter)
  from Cons.IH [OF this] l show ?case by (auto simp: filter_filter intro!: filter_cong)
qed simp

lemma remove_used_listing:
  assumes "distinct (map v_name (load_unlocked f))"
  shows "load_unlocked (remove_used io_good h src f) =
    filter (\<lambda>v. \<not> rm_uses (v_name v) src) (load_unlocked f)"
  using remove_used_filter [OF assms, of src h "load_unlocked f"]
  by (auto simp: remove_used_def list_locked_def intro!: filter_cong)

lemma remove_mounted_listing:
  assumes "distinct (map v_name (load_unlocked f))"
  shows "load_unlocked (foldl (\<lambda>g src. remove_used io_good h src g) f srcs) =
    filter (\<lambda>v. \<forall>src\<in>set srcs. \<not> rm_uses (v_name v) src) (load_unlocked f)"
  using assms
proof (induction srcs arbitrary: f)
  case (Cons s srcs)
  have l: "load_unlocked (remove_used io_good h s f) = filter (\<lambda>v. \<not> rm_uses (v_name v) s) (load_unlocked f)"
    by (rule remove_used_listing [OF Cons.prems])
  then have "distinct (map v_name (load_unlocked (remove_used io_good h s f)))"
    using Cons.prems by (simp add: distinct_map_filter)
  from Cons.IH [OF this] l show ?case by (auto simp: filter_filter intro!: filter_cong)
qed simp

lemma wait_poll_dead: "(\<And>b. \<not> vm_running h b) \<Longrightarrow> wait_poll io h q f \<noteq> Keep_waiting"
  by (auto simp: wait_poll_def Let_def split: option.splits container_status.splits)

lemma wait_one_returns:
  "(h, others) \<in> set ps \<Longrightarrow> (\<And>b. \<not> vm_running h b) \<Longrightarrow> wait_one io q ps f \<noteq> None"
proof (induction ps arbitrary: f)
  case (Cons p ps)
  obtain h1 g1 where p: "p = (h1, g1)" by fastforce
  show ?case
  proof (cases "wait_poll io h1 q f")
    case Keep_waiting
    then have "(h, others) \<in> set ps" using Cons.prems p wait_poll_dead by (metis prod.inject set_ConsD)
    then show ?thesis using Cons.IH [OF _ Cons.prems(2)] p Keep_waiting by simp
  qed (simp add: p)
qed simp

lemma wait_one_result:
  "wait_one io q ps f = Some ((Inl e, f'), ps') \<Longrightarrow> e = Not_found q"
  by (induction ps arbitrary: f)
    (auto simp: wait_poll_def Let_def split: poll.splits option.splits container_status.splits if_splits)

lemma wait_poll_found:
  assumes "container_find io q f = Some c" and "c_status c \<in> {Created, Running, Paused}"
    and "exit_code_file h (c_bundle_path c) = None" and "\<not> vm_running h (c_bundle_path c)"
  shows "wait_poll io h q f = Finished (Inr 137) (snd (update_status io (c_id c) (Exited 137) f))"
  using assms by (auto simp: wait_poll_def Let_def)

section \<open>Properties\<close>

text \<open>
  Commands look a container up by what they were given and then write to what its id finds. When
  another container is named like that id, the other one is written: pausing a running container
  marks one as paused that has exited, and the container asked for stays recorded as running.
\<close>

lemma pause_hits_namesake:
  "let cs = [(sample_container ''aa11'' ''bb22'')\<lparr>c_status := Exited 0\<rparr>,
             (sample_container ''bb22'' ''db'')\<lparr>c_status := Running\<rparr>]
   in containers_ok cs \<and>
      map c_status (load_unlocked (run_command io_good (Pause_cmd ''db'') (Records cs))) = [Paused, Running]"
  by code_simp

text \<open>
  C3. On an index whose ids are distinct and of one length and where no container is named like an
  id of the index, whatever fails, each command moves the status of any container only along its own
  edges of the life cycle and leaves everything else of the record alone: \<open>stop\<close> to exited with 0
  (its reaper from running to exited), \<open>start\<close> to running, \<open>pause\<close> from running to paused,
  \<open>unpause\<close> back, a fatal \<open>kill\<close> to exited with 128 plus the signal, \<open>wait\<close> from any
  state that has not ended to exited. The index stays such an index. The condition on names is
  needed, see \<open>pause_hits_namesake\<close>: \<open>rename\<close> and \<open>--name\<close> accept the id of another container.
\<close>

theorem commands_follow_lifecycle:
  assumes "reapable f"
  shows "moves (may_become k) (load_unlocked f) (load_unlocked (run_command io k f)) \<and>
    reapable (run_command io k f)"
  using run_command_moves [OF assms] moves_reapable [OF run_command_moves [OF assms] assms] by simp

definition sample_file :: container_file where
  "sample_file = Records [sample_container ''c1'' ''web'', (sample_container ''c2'' ''db'')\<lparr>c_status := Running\<rparr>]"

lemma sample_reapable: "reapable sample_file"
  by (simp add: sample_file_def reapable_def containers_ok_def ids_apart_def sample_container_def)

theorem commands_follow_lifecycle_witness:
  "reapable (run_command io_good (Pause_cmd ''db'') sample_file) \<and>
   map c_status (load_unlocked (run_command io_good (Pause_cmd ''db'') sample_file)) =
     [c_status (sample_container ''c1'' ''web''), Paused]"
proof -
  have "map c_status (load_unlocked (run_command io_good (Pause_cmd ''db'') sample_file)) =
     [c_status (sample_container ''c1'' ''web''), Paused]" by code_simp
  then show ?thesis using commands_follow_lifecycle [OF sample_reapable, of "Pause_cmd ''db''" io_good] by simp
qed

text \<open>
  Every signal name is accepted with and without \<open>SIG\<close> and in lower case, and with its
  own number; whatever is accepted is a number from 1 to 64.
\<close>

theorem signals_parse:
  "list_all (\<lambda>(name, n). parse_signal name = Inr n \<and> parse_signal (''SIG'' @ name) = Inr n \<and>
      parse_signal (to_lowercase (''SIG'' @ name)) = Inr n) signal_table \<and>
   (case parse_signal s of Inr n \<Rightarrow> 1 \<le> n \<and> n \<le> 64 | Inl _ \<Rightarrow> True)"
proof -
  have "1 \<le> n \<and> n \<le> 64" if "map_of signal_table x = Some n" for x n
    using signal_bounds map_of_SomeD [OF that] by (auto simp: list_all_iff)
  then have "case parse_signal s of Inr n \<Rightarrow> 1 \<le> n \<and> n \<le> 64 | Inl _ \<Rightarrow> True"
    by (auto simp: parse_signal_def Let_def split: option.splits)
  then show ?thesis using parse_signal_name by (auto simp: list_all_iff)
qed

text \<open>
  Pruning containers deletes exactly those that are not running, the paused ones among
  them, and then reaps the rest.
\<close>

theorem prune_keeps_running:
  assumes "reapable f" and "proper_ids (load_unlocked f)"
  shows "fst (prune_containers io_good h rh f) = map c_id (filter (\<lambda>c. c_status c \<noteq> Running) (load_unlocked f)) \<and>
    load_unlocked (snd (snd (prune_containers io_good h rh f))) =
      map (reaped rh) (filter (\<lambda>c. c_status c = Running) (load_unlocked f))"
  using prune_listing [OF assms] by simp

definition idle_host :: bundle_host where
  "idle_host = \<lparr>bundle_exists = \<lambda>_. False, pid_text = \<lambda>_ _. None, still_alive = \<lambda>_. False\<rparr>"

definition live_host :: reap_host where
  "live_host = \<lparr>pid_file = \<lambda>_ _. Some ''77'', alive = \<lambda>_. True, exit_file = \<lambda>_. None\<rparr>"

theorem prune_keeps_running_witness:
  "fst (prune_containers io_good idle_host live_host
      (Records [(sample_container ''c1'' ''web'')\<lparr>c_status := Paused\<rparr>])) = [''c1'']"
proof -
  let ?f = "Records [(sample_container ''c1'' ''web'')\<lparr>c_status := Paused\<rparr>]"
  have "reapable ?f"
    by (simp add: reapable_def containers_ok_def ids_apart_def sample_container_def)
  moreover have "proper_ids (load_unlocked ?f)" by code_simp
  ultimately show ?thesis
    using prune_keeps_running [of ?f idle_host live_host] by (simp add: sample_container_def)
qed

text \<open>
  Waiting for a container returns as soon as a poll finds no recorded VM process alive (or
  earlier), and it fails only because the container is not found.
\<close>

theorem wait_returns:
  assumes "(h, others) \<in> set ps" and "\<And>b. \<not> vm_running h b"
  shows "\<exists>r f' rest. wait_one io q ps f = Some ((r, f'), rest) \<and>
    (case r of Inr _ \<Rightarrow> True | Inl e \<Rightarrow> e = Not_found q)"
proof -
  obtain r f' rest where w: "wait_one io q ps f = Some ((r, f'), rest)"
    using wait_one_returns [OF assms] by (metis not_Some_eq prod.collapse)
  then show ?thesis using wait_one_result by (auto split: sum.splits)
qed

definition dead_host :: wait_host where
  "dead_host = \<lparr>exit_text = \<lambda>_. None, vm_pid = \<lambda>_. None, process_alive = \<lambda>_. False\<rparr>"

theorem wait_returns_witness:
  "\<exists>r f' rest. wait_one io_good ''db'' [(dead_host, \<lambda>f. f)] sample_file = Some ((r, f'), rest)"
proof -
  have "\<not> vm_running dead_host b" for b by (simp add: vm_running_def dead_host_def)
  then show ?thesis
    using wait_returns [of dead_host "\<lambda>f. f" "[(dead_host, \<lambda>f. f)]" io_good "''db''" sample_file] by auto
qed

text \<open>
  \<open>wait\<close> looks for the exit code below the root file system of the bundle and for the VM's
  process only; the reaper looks in the bundle and for the container's process too. So a
  running container of which the bundle holds code \<open>n\<close> and no VM process is alive is recorded
  by \<open>wait\<close> as exited with 137, even while its own process is alive, when the reaper would
  leave it running or record \<open>n\<close>.
\<close>

theorem wait_and_reaper_disagree:
  assumes "reapable f" and "container_find io_good q f = Some c" and "c_status c = Running"
    and "exit_text h (c_bundle_path c @ ''/rootfs/boxr-exitcode'') = None"
    and "vm_pid h (c_bundle_path c) = None"
  shows "(\<exists>f'. wait_poll io_good h q f = Finished (Inr 137) f' \<and>
      c\<lparr>c_status := Exited 137\<rparr> \<in> set (load_unlocked f')) \<and>
    (if container_alive rh c then c else c\<lparr>c_status := Exited (exit_code_of rh c)\<rparr>) \<in>
      set (load_unlocked (snd (snd (reap_index io_good rh f))))"
proof -
  have c: "c \<in> set (load_unlocked f)" by (rule find_reapable [OF assms(2)])
  have "update_status io_good (c_id c) (Exited 137) f = (Inr (), Records (map (\<lambda>d. if c_id d = c_id c
      then d\<lparr>c_status := Exited 137\<rparr> else d) (load_unlocked f)))"
    by (rule update_status_by_id) (use assms(1) c in auto)
  then have "\<exists>f'. wait_poll io_good h q f = Finished (Inr 137) f' \<and>
      c\<lparr>c_status := Exited 137\<rparr> \<in> set (load_unlocked f')"
    using wait_poll_found [OF assms(2), of h] assms c
    by (auto simp: exit_code_file_def vm_running_def image_iff intro!: bexI [of _ c])
  moreover have "reaped rh c = (if container_alive rh c then c else c\<lparr>c_status := Exited (exit_code_of rh c)\<rparr>)"
    using assms(3) by (simp add: reaped_def stale_def)
  then have "(if container_alive rh c then c else c\<lparr>c_status := Exited (exit_code_of rh c)\<rparr>) \<in>
      set (load_unlocked (snd (snd (reap_index io_good rh f))))"
    using reaper.reap_listing(1) [OF assms(1), of rh] c
    by (simp add: reap_index_def reap_stale_containers_def container_list_def list_locked_def)
      (metis image_eqI)
  ultimately show ?thesis by blast
qed

theorem wait_and_reaper_disagree_witness:
  "\<exists>f'. wait_poll io_good dead_host ''db'' sample_file = Finished (Inr 137) f' \<and>
     container_alive live_host ((sample_container ''c2'' ''db'')\<lparr>c_status := Running\<rparr>)"
proof -
  let ?c = "(sample_container ''c2'' ''db'')\<lparr>c_status := Running\<rparr>"
  have "trim ''db'' = ''db''" by code_simp
  then have f: "container_find io_good ''db'' sample_file = Some ?c"
    by (simp add: container_find_def find_locked_def sample_file_def c_matches_def sample_container_def starts_with_def)
  have "trim ''77'' = ''77''" by code_simp
  then have "parse_signed 32 (trim ''77'') = Some 77"
    by (simp add: parse_signed_def parse_unsigned_def drop_plus_def is_ascii_digit_def is_whitespace_def ord_def)
  then have "container_alive live_host ?c"
    by (simp add: container_alive_def check_pid_alive_def live_host_def)
  then show ?thesis
    using wait_and_reaper_disagree [OF sample_reapable f, of dead_host live_host] by (auto simp: dead_host_def)
qed

text \<open>
  Removing a container with its volumes deletes every volume whose name is a prefix of the
  name of a volume it mounts, used by other containers or not: the test is a substring.
\<close>

theorem rm_volumes_takes_prefixes:
  assumes "volumes_ok h (load_unlocked f)" and "vols_dir h = home @ ''/volumes''"
    and "mountpoint_of h (n @ rest) \<in> set (mounts_of h c)"
  shows "n \<notin> v_name ` set (load_unlocked (remove_mounted_volumes io_good h c f))"
proof -
  have "mountpoint_of h (n @ rest) = (home @ ''/'') @ (''volumes/'' @ n) @ (rest @ ''/_data'')"
    by (simp add: mountpoint_of_def assms(2))
  then have "rm_uses n (mountpoint_of h (n @ rest))"
    unfolding rm_uses_def using contains_append by metis
  then show ?thesis
    using remove_mounted_listing [of f h "mounts_of h c"] assms(1,3)
    by (auto simp: remove_mounted_volumes_def volumes_ok_def)
qed

theorem rm_volumes_takes_prefixes_witness:
  "''d'' \<notin> v_name ` set (load_unlocked (remove_mounted_volumes io_good sample_host
     (sample_container ''c1'' ''web'') (Records [sample_volume ''db'', sample_volume ''d''])))"
proof (rule rm_volumes_takes_prefixes [where home = "''/h''" and rest = "''b''"])
  have "\<not> volume_name_error ''d''" by code_simp
  then show "volumes_ok sample_host (load_unlocked (Records [sample_volume ''db'', sample_volume ''d'']))"
    using sample_name by (simp add: volumes_ok_def sample_volume_def sample_host_def mountpoint_of_def)
qed (simp_all add: sample_host_def mountpoint_of_def sample_container_def)

end
