(* ===== verification/Compose.thy ===== *)
theory Compose
  imports Network_Store Lifecycle
begin

text \<open>
  Compose projects (\<open>src/compose/mod.rs\<close>): the data of a compose file, the start order of its
  services (\<open>dependency_order\<close>, \<open>visit_service\<close>), the arguments each service is run with, the
  loop of \<open>up\<close>, and the containers that \<open>down\<close> and \<open>ps\<close> take to belong to the project.

  The services are an association list in the order an iteration of the hash map visits them,
  and every theorem holds for every such order. \<open>visit_service\<close> recurses along \<open>depends_on\<close>;
  it is given fuel, and one more unit than there are services is enough.

  Shown: the order, when there is one, lists every service once and after all it depends on;
  a reported cycle or undefined dependency is a real one; so acyclic projects always start.
\<close>

section \<open>Data\<close>

datatype command_or_list = Text str | Words "str list"

fun command_words :: "command_or_list \<Rightarrow> str list" where
  "command_words (Text s) = split_whitespace s"
| "command_words (Words l) = l"

datatype environment = Env_list "str list" | Env_map "(str \<times> str) list"

fun environment_entries :: "environment \<Rightarrow> str list" where
  "environment_entries (Env_list l) = l"
| "environment_entries (Env_map m) = map (\<lambda>(k, v). k @ ''='' @ v) m"

record service =
  s_image :: "str option"
  s_build :: "str option"
  s_container_name :: "str option"
  s_env_file :: "command_or_list option"
  s_command :: "command_or_list option"
  s_entrypoint :: "command_or_list option"
  s_environment :: "environment option"
  s_ports :: "str list option"
  s_volumes :: "str list option"
  s_depends_on :: "str list option"
  s_networks :: "str list option"
  s_restart :: "str option"

type_synonym services = "(str \<times> service) list"

record project =
  p_name :: str
  p_services :: services
  p_volumes :: "str list"

section \<open>The start order\<close>

record walk =
  visited :: "str list"
  visiting :: "str list"
  start_order :: "str list"

definition deps_of :: "services \<Rightarrow> str \<Rightarrow> str list" where
  "deps_of svcs s = (case map_of svcs s of None \<Rightarrow> [] | Some cfg \<Rightarrow> unwrap_or (s_depends_on cfg) [])"

definition defined :: "services \<Rightarrow> str \<Rightarrow> bool" where
  "defined svcs s \<longleftrightarrow> s \<in> set (map fst svcs)"

fun visit_service :: "nat \<Rightarrow> services \<Rightarrow> str \<Rightarrow> walk \<Rightarrow> walk res option"
  and visit_deps :: "nat \<Rightarrow> services \<Rightarrow> str \<Rightarrow> str list \<Rightarrow> walk \<Rightarrow> walk res option" where
  "visit_service 0 svcs s w = None"
| "visit_service (Suc n) svcs s w =
     (if s \<in> set (visiting w) then Some (Inl (Cyclic_dependency s))
      else if s \<in> set (visited w) then Some (Inr w)
      else case visit_deps n svcs s (deps_of svcs s) (w\<lparr>visiting := s # visiting w\<rparr>) of
             Some (Inr w') \<Rightarrow>
               Some (Inr (w'\<lparr>visiting := filter (\<lambda>x. x \<noteq> s) (visiting w'),
                             visited := s # visited w', start_order := start_order w' @ [s]\<rparr>))
           | r \<Rightarrow> r)"
| "visit_deps n svcs s [] w = Some (Inr w)"
| "visit_deps n svcs s (d # ds) w =
     (if \<not> defined svcs d then Some (Inl (Undefined_dependency s d))
      else case visit_service n svcs d w of
             Some (Inr w') \<Rightarrow> visit_deps n svcs s ds w'
           | r \<Rightarrow> r)"

fun visit_all :: "nat \<Rightarrow> services \<Rightarrow> str list \<Rightarrow> walk \<Rightarrow> walk res option" where
  "visit_all n svcs [] w = Some (Inr w)"
| "visit_all n svcs (s # ss) w =
     (if s \<in> set (visited w) then visit_all n svcs ss w
      else case visit_service n svcs s w of
             Some (Inr w') \<Rightarrow> visit_all n svcs ss w'
           | r \<Rightarrow> r)"

definition no_walk :: walk where
  "no_walk = \<lparr>visited = [], visiting = [], start_order = []\<rparr>"

definition dependency_order :: "services \<Rightarrow> str list res option" where
  "dependency_order svcs =
     map_option (map_sum (\<lambda>e. e) start_order)
       (visit_all (Suc (length svcs)) svcs (map fst svcs) no_walk)"

text \<open>The specification: the dependency relation and orders that respect it.\<close>

definition depends :: "services \<Rightarrow> (str \<times> str) set" where
  "depends svcs = {(s, d). d \<in> set (deps_of svcs s)}"

fun in_order :: "services \<Rightarrow> str set \<Rightarrow> str list \<Rightarrow> bool" where
  "in_order svcs before [] \<longleftrightarrow> True"
| "in_order svcs before (s # ss) \<longleftrightarrow>
     set (deps_of svcs s) \<subseteq> before \<and> in_order svcs (insert s before) ss"

lemma in_order_snoc:
  "in_order svcs before (ss @ [s]) \<longleftrightarrow>
     in_order svcs before ss \<and> set (deps_of svcs s) \<subseteq> before \<union> set ss"
  by (induction ss arbitrary: before) auto

definition walk_ok :: "services \<Rightarrow> walk \<Rightarrow> bool" where
  "walk_ok svcs w \<longleftrightarrow> set (visited w) = set (start_order w) \<and> distinct (start_order w) \<and>
     set (start_order w) \<subseteq> set (map fst svcs) \<and> in_order svcs {} (start_order w) \<and>
     set (visited w) \<inter> set (visiting w) = {} \<and> distinct (visiting w) \<and>
     set (visiting w) \<subseteq> set (map fst svcs)"

lemma filter_ne_id: "s \<notin> set xs \<Longrightarrow> filter (\<lambda>x. x \<noteq> s) xs = xs"
  by (auto simp: filter_id_conv)

lemma visit_ok:
  "visit_service n svcs s w = Some (Inr w') \<Longrightarrow> walk_ok svcs w \<Longrightarrow> defined svcs s \<Longrightarrow>
     walk_ok svcs w' \<and> visiting w' = visiting w \<and> set (visited w) \<subseteq> set (visited w') \<and>
     s \<in> set (visited w')"
  "visit_deps n svcs s ds w = Some (Inr w') \<Longrightarrow> walk_ok svcs w \<Longrightarrow>
     walk_ok svcs w' \<and> visiting w' = visiting w \<and> set (visited w) \<subseteq> set (visited w') \<and>
     set ds \<subseteq> set (visited w')"
proof (induction n svcs s w and n svcs s ds w arbitrary: w' and w'
    rule: visit_service_visit_deps.induct)
  case (2 n svcs s w)
  show ?case
  proof (cases "s \<in> set (visited w)")
    case True
    then show ?thesis using "2.prems" by (auto split: if_splits)
  next
    case False
    let ?w1 = "w\<lparr>visiting := s # visiting w\<rparr>"
    have nv: "s \<notin> set (visiting w)" using "2.prems"(1) by (auto split: if_splits)
    then obtain w2 where d: "visit_deps n svcs s (deps_of svcs s) ?w1 = Some (Inr w2)"
      and w': "w' = w2\<lparr>visiting := filter (\<lambda>x. x \<noteq> s) (visiting w2),
        visited := s # visited w2, start_order := start_order w2 @ [s]\<rparr>"
      using "2.prems"(1) False by (auto split: option.splits sum.splits)
    have "walk_ok svcs ?w1"
      using "2.prems"(2,3) False nv by (auto simp: walk_ok_def defined_def)
    from "2.IH" [OF nv False d this]
    have ok: "walk_ok svcs w2" "visiting w2 = s # visiting w" "set (visited w) \<subseteq> set (visited w2)"
      "set (deps_of svcs s) \<subseteq> set (visited w2)" by auto
    have "visiting w' = visiting w" by (simp add: w' ok(2) filter_ne_id [OF nv])
    moreover have "walk_ok svcs w'"
      using ok "2.prems"(3) by (auto simp: walk_ok_def w' in_order_snoc defined_def)
    ultimately show ?thesis using ok by (auto simp: w')
  qed
next
  case (4 n svcs s d ds w)
  have d: "defined svcs d" using "4.prems"(1) by (auto split: if_splits)
  obtain w2 where w2: "visit_service n svcs d w = Some (Inr w2)"
    and rest: "visit_deps n svcs s ds w2 = Some (Inr w')"
    using "4.prems"(1) d by (auto split: option.splits sum.splits)
  from "4.IH"(1) [OF _ w2 "4.prems"(2) d] d
  have a: "walk_ok svcs w2" "visiting w2 = visiting w" "set (visited w) \<subseteq> set (visited w2)"
    "d \<in> set (visited w2)" by auto
  from "4.IH"(2) [OF _ w2 _ rest a(1)] d a show ?case by auto
qed auto

text \<open>The services being visited form a path of dependencies, the latest one first.\<close>

fun stack :: "services \<Rightarrow> str list \<Rightarrow> bool" where
  "stack svcs (a # b # vs) \<longleftrightarrow> (b, a) \<in> depends svcs \<and> stack svcs (b # vs)"
| "stack svcs vs \<longleftrightarrow> True"

lemma stack_path: "stack svcs (v # vs) \<Longrightarrow> x \<in> set (v # vs) \<Longrightarrow> (x, v) \<in> (depends svcs)\<^sup>*"
proof (induction vs arbitrary: v)
  case (Cons u us)
  then show ?case by (auto intro: rtrancl_into_rtrancl)
qed simp

fun real_error :: "services \<Rightarrow> error \<Rightarrow> bool" where
  "real_error svcs (Cyclic_dependency x) \<longleftrightarrow> (x, x) \<in> (depends svcs)\<^sup>+"
| "real_error svcs (Undefined_dependency s d) \<longleftrightarrow>
     (s, d) \<in> depends svcs \<and> defined svcs s \<and> \<not> defined svcs d"
| "real_error svcs _ \<longleftrightarrow> False"

definition entered :: "services \<Rightarrow> str \<Rightarrow> str list \<Rightarrow> bool" where
  "entered svcs s vs \<longleftrightarrow> (case vs of [] \<Rightarrow> True | v # _ \<Rightarrow> (v, s) \<in> depends svcs)"

lemma visit_error:
  "visit_service n svcs s w = Some (Inl e) \<Longrightarrow> walk_ok svcs w \<Longrightarrow> defined svcs s \<Longrightarrow>
     stack svcs (visiting w) \<Longrightarrow> entered svcs s (visiting w) \<Longrightarrow> real_error svcs e"
  "visit_deps n svcs s ds w = Some (Inl e) \<Longrightarrow> walk_ok svcs w \<Longrightarrow> stack svcs (visiting w) \<Longrightarrow>
     set ds \<subseteq> set (deps_of svcs s) \<Longrightarrow> visiting w \<noteq> [] \<Longrightarrow> hd (visiting w) = s \<Longrightarrow>
     real_error svcs e"
proof (induction n svcs s w and n svcs s ds w rule: visit_service_visit_deps.induct)
  case (2 n svcs s w)
  show ?case
  proof (cases "s \<in> set (visiting w)")
    case True
    then obtain v vs where v: "visiting w = v # vs" by (cases "visiting w") auto
    have "(s, v) \<in> (depends svcs)\<^sup>*" using stack_path [of svcs v vs s] True "2.prems"(4) v by simp
    moreover have "(v, s) \<in> depends svcs" using "2.prems"(5) v by (simp add: entered_def)
    ultimately have "(s, s) \<in> (depends svcs)\<^sup>+" by (rule rtrancl_into_trancl1)
    then show ?thesis using "2.prems"(1) True by auto
  next
    case False
    let ?w1 = "w\<lparr>visiting := s # visiting w\<rparr>"
    have nd: "s \<notin> set (visited w)" using "2.prems"(1) False by auto
    then have d: "visit_deps n svcs s (deps_of svcs s) ?w1 = Some (Inl e)"
      using "2.prems"(1) False by (auto split: option.splits sum.splits)
    have "walk_ok svcs ?w1" using "2.prems"(2,3) False nd by (auto simp: walk_ok_def defined_def)
    moreover have "stack svcs (visiting ?w1)"
      using "2.prems"(4,5) by (cases "visiting w") (auto simp: entered_def)
    ultimately show ?thesis using "2.IH" [OF False nd d] by simp
  qed
next
  case (4 n svcs s d ds w)
  have s: "s \<in> set (visiting w)" using "4.prems"(5,6) by (metis hd_in_set)
  then have ds: "defined svcs s" using "4.prems"(2) by (auto simp: walk_ok_def defined_def)
  have e: "(s, d) \<in> depends svcs" using "4.prems"(4) by (simp add: depends_def)
  show ?case
  proof (cases "defined svcs d")
    case False
    then show ?thesis using "4.prems"(1) e ds by auto
  next
    case True
    have en: "entered svcs d (visiting w)"
      using "4.prems"(5,6) e by (cases "visiting w") (auto simp: entered_def)
    show ?thesis
    proof (cases "visit_service n svcs d w")
      case None
      then show ?thesis using "4.prems"(1) True by simp
    next
      case (Some r)
      show ?thesis
      proof (cases r)
        case (Inl e')
        then show ?thesis using "4.IH"(1) [OF _ _ "4.prems"(2) True "4.prems"(3) en] Some "4.prems"(1) True
          by simp
      next
        case (Inr w')
        then have "walk_ok svcs w'" "visiting w' = visiting w"
          using visit_ok(1) [of n svcs d w w'] Some "4.prems"(2) True by auto
        then show ?thesis using "4.IH"(2) [of r w'] Some Inr "4.prems" True by simp
      qed
    qed
  qed
qed auto

lemma walk_room: "walk_ok svcs w \<Longrightarrow> length (visiting w) \<le> length svcs"
proof -
  assume "walk_ok svcs w"
  then have "distinct (visiting w)" "set (visiting w) \<subseteq> set (map fst svcs)"
    by (auto simp: walk_ok_def)
  then have "length (visiting w) \<le> card (set (map fst svcs))"
    by (metis card_mono distinct_card finite_set)
  also have "\<dots> \<le> length svcs" by (metis card_length length_map)
  finally show ?thesis .
qed

lemma visit_enough:
  "walk_ok svcs w \<Longrightarrow> defined svcs s \<Longrightarrow> length svcs < length (visiting w) + n \<Longrightarrow>
     visit_service n svcs s w \<noteq> None"
  "walk_ok svcs w \<Longrightarrow> length svcs < length (visiting w) + n \<Longrightarrow>
     visit_deps n svcs s ds w \<noteq> None"
proof (induction n svcs s w and n svcs s ds w rule: visit_service_visit_deps.induct)
  case (1 svcs s w)
  then show ?case using walk_room [of svcs w] by simp
next
  case (2 n svcs s w)
  let ?w1 = "w\<lparr>visiting := s # visiting w\<rparr>"
  show ?case
  proof (cases "s \<in> set (visiting w) \<or> s \<in> set (visited w)")
    case False
    then have "visit_deps n svcs s (deps_of svcs s) ?w1 \<noteq> None"
      using "2.IH" "2.prems" by (auto simp: walk_ok_def defined_def)
    then show ?thesis using False by (auto split: option.splits sum.splits)
  qed auto
next
  case (4 n svcs s d ds w)
  show ?case
  proof (cases "defined svcs d")
    case True
    have "visit_service n svcs d w \<noteq> None" using "4.IH"(1) "4.prems" True by simp
    then obtain r where r: "visit_service n svcs d w = Some r" by auto
    show ?thesis
    proof (cases r)
      case (Inr w')
      then have "walk_ok svcs w'" "visiting w' = visiting w"
        using visit_ok(1) [of n svcs d w w'] r "4.prems"(1) True by auto
      then show ?thesis using "4.IH"(2) [of r w'] r Inr "4.prems"(2) True by simp
    qed (use r True in simp)
  qed simp
qed auto

lemma visit_all_ok:
  "visit_all n svcs ss w = Some (Inr w') \<Longrightarrow> walk_ok svcs w \<Longrightarrow> visiting w = [] \<Longrightarrow>
     list_all (defined svcs) ss \<Longrightarrow>
     walk_ok svcs w' \<and> set (visited w) \<subseteq> set (visited w') \<and> set ss \<subseteq> set (visited w')"
proof (induction n svcs ss w rule: visit_all.induct)
  case (2 n svcs s ss w)
  show ?case
  proof (cases "s \<in> set (visited w)")
    case False
    then obtain w2 where w2: "visit_service n svcs s w = Some (Inr w2)"
      and rest: "visit_all n svcs ss w2 = Some (Inr w')"
      using "2.prems"(1) by (auto split: option.splits sum.splits)
    have "walk_ok svcs w2 \<and> visiting w2 = visiting w \<and> set (visited w) \<subseteq> set (visited w2) \<and>
        s \<in> set (visited w2)"
      using visit_ok(1) [OF w2 "2.prems"(2)] "2.prems"(4) by simp
    then show ?thesis using "2.IH"(2) [OF False w2 _ rest] "2.prems" by auto
  qed (use 2 in auto)
qed auto

lemma visit_all_result:
  "length svcs < n \<Longrightarrow> walk_ok svcs w \<Longrightarrow> visiting w = [] \<Longrightarrow> list_all (defined svcs) ss \<Longrightarrow>
     \<exists>r. visit_all n svcs ss w = Some r \<and> (case r of Inl e \<Rightarrow> real_error svcs e | Inr _ \<Rightarrow> True)"
proof (induction n svcs ss w rule: visit_all.induct)
  case (2 n svcs s ss w)
  show ?case
  proof (cases "s \<in> set (visited w)")
    case False
    have s: "defined svcs s" using "2.prems"(4) by simp
    obtain r where r: "visit_service n svcs s w = Some r"
      using visit_enough(1) [OF "2.prems"(2) s] "2.prems"(1,3) by auto
    show ?thesis
    proof (cases r)
      case (Inl e)
      then have "real_error svcs e"
        using visit_error(1) [of n svcs s w e] r "2.prems" s by (simp add: entered_def)
      then show ?thesis using r Inl False by simp
    next
      case (Inr w2)
      then have "walk_ok svcs w2 \<and> visiting w2 = []"
        using visit_ok(1) [of n svcs s w w2] r "2.prems" s by simp
      then show ?thesis using "2.IH"(2) [OF False r Inr] "2.prems" r Inr False by simp
    qed
  qed (use 2 in auto)
qed auto

lemma no_walk_ok: "walk_ok svcs no_walk" "visiting no_walk = []" "visited no_walk = []"
  by (simp_all add: walk_ok_def no_walk_def)

lemma dependency_order_Inr:
  assumes "dependency_order svcs = Some (Inr order)"
  shows "distinct order \<and> set order = set (map fst svcs) \<and> in_order svcs {} order"
proof -
  have d: "list_all (defined svcs) (map fst svcs)" by (simp add: list_all_iff defined_def)
  obtain w where w: "visit_all (Suc (length svcs)) svcs (map fst svcs) no_walk = Some (Inr w)"
    and o: "order = start_order w"
    using assms
    by (cases "visit_all (Suc (length svcs)) svcs (map fst svcs) no_walk";
        cases "the (visit_all (Suc (length svcs)) svcs (map fst svcs) no_walk)")
      (auto simp: dependency_order_def)
  from visit_all_ok [OF w no_walk_ok(1,2) d] o show ?thesis by (auto simp: walk_ok_def)
qed

lemma dependency_order_total:
  "\<exists>r. dependency_order svcs = Some r \<and> (case r of Inl e \<Rightarrow> real_error svcs e | Inr _ \<Rightarrow> True)"
proof -
  have d: "list_all (defined svcs) (map fst svcs)" by (simp add: list_all_iff defined_def)
  obtain r where "visit_all (Suc (length svcs)) svcs (map fst svcs) no_walk = Some r"
    and "case r of Inl e \<Rightarrow> real_error svcs e | Inr _ \<Rightarrow> True"
    using visit_all_result [OF _ no_walk_ok(1,2) d, of "Suc (length svcs)"] by auto
  then show ?thesis by (cases r) (auto simp: dependency_order_def)
qed

section \<open>What a service is run with\<close>

text \<open>
  The fields of \<open>RunArgs\<close> that depend on the service or the caller; the others always have
  their defaults (\<open>None\<close>, \<open>false\<close>, empty; \<open>rootless\<close> and \<open>sig_proxy\<close> are \<open>true\<close>, the network is
  \<open>bridge\<close>).
\<close>

record run_args =
  ra_interactive :: bool
  ra_tty :: bool
  ra_detach :: bool
  ra_rm :: bool
  ra_name :: str
  ra_env :: "str list"
  ra_ports :: "str list"
  ra_volumes :: "str list"
  ra_restart :: str
  ra_image :: str
  ra_command :: "str list"

definition join_path :: "str \<Rightarrow> str \<Rightarrow> str" where
  "join_path base p = (if starts_with p ''/'' then p else base @ ''/'' @ p)"

definition env_line :: "str \<Rightarrow> bool" where
  "env_line l \<longleftrightarrow> l \<noteq> [] \<and> \<not> starts_with l ''#''"

definition env_file_entries :: "(str \<Rightarrow> str option) \<Rightarrow> str \<Rightarrow> service \<Rightarrow> str list" where
  "env_file_entries read root svc =
     (case s_env_file svc of
        None \<Rightarrow> []
      | Some ef \<Rightarrow> concat (map (\<lambda>p. case read (join_path root p) of
            None \<Rightarrow> []
          | Some content \<Rightarrow> filter env_line (map trim (lines content))) (command_words ef)))"

definition has_key :: "str \<Rightarrow> str \<Rightarrow> bool" where
  "has_key k e \<longleftrightarrow> (case split_once CHR ''='' e of Some (ek, _) \<Rightarrow> ek = k | None \<Rightarrow> False)"

text \<open>\<open>up\<close> drops what an inline entry overrides; \<open>build_service_run_args\<close> only appends.\<close>

definition add_env :: "str list \<Rightarrow> str \<Rightarrow> str list" where
  "add_env env e =
     (case split_once CHR ''='' e of
        Some (k, _) \<Rightarrow> filter (\<lambda>x. \<not> has_key k x) env
      | None \<Rightarrow> env) @ [e]"

definition inline_env :: "service \<Rightarrow> str list" where
  "inline_env svc = (case s_environment svc of None \<Rightarrow> [] | Some c \<Rightarrow> environment_entries c)"

definition up_env :: "(str \<Rightarrow> str option) \<Rightarrow> str \<Rightarrow> service \<Rightarrow> str list" where
  "up_env read root svc = foldl add_env (env_file_entries read root svc) (inline_env svc)"

definition create_env :: "(str \<Rightarrow> str option) \<Rightarrow> str \<Rightarrow> service \<Rightarrow> str list" where
  "create_env read root svc = env_file_entries read root svc @ inline_env svc"

definition scope_volume :: "str \<Rightarrow> str \<Rightarrow> str" where
  "scope_volume pname v =
     (case split_once CHR '':'' v of
        Some (src, dest) \<Rightarrow>
          if \<not> is_host_path src then pname @ ''_'' @ src @ '':'' @ dest else v
      | None \<Rightarrow> v)"

definition service_args :: "str \<Rightarrow> service \<Rightarrow> str \<Rightarrow> str \<Rightarrow> str list \<Rightarrow> bool \<Rightarrow> run_args" where
  "service_args pname svc cname img env detach =
     \<lparr>ra_interactive = False, ra_tty = False, ra_detach = detach, ra_rm = False, ra_name = cname,
      ra_env = env, ra_ports = unwrap_or (s_ports svc) [],
      ra_volumes = map (scope_volume pname) (unwrap_or (s_volumes svc) []),
      ra_restart = unwrap_or (s_restart svc) ''no'', ra_image = img,
      ra_command = (case s_command svc of None \<Rightarrow> [] | Some c \<Rightarrow> command_words c)\<rparr>"

definition build_service_run_args ::
  "(str \<Rightarrow> str option) \<Rightarrow> str \<Rightarrow> str \<Rightarrow> service \<Rightarrow> str \<Rightarrow> str \<Rightarrow> bool \<Rightarrow> run_args" where
  "build_service_run_args read root pname svc cname img detach =
     service_args pname svc cname img (create_env read root svc) detach"

section \<open>Up, create and run\<close>

text \<open>
  The three indexes a project touches, and whatever else the host keeps. Running or creating
  a container and building an image are the engine's: functions on the whole state, which may
  not return (\<open>None\<close>), as an attached run of a container that does not end, or is restarted for
  ever, does not.
\<close>

record 'w world =
  conts :: container_file
  nets :: network_file
  vols :: volume_file
  rest :: 'w

record 'w compose_host =
  h_io :: io
  h_now :: int
  h_net_id :: str
  h_root :: str
  h_volumes :: vol_host
  h_bundles :: bundle_host
  h_reaper :: reap_host
  h_read :: "str \<Rightarrow> str option"
  h_build :: "str \<Rightarrow> str \<Rightarrow> 'w world \<Rightarrow> (str res \<times> 'w world) option"
  h_run :: "run_args \<Rightarrow> 'w world \<Rightarrow> (int res \<times> 'w world) option"
  h_create :: "run_args \<Rightarrow> 'w world \<Rightarrow> (str res \<times> 'w world) option"

definition net_name :: "project \<Rightarrow> str" where
  "net_name p = p_name p @ ''_default''"

definition scoped_volume :: "project \<Rightarrow> str \<Rightarrow> str" where
  "scoped_volume p v = p_name p @ ''_'' @ v"

definition container_name :: "project \<Rightarrow> str \<Rightarrow> service \<Rightarrow> str" where
  "container_name p s svc = unwrap_or (s_container_name svc) (p_name p @ ''_'' @ s @ ''_1'')"

text \<open>\<open>NetworkStore::new\<close> makes sure that the default bridge network exists.\<close>

definition open_networks :: "'w compose_host \<Rightarrow> 'w world \<Rightarrow> 'w world" where
  "open_networks h w = w\<lparr>nets := snd (ensure_default_network (h_io h) (h_now h) (nets w))\<rparr>"

definition ensure_network :: "'w compose_host \<Rightarrow> project \<Rightarrow> 'w world \<Rightarrow> 'w world" where
  "ensure_network h p w =
     (if network_find (h_io h) (net_name p) (nets w) = None
      then w\<lparr>nets := snd (network_create (h_io h) (h_net_id h) (h_now h) (net_name p)
                             plain_options (nets w))\<rparr>
      else w)"

definition ensure_volume :: "'w compose_host \<Rightarrow> project \<Rightarrow> 'w world \<Rightarrow> str \<Rightarrow> 'w world" where
  "ensure_volume h p w v =
     (if volume_find (h_io h) (scoped_volume p v) (vols w) = None
      then w\<lparr>vols := snd (volume_create (h_io h) (h_volumes h) [] (h_now h)
                             (plain_volume (Some (scoped_volume p v))) (vols w))\<rparr>
      else w)"

definition service_image ::
  "'w compose_host \<Rightarrow> project \<Rightarrow> bool \<Rightarrow> str \<Rightarrow> service \<Rightarrow> 'w world \<Rightarrow> (str res \<times> 'w world) option" where
  "service_image h p build s svc w =
     (case s_build svc of
        Some path \<Rightarrow>
          (case (if build then None else s_image svc) of
             None \<Rightarrow> h_build h (join_path (h_root h) path) (p_name p @ ''_'' @ s @ '':latest'') w
           | Some img \<Rightarrow> Some (Inr img, w))
      | None \<Rightarrow>
          (case s_image svc of
             Some img \<Rightarrow> Some (Inr img, w)
           | None \<Rightarrow> Some (Inl (Invalid_spec s), w)))"

text \<open>
  One turn of the loop of \<open>up\<close>: what it came to, \<open>None\<close> when a build or a run never returns, and
  the run it started with whether that exited with 0. The code unwraps the lookup of the
  service, which the start order makes succeed.
\<close>

type_synonym 'w up_result = "(unit res \<times> 'w world) option \<times> (str \<times> run_args \<times> bool) list"

definition up_service ::
  "'w compose_host \<Rightarrow> project \<Rightarrow> bool \<Rightarrow> bool \<Rightarrow> str \<Rightarrow> 'w world \<Rightarrow> 'w up_result" where
  "up_service h p detach build s w =
     (case map_of (p_services p) s of
        None \<Rightarrow> (Some (Inl (Not_found s), w), [])
      | Some svc \<Rightarrow>
          (case service_image h p build s svc w of
             None \<Rightarrow> (None, [])
           | Some (Inl e, w1) \<Rightarrow> (Some (Inl e, w1), [])
           | Some (Inr img, w1) \<Rightarrow>
               let cname = container_name p s svc;
                   w2 = w1\<lparr>nets := snd (connect_container (h_io h) (net_name p) cname s (nets w1))\<rparr>;
                   args = service_args (p_name p) svc cname img (up_env (h_read h) (h_root h) svc) detach
               in case h_run h args w2 of
                    None \<Rightarrow> (None, [(s, args, False)])
                  | Some (Inl _, w3) \<Rightarrow> (Some (Inl Exec_failed, w3), [(s, args, False)])
                  | Some (Inr code, w3) \<Rightarrow>
                      (Some (if code \<noteq> 0 then Inl Exec_failed else Inr (), w3), [(s, args, code = 0)])))"

fun up_loop ::
  "'w compose_host \<Rightarrow> project \<Rightarrow> bool \<Rightarrow> bool \<Rightarrow> str list \<Rightarrow> 'w world \<Rightarrow> 'w up_result" where
  "up_loop h p detach build [] w = (Some (Inr (), w), [])"
| "up_loop h p detach build (s # ss) w =
     (case up_service h p detach build s w of
        (None, started) \<Rightarrow> (None, started)
      | (Some (Inl e, w'), started) \<Rightarrow> (Some (Inl e, w'), started)
      | (Some (Inr _, w'), started) \<Rightarrow>
          (case up_loop h p detach build ss w' of (r, later) \<Rightarrow> (r, started @ later)))"

text \<open>The outer \<open>None\<close>, running out of fuel, is shown not to happen.\<close>

definition project_up ::
  "'w compose_host \<Rightarrow> project \<Rightarrow> bool \<Rightarrow> bool \<Rightarrow> 'w world \<Rightarrow> 'w up_result option" where
  "project_up h p detach build w =
     (case dependency_order (p_services p) of
        None \<Rightarrow> None
      | Some (Inl e) \<Rightarrow> Some (Some (Inl e, w), [])
      | Some (Inr order) \<Rightarrow>
          Some (up_loop h p detach build order
                  (foldl (ensure_volume h p) (ensure_network h p (open_networks h w)) (p_volumes p))))"

fun create_loop ::
  "'w compose_host \<Rightarrow> project \<Rightarrow> str list \<Rightarrow> 'w world \<Rightarrow> (unit res \<times> 'w world) option" where
  "create_loop h p [] w = Some (Inr (), w)"
| "create_loop h p (s # ss) w =
     (case map_of (p_services p) s of
        None \<Rightarrow> Some (Inl (Not_found s), w)
      | Some svc \<Rightarrow>
          (case s_image svc of
             None \<Rightarrow> create_loop h p ss w
           | Some img \<Rightarrow>
               (case h_create h (build_service_run_args (h_read h) (h_root h) (p_name p) svc
                                   (container_name p s svc) img False) w of
                  None \<Rightarrow> None
                | Some (Inl e, w') \<Rightarrow> Some (Inl e, w')
                | Some (Inr _, w') \<Rightarrow> create_loop h p ss w')))"

definition create_containers ::
  "'w compose_host \<Rightarrow> project \<Rightarrow> 'w world \<Rightarrow> (unit res \<times> 'w world) option option" where
  "create_containers h p w =
     (case dependency_order (p_services p) of
        None \<Rightarrow> None
      | Some (Inl e) \<Rightarrow> Some (Some (Inl e, w))
      | Some (Inr order) \<Rightarrow> Some (create_loop h p order w))"

definition run_one_off ::
  "'w compose_host \<Rightarrow> project \<Rightarrow> str \<Rightarrow> str \<Rightarrow> str list \<Rightarrow> bool \<Rightarrow> 'w world \<Rightarrow>
     (unit res \<times> 'w world) option" where
  "run_one_off h p rid s command rm w =
     (case map_of (p_services p) s of
        None \<Rightarrow> Some (Inl (Not_found s), w)
      | Some svc \<Rightarrow>
          (case s_image svc of
             None \<Rightarrow> Some (Inl (Invalid_spec s), w)
           | Some img \<Rightarrow>
               let a = build_service_run_args (h_read h) (h_root h) (p_name p) svc
                         (p_name p @ ''_'' @ s @ ''_run_'' @ rid) img True;
                   b = a\<lparr>ra_rm := rm, ra_detach := False, ra_interactive := True, ra_tty := True,
                         ra_command := (if command \<noteq> [] then command else ra_command a)\<rparr>
               in map_option (\<lambda>(r, w'). (case r of Inl e \<Rightarrow> Inl e | Inr _ \<Rightarrow> Inr (), w')) (h_run h b w)))"

section \<open>Down and ps\<close>

definition custom_names :: "project \<Rightarrow> str list" where
  "custom_names p =
     concat (map (\<lambda>(s, svc).
         (case s_container_name svc of None \<Rightarrow> [] | Some c \<Rightarrow> [c]) @
         map (\<lambda>num. p_name p @ ''_'' @ s @ ''_'' @ show_nat num) [1 ..< 21])
       (p_services p))"

definition belongs :: "project \<Rightarrow> str \<Rightarrow> bool" where
  "belongs p n \<longleftrightarrow> n \<in> set (custom_names p) \<or>
     (case strip_prefix (p_name p @ ''_'') n of
        None \<Rightarrow> False
      | Some r \<Rightarrow> (case rsplit_once CHR ''_'' r of
                      None \<Rightarrow> False | Some (s, _) \<Rightarrow> defined (p_services p) s))"

definition down_container :: "'w compose_host \<Rightarrow> 'w world \<Rightarrow> container \<Rightarrow> 'w world" where
  "down_container h w c =
     (let f = snd (fst (stop_container (h_io h) (h_bundles h) (h_reaper h) (c_id c) None (conts w)));
          (_, f', vf) = fst (remove_container (h_io h) (h_bundles h) (h_reaper h) (h_volumes h)
                               (c_id c) True f (vols w))
      in w\<lparr>conts := f', vols := vf\<rparr>)"

definition down_volume :: "'w compose_host \<Rightarrow> project \<Rightarrow> 'w world \<Rightarrow> str \<Rightarrow> 'w world" where
  "down_volume h p w v =
     w\<lparr>vols := snd (volume_remove (h_io h) (h_volumes h) (container_list (h_io h) (conts w))
                      (scoped_volume p v) False (vols w))\<rparr>"

definition project_down :: "'w compose_host \<Rightarrow> project \<Rightarrow> bool \<Rightarrow> 'w world \<Rightarrow> 'w world" where
  "project_down h p remove_volumes w =
     (let w1 = foldl (down_container h) w
                 (filter (\<lambda>c. belongs p (c_name c)) (container_list (h_io h) (conts w)));
          w2 = (if remove_volumes then foldl (down_volume h p) w1 (p_volumes p) else w1);
          w3 = open_networks h w2
      in w3\<lparr>nets := snd (network_remove (h_io h) (net_name p) False (nets w3))\<rparr>)"

definition project_ps :: "'w compose_host \<Rightarrow> project \<Rightarrow> 'w world \<Rightarrow> container list" where
  "project_ps h p w =
     filter (\<lambda>c. starts_with (c_name c) (p_name p @ ''_'') \<or>
                 (\<exists>svc\<in>set (map snd (p_services p)). s_container_name svc = Some (c_name c)))
       (container_list (h_io h) (conts w))"

section \<open>The environment\<close>

lemma has_key_unique: "has_key k e \<Longrightarrow> has_key k' e \<Longrightarrow> k' = k"
  by (auto simp: has_key_def split: option.splits)

lemma filter_add_env:
  "filter (has_key k) (add_env env e) = (if has_key k e then [e] else filter (has_key k) env)"
proof (cases "split_once CHR ''='' e")
  case None
  then show ?thesis by (simp add: add_env_def has_key_def)
next
  case (Some kv)
  obtain k' v where kv: "kv = (k', v)" by fastforce
  have e: "has_key j e \<longleftrightarrow> j = k'" for j using Some kv by (auto simp: has_key_def)
  have "filter (has_key k) (filter (\<lambda>x. \<not> has_key k' x) env) = (if k = k' then [] else filter (has_key k) env)"
    using has_key_unique [of k _ k'] by (auto simp: filter_filter intro: filter_cong)
  then show ?thesis using Some kv e by (auto simp: add_env_def)
qed

lemma filter_up_env:
  "filter (has_key k) (foldl add_env base es) =
     (if filter (has_key k) es = [] then filter (has_key k) base else [last (filter (has_key k) es)])"
  by (induction es rule: rev_induct) (auto simp: filter_add_env)

section \<open>Up\<close>

lemma in_order_append:
  "in_order svcs before (xs @ ys) \<longleftrightarrow> in_order svcs before xs \<and> in_order svcs (before \<union> set xs) ys"
  by (induction xs arbitrary: before) auto

definition run_as :: "'w compose_host \<Rightarrow> project \<Rightarrow> str \<times> run_args \<times> bool \<Rightarrow> bool" where
  "run_as h p r \<longleftrightarrow> (case r of (s, a, _) \<Rightarrow> \<exists>svc. map_of (p_services p) s = Some svc \<and>
     ra_name a = container_name p s svc \<and> ra_env a = up_env (h_read h) (h_root h) svc)"

definition exited_zero :: "str \<times> run_args \<times> bool \<Rightarrow> bool" where
  "exited_zero r \<longleftrightarrow> snd (snd r)"

definition came_to_end :: "(unit res \<times> 'w world) option \<Rightarrow> bool" where
  "came_to_end out \<longleftrightarrow> (\<exists>w. out = Some (Inr (), w))"

text \<open>Every build and every run returns.\<close>

definition engine_returns :: "'w compose_host \<Rightarrow> bool" where
  "engine_returns h \<longleftrightarrow> (\<forall>a w. h_run h a w \<noteq> None) \<and> (\<forall>ctx tag w. h_build h ctx tag w \<noteq> None)"

lemma service_image_returns: "engine_returns h \<Longrightarrow> service_image h p build s svc w \<noteq> None"
  by (auto simp: service_image_def engine_returns_def split: option.splits)

lemma up_service_started:
  "up_service h p detach build s w = (out, started) \<Longrightarrow> list_all (run_as h p) started \<and>
     (engine_returns h \<longrightarrow> out \<noteq> None) \<and>
     (if came_to_end out then map fst started = [s] \<and> list_all exited_zero started
      else started = [] \<or> (map fst started = [s] \<and> butlast started = []))"
  (is "?up = _ \<Longrightarrow> ?concl out started")
proof -
  assume u: "?up = (out, started)"
  have "?concl (fst ?up) (snd ?up)"
  proof (cases "map_of (p_services p) s")
    case None
    then show ?thesis by (simp add: up_service_def came_to_end_def)
  next
    case svc: (Some svc)
    show ?thesis
    proof (cases "service_image h p build s svc w")
      case None
      then show ?thesis using service_image_returns [of h p build s svc w] svc
        by (auto simp: up_service_def came_to_end_def)
    next
      case img: (Some iw)
      obtain i w1 where iw: "iw = (i, w1)" by (rule prod.exhaust)
      show ?thesis
      proof (cases i)
        case (Inl e)
        then show ?thesis using svc img iw by (simp add: up_service_def came_to_end_def)
      next
        case (Inr image)
        let ?w2 = "w1\<lparr>nets := snd (connect_container (h_io h) (net_name p) (container_name p s svc) s (nets w1))\<rparr>"
        let ?a = "service_args (p_name p) svc (container_name p s svc) image (up_env (h_read h) (h_root h) svc) detach"
        have a: "run_as h p (s, ?a, b)" for b using svc by (simp add: run_as_def service_args_def)
        have ret: "engine_returns h \<Longrightarrow> h_run h ?a ?w2 \<noteq> None" unfolding engine_returns_def by blast
        show ?thesis
          using svc img iw Inr a ret
          by (cases "h_run h ?a ?w2")
            (auto simp: up_service_def Let_def came_to_end_def exited_zero_def split: sum.splits prod.splits)
      qed
    qed
  qed
  then show "?concl out started" unfolding u fst_conv snd_conv .
qed

lemma up_loop_started:
  "up_loop h p detach build ss w = (out, started) \<Longrightarrow> list_all (run_as h p) started \<and>
     (engine_returns h \<longrightarrow> out \<noteq> None) \<and>
     (if came_to_end out then map fst started = ss \<and> list_all exited_zero started
      else (\<exists>later. ss = map fst started @ later) \<and> list_all exited_zero (butlast started))"
proof (induction ss arbitrary: w started)
  case (Cons s ss)
  obtain o1 st1 where u: "up_service h p detach build s w = (o1, st1)" by (rule prod.exhaust)
  note first = up_service_started [OF u]
  show ?case
  proof (cases "came_to_end o1")
    case False
    then have "out = o1" "started = st1" using Cons.prems u
      by (auto simp: came_to_end_def split: option.splits sum.splits prod.splits)
    then show ?thesis using first False by (cases started) auto
  next
    case True
    then obtain w1 where o1: "o1 = Some (Inr (), w1)" by (auto simp: came_to_end_def)
    then obtain st2 where l: "up_loop h p detach build ss w1 = (out, st2)" and st: "started = st1 @ st2"
      using Cons.prems u by (auto split: prod.splits)
    have one: "map fst st1 = [s]" "list_all exited_zero st1" "list_all (run_as h p) st1" using first True by auto
    then show ?thesis using Cons.IH [OF l] st by (cases "came_to_end out") (auto simp: butlast_append)
  qed
qed (auto simp: came_to_end_def)

section \<open>Down\<close>

lemma belongs_own: "map_of (p_services p) s = Some svc \<Longrightarrow> belongs p (container_name p s svc)"
proof -
  assume m: "map_of (p_services p) s = Some svc"
  then have e: "(s, svc) \<in> set (p_services p)" by (rule map_of_SomeD)
  have one: "show_nat 1 = ''1''" by code_simp
  have "1 \<in> set [1 ..< 21]" by simp
  then have "p_name p @ ''_'' @ s @ ''_'' @ ''1'' \<in>
      set (map (\<lambda>num. p_name p @ ''_'' @ s @ ''_'' @ show_nat num) [1 ..< 21])"
    unfolding one [symmetric] set_map by (rule imageI)
  then have "container_name p s svc \<in> set (custom_names p)"
    using e by (cases "s_container_name svc") (auto simp: custom_names_def container_name_def intro!: bexI [OF _ e])
  then show ?thesis by (simp add: belongs_def)
qed

lemma stop_ids:
  assumes "reapable f"
  shows "map c_id (load_unlocked (snd (fst (stop_container io h rh q sig f)))) = map c_id (load_unlocked f)"
    and "reapable (snd (fst (stop_container io h rh q sig f)))"
proof -
  have m: "moves (\<lambda>_ _. True) (load_unlocked f) (load_unlocked (snd (fst (stop_container io h rh q sig f))))"
    by (rule moves_stop [OF assms]) auto
  show "map c_id (load_unlocked (snd (fst (stop_container io h rh q sig f)))) = map c_id (load_unlocked f)"
    using moves_ids [OF m] by simp
  show "reapable (snd (fst (stop_container io h rh q sig f)))" by (rule moves_reapable [OF m assms])
qed

lemma reap_ids:
  assumes "reapable f"
  shows "map c_id (load_unlocked (snd (snd (reap_index io h f)))) = map c_id (load_unlocked f)"
    and "reapable (snd (snd (reap_index io h f)))"
proof -
  have m: "moves (\<lambda>_ _. True) (load_unlocked f) (load_unlocked (snd (snd (reap_index io h f))))"
    by (rule moves_reap [OF assms]) auto
  show "map c_id (load_unlocked (snd (snd (reap_index io h f)))) = map c_id (load_unlocked f)"
    using moves_ids [OF m] by simp
  show "reapable (snd (snd (reap_index io h f)))" by (rule moves_reapable [OF m assms])
qed

lemma proper_ids_alt: "proper_ids cs \<longleftrightarrow> (\<forall>i\<in>set (map c_id cs). i \<noteq> [] \<and> trim i = i)"
  by (auto simp: proper_ids_def)

lemma container_remove_ids:
  assumes "reapable f" and "proper_ids (load_unlocked f)" and "i \<in> set (map c_id (load_unlocked f))"
  shows "\<exists>r f'. container_remove io_good h i f = (Inr r, f') \<and> reapable f' \<and>
    map c_id (load_unlocked f') = filter (\<lambda>j. j \<noteq> i) (map c_id (load_unlocked f))"
proof -
  obtain c where c: "c \<in> set (load_unlocked f)" "c_id c = i" using assms(3) by auto
  show ?thesis
    using remove_own_id [OF assms(1) c(1) assms(2), of h] c(2) reapable_filter [OF assms(1)]
    by (auto simp: filter_map o_def)
qed

lemma remove_container_ids:
  assumes "reapable f" and "proper_ids (load_unlocked f)" and "i \<in> set (map c_id (load_unlocked f))"
  shows "\<exists>f' vf'. fst (remove_container io_good h rh vh i True f vf) = (Inr (), f', vf') \<and> reapable f' \<and>
    map c_id (load_unlocked f') = filter (\<lambda>j. j \<noteq> i) (map c_id (load_unlocked f))"
proof -
  obtain c where c: "c \<in> set (load_unlocked f)" "c_id c = i" using assms(3) by auto
  have "trim i = i" "i \<noteq> []" using assms(2) c by (auto simp: proper_ids_def)
  then have found: "container_find io_good i f = Some c"
    using find_own_id [OF assms(1) c(1)] c(2) by (simp add: container_find_def find_locked_def)
  define f1 where "f1 = (if is_active c then snd (fst (stop_container io_good h rh i None f)) else f)"
  have f1: "reapable f1" "map c_id (load_unlocked f1) = map c_id (load_unlocked f)"
    using stop_ids [OF assms(1)] assms(1) by (simp_all add: f1_def)
  then have "proper_ids (load_unlocked f1)" using assms(2) by (simp only: proper_ids_alt)
  then obtain r f2 where r: "container_remove io_good h i f1 = (Inr r, f2)" "reapable f2"
    "map c_id (load_unlocked f2) = filter (\<lambda>j. j \<noteq> i) (map c_id (load_unlocked f))"
    using container_remove_ids [OF f1(1), of i h] f1(2) assms(3) by auto
  obtain x fa ea where st: "stop_container io_good h rh i None f = ((x, fa), ea)" by (metis prod.collapse)
  obtain c' es where "r = (c', es)" by fastforce
  then have "fst (remove_container io_good h rh vh i True f vf) =
      (Inr (), snd (snd (reap_index io_good rh f2)), vf)"
    using found r(1) st
    by (cases "is_active c")
      (simp_all add: remove_container_def remove_container_opts_def f1_def case_prod_unfold)
  then show ?thesis using reap_ids [OF r(2), of io_good rh] r(3) by simp
qed

lemma down_container_ids:
  assumes "h_io h = io_good" and "reapable (conts w)" and "proper_ids (load_unlocked (conts w))"
    and "c_id c \<in> set (map c_id (load_unlocked (conts w)))"
  shows "reapable (conts (down_container h w c)) \<and> nets (down_container h w c) = nets w \<and>
    map c_id (load_unlocked (conts (down_container h w c))) =
      filter (\<lambda>j. j \<noteq> c_id c) (map c_id (load_unlocked (conts w)))"
proof -
  let ?f = "snd (fst (stop_container (h_io h) (h_bundles h) (h_reaper h) (c_id c) None (conts w)))"
  have f: "reapable ?f" "map c_id (load_unlocked ?f) = map c_id (load_unlocked (conts w))"
    using stop_ids [OF assms(2)] by simp_all
  then have "proper_ids (load_unlocked ?f)" using assms(3) by (simp only: proper_ids_alt)
  then obtain f' vf' where "fst (remove_container io_good (h_bundles h) (h_reaper h) (h_volumes h) (c_id c) True ?f (vols w)) =
      (Inr (), f', vf')" "reapable f'"
    "map c_id (load_unlocked f') = filter (\<lambda>j. j \<noteq> c_id c) (map c_id (load_unlocked (conts w)))"
    using remove_container_ids [OF f(1)] f(2) assms(4) by metis
  then show ?thesis using assms(1) by (simp add: down_container_def Let_def)
qed

lemma down_containers:
  assumes "h_io h = io_good" and "reapable (conts w)" and "proper_ids (load_unlocked (conts w))"
    and "distinct (map c_id cs)" and "set (map c_id cs) \<subseteq> set (map c_id (load_unlocked (conts w)))"
  shows "nets (foldl (down_container h) w cs) = nets w \<and>
    map c_id (load_unlocked (conts (foldl (down_container h) w cs))) =
      filter (\<lambda>j. j \<notin> set (map c_id cs)) (map c_id (load_unlocked (conts w)))"
  using assms
proof (induction cs arbitrary: w)
  case (Cons c cs)
  let ?w = "down_container h w c"
  have d: "reapable (conts ?w)" "nets ?w = nets w" "map c_id (load_unlocked (conts ?w)) =
      filter (\<lambda>j. j \<noteq> c_id c) (map c_id (load_unlocked (conts w)))"
    using down_container_ids [OF Cons.prems(1-3), of c] Cons.prems(5) by auto
  have "proper_ids (load_unlocked (conts ?w))" using Cons.prems(3) unfolding proper_ids_alt d(3) by auto
  moreover have "set (map c_id cs) \<subseteq> set (map c_id (load_unlocked (conts ?w)))"
    using Cons.prems(4,5) unfolding d(3) by (auto simp: image_iff)
  ultimately have "nets (foldl (down_container h) ?w cs) = nets ?w \<and>
    map c_id (load_unlocked (conts (foldl (down_container h) ?w cs))) =
      filter (\<lambda>j. j \<notin> set (map c_id cs)) (map c_id (load_unlocked (conts ?w)))"
    using Cons.IH [OF Cons.prems(1) d(1)] Cons.prems(4) by simp
  then show ?case unfolding d(3) by (auto simp: d(2) filter_filter intro: filter_cong)
qed simp

lemma down_rest:
  "conts (project_down h p rv w) = conts (foldl (down_container h) w
     (filter (\<lambda>c. belongs p (c_name c)) (container_list (h_io h) (conts w))))"
  "nets (project_down h p rv w) = snd (network_remove (h_io h) (net_name p) False
     (snd (ensure_default_network (h_io h) (h_now h) (nets (foldl (down_container h) w
       (filter (\<lambda>c. belongs p (c_name c)) (container_list (h_io h) (conts w))))))))"
proof -
  have "conts (foldl (down_volume h p) x vs) = conts x \<and> nets (foldl (down_volume h p) x vs) = nets x" for x vs
    by (induction vs arbitrary: x) (simp_all add: down_volume_def)
  then show "conts (project_down h p rv w) = conts (foldl (down_container h) w
      (filter (\<lambda>c. belongs p (c_name c)) (container_list (h_io h) (conts w))))"
    "nets (project_down h p rv w) = snd (network_remove (h_io h) (net_name p) False
      (snd (ensure_default_network (h_io h) (h_now h) (nets (foldl (down_container h) w
        (filter (\<lambda>c. belongs p (c_name c)) (container_list (h_io h) (conts w))))))))"
    by (simp_all add: project_down_def open_networks_def Let_def)
qed

lemma network_with_endpoints_stays:
  assumes "find (n_matches (trim q)) (load_unlocked f) = Some net" and "n_containers net \<noteq> []"
  shows "snd (network_remove io q False f) = f"
proof -
  obtain i where "position (n_matches (trim q)) (load_unlocked f) = Some i" "load_unlocked f ! i = net"
    using position_find [OF assms(1)] by auto
  then show ?thesis using assms(2) by (simp add: network_remove_def Let_def with_index_lock_def)
qed

lemma find_append: "find p xs = Some x \<Longrightarrow> find p (xs @ ys) = Some x"
  by (induction xs) auto

lemma default_network_appended:
  "snd (ensure_default_network io now f) = f \<or>
   snd (ensure_default_network io now f) = Records (load_unlocked f @ [default_network now])"
  by (auto simp: ensure_default_network_def with_index_lock_def commit_def save_unlocked_def Let_def)

section \<open>Properties\<close>

text \<open>
  C13. The start order is always computed. Either it lists every service exactly once and after
  everything it depends on, or it reports a service that does depend on itself, or a
  dependency that is not a service.
\<close>

theorem dependency_order_correct:
  "\<exists>r. dependency_order svcs = Some r \<and>
    (case r of
       Inr order \<Rightarrow> distinct order \<and> set order = set (map fst svcs) \<and> in_order svcs {} order
     | Inl e \<Rightarrow> real_error svcs e)"
proof -
  obtain r where r: "dependency_order svcs = Some r"
    "case r of Inl e \<Rightarrow> real_error svcs e | Inr _ \<Rightarrow> True"
    using dependency_order_total by blast
  then show ?thesis using dependency_order_Inr [of svcs] by (cases r) auto
qed


text \<open>
  In the environment \<open>up\<close> passes on, an inline entry for a key replaces every entry of the
  key from the environment files and every earlier inline one; other keys keep their entries.
  The arguments that \<open>create\<close> and \<open>run\<close> build keep all of them.
\<close>

theorem inline_environment_overrides:
  "filter (has_key k) (up_env read root svc) =
     (if filter (has_key k) (inline_env svc) = [] then filter (has_key k) (env_file_entries read root svc)
      else [last (filter (has_key k) (inline_env svc))]) \<and>
   filter (has_key k) (create_env read root svc) =
     filter (has_key k) (env_file_entries read root svc) @ filter (has_key k) (inline_env svc)"
  by (simp add: up_env_def create_env_def filter_up_env)

text \<open>
  \<open>down\<close> removes exactly the containers it takes to be the project's, the ones \<open>up\<close> named
  among them.
\<close>

theorem down_removes_project:
  assumes "h_io h = io_good" and "reapable (conts w)" and "proper_ids (load_unlocked (conts w))"
    and "map_of (p_services p) s = Some svc"
  shows "map c_id (load_unlocked (conts (project_down h p rv w))) =
      map c_id (filter (\<lambda>c. \<not> belongs p (c_name c)) (load_unlocked (conts w))) \<and>
    belongs p (container_name p s svc)"
proof -
  let ?all = "load_unlocked (conts w)"
  let ?mine = "filter (\<lambda>c. belongs p (c_name c)) ?all"
  have ids: "distinct (map c_id ?all)" using assms(2) by (simp add: reapable_def containers_ok_def)
  then have inj: "inj_on c_id (set ?all)" and d: "distinct (map c_id ?mine)"
    by (simp_all add: distinct_map_filter distinct_map [THEN iffD1])
  have "map c_id (load_unlocked (conts (foldl (down_container h) w ?mine))) =
      filter (\<lambda>j. j \<notin> set (map c_id ?mine)) (map c_id ?all)"
    using down_containers [OF assms(1-3) d] by auto
  also have "\<dots> = map c_id (filter (\<lambda>c. c_id c \<notin> set (map c_id ?mine)) ?all)"
    by (simp add: filter_map o_def)
  also have "filter (\<lambda>c. c_id c \<notin> set (map c_id ?mine)) ?all = filter (\<lambda>c. \<not> belongs p (c_name c)) ?all"
    by (rule filter_cong) (use inj in \<open>auto dest: inj_onD\<close>)
  finally show ?thesis
    using belongs_own [OF assms(4)] assms(1) by (simp add: down_rest container_list_def list_locked_def)
qed

definition sample_service :: service where
  "sample_service = \<lparr>s_image = Some ''nginx'', s_build = None, s_container_name = None, s_env_file = None,
     s_command = None, s_entrypoint = None, s_environment = None, s_ports = None, s_volumes = None,
     s_depends_on = None, s_networks = None, s_restart = None\<rparr>"

definition sample_project :: project where
  "sample_project = \<lparr>p_name = ''app'', p_services = [(''web'', sample_service)], p_volumes = []\<rparr>"

definition sample_compose_host :: "unit compose_host" where
  "sample_compose_host = \<lparr>h_io = io_good, h_now = 0, h_net_id = ''n1'', h_root = ''.'', h_volumes = sample_host,
     h_bundles = idle_host, h_reaper = live_host, h_read = \<lambda>_. None,
     h_build = \<lambda>_ tag w. Some (Inr tag, w), h_run = \<lambda>_ w. Some (Inr 0, w),
     h_create = \<lambda>_ w. Some (Inr [], w)\<rparr>"

definition sample_network :: network where
  "sample_network = (default_network 0)\<lparr>n_id := ''n1'', n_name := ''app_default'',
     n_containers := [(''app_web_1'', new_endpoint ''app_web_1'' ''web'' (Ipv4 172 29 0 2))]\<rparr>"

definition sample_world :: "unit world" where
  "sample_world = \<lparr>conts = Records [sample_container ''c1'' ''app_web_1'', sample_container ''c2'' ''db''],
     nets = Records [sample_network], vols = Missing, rest = ()\<rparr>"

lemma sample_world_ok:
  "reapable (conts sample_world)" "proper_ids (load_unlocked (conts sample_world))"
proof -
  have "trim ''c1'' = ''c1''" "trim ''c2'' = ''c2''" by code_simp+
  then show "proper_ids (load_unlocked (conts sample_world))"
    by (simp add: proper_ids_def sample_world_def sample_container_def)
  show "reapable (conts sample_world)"
    by (simp add: sample_world_def reapable_def containers_ok_def ids_apart_def sample_container_def)
qed


theorem down_removes_project_witness:
  "belongs sample_project ''app_web_1'' \<and>
   map c_id (load_unlocked (conts (project_down sample_compose_host sample_project False sample_world))) =
     map c_id (filter (\<lambda>c. \<not> belongs sample_project (c_name c))
       [sample_container ''c1'' ''app_web_1'', sample_container ''c2'' ''db''])"
  using down_removes_project [of sample_compose_host sample_world sample_project "''web''" sample_service False]
    sample_world_ok
  by (simp add: sample_project_def sample_compose_host_def sample_world_def container_name_def sample_service_def)

text \<open>
  \<open>down\<close> does not remove the project's network once a container was attached to it, which
  is what \<open>up\<close> does before it runs each service: neither stopping nor removing a container
  detaches it, and a network with endpoints is not removed.
\<close>

theorem down_keeps_used_network:
  assumes "h_io h = io_good" and "reapable (conts w)" and "proper_ids (load_unlocked (conts w))"
    and "find (n_matches (trim (net_name p))) (load_unlocked (nets w)) = Some net" and "n_containers net \<noteq> []"
  shows "net \<in> set (load_unlocked (nets (project_down h p rv w)))"
proof -
  let ?mine = "filter (\<lambda>c. belongs p (c_name c)) (load_unlocked (conts w))"
  let ?f = "snd (ensure_default_network io_good (h_now h) (nets w))"
  have d: "distinct (map c_id ?mine)"
    using assms(2) by (simp add: reapable_def containers_ok_def distinct_map_filter)
  have n: "nets (foldl (down_container h) w ?mine) = nets w"
    using down_containers [OF assms(1-3) d] by auto
  have "find (n_matches (trim (net_name p))) (load_unlocked ?f) = Some net"
    using default_network_appended [of io_good "h_now h" "nets w"] assms(4) by (auto simp: find_append)
  then have "snd (network_remove io_good (net_name p) False ?f) = ?f" "net \<in> set (load_unlocked ?f)"
    using network_with_endpoints_stays assms(5) by (blast, blast dest: find_SomeD)
  then show ?thesis using n assms(1) by (simp add: down_rest container_list_def list_locked_def)
qed

theorem down_keeps_used_network_witness:
  "sample_network \<in> set (load_unlocked (nets (project_down sample_compose_host sample_project True sample_world)))"
proof (rule down_keeps_used_network [OF _ sample_world_ok])
  have "trim (net_name sample_project) = ''app_default''" by code_simp
  then show "find (n_matches (trim (net_name sample_project))) (load_unlocked (nets sample_world)) = Some sample_network"
    by (simp add: sample_world_def n_matches_def sample_network_def)
qed (simp_all add: sample_compose_host_def sample_network_def)

end
