(* ===== verification/Pod_Store.thy ===== *)
theory Pod_Store
  imports Lifecycle
begin

text \<open>
  Pods (\<open>src/pod/mod.rs\<close>, \<open>src/pod/ops.rs\<close>, the pod commands of \<open>src/lib.rs\<close>): the index of
  pods, the commands on the containers of a pod, namespace specifications, and what a pod
  hands down to the containers run in it.

  An operation that also acts on containers works on the pair of the two index files. The
  infra container is made in \<open>Pod_Command\<close>.

  Shown: names stay unique; removal without force and pruning spare pods with running members;
  a paused pod is pruned; a clone is recorded as running; and the ports of the infra container
  lose their address and protocol.
\<close>

section \<open>Data\<close>

record pod_config =
  pc_name :: "str option"
  pc_ports :: "port_mapping list"
  pc_hostname :: "str option"
  pc_labels :: "(str \<times> str) list"
  pc_dns :: "str list"
  pc_memory :: "str option"
  pc_cpus :: "str option"
  pc_share_ipc :: bool
  pc_share_net :: bool
  pc_share_uts :: bool
  pc_share_pid :: bool
  pc_infra :: bool
  pc_network :: "str option"

definition default_pod_config :: pod_config where
  "default_pod_config = \<lparr>pc_name = None, pc_ports = [], pc_hostname = None, pc_labels = [], pc_dns = [],
     pc_memory = None, pc_cpus = None, pc_share_ipc = True, pc_share_net = True, pc_share_uts = True,
     pc_share_pid = False, pc_infra = True, pc_network = None\<rparr>"

record pod =
  pd_id :: str
  pd_name :: str
  pd_created_at :: int
  pd_status :: str
  pd_infra :: str
  pd_containers :: "str list"
  pd_ports :: "port_mapping list"
  pd_hostname :: "str option"
  pd_labels :: "(str \<times> str) list"
  pd_dns :: "str list"
  pd_memory :: "str option"
  pd_cpus :: "str option"
  pd_share_ipc :: bool
  pd_share_net :: bool
  pd_share_uts :: bool
  pd_share_pid :: bool
  pd_network :: "str option"

type_synonym pod_file = "pod index_file"

section \<open>The index\<close>

definition p_matches :: "str \<Rightarrow> pod \<Rightarrow> bool" where
  "p_matches q p \<longleftrightarrow> pd_id p = q \<or> starts_with (pd_id p) q \<or> pd_name p = q"

definition pod_list :: "io \<Rightarrow> pod_file \<Rightarrow> pod list" where
  "pod_list io f = list_locked io f"

definition pod_find :: "io \<Rightarrow> str \<Rightarrow> pod_file \<Rightarrow> pod option" where
  "pod_find io query f =
     (let q = trim query in if q = [] then None else find_locked io (p_matches q) f)"

definition infra_name :: "pod \<Rightarrow> str" where
  "infra_name p = pd_name p @ ''-infra''"

definition pod_name_for :: "str \<Rightarrow> str option \<Rightarrow> str" where
  "pod_name_for rid name =
     (case name of
        None \<Rightarrow> ''pod-'' @ take 6 rid
      | Some n \<Rightarrow> if trim n = [] then ''pod-'' @ take 6 rid else trim n)"

definition create_with_config :: "io \<Rightarrow> str \<Rightarrow> int \<Rightarrow> pod_config \<Rightarrow> pod_file \<Rightarrow> pod res \<times> pod_file" where
  "create_with_config io rid now cfg f =
     with_index_lock io (\<lambda>f.
       let ps = load_unlocked f; n = pod_name_for rid (pc_name cfg) in
       if \<exists>p\<in>set ps. pd_name p = n then (Inl (Already_exists n), f)
       else let p = \<lparr>pd_id = take 12 rid, pd_name = n, pd_created_at = now, pd_status = ''Created'',
                     pd_infra = n @ ''-infra'', pd_containers = [], pd_ports = pc_ports cfg,
                     pd_hostname = pc_hostname cfg, pd_labels = pc_labels cfg, pd_dns = pc_dns cfg,
                     pd_memory = pc_memory cfg, pd_cpus = pc_cpus cfg, pd_share_ipc = pc_share_ipc cfg,
                     pd_share_net = pc_share_net cfg, pd_share_uts = pc_share_uts cfg,
                     pd_share_pid = pc_share_pid cfg, pd_network = pc_network cfg\<rparr>
            in commit io p (ps @ [p]) f) f"

definition pod_create :: "io \<Rightarrow> str \<Rightarrow> int \<Rightarrow> str option \<Rightarrow> port_mapping list \<Rightarrow> pod_file \<Rightarrow> pod res \<times> pod_file" where
  "pod_create io rid now name ports =
     create_with_config io rid now (default_pod_config\<lparr>pc_name := name, pc_ports := ports\<rparr>)"

text \<open>The updates find their pod without trimming and without a guard on the empty query.\<close>

definition change_pod :: "io \<Rightarrow> str \<Rightarrow> (pod \<Rightarrow> pod) \<Rightarrow> pod_file \<Rightarrow> unit res \<times> pod_file" where
  "change_pod io q upd f =
     with_index_lock io (\<lambda>f.
       let ps = load_unlocked f in
       case find (p_matches q) ps of
         Some _ \<Rightarrow> commit io () (update_first (p_matches q) upd ps) f
       | None \<Rightarrow> (Inl (Not_found q), f)) f"

definition set_infra_container_id :: "io \<Rightarrow> str \<Rightarrow> str \<Rightarrow> pod_file \<Rightarrow> unit res \<times> pod_file" where
  "set_infra_container_id io q i = change_pod io q (\<lambda>p. p\<lparr>pd_infra := i\<rparr>)"

definition pod_update_status :: "io \<Rightarrow> str \<Rightarrow> str \<Rightarrow> pod_file \<Rightarrow> unit res \<times> pod_file" where
  "pod_update_status io q s = change_pod io q (\<lambda>p. p\<lparr>pd_status := s\<rparr>)"

definition add_container_to_pod :: "io \<Rightarrow> str \<Rightarrow> str \<Rightarrow> pod_file \<Rightarrow> unit res \<times> pod_file" where
  "add_container_to_pod io q cid f =
     with_index_lock io (\<lambda>f.
       let ps = load_unlocked f in
       case find (p_matches q) ps of
         None \<Rightarrow> (Inl (Not_found q), f)
       | Some p \<Rightarrow>
           if cid \<in> set (pd_containers p) then (Inr (), f)
           else commit io () (update_first (p_matches q)
                  (\<lambda>p. p\<lparr>pd_containers := pd_containers p @ [cid], pd_status := ''Running''\<rparr>) ps) f) f"

definition member_container_ids :: "pod \<Rightarrow> str list" where
  "member_container_ids p =
     (if infra_name p \<in> set (pd_containers p) then pd_containers p else infra_name p # pd_containers p)"

section \<open>Pods and their containers\<close>

definition runs :: "container option \<Rightarrow> bool" where
  "runs c \<longleftrightarrow> (case c of None \<Rightarrow> False | Some c \<Rightarrow> c_status c = Running)"

definition infra_of :: "io \<Rightarrow> pod \<Rightarrow> container_file \<Rightarrow> container option" where
  "infra_of io p cf = or_else (container_find io (infra_name p) cf) (container_find io (pd_infra p) cf)"

definition any_running :: "io \<Rightarrow> container_file \<Rightarrow> pod \<Rightarrow> bool" where
  "any_running io cf p \<longleftrightarrow> (\<exists>cid\<in>set (pd_containers p). runs (container_find io cid cf))"

definition pod_busy :: "io \<Rightarrow> container_file \<Rightarrow> pod \<Rightarrow> bool" where
  "pod_busy io cf p \<longleftrightarrow> any_running io cf p \<or> runs (infra_of io p cf)"

record engine_host =
  e_bundles :: bundle_host
  e_reaper :: reap_host
  e_volumes :: vol_host

definition drop_container :: "io \<Rightarrow> engine_host \<Rightarrow> bool \<Rightarrow> container_file \<Rightarrow> str \<Rightarrow> container_file" where
  "drop_container io h force cf q =
     fst (snd (fst (remove_container io (e_bundles h) (e_reaper h) (e_volumes h) q force cf Missing)))"

definition drop_members :: "io \<Rightarrow> engine_host \<Rightarrow> bool \<Rightarrow> pod \<Rightarrow> container_file \<Rightarrow> container_file" where
  "drop_members io h force p cf =
     (let cf1 = foldl (drop_container io h force) cf (pd_containers p) in
      case infra_of io p cf1 of
        None \<Rightarrow> cf1
      | Some c \<Rightarrow> drop_container io h force cf1 (c_id c))"

definition pod_remove_with_force ::
  "io \<Rightarrow> engine_host \<Rightarrow> str \<Rightarrow> bool \<Rightarrow> pod_file \<times> container_file \<Rightarrow> pod res \<times> pod_file \<times> container_file" where
  "pod_remove_with_force io h query force st =
     (let q = trim query in
      if q = [] then (Inl (Not_found []), st)
      else with_index_lock io (\<lambda>(f, cf).
        let ps = load_unlocked f in
        case position (p_matches q) ps of
          None \<Rightarrow> (Inl (Not_found query), f, cf)
        | Some i \<Rightarrow>
            if \<not> force \<and> pod_busy io cf (ps ! i) then (Inl (Still_active (pd_name (ps ! i))), f, cf)
            else (case commit io () (remove_at i ps) f of
                    (Inl e, f') \<Rightarrow> (Inl e, f', cf)
                  | (Inr _, f') \<Rightarrow> (Inr (ps ! i), f', drop_members io h force (ps ! i) cf))) st)"

definition prunable :: "io \<Rightarrow> container_file \<Rightarrow> pod \<Rightarrow> bool" where
  "prunable io cf p \<longleftrightarrow> \<not> any_running io cf p \<and> \<not> runs (infra_of io p cf) \<and> pd_status p \<noteq> ''Running''"

definition pod_prune :: "io \<Rightarrow> container_file \<Rightarrow> pod_file \<Rightarrow> str list res \<times> pod_file" where
  "pod_prune io cf f =
     with_index_lock io (\<lambda>f.
       let ps = load_unlocked f; pruned = map pd_name (filter (prunable io cf) ps) in
       if pruned = [] then (Inr [], f)
       else commit io pruned (filter (\<lambda>p. \<not> prunable io cf p) ps) f) f"

section \<open>Pod commands\<close>

definition parse_pod_share :: "str \<Rightarrow> bool \<times> bool \<times> bool \<times> bool" where
  "parse_pod_share share =
     (let parts = map (\<lambda>s. to_lowercase (trim s)) (split_on CHR '','' share) in
      (''ipc'' \<in> set parts, ''net'' \<in> set parts, ''uts'' \<in> set parts, ''pid'' \<in> set parts))"

text \<open>\<open>pod pause\<close> and \<open>pod unpause\<close> for one pod: the infra container comes first.\<close>

definition switch_pod ::
  "io \<Rightarrow> bool \<Rightarrow> str \<Rightarrow> pod_file \<times> container_file \<Rightarrow> unit res \<times> pod_file \<times> container_file" where
  "switch_pod io pausing q st =
     (case st of (f, cf) \<Rightarrow>
       (case pod_find io q f of
          None \<Rightarrow> (Inl (Not_found q), f, cf)
        | Some p \<Rightarrow>
            (case fst (each_container (switch_container io pausing) (member_container_ids p) cf) of
               (Inl e, cf') \<Rightarrow> (Inl e, f, cf')
             | (Inr _, cf') \<Rightarrow>
                 (case pod_update_status io (pd_name p) (if pausing then ''Paused'' else ''Running'') f of
                    (r, f') \<Rightarrow> (r, f', cf')))))"

definition kill_pod ::
  "io \<Rightarrow> kill_host \<Rightarrow> str \<Rightarrow> str \<Rightarrow> pod_file \<times> container_file \<Rightarrow> unit res \<times> pod_file \<times> container_file" where
  "kill_pod io h signal q st =
     (case st of (f, cf) \<Rightarrow>
       (case pod_find io q f of
          None \<Rightarrow> (Inl (Not_found q), f, cf)
        | Some p \<Rightarrow> (Inr (), f,
            foldl (\<lambda>cf cid. snd (fst (kill_container io h cid (Some signal) cf))) cf (member_container_ids p))))"

definition stop_pod_members ::
  "io \<Rightarrow> engine_host \<Rightarrow> pod \<Rightarrow> pod_file \<times> container_file \<Rightarrow> unit res \<times> pod_file \<times> container_file" where
  "stop_pod_members io h p st =
     (case st of (f, cf) \<Rightarrow>
       let stop = (\<lambda>cf q. snd (fst (stop_container io (e_bundles h) (e_reaper h) q None cf)));
           cf' = stop (foldl stop cf (pd_containers p)) (infra_name p)
       in case pod_update_status io (pd_name p) ''Exited'' f of (r, f') \<Rightarrow> (r, f', cf'))"

section \<open>Namespaces and arguments\<close>

definition container_pid_namespace_path :: "(str \<Rightarrow> str option) \<Rightarrow> container \<Rightarrow> str \<Rightarrow> str res" where
  "container_pid_namespace_path pid_at c ns =
     (case pid_at (c_bundle_path c) of
        None \<Rightarrow> Inl (Not_running (c_name c))
      | Some t \<Rightarrow>
          if trim t \<noteq> [] then Inr (''/proc/'' @ trim t @ ''/ns/'' @ ns)
          else Inl (Not_running (c_name c)))"

definition container_namespace_path ::
  "io \<Rightarrow> (str \<Rightarrow> str option) \<Rightarrow> container_file \<Rightarrow> str \<Rightarrow> str \<Rightarrow> str res" where
  "container_namespace_path io pid_at cf q ns =
     (case container_find io q cf of
        None \<Rightarrow> Inl (Not_found q)
      | Some c \<Rightarrow> container_pid_namespace_path pid_at c ns)"

definition resolve_namespace_spec ::
  "io \<Rightarrow> (str \<Rightarrow> str option) \<Rightarrow> container_file \<Rightarrow> str \<Rightarrow> str \<Rightarrow> str option res" where
  "resolve_namespace_spec io pid_at cf spec ns =
     (let t = trim spec in
      if t = [] \<or> t = ''private'' then Inr None
      else if t = ''host'' then Inr (Some ''host'')
      else case or_else (strip_prefix ''container:'' t) (strip_prefix ''container://'' t) of
             Some target \<Rightarrow> bind_res (container_namespace_path io pid_at cf target ns) (\<lambda>p. Inr (Some p))
           | None \<Rightarrow> if starts_with t ''/'' then Inr (Some t) else Inr None)"

record ns_args =
  na_network :: str
  na_ipc :: "str option"
  na_uts :: "str option"
  na_pid :: "str option"
  na_hostname :: "str option"
  na_dns :: "str list"
  na_memory :: "str option"
  na_cpus :: "str option"
  na_labels :: "str list"

definition share :: "bool \<Rightarrow> str \<Rightarrow> str option \<Rightarrow> str option" where
  "share on infra v = (if on \<and> v = None then Some (''container:'' @ infra) else v)"

definition apply_pod_to_run_args :: "pod \<Rightarrow> str \<Rightarrow> ns_args \<Rightarrow> ns_args" where
  "apply_pod_to_run_args p infra a =
     \<lparr>na_network = (if pd_share_net p then ''container:'' @ infra
                    else unwrap_or (pd_network p) (na_network a)),
      na_ipc = share (pd_share_ipc p) infra (na_ipc a),
      na_uts = share (pd_share_uts p) infra (na_uts a),
      na_pid = share (pd_share_pid p) infra (na_pid a),
      na_hostname = or_else (na_hostname a) (or_else (pd_hostname p) (Some (pd_name p))),
      na_dns = (if na_dns a = [] \<and> pd_dns p \<noteq> [] then pd_dns p else na_dns a),
      na_memory = or_else (na_memory a) (pd_memory p),
      na_cpus = or_else (na_cpus a) (pd_cpus p),
      na_labels = na_labels a @ map (\<lambda>(k, v). k @ ''='' @ v) (pd_labels p)\<rparr>"

text \<open>The \<open>-p\<close> arguments the infra container is run with.\<close>

definition infra_port :: "port_mapping \<Rightarrow> str" where
  "infra_port m =
     (if host_port m = 0 then show_port (container_port m)
      else show_port (host_port m) @ '':'' @ show_port (container_port m))"

section \<open>Cloning\<close>

text \<open>
  \<open>fresh\<close> gives the ids of the new containers in order, \<open>home\<close> their directory; creating a
  directory can fail, which ends the loop. Copying the bundle's files has no effect on the
  indexes.
\<close>

record clone_host =
  k_now :: int
  k_home :: str
  k_dir_ok :: "str \<Rightarrow> bool"

definition cloned_container :: "clone_host \<Rightarrow> str \<Rightarrow> str \<Rightarrow> pod \<Rightarrow> container \<Rightarrow> container" where
  "cloned_container h target cid src c =
     c\<lparr>c_id := cid,
       c_name := target @ ''-'' @ unwrap_or (strip_prefix (pd_name src @ ''-'') (c_name c)) (c_name c),
       c_created_at := k_now h, c_status := Created,
       c_bundle_path := k_home h @ ''/containers/'' @ cid, c_restart_count := 0\<rparr>"

fun clone_members ::
  "io \<Rightarrow> clone_host \<Rightarrow> str \<Rightarrow> pod \<Rightarrow> str \<Rightarrow> (str \<times> str) list \<Rightarrow> pod_file \<times> container_file \<Rightarrow>
     unit res \<times> pod_file \<times> container_file" where
  "clone_members io h target src new_name [] st = (Inr (), st)"
| "clone_members io h target src new_name ((cid, fresh) # cs) (f, cf) =
     (case container_find io cid cf of
        None \<Rightarrow> clone_members io h target src new_name cs (f, cf)
      | Some c \<Rightarrow>
          if \<not> k_dir_ok h (k_home h @ ''/containers/'' @ fresh) then (Inl Io_failed, f, cf)
          else
            let cf' = snd (container_add io (cloned_container h target fresh src c) cf);
                f' = snd (add_container_to_pod io new_name fresh f)
            in clone_members io h target src new_name cs (f', cf'))"

definition clone_config :: "str \<Rightarrow> pod \<Rightarrow> pod_config" where
  "clone_config target src =
     \<lparr>pc_name = Some target, pc_ports = pd_ports src, pc_hostname = pd_hostname src,
      pc_labels = pd_labels src, pc_dns = pd_dns src, pc_memory = pd_memory src, pc_cpus = pd_cpus src,
      pc_share_ipc = pd_share_ipc src, pc_share_net = pd_share_net src, pc_share_uts = pd_share_uts src,
      pc_share_pid = pd_share_pid src, pc_infra = True, pc_network = pd_network src\<rparr>"

definition clone_pod ::
  "io \<Rightarrow> clone_host \<Rightarrow> str \<Rightarrow> str list \<Rightarrow> str \<Rightarrow> str \<Rightarrow> pod_file \<times> container_file \<Rightarrow>
     pod res \<times> pod_file \<times> container_file" where
  "clone_pod io h rid fresh source target st =
     (case st of (f, cf) \<Rightarrow>
       (case pod_find io source f of
          None \<Rightarrow> (Inl (Not_found source), f, cf)
        | Some src \<Rightarrow>
            if pod_find io target f \<noteq> None then (Inl (Already_exists target), f, cf)
            else case create_with_config io rid (k_now h) (clone_config target src) f of
                   (Inl e, f1) \<Rightarrow> (Inl e, f1, cf)
                 | (Inr new, f1) \<Rightarrow>
                     (case clone_members io h target src (pd_name new) (zip (pd_containers src) fresh) (f1, cf) of
                        (Inl e, st') \<Rightarrow> (Inl e, st')
                      | (Inr _, st') \<Rightarrow> (Inr new, st'))))"

section \<open>One step of the index\<close>

datatype pod_request =
    Create_pod str int pod_config | Set_infra str str | Set_pod_status str str | Add_member str str
  | Remove_pod engine_host str bool container_file | Prune_pods container_file

datatype pod_reply = Pod pod | Pod_done | Pods_gone "str list"

fun pod_step :: "io \<Rightarrow> pod_request \<Rightarrow> pod_file \<Rightarrow> pod_reply res \<times> pod_file" where
  "pod_step io (Create_pod rid now cfg) f = tagged Pod (create_with_config io rid now cfg f)"
| "pod_step io (Set_infra q i) f = tagged (\<lambda>_. Pod_done) (set_infra_container_id io q i f)"
| "pod_step io (Set_pod_status q s) f = tagged (\<lambda>_. Pod_done) (pod_update_status io q s f)"
| "pod_step io (Add_member q c) f = tagged (\<lambda>_. Pod_done) (add_container_to_pod io q c f)"
| "pod_step io (Remove_pod h q force cf) f =
     (case pod_remove_with_force io h q force (f, cf) of (r, f', _) \<Rightarrow> tagged Pod (r, f'))"
| "pod_step io (Prune_pods cf) f = tagged Pods_gone (pod_prune io cf f)"

definition pods_ok :: "pod list \<Rightarrow> bool" where
  "pods_ok ps \<longleftrightarrow> distinct (map pd_name ps) \<and> (\<forall>p\<in>set ps. distinct (pd_containers p))"

lemma p_matches_iff: "p_matches q p \<longleftrightarrow> starts_with (pd_id p) q \<or> pd_name p = q"
  by (auto simp: p_matches_def)

interpretation pods: query_index p_matches pd_id pd_name
  by unfold_locales (rule p_matches_iff)

lemma create_with_config_Inr:
  assumes "create_with_config io rid now cfg f = (Inr p, f')"
  shows "f' = Records (load_unlocked f @ [p])" and "pd_name p = pod_name_for rid (pc_name cfg)"
    and "pd_name p \<notin> pd_name ` set (load_unlocked f)" and "pd_containers p = []"
    and "pd_status p = ''Created''" and "pd_id p = take 12 rid"
  using assms by (auto simp: create_with_config_def Let_def split: if_splits)

lemma change_pod_Inr:
  "change_pod io q upd f = (Inr x, f') \<Longrightarrow> f' = Records (update_first (p_matches q) upd (load_unlocked f))"
  by (auto simp: change_pod_def Let_def split: option.splits)

lemma pods_ok_update:
  assumes "pods_ok ps" and "\<And>p. pd_name (upd p) = pd_name p"
    and "\<And>p. distinct (pd_containers p) \<Longrightarrow> p_matches q p \<Longrightarrow> p \<in> set ps \<Longrightarrow>
           find (p_matches q) ps = Some p \<Longrightarrow> distinct (pd_containers (upd p))"
  shows "pods_ok (update_first (p_matches q) upd ps)"
proof (cases "find (p_matches q) ps")
  case None
  then show ?thesis using assms(1) by (simp add: update_first_id)
next
  case (Some p)
  then have "distinct (pd_containers p) \<Longrightarrow> distinct (pd_containers (upd p))"
    using assms(3) find_SomeD by metis
  then have "\<forall>p\<in>set (update_first (p_matches q) upd ps). distinct (pd_containers p)"
    using all_update_first [OF Some, of "\<lambda>p. distinct (pd_containers p)" upd] assms(1) by (simp add: pods_ok_def)
  then show ?thesis using assms(1) by (simp add: pods_ok_def assms(2))
qed

lemma pods_ok_filter: "pods_ok ps \<Longrightarrow> pods_ok (filter sel ps)"
  by (auto simp: pods_ok_def distinct_map_filter)

lemma pod_remove_Inr:
  assumes "pod_remove_with_force io h query force (f, cf) = (Inr p, f', cf')"
  shows "\<exists>i. position (p_matches (trim query)) (load_unlocked f) = Some i \<and> p = load_unlocked f ! i \<and>
    f' = Records (remove_at i (load_unlocked f)) \<and> cf' = drop_members io h force p cf \<and>
    (force \<or> \<not> pod_busy io cf p)"
  using assms
  by (auto simp: pod_remove_with_force_def Let_def split: if_splits option.splits sum.splits prod.splits)

lemma pod_remove_Inl:
  "pod_remove_with_force io h query force (f, cf) = (Inl e, f', cf') \<Longrightarrow> f' = f \<and> cf' = cf"
  by (auto simp: pod_remove_with_force_def Let_def with_index_lock_Inl_iff
      split: if_splits option.splits sum.splits prod.splits)

lemma pods_ok_remove_at: "pods_ok ps \<Longrightarrow> i < length ps \<Longrightarrow> pods_ok (remove_at i ps)"
  using set_remove_at_subset [of i ps] by (auto simp: pods_ok_def distinct_remove_at)

lemma change_pod_ok:
  assumes "pods_ok (load_unlocked f)" and "change_pod io q upd f = (Inr x, f')"
    and "\<And>p. pd_name (upd p) = pd_name p" and "\<And>p. pd_containers (upd p) = pd_containers p"
  shows "pods_ok (load_unlocked f')"
  using change_pod_Inr [OF assms(2)] pods_ok_update [OF assms(1) assms(3), of q] by (simp add: assms(4))

lemma add_member_ok:
  assumes "pods_ok (load_unlocked f)" and "add_container_to_pod io q cid f = (Inr x, f')"
  shows "pods_ok (load_unlocked f')"
proof -
  let ?upd = "\<lambda>p. p\<lparr>pd_containers := pd_containers p @ [cid], pd_status := ''Running''\<rparr>"
  have "f' = f \<or> (\<exists>p. find (p_matches q) (load_unlocked f) = Some p \<and> cid \<notin> set (pd_containers p) \<and>
      f' = Records (update_first (p_matches q) ?upd (load_unlocked f)))"
    using assms(2) by (auto simp: add_container_to_pod_def Let_def split: option.splits if_splits)
  then show ?thesis
  proof
    assume "\<exists>p. find (p_matches q) (load_unlocked f) = Some p \<and> cid \<notin> set (pd_containers p) \<and>
      f' = Records (update_first (p_matches q) ?upd (load_unlocked f))"
    then obtain p where p: "find (p_matches q) (load_unlocked f) = Some p" "cid \<notin> set (pd_containers p)"
      and f': "f' = Records (update_first (p_matches q) ?upd (load_unlocked f))" by blast
    show ?thesis unfolding f' load_unlocked_simps
      by (rule pods_ok_update [OF assms(1)]) (use p in auto)
  qed (use assms(1) in simp)
qed

lemma pod_step_ok:
  assumes inv: "pods_ok (load_unlocked f)" and step: "pod_step io r f = (Inr y, f')"
  shows "pods_ok (load_unlocked f')"
proof (cases r)
  case (Create_pod rid now cfg)
  then obtain p where "create_with_config io rid now cfg f = (Inr p, f')" using step by (auto simp: tagged_Inr)
  from create_with_config_Inr [OF this] show ?thesis using inv by (auto simp: pods_ok_def)
next
  case (Set_infra q i)
  then show ?thesis using step inv
    by (auto simp: tagged_Inr set_infra_container_id_def intro: change_pod_ok)
next
  case (Set_pod_status q s)
  then show ?thesis using step inv by (auto simp: tagged_Inr pod_update_status_def intro: change_pod_ok)
next
  case (Add_member q c)
  then show ?thesis using step inv by (auto simp: tagged_Inr intro: add_member_ok)
next
  case (Remove_pod h q force cf)
  then obtain p cf' where "pod_remove_with_force io h q force (f, cf) = (Inr p, f', cf')"
    using step by (auto simp: tagged_Inr split: prod.splits)
  from pod_remove_Inr [OF this] show ?thesis using inv by (auto intro: pods_ok_remove_at [OF _ position_less])
next
  case (Prune_pods cf)
  then show ?thesis using step inv
    by (auto simp: tagged_Inr pod_prune_def Let_def intro: pods_ok_filter split: if_splits)
qed

lemma pod_step_failed: "pod_step io r f = (Inl e, f') \<Longrightarrow> f' = f"
  by (cases r) (auto simp: tagged_Inl create_with_config_def set_infra_container_id_def pod_update_status_def
      change_pod_def add_container_to_pod_def pod_prune_def Let_def with_index_lock_Inl_iff
      split: prod.splits option.splits if_splits dest: pod_remove_Inl)

interpretation pod_store: index_transactions pod_step pods_ok
  by unfold_locales (fact pod_step_failed pod_step_ok)+

lemma parse_infra_port:
  "parse_all (infra_port m) = Inr [\<lparr>host_ip = None,
     host_port = (if host_port m = 0 then container_port m else host_port m),
     container_port = container_port m, pm_protocol = ''tcp''\<rparr>]"
proof -
  have n: "split_once CHR ''/'' (infra_port m) = None"
    by (simp add: infra_port_def)
  show ?thesis
  proof (cases "host_port m = 0")
    case True
    then show ?thesis using n
      by (simp add: parse_all_def split_protocol_def infra_port_def split_on_no_sep
          parse_port_or_range_show mk_mappings_def)
  next
    case False
    have "split_on CHR '':'' (infra_port m) = [show_port (host_port m), show_port (container_port m)]"
      using False by (simp add: infra_port_def split_on_append split_on_no_sep)
    then show ?thesis using n False
      by (simp add: parse_all_def split_protocol_def parse_pair_show)
  qed
qed

lemma remove_at_gone:
  assumes "distinct (map k xs)" and "i < length xs"
  shows "xs ! i \<notin> set (remove_at i xs)"
  using remove_at_filter [OF assms] by simp

section \<open>Properties\<close>

text \<open>
  In every pod index reached from a missing one by any requests under any failures, no two
  pods have the same name and no pod lists a container twice.
\<close>

theorem pods_stay_consistent:
  "pods_ok (load_unlocked (run_requests pod_step qs Missing))"
  by (rule pod_store.run_from_empty) (simp add: pods_ok_def)

text \<open>
  A pod has a running container: one of its members is found in the index as running, or the
  container found by the name of the pod with \<open>-infra\<close> is, or, where nothing has that name, the
  one found by the recorded infra container.
\<close>

definition has_running_container :: "container_file \<Rightarrow> pod \<Rightarrow> bool" where
  "has_running_container cf p \<longleftrightarrow>
     (\<exists>m c. m \<in> set (pd_containers p) \<and> container_find io_good m cf = Some c \<and> c_status c = Running) \<or>
     (\<exists>c. container_find io_good (pd_name p @ ''-infra'') cf = Some c \<and> c_status c = Running) \<or>
     container_find io_good (pd_name p @ ''-infra'') cf = None \<and>
       (\<exists>c. container_find io_good (pd_infra p) cf = Some c \<and> c_status c = Running)"

lemma runs_iff: "runs x \<longleftrightarrow> (\<exists>c. x = Some c \<and> c_status c = Running)"
  by (auto simp: runs_def split: option.splits)

lemma pod_busy_iff: "pod_busy io_good cf p \<longleftrightarrow> has_running_container cf p"
  unfolding pod_busy_def any_running_def runs_iff infra_of_def or_else_def infra_name_def
    has_running_container_def
  by (cases "container_find io_good (pd_name p @ ''-infra'') cf") auto

lemma prunable_iff:
  "prunable io_good cf p \<longleftrightarrow> \<not> has_running_container cf p \<and> pd_status p \<noteq> ''Running''"
  unfolding pod_busy_iff [symmetric] by (auto simp: prunable_def pod_busy_def)

lemma pod_prune_result:
  "pod_prune io_good cf f =
     (Inr (map pd_name (filter (prunable io_good cf) (load_unlocked f))), snd (pod_prune io_good cf f)) \<and>
   load_unlocked (snd (pod_prune io_good cf f)) = filter (\<lambda>p. \<not> prunable io_good cf p) (load_unlocked f)"
proof -
  have "filter (\<lambda>p. \<not> prunable io_good cf p) (load_unlocked f) = load_unlocked f"
    if "filter (prunable io_good cf) (load_unlocked f) = []"
    using that by (simp add: filter_empty_conv)
  then show ?thesis by (auto simp: pod_prune_def Let_def)
qed

text \<open>
  C15. Removing a pod without force is refused, with nothing changed, exactly when one of its
  members or its infra container is running; otherwise exactly that pod leaves the index.
  Pruning removes, and reports, exactly the pods that have no running container and are not
  recorded with the status \<open>Running\<close> either: a paused pod goes, a pod still recorded as running
  whose containers have ended stays.
\<close>

theorem pod_removal_guarded:
  assumes "pods_ok (load_unlocked f)" and "find (p_matches (trim q)) (load_unlocked f) = Some p"
    and "trim q \<noteq> []"
  shows "(if \<not> force \<and> has_running_container cf p
      then pod_remove_with_force io_good h q force (f, cf) = (Inl (Still_active (pd_name p)), f, cf)
      else \<exists>f' cf'. pod_remove_with_force io_good h q force (f, cf) = (Inr p, f', cf') \<and>
        load_unlocked f' = filter (\<lambda>x. pd_name x \<noteq> pd_name p) (load_unlocked f)) \<and>
    (\<exists>f'. pod_prune io_good cf f =
        (Inr (map pd_name (filter (\<lambda>x. \<not> has_running_container cf x \<and> pd_status x \<noteq> ''Running'')
           (load_unlocked f))), f') \<and>
      load_unlocked f' =
        filter (\<lambda>x. has_running_container cf x \<or> pd_status x = ''Running'') (load_unlocked f))"
proof (rule conjI)
  obtain i where i: "position (p_matches (trim q)) (load_unlocked f) = Some i" "load_unlocked f ! i = p"
    using position_find [OF assms(2)] by auto
  have "distinct (map pd_name (load_unlocked f))" using assms(1) by (simp add: pods_ok_def)
  from remove_at_filter [OF this position_less [OF i(1)]]
  have "remove_at i (load_unlocked f) = filter (\<lambda>x. pd_name x \<noteq> pd_name p) (load_unlocked f)"
    by (simp add: i(2))
  then show "if \<not> force \<and> has_running_container cf p
      then pod_remove_with_force io_good h q force (f, cf) = (Inl (Still_active (pd_name p)), f, cf)
      else \<exists>f' cf'. pod_remove_with_force io_good h q force (f, cf) = (Inr p, f', cf') \<and>
        load_unlocked f' = filter (\<lambda>x. pd_name x \<noteq> pd_name p) (load_unlocked f)"
    using i assms(3) by (simp add: pod_remove_with_force_def Let_def pod_busy_iff)
  show "\<exists>f'. pod_prune io_good cf f =
        (Inr (map pd_name (filter (\<lambda>x. \<not> has_running_container cf x \<and> pd_status x \<noteq> ''Running'')
           (load_unlocked f))), f') \<and>
      load_unlocked f' =
        filter (\<lambda>x. has_running_container cf x \<or> pd_status x = ''Running'') (load_unlocked f)"
    using pod_prune_result [of cf f] unfolding prunable_iff by (intro exI) (simp add: disj_commute)
qed

definition sample_pod :: pod where
  "sample_pod = \<lparr>pd_id = ''0123456789ab'', pd_name = ''p'', pd_created_at = 0, pd_status = ''Paused'',
     pd_infra = ''p-infra'', pd_containers = [''c2''], pd_ports = [], pd_hostname = None, pd_labels = [],
     pd_dns = [], pd_memory = None, pd_cpus = None, pd_share_ipc = True, pd_share_net = True,
     pd_share_uts = True, pd_share_pid = False, pd_network = None\<rparr>"

definition sample_engine :: engine_host where
  "sample_engine = \<lparr>e_bundles = idle_host, e_reaper = live_host, e_volumes = sample_host\<rparr>"

lemma sample_member:
  "container_find io_good ''c2'' sample_file = Some ((sample_container ''c2'' ''db'')\<lparr>c_status := Running\<rparr>)"
proof -
  have "trim ''c2'' = ''c2''" by code_simp
  then show ?thesis
    by (simp add: container_find_def find_locked_def sample_file_def c_matches_def sample_container_def starts_with_def)
qed

theorem pod_removal_guarded_witness:
  "pod_remove_with_force io_good sample_engine ''p'' False (Records [sample_pod], sample_file) =
     (Inl (Still_active ''p''), Records [sample_pod], sample_file)"
proof -
  have t: "trim ''p'' = ''p''" by code_simp
  have "has_running_container sample_file sample_pod"
    using sample_member by (simp add: has_running_container_def sample_pod_def)
  moreover have "find (p_matches (trim ''p'')) (load_unlocked (Records [sample_pod])) = Some sample_pod"
    by (simp add: t p_matches_def sample_pod_def)
  ultimately show ?thesis
    using pod_removal_guarded [of "Records [sample_pod]" "''p''" sample_pod False sample_file sample_engine]
    by (simp add: pods_ok_def t sample_pod_def)
qed

text \<open>
  The infra container of a pod publishes the pod's ports without their host address and
  protocol: whatever a mapping said, the argument made of it parses to one that is TCP and on
  every address (and publishes a container port without a host port as itself).
\<close>

theorem infra_ports_lose_address:
  "parse_all (infra_port m) = Inr [\<lparr>host_ip = None,
     host_port = (if host_port m = 0 then container_port m else host_port m),
     container_port = container_port m, pm_protocol = ''tcp''\<rparr>]"
  by (rule parse_infra_port)

text \<open>
  A pod without an infra container can be neither paused nor unpaused: its infra container
  is looked for first, and the command fails before it reaches any member.
\<close>

theorem pod_without_infra_never_pauses:
  assumes "pod_find io q f = Some p" and "container_find io (infra_name p) cf = None"
    and "infra_name p \<notin> set (pd_containers p)"
  shows "switch_pod io pausing q (f, cf) = (Inl (Not_found (infra_name p)), f, cf)"
  using assms by (simp add: switch_pod_def member_container_ids_def switch_container_def)

theorem pod_without_infra_never_pauses_witness:
  "switch_pod io_good True ''p'' (Records [sample_pod], sample_file) =
     (Inl (Not_found ''p-infra''), Records [sample_pod], sample_file)"
proof -
  have t: "trim ''p'' = ''p''" "trim ''p-infra'' = ''p-infra''" by code_simp+
  have "infra_name sample_pod = ''p-infra''" by (simp add: infra_name_def sample_pod_def)
  moreover have "pod_find io_good ''p'' (Records [sample_pod]) = Some sample_pod"
    by (simp add: pod_find_def find_locked_def t p_matches_def sample_pod_def)
  moreover have "container_find io_good ''p-infra'' sample_file = None"
    by (simp add: container_find_def find_locked_def t sample_file_def c_matches_def sample_container_def
        starts_with_def)
  moreover have "''p-infra'' \<notin> set (pd_containers sample_pod)" by (simp add: sample_pod_def)
  ultimately show ?thesis
    using pod_without_infra_never_pauses [of io_good "''p''" "Records [sample_pod]" sample_pod sample_file True]
    by simp
qed

end
