(* ===== verification/Path_Text.thy ===== *)
theory Path_Text
  imports Rust_Text
begin

text \<open>
  \<open>std::path\<close> on Unix as far as the program uses it: the components of a path text, \<open>join\<close>,
  \<open>parent\<close>, \<open>file_name\<close>, \<open>pop\<close> and \<open>starts_with\<close>. A \<open>Path\<close> compares by its components, so
  it is modelled by their list; repeated and trailing separators and inner \<open>.\<close> disappear.
\<close>

datatype component = RootDir | CurDir | ParentDir | Normal str

type_synonym path = "component list"

definition component_of :: "str \<Rightarrow> component" where
  "component_of p = (if p = ''..'' then ParentDir else Normal p)"

definition path_pieces :: "str \<Rightarrow> str list" where
  "path_pieces s = filter (\<lambda>p. p \<noteq> [] \<and> p \<noteq> ''.'') (split_on CHR ''/'' s)"

definition components :: "str \<Rightarrow> path" where
  "components s =
     (if starts_with s ''/'' then [RootDir]
      else if s = ''.'' \<or> starts_with s ''./'' then [CurDir] else []) @
     map component_of (path_pieces s)"

definition is_absolute :: "path \<Rightarrow> bool" where
  "is_absolute p \<longleftrightarrow> p \<noteq> [] \<and> hd p = RootDir"

definition path_join :: "path \<Rightarrow> path \<Rightarrow> path" where
  "path_join p q =
     (if is_absolute q then q else if p = [] then q else p @ filter (\<lambda>c. c \<noteq> CurDir) q)"

definition path_parent :: "path \<Rightarrow> path option" where
  "path_parent p = (if p = [] \<or> last p = RootDir then None else Some (butlast p))"

definition path_pop :: "path \<Rightarrow> path \<times> bool" where
  "path_pop p = (case path_parent p of None \<Rightarrow> (p, False) | Some q \<Rightarrow> (q, True))"

definition file_name :: "path \<Rightarrow> str option" where
  "file_name p = (if p = [] then None else case last p of Normal n \<Rightarrow> Some n | _ \<Rightarrow> None)"

definition path_below :: "path \<Rightarrow> path \<Rightarrow> bool" where
  "path_below p root \<longleftrightarrow> take (length root) p = root"

text \<open>A text that stands for a single ordinary component.\<close>

definition plain_piece :: "str \<Rightarrow> bool" where
  "plain_piece n \<longleftrightarrow> n \<noteq> [] \<and> n \<noteq> ''.'' \<and> n \<noteq> ''..'' \<and> CHR ''/'' \<notin> set n"

lemma path_below_iff: "path_below p root \<longleftrightarrow> (\<exists>r. p = root @ r)"
  by (metis append_eq_conv_conj path_below_def)

lemma path_below_refl [simp]: "path_below p p"
  by (simp add: path_below_def)

lemma path_below_append [simp]: "path_below (root @ r) root"
  by (simp add: path_below_def)

lemma path_below_trans: "path_below p q \<Longrightarrow> path_below q r \<Longrightarrow> path_below p r"
  by (auto simp: path_below_iff)

lemma path_below_snoc: "path_below p root \<Longrightarrow> path_below (p @ [c]) root"
  by (auto simp: path_below_iff)

lemma path_below_butlast: "path_below p root \<Longrightarrow> p \<noteq> root \<Longrightarrow> path_below (butlast p) root"
  by (metis append_self_conv butlast_append path_below_iff)

lemma path_below_length: "path_below p root \<Longrightarrow> length root \<le> length p"
  by (auto simp: path_below_iff)

lemma path_pieces_Cons_sep: "path_pieces (CHR ''/'' # s) = path_pieces s"
  by (simp add: path_pieces_def)

lemma split_on_append_sep: "split_on c (a @ c # b) = split_on c a @ split_on c b"
proof (induction a)
  case (Cons x a)
  then show ?case by (cases "split_on c a") auto
qed simp

lemma path_pieces_append_sep: "path_pieces (a @ CHR ''/'' # s) = path_pieces a @ path_pieces s"
  by (simp add: path_pieces_def split_on_append_sep)

lemma path_pieces_plain: "plain_piece n \<Longrightarrow> path_pieces n = [n]"
  by (simp add: path_pieces_def plain_piece_def split_on_no_sep)

lemma component_of_plain: "plain_piece n \<Longrightarrow> component_of n = Normal n"
  by (simp add: component_of_def plain_piece_def)

lemma plain_components [simp]: "plain_piece n \<Longrightarrow> components n = [Normal n]"
proof -
  assume n: "plain_piece n"
  have "\<not> starts_with n ''/''" and "\<not> starts_with n ''./''"
    using n by (auto simp: plain_piece_def starts_with_iff)
  then show ?thesis
    using n by (auto simp: components_def path_pieces_plain component_of_plain plain_piece_def)
qed

lemma components_snoc:
  assumes "a \<noteq> []" and "plain_piece n"
  shows "components (a @ CHR ''/'' # n) = components a @ [Normal n]"
proof -
  obtain x s where a: "a = x # s" using assms(1) by (cases a) auto
  have "starts_with (a @ CHR ''/'' # n) ''/'' = starts_with a ''/''"
    by (simp add: starts_with_def a)
  moreover have "a @ CHR ''/'' # n = ''.'' \<or> starts_with (a @ CHR ''/'' # n) ''./'' \<longleftrightarrow>
      a = ''.'' \<or> starts_with a ''./''"
    by (cases s) (auto simp: starts_with_def a)
  ultimately show ?thesis
    using assms(2) unfolding components_def
    by (simp only: path_pieces_append_sep path_pieces_plain map_append) (simp add: component_of_plain)
qed

lemma components_append:
  assumes "a \<noteq> []" and "\<forall>n\<in>set ns. plain_piece n"
  shows "components (a @ concat (map (\<lambda>n. CHR ''/'' # n) ns)) = components a @ map Normal ns"
  using assms
proof (induction ns arbitrary: a)
  case (Cons n ns)
  from Cons.IH [of "a @ CHR ''/'' # n"] Cons.prems show ?case
    by (simp add: components_snoc)
qed simp

section \<open>Where a path leads\<close>

text \<open>
  The file an absolute path names when no symbolic link is met on the way: \<open>..\<close> leaves the
  directory before it.
\<close>

fun lead :: "path \<Rightarrow> path \<Rightarrow> path" where
  "lead at [] = at"
| "lead at (RootDir # cs) = lead [RootDir] cs"
| "lead at (CurDir # cs) = lead at cs"
| "lead at (ParentDir # cs) = lead (fst (path_pop at)) cs"
| "lead at (Normal n # cs) = lead (at @ [Normal n]) cs"

definition leads_to :: "path \<Rightarrow> path" where
  "leads_to p = lead [] p"

lemma lead_append: "lead at (p @ q) = lead (lead at p) q"
  by (induction "at" p rule: lead.induct) auto

lemma lead_normals [simp]: "lead at (map Normal ns) = at @ map Normal ns"
  by (induction ns arbitrary: "at") auto

text \<open>An absolute path whose other components are ordinary.\<close>

definition plain_path :: "path \<Rightarrow> bool" where
  "plain_path p \<longleftrightarrow> (\<exists>ns. p = RootDir # map Normal ns)"

lemma leads_to_plain [simp]: "plain_path p \<Longrightarrow> leads_to p = p"
  by (auto simp: plain_path_def leads_to_def)

lemma leads_to_append: "leads_to (p @ q) = lead (leads_to p) q"
  by (simp add: leads_to_def lead_append)

end
