(* ===== verification/Image_Store.thy ===== *)
theory Image_Store
  imports Path_Text Image_Ref Container_Store "HOL-Library.AList"
begin

text \<open>
  The image index (\<open>src/storage/image_store.rs\<close>), the image configuration it keeps
  (\<open>src/oci/image.rs\<close>) and the image commands of \<open>src/lib.rs\<close>: \<open>rmi\<close>, \<open>image prune\<close>,
  \<open>tag\<close>, \<open>untag\<close> and \<open>commit\<close>.

  Shown: no two records share name and platform; a record stored under a reference is found
  under exactly the equivalent references; removing a record keeps the files of every other;
  \<open>rmi\<close> does not remove an image in use, but may remove the record of another platform than
  the one it checked; \<open>prune\<close> may remove an image in use.
\<close>

section \<open>Data\<close>

record exec_config =
  x_user :: "str option"
  x_env :: "str list option"
  x_entrypoint :: "str list option"
  x_cmd :: "str list option"
  x_working_dir :: "str option"
  x_labels :: "(str \<times> str) list option"
  x_volumes :: "str list option"
  x_exposed_ports :: "str list option"
  x_healthcheck :: "health_config option"
  x_stop_signal :: "str option"

record root_fs_config =
  fs_type :: str
  diff_ids :: "str list"

record history_entry =
  h_created :: "str option"
  h_created_by :: "str option"
  h_empty_layer :: "bool option"
  h_comment :: "str option"
  h_size :: "int option"

record image_config =
  g_architecture :: str
  g_os :: str
  g_config :: "exec_config option"
  g_rootfs :: "root_fs_config option"
  g_history :: "history_entry list"

record image_record =
  i_id :: str
  i_reference :: str
  i_tag :: str
  i_registry :: str
  i_manifest_digest :: str
  i_config_digest :: str
  i_size_bytes :: int
  i_created_at :: int
  i_rootfs_path :: str
  i_config :: image_config

type_synonym image_file = "image_record index_file"

definition default_exec_config :: exec_config where
  "default_exec_config =
     \<lparr>x_user = None, x_env = None, x_entrypoint = None, x_cmd = None, x_working_dir = None,
      x_labels = None, x_volumes = None, x_exposed_ports = None, x_healthcheck = None,
      x_stop_signal = None\<rparr>"

text \<open>\<open>entrypoint_exists_in_rootfs\<close>: whether the program an image starts is in its root file system.\<close>

definition entrypoint_exists :: "(str \<Rightarrow> bool) \<Rightarrow> str \<Rightarrow> str \<Rightarrow> bool" where
  "entrypoint_exists exists rootfs entrypoint =
     (let ep = unwrap_or (strip_prefix ''/'' entrypoint) entrypoint;
          at = (\<lambda>p. exists (if starts_with ep ''/'' then ep else rootfs @ ''/'' @ p @ ep))
      in at [] \<or>
         (\<not> contains_char ep CHR ''/'' \<and>
          (\<exists>d\<in>set [''usr/local/bin/'', ''usr/bin/'', ''bin/'', ''sbin/'']. at d)))"

definition display_reference :: "image_record \<Rightarrow> str" where
  "display_reference i =
     (if i_registry i = DEFAULT_REGISTRY then i_reference i
      else i_registry i @ ''/'' @ i_reference i)"

definition qualified_name :: "image_record \<Rightarrow> str" where
  "qualified_name i = i_registry i @ ''/'' @ i_reference i @ '':'' @ i_tag i"

section \<open>What a query names\<close>

definition record_identity :: "image_record \<Rightarrow> str \<times> str \<times> str" where
  "record_identity i =
     (case ref_parse (i_registry i @ ''/'' @ i_reference i @ '':'' @ i_tag i) of
        Inr r \<Rightarrow> (registry r, repository r, ref_tag r)
      | Inl _ \<Rightarrow> (i_registry i, i_reference i, i_tag i))"

definition query_matches_image :: "image_record \<Rightarrow> str \<Rightarrow> bool" where
  "query_matches_image i query \<longleftrightarrow>
     (let q = trim query in
      if q = [] then False
      else if starts_with (i_id i) q then True
      else case strip_prefix ''sha256:'' q of
        Some hex \<Rightarrow> i_manifest_digest i = q \<or> starts_with (i_id i) hex
      | None \<Rightarrow> (case ref_parse q of
          Inr r \<Rightarrow> (case digest r of
              Some d \<Rightarrow> i_manifest_digest i = d
            | None \<Rightarrow> record_identity i = (registry r, repository r, ref_tag r))
        | Inl _ \<Rightarrow> i_reference i = q))"

definition refs_equivalent :: "str \<Rightarrow> str \<Rightarrow> bool" where
  "refs_equivalent a b \<longleftrightarrow>
     (case (ref_parse a, ref_parse b) of
        (Inr ra, Inr rb) \<Rightarrow>
          (case (digest ra, digest rb) of
             (Some da, Some db) \<Rightarrow> da = db
           | (None, None) \<Rightarrow> registry ra = registry rb \<and> repository ra = repository rb \<and>
               ref_tag ra = ref_tag rb
           | _ \<Rightarrow> False)
      | _ \<Rightarrow> trim a = trim b)"

text \<open>
  The platform a lookup asks for: of the argument \<open>os/arch\<close> or \<open>arch\<close>, else Linux on the
  architecture of the host (\<open>std::env::consts::ARCH\<close>).
\<close>

definition norm_arch :: "str \<Rightarrow> str" where
  "norm_arch a = (if a = ''x86_64'' then ''amd64'' else if a = ''aarch64'' then ''arm64'' else a)"

definition target_platform :: "str \<Rightarrow> str option \<Rightarrow> str option \<times> str" where
  "target_platform host platform =
     (case platform of
        Some p \<Rightarrow> (case split_once CHR ''/'' p of
            Some (os, arch) \<Rightarrow> (Some os, norm_arch arch)
          | None \<Rightarrow> (None, norm_arch p))
      | None \<Rightarrow> (Some ''linux'', norm_arch host))"

definition runs_on :: "str \<Rightarrow> str option \<Rightarrow> image_record \<Rightarrow> bool" where
  "runs_on host platform i \<longleftrightarrow>
     (let (os, arch) = target_platform host platform in
      norm_arch (g_architecture (i_config i)) = arch \<and>
      (case os of Some o' \<Rightarrow> eq_ignore_ascii_case (g_os (i_config i)) o' | None \<Rightarrow> True))"

section \<open>Operations\<close>

definition image_list :: "io \<Rightarrow> image_file \<Rightarrow> image_record list" where
  "image_list io f = list_locked io f"

definition find_with_platform ::
  "io \<Rightarrow> str \<Rightarrow> str \<Rightarrow> str option \<Rightarrow> image_file \<Rightarrow> image_record option" where
  "find_with_platform io host query platform f =
     (if trim query = [] then None
      else find_locked io (\<lambda>i. query_matches_image i (trim query) \<and> runs_on host platform i) f)"

definition image_find :: "io \<Rightarrow> str \<Rightarrow> str \<Rightarrow> image_file \<Rightarrow> image_record option" where
  "image_find io host query = find_with_platform io host query None"

text \<open>What \<open>add\<close> replaces: the record of the same name and platform.\<close>

definition image_key :: "image_record \<Rightarrow> str \<times> str \<times> str \<times> str \<times> str" where
  "image_key i = (i_registry i, i_reference i, i_tag i, g_architecture (i_config i), g_os (i_config i))"

definition image_add :: "io \<Rightarrow> image_record \<Rightarrow> image_file \<Rightarrow> unit res \<times> image_file" where
  "image_add io r f =
     with_index_lock io (\<lambda>f.
       commit io () (filter (\<lambda>i. image_key i \<noteq> image_key r) (load_unlocked f) @ [r]) f) f"

text \<open>
  The directories \<open>remove\<close> deletes, when no record that is left shares them: the root file
  system and the directory around it, unless that is the store's own.
\<close>

definition image_dirs ::
  "(path \<Rightarrow> bool) \<Rightarrow> path \<Rightarrow> image_record list \<Rightarrow> image_record \<Rightarrow> path list" where
  "image_dirs exists home rest r =
     (if \<exists>i\<in>set rest. i_rootfs_path i = i_rootfs_path r \<or> i_manifest_digest i = i_manifest_digest r
      then []
      else let rootfs = components (i_rootfs_path r) in
        (if exists rootfs then [rootfs] else []) @
        (case path_parent rootfs of
           Some p \<Rightarrow> if exists p \<and> p \<noteq> home then [p] else []
         | None \<Rightarrow> []))"

definition image_remove ::
  "io \<Rightarrow> (path \<Rightarrow> bool) \<Rightarrow> path \<Rightarrow> str \<Rightarrow> image_file \<Rightarrow> (image_record \<times> path list) res \<times> image_file" where
  "image_remove io exists home query f =
     (if trim query = [] then (Inl (Not_found []), f)
      else with_index_lock io (\<lambda>f.
        let is = load_unlocked f in
        case position (\<lambda>i. query_matches_image i (trim query)) is of
          Some n \<Rightarrow> commit io (is ! n, image_dirs exists home (remove_at n is) (is ! n)) (remove_at n is) f
        | None \<Rightarrow> (Inl (Not_found query), f)) f)"

definition remove_metadata_only ::
  "io \<Rightarrow> str \<Rightarrow> image_file \<Rightarrow> image_record res \<times> image_file" where
  "remove_metadata_only io query f =
     with_index_lock io (\<lambda>f.
       let is = load_unlocked f in
       case position (\<lambda>i. query_matches_image i (trim query)) is of
         Some n \<Rightarrow> commit io (is ! n) (remove_at n is) f
       | None \<Rightarrow> (Inl (Not_found query), f)) f"
section \<open>Commands\<close>

definition image_user :: "image_record \<Rightarrow> container list \<Rightarrow> container option" where
  "image_user i cs =
     find (\<lambda>c. refs_equivalent (c_image c) (qualified_name i) \<or>
       refs_equivalent (c_image c) (i_reference i @ '':'' @ i_tag i) \<or>
       c_image c = i_id i \<or> starts_with (c_image c) (i_id i)) cs"

definition remove_image ::
  "io \<Rightarrow> str \<Rightarrow> (path \<Rightarrow> bool) \<Rightarrow> path \<Rightarrow> container list \<Rightarrow> str \<Rightarrow> bool \<Rightarrow> bool \<Rightarrow> image_file \<Rightarrow>
     (image_record \<times> path list) res \<times> image_file" where
  "remove_image io host exists home cs query force no_prune f =
     (case image_find io host query f of
        None \<Rightarrow> (Inl (Not_found query), f)
      | Some i \<Rightarrow>
          (case (if force then None else image_user i cs) of
             Some c \<Rightarrow> (Inl (In_use query (c_id c)), f)
           | None \<Rightarrow>
               if no_prune then
                 (case remove_metadata_only io query f of (r, f') \<Rightarrow> (map_sum (\<lambda>e. e) (\<lambda>i. (i, [])) r, f'))
               else image_remove io exists home query f))"

text \<open>\<open>prune_images\<close>: which records it picks from the listing, and the removals by id.\<close>

definition prune_picks :: "bool \<Rightarrow> container list \<Rightarrow> image_record \<Rightarrow> bool" where
  "prune_picks all_images cs i \<longleftrightarrow>
     (let used = c_image ` set cs in
      i_reference i @ '':'' @ i_tag i \<notin> used \<and> i_reference i \<notin> used \<and> i_id i \<notin> used \<and>
      (all_images \<or> i_tag i = ''<none>'' \<or> i_reference i = []))"

fun remove_each ::
  "io \<Rightarrow> (path \<Rightarrow> bool) \<Rightarrow> path \<Rightarrow> image_record list \<Rightarrow> image_file \<Rightarrow> path list \<times> image_file" where
  "remove_each io exists home [] f = ([], f)"
| "remove_each io exists home (i # is) f =
     (let (r, f1) = image_remove io exists home (i_id i) f;
          (dirs, f2) = remove_each io exists home is f1
      in ((case r of Inr (_, ds) \<Rightarrow> ds | Inl _ \<Rightarrow> []) @ dirs, f2))"

definition prune_images ::
  "io \<Rightarrow> (path \<Rightarrow> bool) \<Rightarrow> path \<Rightarrow> container list \<Rightarrow> bool \<Rightarrow> image_file \<Rightarrow>
     (str list \<times> path list) \<times> image_file" where
  "prune_images io exists home cs all_images f =
     (let picked = filter (prune_picks all_images cs) (image_list io f);
          (dirs, f') = remove_each io exists home picked f
      in ((map i_id picked, dirs), f'))"

definition tag_image ::
  "io \<Rightarrow> str \<Rightarrow> int \<Rightarrow> str \<Rightarrow> str \<Rightarrow> image_file \<Rightarrow> unit res \<times> image_file" where
  "tag_image io host now source target f =
     (case image_find io host source f of
        None \<Rightarrow> (Inl (Not_found source), f)
      | Some src \<Rightarrow>
          (case ref_parse target of
             Inl e \<Rightarrow> (Inl (Invalid_spec target), f)
           | Inr t \<Rightarrow>
               if trim (unwrap_or (strip_prefix ''library/'' (repository t)) (repository t)) = []
               then (Inl (Invalid_spec target), f)
               else image_add io (src\<lparr>i_reference := repository t, i_tag := ref_tag t,
                      i_registry := registry t, i_created_at := now\<rparr>) f))"

fun untag_each :: "io \<Rightarrow> str \<Rightarrow> str list \<Rightarrow> image_file \<Rightarrow> image_file" where
  "untag_each io name [] f = f"
| "untag_each io name (t # ts) f =
     untag_each io name ts (snd (remove_metadata_only io (name @ '':'' @ t) f))"

definition untag_image :: "io \<Rightarrow> str \<Rightarrow> str \<Rightarrow> str list \<Rightarrow> image_file \<Rightarrow> unit res \<times> image_file" where
  "untag_image io host query tags f =
     (case image_find io host query f of
        None \<Rightarrow> (Inl (Not_found query), f)
      | Some i \<Rightarrow>
          if tags = [] then (Inr (), snd (remove_metadata_only io (qualified_name i) f))
          else (Inr (), untag_each io (display_reference i) tags f))"

definition rootfs_at :: "str \<Rightarrow> str \<Rightarrow> str" where
  "rootfs_at home n = home @ ''/images/'' @ n @ ''/rootfs''"

text \<open>
  \<open>commit_container\<close> after the file tree was linked: \<open>rid\<close> is the random id in hex, \<open>total_size\<close>
  what \<open>dir_size\<close> counts.
\<close>

definition set_label :: "str \<Rightarrow> str option \<Rightarrow> image_config \<Rightarrow> image_config" where
  "set_label key value g =
     (case (value, g_config g) of
        (Some v, Some x) \<Rightarrow>
          g\<lparr>g_config := Some (x\<lparr>x_labels := Some (AList.update key v (unwrap_or (x_labels x) []))\<rparr>)\<rparr>
      | _ \<Rightarrow> g)"

definition commit_reference :: "str \<Rightarrow> image_ref" where
  "commit_reference full_tag =
     (case ref_parse full_tag of
        Inr r \<Rightarrow> r
      | Inl _ \<Rightarrow> \<lparr>registry = DEFAULT_REGISTRY, repository = full_tag, ref_tag = DEFAULT_TAG,
                 digest = None\<rparr>)"

definition commit_container ::
  "io \<Rightarrow> str \<Rightarrow> str \<Rightarrow> str \<Rightarrow> int \<Rightarrow> nat \<Rightarrow> container \<Rightarrow> str option \<Rightarrow> str option \<Rightarrow> str option \<Rightarrow>
     image_file \<Rightarrow> image_record res \<times> image_file" where
  "commit_container io host home rid now total_size c repo_tag message author f =
     (let r = commit_reference (unwrap_or repo_tag (c_name c));
          base = (case image_find io host (c_image c) f of
                    Some i \<Rightarrow> i_config i
                  | None \<Rightarrow> \<lparr>g_architecture = host, g_os = ''linux'',
                      g_config = Some (default_exec_config\<lparr>x_cmd := Some (c_command c)\<rparr>),
                      g_rootfs = None, g_history = []\<rparr>);
          cfg = set_label ''commit_message'' message (set_label ''author'' author base);
          record = \<lparr>i_id = take 12 rid, i_reference = repository r, i_tag = ref_tag r,
            i_registry = registry r, i_manifest_digest = ''sha256:'' @ rid,
            i_config_digest = ''sha256:'' @ rid,
            i_size_bytes = (if total_size > 0 then int total_size else 1024 * 1024), i_created_at = now,
            i_rootfs_path = rootfs_at home (''sha256_'' @ rid), i_config = cfg\<rparr>
      in case image_add io record f of
           (Inl e, f') \<Rightarrow> (Inl e, f')
         | (Inr _, f') \<Rightarrow> (Inr record, f'))"

section \<open>The index\<close>

datatype image_request =
    Img_add image_record | Img_remove str "path \<Rightarrow> bool" path | Img_untag str

fun image_step :: "io \<Rightarrow> image_request \<Rightarrow> image_file \<Rightarrow> unit res \<times> image_file" where
  "image_step io (Img_add r) f = image_add io r f"
| "image_step io (Img_remove q exists home) f =
     (case image_remove io exists home q f of (r, f') \<Rightarrow> (map_sum (\<lambda>e. e) (\<lambda>_. ()) r, f'))"
| "image_step io (Img_untag q) f =
     (case remove_metadata_only io q f of (r, f') \<Rightarrow> (map_sum (\<lambda>e. e) (\<lambda>_. ()) r, f'))"

definition images_ok :: "image_record list \<Rightarrow> bool" where
  "images_ok is \<longleftrightarrow> distinct (map image_key is)"

lemma image_add_Inr [simp]:
  "image_add io r f = (Inr u, f') \<longleftrightarrow> lock_ok io \<and> save_ok io \<and>
     f' = Records (filter (\<lambda>i. image_key i \<noteq> image_key r) (load_unlocked f) @ [r])"
  by (auto simp: image_add_def)

lemma image_remove_Inr:
  "image_remove io exists home q f = (Inr (r, ds), f') \<longleftrightarrow>
     trim q \<noteq> [] \<and> lock_ok io \<and> save_ok io \<and>
     (\<exists>n. position (\<lambda>i. query_matches_image i (trim q)) (load_unlocked f) = Some n \<and>
        r = load_unlocked f ! n \<and> f' = Records (remove_at n (load_unlocked f)) \<and>
        ds = image_dirs exists home (remove_at n (load_unlocked f)) r)"
  by (auto simp: image_remove_def store_simps split: option.splits simp del: position_None_iff)

lemma remove_metadata_only_Inr:
  "remove_metadata_only io q f = (Inr r, f') \<longleftrightarrow> lock_ok io \<and> save_ok io \<and>
     (\<exists>n. position (\<lambda>i. query_matches_image i (trim q)) (load_unlocked f) = Some n \<and>
        r = load_unlocked f ! n \<and> f' = Records (remove_at n (load_unlocked f)))"
  by (auto simp: remove_metadata_only_def store_simps split: option.splits simp del: position_None_iff)

lemma image_failed:
  "image_add io r f = (Inl e, f') \<Longrightarrow> f' = f"
  "image_remove io exists home q f = (Inl e, f') \<Longrightarrow> f' = f"
  "remove_metadata_only io q f = (Inl e, f') \<Longrightarrow> f' = f"
  by (auto simp: image_add_def image_remove_def remove_metadata_only_def store_simps
      split: option.splits if_splits)

lemma images_ok_remove:
  "images_ok is \<Longrightarrow> position p is = Some n \<Longrightarrow> images_ok (remove_at n is)"
  by (simp add: images_ok_def distinct_remove_at position_less)

lemma images_ok_add: "images_ok is \<Longrightarrow> images_ok (filter (\<lambda>i. image_key i \<noteq> image_key r) is @ [r])"
  using distinct_map_filter_ne_snoc [of image_key "is" r image_key] by (simp add: images_ok_def)

lemma image_step_ok:
  assumes "images_ok (load_unlocked f)" and "image_step io q f = (Inr u, f')"
  shows "images_ok (load_unlocked f')"
proof (cases q)
  case (Img_remove s ex home)
  then obtain r ds where "image_remove io ex home s f = (Inr (r, ds), f')"
    using assms(2) by (cases "image_remove io ex home s f"; cases "fst (image_remove io ex home s f)") auto
  then show ?thesis using images_ok_remove [OF assms(1)] by (auto simp: image_remove_Inr)
next
  case (Img_untag s)
  then obtain r where "remove_metadata_only io s f = (Inr r, f')"
    using assms(2) by (cases "remove_metadata_only io s f"; cases "fst (remove_metadata_only io s f)") auto
  then show ?thesis using images_ok_remove [OF assms(1)] by (auto simp: remove_metadata_only_Inr)
qed (use assms in \<open>simp add: images_ok_add\<close>)

lemma image_step_failed: "image_step io q f = (Inl e, f') \<Longrightarrow> f' = f"
proof (cases q)
  case (Img_remove s ex home)
  then show "image_step io q f = (Inl e, f') \<Longrightarrow> f' = f"
    by (cases "image_remove io ex home s f"; cases "fst (image_remove io ex home s f)")
      (auto dest: image_failed)
next
  case (Img_untag s)
  then show "image_step io q f = (Inl e, f') \<Longrightarrow> f' = f"
    by (cases "remove_metadata_only io s f"; cases "fst (remove_metadata_only io s f)")
      (auto dest: image_failed)
qed (auto dest: image_failed)

interpretation images: index_transactions image_step images_ok
  by unfold_locales (auto dest: image_step_failed image_step_ok)

section \<open>Names\<close>

lemma trim_trim [simp]: "trim (trim s) = trim s"
  using trim_idem_ends [of "trim s"] trim_ends [of s] by (cases "trim s = []") auto

lemma ref_parse_Inl: "ref_parse s = Inl e \<longleftrightarrow> trim s = [] \<and> e = Invalid_spec s"
  by (auto simp: ref_parse_def Let_def split: if_splits prod.splits)

lemma ref_parse_trim: "ref_parse s = Inr r \<Longrightarrow> ref_parse (trim s) = Inr r"
  by (auto simp: ref_parse_def Let_def split: if_splits)

lemma ref_parse_digest: "ref_parse s = Inr r \<Longrightarrow> CHR ''@'' \<notin> set s \<Longrightarrow> digest r = None"
  using set_trim_subset [of s]
  by (auto simp: ref_parse_def Let_def split_digest_def split: if_splits prod.splits option.splits
      dest: split_once_SomeD)

lemma stored_identity:
  assumes "ref_parse target = Inr r" and "digest r = None"
    and "i_registry i = registry r" and "i_reference i = repository r" and "i_tag i = ref_tag r"
  shows "record_identity i = (registry r, repository r, ref_tag r)"
  using ref_parse_canonical [OF ref_parse_wf [OF assms(1,2)]] assms(3-)
  by (simp add: record_identity_def canonical_def)

text \<open>What a reference stands for: a digest, or a registry, repository and tag.\<close>

definition ref_meaning :: "str \<Rightarrow> (str + str \<times> str \<times> str) option" where
  "ref_meaning s =
     (case ref_parse s of
        Inl _ \<Rightarrow> None
      | Inr r \<Rightarrow> Some (case digest r of Some d \<Rightarrow> Inl d
                  | None \<Rightarrow> Inr (registry r, repository r, ref_tag r)))"

lemma ref_parse_ne: "ref_parse s = Inr r \<Longrightarrow> trim s \<noteq> []"
  by (auto simp: ref_parse_def)

lemma ref_parse_error: "ref_parse s = Inl e \<Longrightarrow> trim s = []"
  by (simp add: ref_parse_Inl)

lemma refs_equivalent_meaning: "refs_equivalent a b \<longleftrightarrow> ref_meaning a = ref_meaning b"
proof (cases "ref_parse a")
  case (Inl e)
  then show ?thesis
    using ref_parse_error [OF Inl] ref_parse_error [of b] ref_parse_ne [of b]
    by (cases "ref_parse b") (simp_all add: refs_equivalent_def ref_meaning_def)
next
  case (Inr r)
  then show ?thesis
    using ref_parse_ne [OF Inr] ref_parse_error [of b]
    by (cases "ref_parse b") (auto simp: refs_equivalent_def ref_meaning_def split: option.splits)
qed

lemma equivp_refs_equivalent: "equivp refs_equivalent"
  by (rule equivpI) (auto simp: refs_equivalent_meaning intro: reflpI sympI transpI)

section \<open>Files\<close>

lemma rootfs_components:
  assumes "home \<noteq> []" and "plain_piece n"
  shows "components (rootfs_at home n) =
    components home @ [Normal ''images'', Normal n, Normal ''rootfs'']"
  using components_append [of home "[''images'', n, ''rootfs'']"] assms
  by (simp add: plain_piece_def rootfs_at_def)

definition image_layout :: "str \<Rightarrow> image_record list \<Rightarrow> bool" where
  "image_layout home is \<longleftrightarrow>
     (\<forall>i\<in>set is. \<exists>n. plain_piece n \<and> i_rootfs_path i = rootfs_at home n)"

lemma image_dirs_below:
  assumes "home \<noteq> []" and "plain_piece n" and "i_rootfs_path r = rootfs_at home n"
    and "d \<in> set (image_dirs ex (components home) rest r)"
  shows "path_below d (components home @ [Normal ''images'', Normal n])"
    and "\<forall>i\<in>set rest. i_rootfs_path i \<noteq> i_rootfs_path r"
  using assms(4)
  by (auto simp: image_dirs_def Let_def rootfs_components [OF assms(1,2)] assms(3) path_parent_def
      path_below_iff butlast_append split: if_splits)

lemma image_dirs_apart:
  assumes "home \<noteq> []" and "image_layout home (r # rest)" and "i \<in> set rest"
    and "d \<in> set (image_dirs ex (components home) rest r)"
  shows "\<not> path_below (components (i_rootfs_path i)) d"
proof
  obtain n where n: "plain_piece n" "i_rootfs_path r = rootfs_at home n"
    using assms(2) by (auto simp: image_layout_def)
  obtain m where m: "plain_piece m" "i_rootfs_path i = rootfs_at home m"
    using assms(2,3) by (auto simp: image_layout_def)
  assume "path_below (components (i_rootfs_path i)) d"
  then have "path_below (components (i_rootfs_path i)) (components home @ [Normal ''images'', Normal n])"
    using image_dirs_below(1) [OF assms(1) n assms(4)] path_below_trans by blast
  then have "m = n" by (auto simp: m(2) rootfs_components [OF assms(1) m(1)] path_below_iff)
  then show False using image_dirs_below(2) [OF assms(1) n assms(4)] assms(3) m n by auto
qed

section \<open>Properties\<close>

text \<open>
  In every image index reached from a missing one by any requests under any failures, no
  two records have the same registry, repository, tag, architecture and system.
\<close>

theorem images_stay_unique:
  "images_ok (load_unlocked (run_requests image_step qs Missing))"
  by (rule images.run_from_empty) (simp add: images_ok_def)

text \<open>
  Being equivalent is an equivalence of reference texts, and a record stored under a
  parsed reference answers exactly the references equivalent to it (and prefixes of its id and
  digests): short and qualified spellings find the same record.
\<close>

theorem stored_image_answers_equivalents:
  assumes "ref_parse target = Inr r" and "digest r = None"
    and "i_registry i = registry r" and "i_reference i = repository r" and "i_tag i = ref_tag r"
    and "\<not> starts_with (i_id i) (trim q)" and "strip_prefix ''sha256:'' (trim q) = None"
    and "CHR ''@'' \<notin> set q"
  shows "equivp refs_equivalent \<and> (query_matches_image i q \<longleftrightarrow> refs_equivalent q target)"
proof (cases "ref_parse q")
  case (Inl e)
  then show ?thesis using assms ref_parse_ne [OF assms(1)]
    by (simp add: equivp_refs_equivalent ref_parse_Inl)
next
  case (Inr rq)
  have "digest rq = None" using ref_parse_digest [OF Inr assms(8)] .
  then show ?thesis
    using assms(1,2,6,7) ref_parse_ne [OF Inr] ref_parse_trim [OF Inr] Inr stored_identity [OF assms(1-5)]
    by (auto simp: equivp_refs_equivalent query_matches_image_def refs_equivalent_def Let_def)
qed

definition sample_image :: "str \<Rightarrow> str \<Rightarrow> str \<Rightarrow> image_record" where
  "sample_image hex arch t =
     \<lparr>i_id = hex, i_reference = ''library/alpine'', i_tag = t, i_registry = DEFAULT_REGISTRY,
      i_manifest_digest = ''sha256:'' @ hex, i_config_digest = [], i_size_bytes = 1,
      i_created_at = 0, i_rootfs_path = rootfs_at ''/h'' hex,
      i_config = \<lparr>g_architecture = arch, g_os = ''linux'', g_config = None, g_rootfs = None,
        g_history = []\<rparr>\<rparr>"

theorem stored_image_answers_equivalents_witness:
  "equivp refs_equivalent \<and>
     (query_matches_image (sample_image ''1a'' ''amd64'' ''latest'') ''docker.io/alpine'' \<longleftrightarrow>
      refs_equivalent ''docker.io/alpine'' ''alpine:latest'')"
proof (rule stored_image_answers_equivalents)
  show "ref_parse ''alpine:latest'' = Inr \<lparr>registry = DEFAULT_REGISTRY,
      repository = ''library/alpine'', ref_tag = ''latest'', digest = None\<rparr>"
    by code_simp
  show "\<not> starts_with (i_id (sample_image ''1a'' ''amd64'' ''latest'')) (trim ''docker.io/alpine'')"
    by code_simp
  show "strip_prefix ''sha256:'' (trim ''docker.io/alpine'') = None" by code_simp
qed (simp_all add: sample_image_def)

text \<open>
  C16. When every record's files are where \<open>pull\<close>, \<open>commit\<close> and \<open>load\<close> put them, in a
  directory of their own below the images directory, removing a record deletes no directory
  that holds the files of a record that is left.
\<close>

theorem removal_keeps_other_images:
  assumes "home \<noteq> []" and "image_layout home (load_unlocked f)"
    and "image_remove io ex (components home) q f = (Inr (r, ds), f')"
    and "d \<in> set ds" and "i \<in> set (load_unlocked f')"
  shows "\<not> path_below (components (i_rootfs_path i)) d"
proof -
  obtain n where n: "n < length (load_unlocked f)" "r = load_unlocked f ! n"
      "f' = Records (remove_at n (load_unlocked f))"
      "ds = image_dirs ex (components home) (remove_at n (load_unlocked f)) r"
    using assms(3) by (auto simp: image_remove_Inr dest: position_less)
  have "image_layout home (r # remove_at n (load_unlocked f))"
    using assms(2) n(1,2) set_remove_at_subset [of n "load_unlocked f"] by (auto simp: image_layout_def)
  then show ?thesis using image_dirs_apart [OF assms(1)] assms(4,5) n by simp
qed

lemma sample_layout:
  "plain_piece hex \<Longrightarrow> \<exists>n. plain_piece n \<and> i_rootfs_path (sample_image hex arch t) = rootfs_at ''/h'' n"
  by (auto simp: sample_image_def)

theorem removal_keeps_other_images_witness:
  "\<not> path_below (components (i_rootfs_path (sample_image ''2b'' ''amd64'' ''old''))) (components ''/h/images/1a'')"
proof -
  let ?a = "sample_image ''1a'' ''amd64'' ''latest''" and ?b = "sample_image ''2b'' ''amd64'' ''old''"
  have m: "query_matches_image ?a (trim ''1a'')" by code_simp
  have "image_remove io_good (\<lambda>_. True) (components ''/h'') ''1a'' (Records [?a, ?b]) =
      (Inr (?a, image_dirs (\<lambda>_. True) (components ''/h'') [?b] ?a), Records [?b])"
    using m by (simp add: image_remove_def Let_def remove_at_def trim_def trim_start_by_def
        trim_end_by_def is_whitespace_def ord_def)
  moreover have "components ''/h/images/1a'' \<in> set (image_dirs (\<lambda>_. True) (components ''/h'') [?b] ?a)"
    by code_simp
  moreover have "image_layout ''/h'' (load_unlocked (Records [?a, ?b]))"
    using sample_layout [of "''1a''"] sample_layout [of "''2b''"]
    by (simp add: image_layout_def plain_piece_def)
  ultimately show ?thesis
    using removal_keeps_other_images [where home = "''/h''" and f = "Records [?a, ?b]"] by simp
qed

text \<open>
  \<open>rmi\<close> looks for the image of the host's platform and checks that no container uses it,
  and then removes the first record of that name: it removes an image of another platform
  that a container uses.
\<close>

theorem rmi_checks_one_removes_another:
  assumes "query_matches_image a (trim q)" and "\<not> runs_on host None a" and "image_user a cs = Some c"
    and "image_find io_good host q (Records (a # is)) = Some b" and "image_user b cs = None"
  shows "a \<noteq> b \<and> snd (remove_image io_good host ex home cs q False np (Records (a # is))) = Records is"
proof -
  have q: "trim q \<noteq> []" using assms(1) by (auto simp: query_matches_image_def)
  have "snd (image_remove io_good ex home q (Records (a # is))) = Records is"
    "snd (remove_metadata_only io_good q (Records (a # is))) = Records is"
    using assms(1) q by (simp_all add: image_remove_def remove_metadata_only_def remove_at_def Let_def)
  moreover have "a \<noteq> b" using assms(3,5) by auto
  ultimately show ?thesis using assms(4,5) by (auto simp: remove_image_def split: prod.splits)
qed

theorem rmi_checks_one_removes_another_witness:
  "sample_image ''2b'' ''arm64'' ''latest'' \<noteq> sample_image ''1a'' ''amd64'' ''latest'' \<and>
   snd (remove_image io_good ''x86_64'' (\<lambda>_. True) [RootDir]
      [(sample_container ''c1'' ''web'')\<lparr>c_image := ''2b''\<rparr>] ''alpine'' False False
      (Records [sample_image ''2b'' ''arm64'' ''latest'', sample_image ''1a'' ''amd64'' ''latest''])) =
   Records [sample_image ''1a'' ''amd64'' ''latest'']"
proof (rule rmi_checks_one_removes_another)
  let ?a = "sample_image ''2b'' ''arm64'' ''latest''" and ?b = "sample_image ''1a'' ''amd64'' ''latest''"
  show "query_matches_image ?a (trim ''alpine'')" by code_simp
  show a: "\<not> runs_on ''x86_64'' None ?a" by code_simp
  show "image_user ?a [(sample_container ''c1'' ''web'')\<lparr>c_image := ''2b''\<rparr>] =
      Some ((sample_container ''c1'' ''web'')\<lparr>c_image := ''2b''\<rparr>)"
    by (simp add: image_user_def sample_image_def)
  show "image_user ?b [(sample_container ''c1'' ''web'')\<lparr>c_image := ''2b''\<rparr>] = None" by code_simp
  have "runs_on ''x86_64'' None ?b" and "query_matches_image ?b (trim ''alpine'')" by code_simp+
  moreover have "trim ''alpine'' \<noteq> []" by code_simp
  ultimately show "image_find io_good ''x86_64'' ''alpine'' (Records [?a, ?b]) = Some ?b"
    using a by (simp add: image_find_def find_with_platform_def find_locked_def)
qed

text \<open>
  Pruning removes by id, and an image has one id under all its tags: when only the unused
  tag is picked, the first record of that id goes, which may be the tag a container uses.
\<close>

theorem prune_can_remove_used:
  assumes "filter (prune_picks True cs) (a # is) = [b]" and "i_id b = i_id a" and "trim (i_id a) \<noteq> []"
    and "trim (i_id a) = i_id a" and "i_reference a @ '':'' @ i_tag a \<in> c_image ` set cs"
  shows "a \<noteq> b \<and> snd (prune_images io_good ex home cs True (Records (a # is))) = Records is"
proof
  show "a \<noteq> b"
  proof
    assume "a = b"
    then have "prune_picks True cs a" using assms(1) by (metis filter_eq_ConsD)
    then show False using assms(5) by (simp add: prune_picks_def)
  qed
  have "query_matches_image a (i_id a)" using assms(3,4) by (simp add: query_matches_image_def)
  then show "snd (prune_images io_good ex home cs True (Records (a # is))) = Records is"
    using assms by (simp add: prune_images_def image_list_def list_locked_def image_remove_def
        remove_at_def Let_def)
qed

theorem prune_can_remove_used_witness:
  "sample_image ''1a'' ''amd64'' ''latest'' \<noteq> sample_image ''1a'' ''amd64'' ''old'' \<and>
   snd (prune_images io_good (\<lambda>_. True) [RootDir]
      [(sample_container ''c1'' ''web'')\<lparr>c_image := ''library/alpine:latest''\<rparr>] True
      (Records [sample_image ''1a'' ''amd64'' ''latest'', sample_image ''1a'' ''amd64'' ''old''])) =
   Records [sample_image ''1a'' ''amd64'' ''old'']"
proof (rule prune_can_remove_used)
  show "trim (i_id (sample_image ''1a'' ''amd64'' ''latest'')) \<noteq> []" by code_simp
  show "trim (i_id (sample_image ''1a'' ''amd64'' ''latest'')) =
      i_id (sample_image ''1a'' ''amd64'' ''latest'')" by code_simp
qed (simp_all add: sample_image_def prune_picks_def)

end
