(* ===== verification/Secret_Store.thy ===== *)
theory Secret_Store
  imports Index_File Path_Text
begin

text \<open>
  Secrets (\<open>src/secret/mod.rs\<close>): the index file together with the data files below the
  secrets directory. A path is taken to lead where it does without symbolic links.

  Shown: a secret reads back as it was stored and storing it leaves the others alone; but the
  name is not checked, so removing a secret can delete any directory, and an empty query
  removes the first secret.
\<close>

record secret =
  se_id :: str
  se_name :: str
  se_created_at :: int
  se_labels :: "(str \<times> str) list"
  se_driver :: str
  se_size :: nat

record secret_world =
  s_index :: "secret index_file"
  s_files :: "path \<Rightarrow> byte list option"

definition se_matches :: "str \<Rightarrow> secret \<Rightarrow> bool" where
  "se_matches q s \<longleftrightarrow> se_id s = q \<or> starts_with (se_id s) q \<or> se_name s = q"

definition secret_list :: "io \<Rightarrow> secret index_file \<Rightarrow> secret list" where
  "secret_list io f = list_locked io f"

definition secret_find :: "io \<Rightarrow> str \<Rightarrow> secret index_file \<Rightarrow> secret option" where
  "secret_find io query f =
     (let q = trim query in if q = [] then None else find_locked io (se_matches q) f)"

definition secret_exists :: "io \<Rightarrow> str \<Rightarrow> secret index_file \<Rightarrow> bool" where
  "secret_exists io query f \<longleftrightarrow> secret_find io query f \<noteq> None"

definition secret_dir :: "path \<Rightarrow> str \<Rightarrow> path" where
  "secret_dir dir n = path_join dir (components n)"

definition secret_data_file :: "path \<Rightarrow> str \<Rightarrow> path" where
  "secret_data_file dir n = leads_to (secret_dir dir n @ [Normal ''data''])"

definition secret_name :: "str \<Rightarrow> str option \<Rightarrow> str" where
  "secret_name rid name =
     (case name of
        Some n \<Rightarrow> if trim n \<noteq> [] then trim n else ''secret-'' @ take 8 rid
      | None \<Rightarrow> ''secret-'' @ take 8 rid)"

text \<open>\<open>rid\<close>: the random id in hex; \<open>write_ok\<close>: making the directory and writing the file succeed.\<close>

definition secret_create ::
  "io \<Rightarrow> bool \<Rightarrow> path \<Rightarrow> str \<Rightarrow> int \<Rightarrow> str option \<Rightarrow> byte list \<Rightarrow> (str \<times> str) list \<Rightarrow> secret_world \<Rightarrow>
     secret res \<times> secret_world" where
  "secret_create io write_ok dir rid now name data labels w =
     with_index_lock io (\<lambda>w.
       let ss = load_unlocked (s_index w); n = secret_name rid name in
       if \<exists>s\<in>set ss. se_name s = n then (Inl (Already_exists n), w)
       else if \<not> write_ok then (Inl Io_failed, w)
       else let w1 = w\<lparr>s_files := (s_files w)(secret_data_file dir n \<mapsto> data)\<rparr>;
                r = \<lparr>se_id = take 12 rid, se_name = n, se_created_at = now, se_labels = labels,
                     se_driver = ''file'', se_size = length data\<rparr>
            in case commit io r (ss @ [r]) (s_index w1) of
                 (x, f) \<Rightarrow> (x, w1\<lparr>s_index := f\<rparr>)) w"

definition secret_read :: "io \<Rightarrow> path \<Rightarrow> str \<Rightarrow> secret_world \<Rightarrow> byte list res" where
  "secret_read io dir query w =
     (case secret_find io query (s_index w) of
        None \<Rightarrow> Inl (Not_found query)
      | Some s \<Rightarrow> ok_or (s_files w (secret_data_file dir (se_name s))) Io_failed)"

definition drop_dir :: "path \<Rightarrow> (path \<Rightarrow> 'b option) \<Rightarrow> path \<Rightarrow> 'b option" where
  "drop_dir d files p = (if path_below p d then None else files p)"

definition secret_remove :: "io \<Rightarrow> path \<Rightarrow> str \<Rightarrow> secret_world \<Rightarrow> secret res \<times> secret_world" where
  "secret_remove io dir query w =
     with_index_lock io (\<lambda>w.
       let ss = load_unlocked (s_index w) in
       case position (se_matches (trim query)) ss of
         None \<Rightarrow> (Inl (Not_found query), w)
       | Some i \<Rightarrow>
           (case commit io (ss ! i) (remove_at i ss) (s_index w) of
              (Inl e, f) \<Rightarrow> (Inl e, w\<lparr>s_index := f\<rparr>)
            | (Inr s, f) \<Rightarrow> (Inr s, w\<lparr>s_index := f,
                 s_files := drop_dir (leads_to (secret_dir dir (se_name s))) (s_files w)\<rparr>))) w"

lemma se_matches_iff: "se_matches q s \<longleftrightarrow> starts_with (se_id s) q \<or> se_name s = q"
  by (auto simp: se_matches_def)

interpretation secrets: query_index se_matches se_id se_name
  by unfold_locales (rule se_matches_iff)

lemma secret_create_Inr:
  "secret_create io write_ok dir rid now name data labels w = (Inr r, w') \<longleftrightarrow>
     lock_ok io \<and> save_ok io \<and> write_ok \<and>
     (\<forall>s\<in>set (load_unlocked (s_index w)). se_name s \<noteq> secret_name rid name) \<and>
     r = \<lparr>se_id = take 12 rid, se_name = secret_name rid name, se_created_at = now,
          se_labels = labels, se_driver = ''file'', se_size = length data\<rparr> \<and>
     w' = \<lparr>s_index = Records (load_unlocked (s_index w) @ [r]),
           s_files = (s_files w)(secret_data_file dir (secret_name rid name) \<mapsto> data)\<rparr>"
  by (cases w) (auto simp: secret_create_def Let_def commit_def save_unlocked_def)

lemma secret_data_file_plain:
  "plain_path dir \<Longrightarrow> plain_piece n \<Longrightarrow> secret_data_file dir n = dir @ [Normal n, Normal ''data'']"
  by (auto simp: secret_data_file_def secret_dir_def plain_components path_join_def is_absolute_def
      plain_path_def leads_to_def lead_append)
lemma secret_find_good:
  "secret_find io q f = Some s \<longleftrightarrow> trim q \<noteq> [] \<and> lock_ok io \<and> find (se_matches (trim q)) (load_unlocked f) = Some s"
  by (auto simp: secret_find_def find_locked_def Let_def)

lemma find_snoc_Some: "find p xs = Some x \<Longrightarrow> find p (xs @ [y]) = Some x"
  by (induction xs) auto

lemma find_snoc_None: "find p xs = None \<Longrightarrow> find p (xs @ [y]) = (if p y then Some y else None)"
  by (induction xs) (auto split: if_splits)

section \<open>Properties\<close>

text \<open>
  A secret under a name that is an ordinary path component, and not a prefix of another
  secret's id, reads back as the data stored, and every query that found a secret before reads
  the same data after.
\<close>

theorem secret_roundtrip:
  assumes "secret_create io ok dir rid now (Some n) data labels w = (Inr r, w')" and "plain_path dir"
    and "trim n \<noteq> []" and "\<forall>s\<in>set (load_unlocked (s_index w')). plain_piece (se_name s)"
    and "\<forall>s\<in>set (load_unlocked (s_index w)). \<not> starts_with (se_id s) (trim n)"
    and "trim (trim n) = trim n"
  shows "secret_read io dir n w' = Inr data \<and>
    (secret_find io q (s_index w) = Some s \<longrightarrow> secret_read io dir q w' = secret_read io dir q w)"
proof -
  let ?ss = "load_unlocked (s_index w)"
  have n: "secret_name rid (Some n) = trim n" using assms(3) by (simp add: secret_name_def)
  note c = assms(1)[unfolded secret_create_Inr n]
  have "find (se_matches (trim n)) ?ss = None"
    using c assms(5) by (auto simp: find_None_iff_all se_matches_iff)
  then have "secret_find io n (s_index w') = Some r"
    using c assms(3) by (auto simp: secret_find_good find_snoc_None se_matches_iff)
  then have new: "secret_read io dir n w' = Inr data" using c by (auto simp: secret_read_def)
  have "secret_read io dir q w' = secret_read io dir q w" if q: "secret_find io q (s_index w) = Some s"
  proof -
    have s: "s \<in> set ?ss" using q by (auto simp: secret_find_good dest: find_SomeD)
    have q': "secret_find io q (s_index w') = Some s"
      using q c by (auto simp: secret_find_good find_snoc_Some)
    have "se_name s \<noteq> trim n" "plain_piece (se_name s)" "plain_piece (trim n)"
      using s c assms(4) by auto
    then have "secret_data_file dir (se_name s) \<noteq> secret_data_file dir (trim n)"
      by (simp add: secret_data_file_plain [OF assms(2)])
    then show ?thesis using q q' c by (simp add: secret_read_def)
  qed
  with new show ?thesis by blast
qed

definition no_secrets :: secret_world where
  "no_secrets = \<lparr>s_index = Missing, s_files = Map.empty\<rparr>"

theorem secret_roundtrip_witness:
  "secret_read io_good [RootDir, Normal ''h'', Normal ''secrets''] ''db''
     (snd (secret_create io_good True [RootDir, Normal ''h'', Normal ''secrets''] ''0123456789abcdef'' 0
        (Some ''db'') [1, 2] [] no_secrets)) = Inr [1, 2]"
proof -
  have t: "trim ''db'' = ''db''" by code_simp
  obtain r w' where c: "secret_create io_good True [RootDir, Normal ''h'', Normal ''secrets'']
      ''0123456789abcdef'' 0 (Some ''db'') [1, 2] [] no_secrets = (Inr r, w')"
    by (simp add: secret_create_Inr no_secrets_def)
  have "plain_path [RootDir, Normal ''h'', Normal ''secrets'']"
    by (auto simp: plain_path_def intro: exI [of _ "[''h'', ''secrets'']"])
  moreover have "\<forall>s\<in>set (load_unlocked (s_index w')). plain_piece (se_name s)"
    using c by (auto simp: secret_create_Inr no_secrets_def secret_name_def t plain_piece_def)
  ultimately show ?thesis
    using secret_roundtrip [OF c, of "[]"] c t by (simp add: no_secrets_def)
qed

text \<open>
  The name of a secret is not checked: created under \<open>../m\<close> it is stored outside the
  secrets directory, and removing it deletes everything in the directory \<open>m\<close> beside it, such as
  all containers.
\<close>

theorem secret_removal_escapes:
  assumes "plain_path home" and "plain_piece m" and "trim (''../'' @ m) = ''../'' @ m"
    and "s_index w = Missing" and "path_below p (home @ [Normal m])"
    and "secret_create io_good True (home @ [Normal ''secrets'']) rid now (Some (''../'' @ m)) data labels w =
      (r1, w1)"
    and "secret_remove io_good (home @ [Normal ''secrets'']) (''../'' @ m) w1 = (r2, w2)"
  shows "is_ok r1 \<and> is_ok r2 \<and> s_files w2 p = None"
proof -
  let ?n = "''../'' @ m" and ?dir = "home @ [Normal ''secrets'']"
  have n: "secret_name rid (Some ?n) = ?n" using assms(3) by (simp add: secret_name_def)
  obtain r where r: "r1 = Inr r" "load_unlocked (s_index w1) = [r]" "se_name r = ?n"
    using assms(4,6) n by (auto simp: secret_create_def Let_def)
  have "components ?n = [ParentDir, Normal m]"
    using path_pieces_append_sep [of "''..''" m] path_pieces_plain [OF assms(2)] assms(2)
    by (auto simp: components_def component_of_def starts_with_def path_pieces_def plain_piece_def)
  moreover obtain ns where "home = RootDir # map Normal ns" using assms(1) by (auto simp: plain_path_def)
  ultimately have "leads_to (secret_dir ?dir ?n) = home @ [Normal m]"
    by (simp add: secret_dir_def path_join_def is_absolute_def leads_to_def lead_append path_pop_def
        path_parent_def)
  then show ?thesis
    using assms(3,5,7) r by (auto simp: secret_remove_def Let_def se_matches_iff drop_dir_def)
qed

theorem secret_removal_escapes_witness:
  "s_files (snd (secret_remove io_good [RootDir, Normal ''h'', Normal ''secrets''] ''../pods''
     (snd (secret_create io_good True [RootDir, Normal ''h'', Normal ''secrets''] ''0123456789abcdef'' 0
        (Some ''../pods'') [] [] (no_secrets\<lparr>s_files := [[RootDir, Normal ''h'', Normal ''pods'', Normal ''x''] \<mapsto> [1]]\<rparr>)))))
     [RootDir, Normal ''h'', Normal ''pods'', Normal ''x''] = None"
proof -
  let ?w = "no_secrets\<lparr>s_files := [[RootDir, Normal ''h'', Normal ''pods'', Normal ''x''] \<mapsto> [1]]\<rparr>"
  have "plain_path [RootDir, Normal ''h'']" by (auto simp: plain_path_def intro: exI [of _ "[''h'']"])
  moreover have "trim ''../pods'' = ''../pods''" by code_simp
  ultimately show ?thesis
    using secret_removal_escapes [where home = "[RootDir, Normal ''h'']" and m = "''pods''" and w = ?w
        and rid = "''0123456789abcdef''" and now = 0 and data = "[]" and labels = "[]"
        and p = "[RootDir, Normal ''h'', Normal ''pods'', Normal ''x'']"]
    by (simp add: plain_piece_def no_secrets_def path_below_def prod_eq_iff)
qed

end
