(* ===== verification/Artifact_Store.thy ===== *)
theory Artifact_Store
  imports Index_File Path_Text
begin

text \<open>
  Artifacts (\<open>src/artifact/mod.rs\<close>): an index without a lock, and the contents kept in files
  named by their digest. The hash (the \<open>sha2\<close> and \<open>hex\<close> crates) is a parameter.

  Shown: what was added is what is extracted; but artifacts of equal content share their file,
  and removing one of them removes the content of the others.
\<close>

record artifact =
  a_name :: str
  a_digest :: str
  a_media_type :: str
  a_size_bytes :: nat
  a_created_at :: int
  a_file_path :: str

record artifact_world =
  a_index :: "artifact index_file"
  a_files :: "str \<Rightarrow> byte list option"

definition artifact_list :: "artifact_world \<Rightarrow> artifact list" where
  "artifact_list w = load_unlocked (a_index w)"

definition a_matches :: "str \<Rightarrow> artifact \<Rightarrow> bool" where
  "a_matches q a \<longleftrightarrow> a_name a = q \<or> a_digest a = q \<or> starts_with (a_digest a) q"

definition artifact_find :: "str \<Rightarrow> artifact_world \<Rightarrow> artifact option" where
  "artifact_find query w =
     (let q = trim query in if q = [] then None else find (a_matches q) (artifact_list w))"

definition artifact_digest :: "(byte list \<Rightarrow> str) \<Rightarrow> byte list \<Rightarrow> str" where
  "artifact_digest hash_hex content = ''sha256:'' @ hash_hex content"

definition artifact_file :: "str \<Rightarrow> str \<Rightarrow> str" where
  "artifact_file dir d = dir @ ''/'' @ map (\<lambda>c. if c = CHR '':'' then CHR ''_'' else c) d"

text \<open>\<open>source\<close>: the content of the file to add, if it exists.\<close>

definition artifact_add ::
  "io \<Rightarrow> (byte list \<Rightarrow> str) \<Rightarrow> str \<Rightarrow> int \<Rightarrow> str \<Rightarrow> byte list option \<Rightarrow> str \<Rightarrow> artifact_world \<Rightarrow>
     artifact res \<times> artifact_world" where
  "artifact_add io hash_hex dir now name source media w =
     (case source of
        None \<Rightarrow> (Inl (Not_found name), w)
      | Some content \<Rightarrow>
          let d = artifact_digest hash_hex content; target = artifact_file dir d;
              w1 = w\<lparr>a_files := (a_files w)(target \<mapsto> content)\<rparr>;
              r = \<lparr>a_name = name, a_digest = d, a_media_type = media, a_size_bytes = length content,
                   a_created_at = now, a_file_path = target\<rparr>
          in case commit io r (filter (\<lambda>a. a_name a \<noteq> name) (load_unlocked (a_index w1)) @ [r]) (a_index w1) of
               (x, f) \<Rightarrow> (x, w1\<lparr>a_index := f\<rparr>))"

definition artifact_extract :: "str \<Rightarrow> path \<Rightarrow> artifact_world \<Rightarrow> (path \<times> byte list) res" where
  "artifact_extract query dest w =
     (case artifact_find query w of
        None \<Rightarrow> Inl (Not_found query)
      | Some a \<Rightarrow>
          (case a_files w (a_file_path a) of
             None \<Rightarrow> Inl Io_failed
           | Some content \<Rightarrow> Inr (path_join dest (components (a_name a)), content)))"

definition artifact_remove :: "io \<Rightarrow> str \<Rightarrow> artifact_world \<Rightarrow> artifact res \<times> artifact_world" where
  "artifact_remove io query w =
     (let as = load_unlocked (a_index w) in
      case position (a_matches query) as of
        None \<Rightarrow> (Inl (Not_found query), w)
      | Some i \<Rightarrow>
          let w1 = w\<lparr>a_files := (a_files w)(a_file_path (as ! i) := None)\<rparr> in
          case commit io (as ! i) (remove_at i as) (a_index w1) of
            (x, f) \<Rightarrow> (x, w1\<lparr>a_index := f\<rparr>))"

lemma commit_Inr: "save_ok io \<Longrightarrow> commit io a data f = (Inr a, Records data)"
  by (simp add: commit_def save_unlocked_def)

lemma artifact_add_world:
  assumes "save_ok io"
  shows "snd (artifact_add io hash_hex dir now n (Some content) media w) =
     \<lparr>a_index = Records (filter (\<lambda>a. a_name a \<noteq> n) (load_unlocked (a_index w)) @
        [\<lparr>a_name = n, a_digest = artifact_digest hash_hex content, a_media_type = media,
          a_size_bytes = length content, a_created_at = now,
          a_file_path = artifact_file dir (artifact_digest hash_hex content)\<rparr>]),
      a_files = (a_files w)(artifact_file dir (artifact_digest hash_hex content) \<mapsto> content)\<rparr>"
  by (simp add: artifact_add_def Let_def commit_Inr [OF assms])

lemma find_in_snoc: "find p xs = None \<Longrightarrow> p y \<Longrightarrow> find p (xs @ [y]) = Some y"
  by (induction xs) (auto split: if_splits)

lemma position_append_first:
  "find p xs = None \<Longrightarrow> p y \<Longrightarrow> position p (xs @ y # ys) = Some (length xs)"
  by (induction xs) (auto split: if_splits)

section \<open>Properties\<close>

text \<open>
  Extracting an artifact right after it was added gives its content under its name, when
  its name is not a prefix of another digest. But contents are shared by digest: when the same
  content was added under two names and the first is removed, extracting the second fails
  although it is still listed.
\<close>

theorem artifact_content:
  assumes "save_ok io" and "trim n = n" and "n \<noteq> []" and "m \<noteq> n" and "trim m = m"
    and "\<forall>a\<in>set (artifact_list w). \<not> starts_with (a_digest a) n \<and> \<not> starts_with (a_digest a) m \<and> a_name a \<noteq> m"
    and "\<not> starts_with (artifact_digest hash_hex content) n" and "\<not> starts_with (artifact_digest hash_hex content) m"
    and "w1 = snd (artifact_add io hash_hex dir now m (Some content) media w)"
    and "w2 = snd (artifact_add io hash_hex dir now n (Some content) media w1)"
    and "w3 = snd (artifact_remove io m w2)"
  shows "artifact_extract n dest w2 = Inr (path_join dest (components n), content) \<and>
    (\<exists>a\<in>set (artifact_list w3). a_name a = n) \<and> artifact_extract n dest w3 = Inl Io_failed"
proof -
  let ?d = "artifact_digest hash_hex content"
  let ?r = "\<lambda>n. \<lparr>a_name = n, a_digest = ?d, a_media_type = media, a_size_bytes = length content,
    a_created_at = now, a_file_path = artifact_file dir ?d\<rparr>"
  let ?as = "filter (\<lambda>a. a_name a \<noteq> n) (artifact_list w)"
  have l: "artifact_list w = load_unlocked (a_index w)" by (simp add: artifact_list_def)
  have same: "filter (\<lambda>a. a_name a \<noteq> m) (load_unlocked (a_index w)) = load_unlocked (a_index w)"
    using assms(6) by (auto simp: l filter_id_conv)
  have w2: "a_index w2 = Records (?as @ [?r m, ?r n])" "a_files w2 (artifact_file dir ?d) = Some content"
    using assms(4) by (simp_all add: assms(9,10) artifact_add_world [OF assms(1)] same l)
  have none: "find (a_matches n) ?as = None" "find (a_matches m) ?as = None"
    using assms(6) by (auto simp: find_None_iff_all a_matches_def)
  have "\<not> a_matches n (?r m)" using assms(4,7) by (auto simp: a_matches_def)
  then have fn: "find (a_matches n) (?as @ [?r m]) = None" using none(1) by (auto simp: find_None_iff_all)
  have ex: "artifact_find n w2 = Some (?r n)"
    using find_in_snoc [OF fn, of "?r n"] assms(2,3) w2(1)
    by (simp add: artifact_find_def artifact_list_def a_matches_def)
  have p: "position (a_matches m) (?as @ [?r m, ?r n]) = Some (length ?as)"
    by (rule position_append_first [OF none(2)]) (simp add: a_matches_def)
  then have w3: "a_index w3 = Records (?as @ [?r n])" "a_files w3 (artifact_file dir ?d) = None"
    using w2(1) by (simp_all add: assms(11) artifact_remove_def commit_Inr [OF assms(1)] remove_at_def
        nth_append)
  have "artifact_find n w3 = Some (?r n)"
    using find_in_snoc [OF none(1), of "?r n"] assms(2,3) w3(1)
    by (simp add: artifact_find_def artifact_list_def a_matches_def)
  then show ?thesis using ex w2 w3 by (simp add: artifact_extract_def artifact_list_def)
qed
definition no_artifacts :: artifact_world where
  "no_artifacts = \<lparr>a_index = Missing, a_files = Map.empty\<rparr>"

theorem artifact_content_witness:
  "artifact_extract ''b'' [RootDir] (snd (artifact_remove io_good ''c''
     (snd (artifact_add io_good (\<lambda>_. ''0f'') ''/a'' 0 ''b'' (Some [1, 2]) ''text''
       (snd (artifact_add io_good (\<lambda>_. ''0f'') ''/a'' 0 ''c'' (Some [1, 2]) ''text'' no_artifacts)))))) =
   Inl Io_failed"
proof -
  have "trim ''b'' = ''b''" "trim ''c'' = ''c''" by code_simp+
  moreover have "\<not> starts_with (artifact_digest (\<lambda>_. ''0f'') [1, 2]) ''b''"
    "\<not> starts_with (artifact_digest (\<lambda>_. ''0f'') [1, 2]) ''c''" by code_simp+
  moreover have "artifact_list no_artifacts = []" by (simp add: artifact_list_def no_artifacts_def)
  ultimately show ?thesis
    using artifact_content [where io = io_good and n = "''b''" and m = "''c''" and w = no_artifacts
        and hash_hex = "\<lambda>_. ''0f''" and content = "[1, 2]" and dest = "[RootDir]" and dir = "''/a''"
        and now = 0 and media = "''text''"]
    by simp
qed

end
