(* ===== verification/Farm_Store.thy ===== *)
theory Farm_Store
  imports Index_File
begin

text \<open>
  Build farms (\<open>src/farm/mod.rs\<close>): an index of named lists of connections, one of them the
  default. The index has no lock.

  Shown: names stay unique and there is never more than one default; an update adds what is
  not listed and removes what is asked, and removing the default leaves no default.
\<close>

record farm =
  fm_name :: str
  fm_connections :: "str list"
  fm_is_default :: bool
  fm_read_write :: bool

type_synonym farm_file = "farm index_file"

definition farm_list :: "farm_file \<Rightarrow> farm list" where
  "farm_list f = load_unlocked f"

definition farm_find :: "str \<Rightarrow> farm_file \<Rightarrow> farm option" where
  "farm_find n f = find (\<lambda>m. fm_name m = n) (load_unlocked f)"

definition farm_create :: "io \<Rightarrow> str \<Rightarrow> str list \<Rightarrow> farm_file \<Rightarrow> farm res \<times> farm_file" where
  "farm_create io n conns f =
     (let ms = load_unlocked f in
      if \<exists>m\<in>set ms. fm_name m = n then (Inl (Already_exists n), f)
      else let r = \<lparr>fm_name = n, fm_connections = conns, fm_is_default = (ms = []), fm_read_write = True\<rparr>
           in commit io r (ms @ [r]) f)"

definition farm_remove :: "io \<Rightarrow> str \<Rightarrow> farm_file \<Rightarrow> farm res \<times> farm_file" where
  "farm_remove io n f =
     (let ms = load_unlocked f in
      case position (\<lambda>m. fm_name m = n) ms of
        None \<Rightarrow> (Inl (Not_found n), f)
      | Some i \<Rightarrow> commit io (ms ! i) (remove_at i ms) f)"

definition farm_remove_all :: "io \<Rightarrow> farm_file \<Rightarrow> nat res \<times> farm_file" where
  "farm_remove_all io f = commit io (length (load_unlocked f)) [] f"

text \<open>The loop over \<open>add\<close>: connections already listed are skipped, new ones appended.\<close>

definition add_connections :: "str list \<Rightarrow> str list \<Rightarrow> str list" where
  "add_connections add conns =
     fold (\<lambda>a cs. if a \<in> set cs then cs else cs @ [a]) add conns"

definition updated_farm :: "str list \<Rightarrow> str list \<Rightarrow> bool \<Rightarrow> farm \<Rightarrow> farm" where
  "updated_farm add rem set_default m =
     m\<lparr>fm_connections := filter (\<lambda>c. c \<notin> set rem) (add_connections add (fm_connections m)),
       fm_is_default := (set_default \<or> fm_is_default m)\<rparr>"

definition farm_update ::
  "io \<Rightarrow> str \<Rightarrow> str list \<Rightarrow> str list \<Rightarrow> bool \<Rightarrow> farm_file \<Rightarrow> farm res \<times> farm_file" where
  "farm_update io n add rem set_default f =
     (let ms = load_unlocked f in
      let ms1 = (if set_default then map (\<lambda>m. m\<lparr>fm_is_default := False\<rparr>) ms else ms) in
      case find (\<lambda>m. fm_name m = n) ms1 of
        None \<Rightarrow> (Inl (Not_found n), f)
      | Some m \<Rightarrow>
          commit io (updated_farm add rem set_default m)
            (update_first (\<lambda>m. fm_name m = n) (updated_farm add rem set_default) ms1) f)"

datatype farm_request =
    Farm_create str "str list" | Farm_remove str | Farm_remove_all
  | Farm_update str "str list" "str list" bool

definition forget :: "'a res \<times> 'f \<Rightarrow> unit res \<times> 'f" where
  "forget r = (map_sum (\<lambda>e. e) (\<lambda>_. ()) (fst r), snd r)"

fun farm_step :: "io \<Rightarrow> farm_request \<Rightarrow> farm_file \<Rightarrow> unit res \<times> farm_file" where
  "farm_step io (Farm_create n cs) f = forget (farm_create io n cs f)"
| "farm_step io (Farm_remove n) f = forget (farm_remove io n f)"
| "farm_step io Farm_remove_all f = forget (farm_remove_all io f)"
| "farm_step io (Farm_update n add rem d) f = forget (farm_update io n add rem d f)"

definition farms_ok :: "farm list \<Rightarrow> bool" where
  "farms_ok ms \<longleftrightarrow> distinct (map fm_name ms) \<and>
     (\<forall>m\<in>set ms. \<forall>m'\<in>set ms. fm_is_default m \<longrightarrow> fm_is_default m' \<longrightarrow> m = m')"

lemma forget_Inr: "forget r = (Inr u, f) \<longleftrightarrow> (\<exists>a. r = (Inr a, f))"
  by (cases r; cases "fst r") (auto simp: forget_def)

lemma forget_Inl: "forget r = (Inl e, f) \<longleftrightarrow> r = (Inl e, f)"
  by (cases r; cases "fst r") (auto simp: forget_def)

lemma set_add_connections: "set (add_connections add cs) = set cs \<union> set add"
  unfolding add_connections_def by (induction add arbitrary: cs) auto

lemma distinct_add_connections: "distinct cs \<Longrightarrow> distinct (add_connections add cs)"
  unfolding add_connections_def by (induction add arbitrary: cs) auto

lemma updated_farm_simps [simp]:
  "fm_name (updated_farm add rem d m) = fm_name m"
  "fm_is_default (updated_farm add rem d m) = (d \<or> fm_is_default m)"
  by (simp_all add: updated_farm_def)

lemma farms_ok_remove_at: "farms_ok ms \<Longrightarrow> i < length ms \<Longrightarrow> farms_ok (remove_at i ms)"
  using set_remove_at_subset [of i ms] by (auto simp: farms_ok_def distinct_remove_at)

lemma farms_ok_snoc:
  "farms_ok ms \<Longrightarrow> \<forall>m\<in>set ms. fm_name m \<noteq> fm_name r \<Longrightarrow> fm_is_default r \<longrightarrow> ms = [] \<Longrightarrow>
     farms_ok (ms @ [r])"
  by (auto simp: farms_ok_def)

lemma farms_ok_clear: "farms_ok ms \<Longrightarrow> farms_ok (map (\<lambda>m. m\<lparr>fm_is_default := False\<rparr>) ms)"
  by (auto simp: farms_ok_def comp_def)

lemma farms_ok_update:
  assumes ok: "farms_ok ms" and x: "find p ms = Some x"
    and d: "d \<Longrightarrow> \<forall>m\<in>set ms. \<not> fm_is_default m"
  shows "farms_ok (update_first p (updated_farm add rem d) ms)"
proof -
  let ?u = "updated_farm add rem d"
  have dist: "distinct ms" using ok by (auto simp: farms_ok_def distinct_map)
  have set: "set (update_first p ?u ms) = insert (?u x) (set ms - {x})"
    by (rule set_update_first [OF x dist])
  have "\<forall>m\<in>insert (?u x) (set ms - {x}). \<forall>m'\<in>insert (?u x) (set ms - {x}).
      fm_is_default m \<longrightarrow> fm_is_default m' \<longrightarrow> m = m'"
    using ok d find_SomeD [OF x] by (auto simp: farms_ok_def)
  then show ?thesis using ok by (simp add: farms_ok_def set)
qed

lemma farm_step_ok:
  assumes ok: "farms_ok (load_unlocked f)" and s: "farm_step io q f = (Inr u, f')"
  shows "farms_ok (load_unlocked f')"
proof (cases q)
  case (Farm_create n cs)
  then show ?thesis using ok s
    by (auto simp: forget_Inr farm_create_def Let_def intro!: farms_ok_snoc split: if_splits)
next
  case (Farm_remove n)
  then show ?thesis using ok s
    by (auto simp: forget_Inr farm_remove_def Let_def farms_ok_remove_at position_less
        simp del: position_None_iff split: option.splits)
next
  case (Farm_update n add rem d)
  then show ?thesis using ok s
    by (auto simp: forget_Inr farm_update_def Let_def split: option.splits if_splits
        intro!: farms_ok_update farms_ok_clear)
qed (use s in \<open>auto simp: forget_Inr farm_remove_all_def farms_ok_def\<close>)

lemma farm_step_failed: "farm_step io q f = (Inl e, f') \<Longrightarrow> f' = f"
  by (cases q) (auto simp: forget_Inl farm_create_def farm_remove_def farm_remove_all_def
      farm_update_def Let_def split: option.splits if_splits)

interpretation farms: index_transactions farm_step farms_ok
  by unfold_locales (auto dest: farm_step_failed farm_step_ok)

section \<open>Properties\<close>

text \<open>
  In every farm index reached from a missing one by any requests under any failures, names
  are unique and at most one farm is the default.
\<close>

theorem farms_have_one_default:
  "farms_ok (load_unlocked (run_requests farm_step qs Missing))"
  by (rule farms.run_from_empty) (simp add: farms_ok_def)

text \<open>
  Removing the default leaves no default, and a farm created afterwards does not become it
  unless the index is empty.
\<close>

lemma removed_default_not_replaced:
  "farm_step io_good (Farm_create c cs) (snd (farm_step io_good (Farm_remove a)
     (Records [\<lparr>fm_name = a, fm_connections = [], fm_is_default = True, fm_read_write = True\<rparr>,
               \<lparr>fm_name = b, fm_connections = [], fm_is_default = False, fm_read_write = True\<rparr>]))) =
   (Inr (), f) \<Longrightarrow> \<forall>m\<in>set (load_unlocked f). \<not> fm_is_default m"
  by (auto simp: farm_create_def farm_remove_def forget_def Let_def remove_at_def split: if_splits)

end
