(* ===== verification/Mount_Store.thy ===== *)
theory Mount_Store
  imports Image_Store Volume_Store
begin

text \<open>
  The index of mounted file systems (\<open>src/mount/mod.rs\<close>): a map from container ids, image ids
  and volume names to the path each is mounted at, without a lock.

  \<open>real\<close> is what \<open>exists\<close> and \<open>canonicalize\<close> say of a path (no path: it does not exist).

  Shown: mounting then unmounting a container leaves every other entry as it was; but the entry
  of a container that was removed while mounted cannot be removed.
\<close>

record mount_record =
  mr_id :: str
  mr_name :: str
  mr_path :: str
  mr_at :: int

datatype mount_index = No_mounts | Mounts "(str \<times> mount_record) list"

definition load_mounts :: "mount_index \<Rightarrow> (str \<times> mount_record) list" where
  "load_mounts f = (case f of Mounts m \<Rightarrow> m | No_mounts \<Rightarrow> [])"

definition save_mounts ::
  "io \<Rightarrow> 'a \<Rightarrow> (str \<times> mount_record) list \<Rightarrow> mount_index \<Rightarrow> 'a res \<times> mount_index" where
  "save_mounts io a m f = (if save_ok io then (Inr a, Mounts m) else (Inl Io_failed, f))"

definition put_mount ::
  "io \<Rightarrow> str \<Rightarrow> str \<Rightarrow> int \<Rightarrow> str option \<Rightarrow> mount_index \<Rightarrow> str res \<times> mount_index" where
  "put_mount io key name now real f =
     (case real of
        None \<Rightarrow> (Inl (Not_found key), f)
      | Some p \<Rightarrow> save_mounts io p
          (AList.update key \<lparr>mr_id = key, mr_name = name, mr_path = p, mr_at = now\<rparr> (load_mounts f)) f)"

definition drop_mount :: "io \<Rightarrow> str \<Rightarrow> str \<Rightarrow> mount_index \<Rightarrow> unit res \<times> mount_index" where
  "drop_mount io key query f =
     (if map_of (load_mounts f) key = None then (Inl (Not_mounted query), f)
      else save_mounts io () (AList.delete key (load_mounts f)) f)"

definition mount_container ::
  "io \<Rightarrow> (str \<Rightarrow> str option) \<Rightarrow> int \<Rightarrow> str \<Rightarrow> container_file \<Rightarrow> mount_index \<Rightarrow> str res \<times> mount_index" where
  "mount_container io real now query cf f =
     (case container_find io query cf of
        None \<Rightarrow> (Inl (Not_found query), f)
      | Some c \<Rightarrow> put_mount io (c_id c) (c_name c) now (real (c_bundle_path c @ ''/rootfs'')) f)"

definition unmount_container ::
  "io \<Rightarrow> str \<Rightarrow> container_file \<Rightarrow> mount_index \<Rightarrow> unit res \<times> mount_index" where
  "unmount_container io query cf f =
     (case container_find io query cf of
        None \<Rightarrow> (Inl (Not_found query), f)
      | Some c \<Rightarrow> drop_mount io (c_id c) query f)"

definition is_mounted :: "str \<Rightarrow> mount_index \<Rightarrow> bool" where
  "is_mounted i f \<longleftrightarrow> map_of (load_mounts f) i \<noteq> None"

definition get_mount_path :: "io \<Rightarrow> str \<Rightarrow> container_file \<Rightarrow> mount_index \<Rightarrow> str option" where
  "get_mount_path io query cf f =
     Option.bind (container_find io query cf) (\<lambda>c. map_option mr_path (map_of (load_mounts f) (c_id c)))"

definition mount_image ::
  "io \<Rightarrow> str \<Rightarrow> (str \<Rightarrow> str option) \<Rightarrow> int \<Rightarrow> str \<Rightarrow> image_file \<Rightarrow> mount_index \<Rightarrow> str res \<times> mount_index" where
  "mount_image io host real now query imf f =
     (case image_find io host query imf of
        None \<Rightarrow> (Inl (Not_found query), f)
      | Some i \<Rightarrow> put_mount io (i_id i) (i_reference i @ '':'' @ i_tag i) now (real (i_rootfs_path i)) f)"

definition unmount_image ::
  "io \<Rightarrow> str \<Rightarrow> str \<Rightarrow> image_file \<Rightarrow> mount_index \<Rightarrow> unit res \<times> mount_index" where
  "unmount_image io host query imf f =
     (case image_find io host query imf of
        None \<Rightarrow> (Inl (Not_found query), f)
      | Some i \<Rightarrow> drop_mount io (i_id i) query f)"

text \<open>The directory of a volume is made when missing: \<open>real\<close> is asked afterwards.\<close>

definition mount_volume ::
  "io \<Rightarrow> (str \<Rightarrow> str option) \<Rightarrow> int \<Rightarrow> str \<Rightarrow> volume_file \<Rightarrow> mount_index \<Rightarrow> str res \<times> mount_index" where
  "mount_volume io real now query vf f =
     (case volume_find io query vf of
        None \<Rightarrow> (Inl (Not_found query), f)
      | Some v \<Rightarrow> put_mount io (v_name v) (v_name v) now (real (v_mountpoint v)) f)"

definition unmount_volume ::
  "io \<Rightarrow> str \<Rightarrow> volume_file \<Rightarrow> mount_index \<Rightarrow> unit res \<times> mount_index" where
  "unmount_volume io query vf f =
     (case volume_find io query vf of
        None \<Rightarrow> (Inl (Not_found query), f)
      | Some v \<Rightarrow> drop_mount io (v_name v) query f)"

lemma put_mount_Inr:
  "put_mount io key name now real f = (Inr p, f') \<longleftrightarrow> real = Some p \<and> save_ok io \<and>
     f' = Mounts (AList.update key \<lparr>mr_id = key, mr_name = name, mr_path = p, mr_at = now\<rparr> (load_mounts f))"
  by (auto simp: put_mount_def save_mounts_def split: option.splits if_splits)

section \<open>Properties\<close>

text \<open>
  Mounting a container and unmounting it leaves the entries of all others as they were and
  its own absent. But once a container is removed from its index its entry stays: no query that
  finds no container unmounts anything.
\<close>

theorem mount_unmount:
  assumes "mount_container io real now q cf f = (Inr p, f1)"
  shows "get_mount_path io q cf f1 = Some p \<and>
    (\<exists>f2. unmount_container io q cf f1 = (Inr (), f2) \<and>
       (\<exists>c. container_find io q cf = Some c \<and> map_of (load_mounts f2) = (map_of (load_mounts f))(c_id c := None))) \<and>
    (\<forall>q' cf'. container_find io q' cf' = None \<longrightarrow> snd (unmount_container io q' cf' f1) = f1)"
  using assms
  by (auto simp: mount_container_def unmount_container_def get_mount_path_def put_mount_Inr drop_mount_def
      save_mounts_def load_mounts_def update_conv' delete_conv' split: option.splits)

theorem mount_unmount_witness:
  "\<exists>f1. mount_container io_good Some 0 ''web'' (Records [sample_container ''c1'' ''web'']) No_mounts =
      (Inr ''/b/rootfs'', f1) \<and>
    get_mount_path io_good ''web'' (Records [sample_container ''c1'' ''web'']) f1 = Some ''/b/rootfs''"
proof -
  have "trim ''web'' = ''web''" by code_simp
  then have "container_find io_good ''web'' (Records [sample_container ''c1'' ''web'']) =
      Some (sample_container ''c1'' ''web'')"
    by (simp add: container_find_def find_locked_def c_matches_def sample_container_def)
  then obtain f1 where "mount_container io_good Some 0 ''web'' (Records [sample_container ''c1'' ''web''])
      No_mounts = (Inr ''/b/rootfs'', f1)"
    by (simp add: mount_container_def put_mount_def save_mounts_def sample_container_def)
  then show ?thesis using mount_unmount by blast
qed
end
