(* ===== verification/Build_Ignore.thy ===== *)
theory Build_Ignore
  imports Prelude
begin

text \<open>
  Which files of a build context count (\<open>src/builder/dockerignore.rs\<close>): the patterns of
  \<open>.dockerignore\<close>, and \<open>matches_wildcard\<close>, the matcher that \<open>COPY\<close> and \<open>ADD\<close> expand their
  sources with.

  Shown: the last pattern that matches decides; and the matcher, which backtracks to its last
  star only, accepts exactly the language of the pattern as long as no file name has a star of
  its own. With such a name it can miss a match.
\<close>

section \<open>Ignore patterns\<close>

definition load_patterns :: "str option \<Rightarrow> str list" where
  "load_patterns content =
     (case content of
        None \<Rightarrow> []
      | Some c \<Rightarrow> filter (\<lambda>l. l \<noteq> [] \<and> \<not> starts_with l ''#'') (map trim (lines c)))"

definition pattern_matches :: "str \<Rightarrow> str \<Rightarrow> bool" where
  "pattern_matches pattern path \<longleftrightarrow>
     (let p = trim_end_by (\<lambda>c. c = CHR ''/'') pattern in
      case (if contains_char p CHR ''*'' then split_on CHR ''*'' p else []) of
        [pre, suf] \<Rightarrow>
          starts_with path pre \<and> ends_with path suf \<and> length path \<ge> length pre + length suf
      | _ \<Rightarrow> path = p \<or> starts_with path (p @ ''/'') \<or> ends_with path (''/'' @ p))"

definition ignore_step :: "str \<Rightarrow> str \<Rightarrow> bool \<Rightarrow> bool" where
  "ignore_step path p ignored =
     (case strip_prefix ''!'' p of
        Some e \<Rightarrow> if pattern_matches e path then False else ignored
      | None \<Rightarrow> if pattern_matches p path then True else ignored)"

definition is_ignored :: "str list \<Rightarrow> str \<Rightarrow> bool" where
  "is_ignored patterns path = fold (ignore_step path) patterns False"

section \<open>Wildcards\<close>

text \<open>
  The loop of \<open>matches_wildcard\<close>: \<open>p\<close> and \<open>t\<close> are the positions in the pattern and the text,
  \<open>star\<close> the position of the last star and \<open>m\<close> (\<open>match_idx\<close>) where the text after it began to
  be matched. \<open>None\<close> is \<open>return false\<close>, \<open>Some p\<close> the pattern position when the text is used up.
\<close>

function wildcard_loop :: "str \<Rightarrow> str \<Rightarrow> nat \<Rightarrow> nat \<Rightarrow> nat option \<Rightarrow> nat \<Rightarrow> nat option" where
  "wildcard_loop P T p t star m =
     (if t < length T then
        (if p < length P \<and> (P ! p = CHR ''?'' \<or> P ! p = T ! t) then
           wildcard_loop P T (p + 1) (t + 1) star m
         else if p < length P \<and> P ! p = CHR ''*'' then
           wildcard_loop P T (p + 1) t (Some p) t
         else case star of
           Some s \<Rightarrow> wildcard_loop P T (s + 1) (m + 1) star (m + 1)
         | None \<Rightarrow> None)
      else Some p)"
  by pat_completeness auto
termination
  by (relation "measures
       [\<lambda>(P, T, p, t, star, m). max (length P - p) (case star of Some s \<Rightarrow> length P - (s + 1) | None \<Rightarrow> 0),
        \<lambda>(P, T, p, t, star, m). length T - m, \<lambda>(P, T, p, t, star, m). length T - t]")
    (auto split: option.splits)

declare wildcard_loop.simps [simp del]

definition matches_wildcard :: "str \<Rightarrow> str \<Rightarrow> bool" where
  "matches_wildcard pattern txt \<longleftrightarrow>
     (case wildcard_loop pattern txt 0 0 None 0 of
        None \<Rightarrow> False
      | Some p \<Rightarrow> list_all (\<lambda>c. c = CHR ''*'') (drop p pattern))"

section \<open>The language of a pattern\<close>

fun in_language :: "str \<Rightarrow> str \<Rightarrow> bool" where
  "in_language [] t \<longleftrightarrow> t = []"
| "in_language (x # p) t \<longleftrightarrow>
     (if x = CHR ''*'' then list_ex (\<lambda>k. in_language p (drop k t)) [0..<Suc (length t)]
      else t \<noteq> [] \<and> (x = CHR ''?'' \<or> x = hd t) \<and> in_language p (tl t))"

lemma in_language_star:
  "in_language (CHR ''*'' # p) t \<longleftrightarrow> (\<exists>k\<le>length t. in_language p (drop k t))"
  by (auto simp: list_ex_iff less_Suc_eq_le Bex_def simp del: upt_Suc)

lemma in_language_star_drop:
  assumes "t \<le> length T"
  shows "in_language (CHR ''*'' # p) (drop t T) \<longleftrightarrow>
    (\<exists>k. t \<le> k \<and> k \<le> length T \<and> in_language p (drop k T))"
proof -
  have "in_language (CHR ''*'' # p) (drop t T) \<longleftrightarrow>
      (\<exists>j\<le>length T - t. in_language p (drop (j + t) T))"
    unfolding in_language_star by simp
  also have "\<dots> \<longleftrightarrow> (\<exists>k. t \<le> k \<and> k \<le> length T \<and> in_language p (drop k T))"
    using assms by (metis add.commute le_add2 le_diff_conv le_add_diff_inverse2 le_diff_conv2)
  finally show ?thesis .
qed

lemma in_language_Nil: "in_language p [] \<longleftrightarrow> list_all (\<lambda>c. c = CHR ''*'') p"
  by (induction p) auto

lemma in_language_prefix:
  "CHR ''*'' \<notin> set seg \<Longrightarrow> in_language (seg @ q) u \<Longrightarrow> length seg \<le> length u \<and> in_language q (drop (length seg) u)"
proof (induction seg arbitrary: u)
  case (Cons x seg)
  then obtain c u' where "u = c # u'" by (cases u) auto
  with Cons show ?case by auto
qed simp

lemma segment_snoc:
  assumes "s < p" and "p < length P"
  shows "take (p - s) (drop (Suc s) P) = take (p - Suc s) (drop (Suc s) P) @ [P ! p]"
proof -
  have "take (Suc (p - Suc s)) (drop (Suc s) P) =
      take (p - Suc s) (drop (Suc s) P) @ [drop (Suc s) P ! (p - Suc s)]"
    using assms by (intro take_Suc_conv_app_nth) simp
  then show ?thesis using assms by (simp add: Suc_diff_Suc)
qed

text \<open>
  What the loop keeps: since the last star it has matched, without stars, the pattern from
  there to \<open>p\<close> with the text from \<open>m\<close> to \<open>t\<close>.
\<close>

definition loop_ok :: "str \<Rightarrow> str \<Rightarrow> nat \<Rightarrow> nat \<Rightarrow> nat option \<Rightarrow> nat \<Rightarrow> bool" where
  "loop_ok P T p t star m \<longleftrightarrow> p \<le> length P \<and> t \<le> length T \<and>
     (case star of None \<Rightarrow> True
      | Some s \<Rightarrow> s < p \<and> m + (p - Suc s) = t \<and> CHR ''*'' \<notin> set (take (p - Suc s) (drop (Suc s) P)))"

definition later_match :: "str \<Rightarrow> str \<Rightarrow> nat option \<Rightarrow> nat \<Rightarrow> bool" where
  "later_match P T star m \<longleftrightarrow>
     (case star of None \<Rightarrow> False
      | Some s \<Rightarrow> \<exists>k. m < k \<and> k \<le> length T \<and> in_language (drop (Suc s) P) (drop k T))"

lemma later_match_Suc:
  assumes "m < length T"
  shows "later_match P T (Some s) m \<longleftrightarrow>
    in_language (drop (Suc s) P) (drop (Suc m) T) \<or> later_match P T (Some s) (Suc m)"
  unfolding later_match_def option.case by (metis Suc_lessD Suc_lessI Suc_le_eq assms lessI)

lemma later_match_rest:
  assumes "loop_ok P T p t star m" and "later_match P T star m"
  shows "\<exists>k. t < k \<and> k \<le> length T \<and> in_language (drop p P) (drop k T)"
proof -
  obtain s k where s: "star = Some s" "m < k" "k \<le> length T" "in_language (drop (Suc s) P) (drop k T)"
    using assms(2) by (auto simp: later_match_def split: option.splits)
  let ?n = "p - Suc s" and ?seg = "take (p - Suc s) (drop (Suc s) P)"
  have ok: "s < p" "m + ?n = t" "CHR ''*'' \<notin> set ?seg" "p \<le> length P"
    using assms(1) s(1) by (auto simp: loop_ok_def)
  have "drop (Suc s) P = ?seg @ drop p P"
    using ok(1) append_take_drop_id [of ?n "drop (Suc s) P"] by (simp add: add.commute)
  then have "length ?seg \<le> length (drop k T) \<and> in_language (drop p P) (drop (length ?seg) (drop k T))"
    using in_language_prefix [OF ok(3)] s(4) by metis
  moreover have "length ?seg = ?n" using ok by simp
  ultimately show ?thesis
    using s(2,3) ok(2) by (intro exI [of _ "k + ?n"]) (auto simp: add.commute)
qed

lemma wildcard_loop_language:
  assumes "CHR ''*'' \<notin> set T" and "loop_ok P T p t star m"
  shows "(case wildcard_loop P T p t star m of
      None \<Rightarrow> False | Some p' \<Rightarrow> list_all (\<lambda>c. c = CHR ''*'') (drop p' P)) \<longleftrightarrow>
    in_language (drop p P) (drop t T) \<or> later_match P T star m"
  using assms
proof (induction P T p t star m rule: wildcard_loop.induct)
  case (1 P T p t star m)
  note later = later_match_rest [OF 1(5)]
  have pP: "p \<le> length P" and tT: "t \<le> length T" using 1(5) by (auto simp: loop_ok_def)
  show ?case
  proof (cases "t < length T")
    case False
    then show ?thesis using later tT
      by (subst wildcard_loop.simps) (auto simp: in_language_Nil)
  next
    case t: True
    let ?c = "T ! t"
    have T: "drop t T = ?c # drop (Suc t) T" using t by (simp add: Cons_nth_drop_Suc)
    have c: "?c \<noteq> CHR ''*''" using 1(4) t by (metis nth_mem)
    consider (char) "p < length P" "P ! p = CHR ''?'' \<or> P ! p = ?c"
      | (star) "p < length P" "P ! p = CHR ''*''" "\<not> (P ! p = CHR ''?'' \<or> P ! p = ?c)"
      | (fail) "p = length P \<or> P ! p \<noteq> CHR ''*''" "\<not> (p < length P \<and> (P ! p = CHR ''?'' \<or> P ! p = ?c))"
      using pP by linarith
    then show ?thesis
    proof cases
      case char
      then have P: "drop p P = P ! p # drop (Suc p) P" by (simp add: Cons_nth_drop_Suc)
      have ns: "P ! p \<noteq> CHR ''*''" using char c by auto
      have "loop_ok P T (p + 1) (t + 1) star m"
        using 1(5) char t ns
        by (auto simp: loop_ok_def segment_snoc split: option.splits)
      with 1(1) [OF t] char 1(4) have
        "(case wildcard_loop P T (p + 1) (t + 1) star m of None \<Rightarrow> False
          | Some p' \<Rightarrow> list_all (\<lambda>c. c = CHR ''*'') (drop p' P)) \<longleftrightarrow>
         in_language (drop (Suc p) P) (drop (Suc t) T) \<or> later_match P T star m" by simp
      then show ?thesis using char t ns by (subst wildcard_loop.simps) (simp add: P T)
    next
      case star
      then have P: "drop p P = CHR ''*'' # drop (Suc p) P" by (metis Cons_nth_drop_Suc)
      have "loop_ok P T (p + 1) t (Some p) t" using star tT by (simp add: loop_ok_def)
      with 1(2) [OF t] star 1(4) have
        "(case wildcard_loop P T (p + 1) t (Some p) t of None \<Rightarrow> False
          | Some p' \<Rightarrow> list_all (\<lambda>c. c = CHR ''*'') (drop p' P)) \<longleftrightarrow>
         in_language (drop (Suc p) P) (drop t T) \<or> later_match P T (Some p) t" by simp
      also have "\<dots> \<longleftrightarrow> (\<exists>k. t \<le> k \<and> k \<le> length T \<and> in_language (drop (Suc p) P) (drop k T))"
        using tT by (auto simp: later_match_def le_less)
      also have "\<dots> \<longleftrightarrow> in_language (drop p P) (drop t T)"
        using in_language_star_drop [OF tT] by (simp only: P)
      also have "\<dots> \<longleftrightarrow> in_language (drop p P) (drop t T) \<or> later_match P T star m"
      proof -
        have "in_language (drop p P) (drop t T)" if l: "later_match P T star m"
        proof -
          obtain k where "t < k" "k \<le> length T" "in_language (drop p P) (drop k T)"
            using later [OF l] by blast
          then show ?thesis
            unfolding P in_language_star_drop [OF tT] in_language_star_drop [OF \<open>k \<le> length T\<close>]
            by (meson le_trans less_imp_le)
        qed
        then show ?thesis by blast
      qed
      finally show ?thesis using star t by (subst wildcard_loop.simps) simp
    next
      case fail
      have no: "\<not> in_language (drop p P) (drop t T)"
      proof (cases "p = length P")
        case False
        then have "drop p P = P ! p # drop (Suc p) P" using pP by (simp add: Cons_nth_drop_Suc)
        then show ?thesis using fail False pP by (auto simp: T)
      qed (simp add: T)
      show ?thesis
      proof (cases star)
        case None
        then show ?thesis using fail t no by (subst wildcard_loop.simps) (auto simp: later_match_def)
      next
        case (Some s)
        have m: "m \<le> t" "s < length P" using 1(5) Some by (auto simp: loop_ok_def)
        then have "loop_ok P T (s + 1) (m + 1) star (m + 1)" using Some t by (auto simp: loop_ok_def)
        with 1(3) [OF t _ _ Some] fail 1(4) have
          "(case wildcard_loop P T (s + 1) (m + 1) star (m + 1) of None \<Rightarrow> False
            | Some p' \<Rightarrow> list_all (\<lambda>c. c = CHR ''*'') (drop p' P)) \<longleftrightarrow>
           in_language (drop (Suc s) P) (drop (Suc m) T) \<or> later_match P T star (m + 1)" by auto
        also have "\<dots> \<longleftrightarrow> later_match P T star m"
          using later_match_Suc [of m T P s] m t by (simp add: Some)
        finally show ?thesis using fail t no Some by (subst wildcard_loop.simps) auto
      qed
    qed
  qed
qed

lemma ignore_fold:
  "fold (ignore_step path) ps b =
     (case find (\<lambda>p. pattern_matches (unwrap_or (strip_prefix ''!'' p) p) path) (rev ps) of
        Some p \<Rightarrow> \<not> starts_with p ''!''
      | None \<Rightarrow> b)"
proof (induction ps rule: rev_induct)
  case (snoc p ps)
  then show ?case
    by (auto simp: ignore_step_def strip_prefix_def split: option.splits)
qed simp

section \<open>Properties\<close>

text \<open>
  The last pattern of \<open>.dockerignore\<close> that matches a path decides whether it is ignored; an
  exception is a pattern that starts with an exclamation mark, and nothing is ignored without a
  match.
\<close>

theorem last_pattern_decides:
  "is_ignored patterns path \<longleftrightarrow>
     (case find (\<lambda>p. pattern_matches (unwrap_or (strip_prefix ''!'' p) p) path) (rev patterns) of
        Some p \<Rightarrow> \<not> starts_with p ''!''
      | None \<Rightarrow> False)"
  by (simp add: is_ignored_def ignore_fold)

text \<open>
  The matcher of \<open>COPY\<close> and \<open>ADD\<close> returns on every input and accepts exactly the language
  of its pattern, where \<open>?\<close> is any character and \<open>*\<close> any text, on every text without a star.
\<close>

theorem wildcard_matcher_exact:
  assumes "CHR ''*'' \<notin> set txt"
  shows "matches_wildcard pattern txt \<longleftrightarrow> in_language pattern txt"
  using wildcard_loop_language [OF assms, of pattern 0 0 None 0]
  by (simp add: matches_wildcard_def loop_ok_def later_match_def)

theorem wildcard_matcher_exact_witness:
  "matches_wildcard ''a*b?'' ''aabbc'' \<longleftrightarrow> in_language ''a*b?'' ''aabbc''"
  by (rule wildcard_matcher_exact) simp

text \<open>On a text with a star the matcher can be wrong: a star matches a star first.\<close>

lemma wildcard_misses_starred_text:
  "in_language ''*'' ''*a'' \<and> \<not> matches_wildcard ''*'' ''*a''"
  by (simp add: matches_wildcard_def wildcard_loop.simps numeral_2_eq_2 list_ex_iff)

end
