(* ===== verification/Registry_Auth.thy ===== *)
theory Registry_Auth
  imports Index_File "HOL-Library.AList"
begin

text \<open>
  Registry credentials (\<open>src/auth/mod.rs\<close>): the hand-written base64 codec and the credential
  store. Here a Rust \<open>String\<close> that is encoded is the list of its UTF-8 bytes, and server names
  are texts.

  Shown: decoding undoes encoding for every byte string; credentials stored for a server are
  read back under every spelling of its name and under no other.
\<close>

section \<open>Base64\<close>

definition bytes_of :: "str \<Rightarrow> byte list" where
  "bytes_of s = map (\<lambda>c. word_of_nat (ord c)) s"

definition B64_CHARS :: "byte list" where
  "B64_CHARS = bytes_of ''ABCDEFGHIJKLMNOPQRSTUVWXYZabcdefghijklmnopqrstuvwxyz0123456789+/''"

function chunks :: "nat \<Rightarrow> 'a list \<Rightarrow> 'a list list" where
  "chunks n xs = (if n = 0 \<or> xs = [] then [] else take n xs # chunks n (drop n xs))"
  by pat_completeness auto
termination by (relation "measure (\<lambda>(n, xs). length xs)") auto

declare chunks.simps [simp del]

definition b64_char :: "byte \<Rightarrow> byte" where
  "b64_char i = B64_CHARS ! unat i"

definition equals_sign :: byte where "equals_sign = 61"

definition encode_chunk :: "byte list \<Rightarrow> byte list" where
  "encode_chunk chunk =
     (let b0 = chunk ! 0;
          b1 = (if length chunk > 1 then chunk ! 1 else 0);
          b2 = (if length chunk > 2 then chunk ! 2 else 0)
      in [b64_char (drop_bit 2 b0),
          b64_char (push_bit 4 (b0 AND 3) OR drop_bit 4 b1),
          (if length chunk > 1 then b64_char (push_bit 2 (b1 AND 0xf) OR drop_bit 6 b2) else equals_sign),
          (if length chunk > 2 then b64_char (b2 AND 0x3f) else equals_sign)])"

definition base64_encode :: "byte list \<Rightarrow> byte list" where
  "base64_encode bytes = concat (map encode_chunk (chunks 3 bytes))"

text \<open>The table: 255 for a byte that is no base64 character.\<close>

definition b64_value :: "byte \<Rightarrow> u32" where
  "b64_value b = (case position (\<lambda>c. c = b) B64_CHARS of Some i \<Rightarrow> word_of_nat i | None \<Rightarrow> 255)"

definition is_ascii_whitespace :: "byte \<Rightarrow> bool" where
  "is_ascii_whitespace b \<longleftrightarrow> b \<in> {32, 9, 10, 12, 13}"

definition decode_chunk :: "byte list \<Rightarrow> byte list option" where
  "decode_chunk chunk =
     (let get = (\<lambda>i. if i < length chunk then chunk ! i else 0);
          c0 = b64_value (get 0); c1 = b64_value (get 1); c2 = b64_value (get 2); c3 = b64_value (get 3)
      in if c0 = 255 \<or> c1 = 255 then None
         else Some ([ucast (push_bit 2 c0 OR drop_bit 4 c1)] @
           (if length chunk > 2 \<and> c2 \<noteq> 255 then [ucast (push_bit 4 c1 OR drop_bit 2 c2)] else []) @
           (if length chunk > 3 \<and> c3 \<noteq> 255 then [ucast (push_bit 6 c2 OR c3)] else [])))"

fun decode_chunks :: "byte list list \<Rightarrow> byte list option" where
  "decode_chunks [] = Some []"
| "decode_chunks (c # cs) =
     (case decode_chunk c of
        None \<Rightarrow> None
      | Some bs \<Rightarrow> map_option (\<lambda>r. bs @ r) (decode_chunks cs))"

definition base64_decode :: "byte list \<Rightarrow> byte list option" where
  "base64_decode input =
     decode_chunks (chunks 4 (filter (\<lambda>b. b \<noteq> equals_sign \<and> \<not> is_ascii_whitespace b) input))"

lemma chunks_simps [simp]: "chunks n [] = []"
  by (subst chunks.simps) simp

lemma chunks_take: "n > 0 \<Longrightarrow> xs \<noteq> [] \<Longrightarrow> chunks n xs = take n xs # chunks n (drop n xs)"
  by (subst chunks.simps) simp

lemma ord_bound [simp]: "ord c < 256"
  by (simp add: ord_def)

lemma unat_of_ord [simp]: "unat (word_of_nat (ord c) :: byte) = ord c"
  by (simp add: unat_of_nat)

lemma ord_inj: "ord c = ord d \<longleftrightarrow> c = d"
  by (simp add: ord_def)

lemma byte_of_ord_inj: "(word_of_nat (ord c) :: byte) = word_of_nat (ord d) \<longleftrightarrow> c = d"
  by (metis unat_of_ord ord_inj)

lemma b64_chars_shape:
  "length B64_CHARS = 64" "distinct B64_CHARS" "set B64_CHARS \<inter> {61, 32, 9, 10, 12, 13} = {}"
proof -
  let ?s = "''ABCDEFGHIJKLMNOPQRSTUVWXYZabcdefghijklmnopqrstuvwxyz0123456789+/''"
  show "length B64_CHARS = 64" by (simp add: B64_CHARS_def bytes_of_def)
  have d: "distinct ?s" by code_simp
  have "inj_on (\<lambda>c. word_of_nat (ord c) :: byte) (set ?s)" by (rule inj_onI) (simp only: byte_of_ord_inj)
  then show "distinct B64_CHARS" unfolding B64_CHARS_def bytes_of_def distinct_map by (rule conjI [OF d])
  have "list_all (\<lambda>x. x \<notin> {61, 32, 9, 10, 12, 13}) B64_CHARS" by code_simp
  then have "\<forall>x\<in>set B64_CHARS. x \<notin> {61, 32, 9, 10, 12, 13}" by (simp only: list_all_iff)
  then show "set B64_CHARS \<inter> {61, 32, 9, 10, 12, 13} = {}" unfolding disjoint_iff by blast
qed

lemma position_nth:
  "distinct xs \<Longrightarrow> i < length xs \<Longrightarrow> position (\<lambda>c. c = xs ! i) xs = Some i"
proof (induction xs arbitrary: i)
  case (Cons x xs)
  then show ?case by (cases i) auto
qed simp

lemma b64_char_facts:
  assumes "i < 64"
  shows "b64_value (b64_char i) = ucast i" and "b64_char i \<noteq> equals_sign"
    and "\<not> is_ascii_whitespace (b64_char i)"
proof -
  have i: "unat i < length B64_CHARS" using assms by (simp add: b64_chars_shape word_less_nat_alt)
  then have m: "b64_char i \<in> set B64_CHARS" by (simp add: b64_char_def)
  then show "b64_char i \<noteq> equals_sign" "\<not> is_ascii_whitespace (b64_char i)"
    using b64_chars_shape(3) by (auto simp: equals_sign_def is_ascii_whitespace_def)
  show "b64_value (b64_char i) = ucast i"
    using position_nth [OF b64_chars_shape(2) i]
    by (simp add: b64_value_def b64_char_def)
qed

lemma byte_less_64:
  fixes i :: byte
  assumes "\<And>n. bit i n \<Longrightarrow> n < 6"
  shows "i < 64"
proof -
  have "take_bit 6 i = i" using assms by (intro bit_word_eqI) (auto simp: bit_take_bit_iff)
  then have "unat i = take_bit 6 (unat i)" by (metis unsigned_take_bit_eq)
  then have "unat i < 2 ^ 6" by (metis take_bit_nat_less_exp)
  then show ?thesis by (simp add: word_less_nat_alt)
qed

lemma masks: "(3 :: byte) = mask 2" "(0xf :: byte) = mask 4" "(0x3f :: byte) = mask 6"
  by (simp_all add: mask_eq_exp_minus_1)

lemmas byte_bits = bit_simps masks bit_mask_iff

lemma sextets:
  fixes b0 b1 b2 :: byte
  shows "drop_bit 2 b0 < 64" "push_bit 4 (b0 AND 3) OR drop_bit 4 b1 < 64"
    "push_bit 2 (b1 AND 0xf) OR drop_bit 6 b2 < 64" "b2 AND 0x3f < 64"
proof -
  show "drop_bit 2 b0 < 64"
    by (rule byte_less_64) (auto simp: byte_bits dest: bit_imp_le_length)
  show "push_bit 4 (b0 AND 3) OR drop_bit 4 b1 < 64"
    by (rule byte_less_64) (auto simp: byte_bits dest: bit_imp_le_length)
  show "push_bit 2 (b1 AND 0xf) OR drop_bit 6 b2 < 64"
    by (rule byte_less_64) (auto simp: byte_bits dest: bit_imp_le_length)
  show "b2 AND 0x3f < 64"
    by (rule byte_less_64) (auto simp: byte_bits)
qed

lemma byte_high [simp]: "8 \<le> n \<Longrightarrow> \<not> bit (b :: byte) n"
  by (auto dest: bit_imp_le_length)

lemma byte_bits_eqI:
  fixes v w :: byte
  assumes "bit v 0 = bit w 0" "bit v 1 = bit w 1" "bit v 2 = bit w 2" "bit v 3 = bit w 3"
    "bit v 4 = bit w 4" "bit v 5 = bit w 5" "bit v 6 = bit w 6" "bit v 7 = bit w 7"
  shows "v = w"
proof (rule bit_word_eqI)
  fix n assume "n < LENGTH(8)"
  then have "n \<in> {0, 1, 2, 3, 4, 5, 6, 7}" by auto
  then show "bit v n = bit w n" using assms by auto
qed

lemma rejoin:
  fixes b0 b1 b2 :: byte
  shows "ucast (push_bit 2 (ucast (drop_bit 2 b0) :: u32) OR
      drop_bit 4 (ucast (push_bit 4 (b0 AND 3) OR drop_bit 4 b1))) = b0"
    and "ucast (push_bit 4 (ucast (push_bit 4 (b0 AND 3) OR drop_bit 4 b1) :: u32) OR
      drop_bit 2 (ucast (push_bit 2 (b1 AND 0xf) OR drop_bit 6 b2))) = b1"
    and "ucast (push_bit 6 (ucast (push_bit 2 (b1 AND 0xf) OR drop_bit 6 b2) :: u32) OR
      ucast (b2 AND 0x3f)) = b2"
  by (rule byte_bits_eqI; simp add: byte_bits)+

lemma small_not_255: "(i :: byte) < 64 \<Longrightarrow> (ucast i :: u32) \<noteq> 255"
proof
  assume i: "i < 64" and "(ucast i :: u32) = 255"
  then have "unat (ucast i :: u32) = 255" by simp
  moreover have "unat (ucast i :: u32) = unat i"
    using i by (simp add: unsigned_ucast_eq take_bit_nat_eq_self word_less_nat_alt)
  ultimately show False using i by (simp add: word_less_nat_alt)
qed

section \<open>Decoding undoes encoding\<close>

definition b64_clean :: "byte list \<Rightarrow> byte list" where
  "b64_clean = filter (\<lambda>b. b \<noteq> equals_sign \<and> \<not> is_ascii_whitespace b)"

lemma decode_clean: "base64_decode s = decode_chunks (chunks 4 (b64_clean s))"
  by (simp add: base64_decode_def b64_clean_def)

text \<open>The four sextets of three bytes.\<close>

definition sextet0 :: "byte \<Rightarrow> byte" where "sextet0 a = drop_bit 2 a"
definition sextet1 :: "byte \<Rightarrow> byte \<Rightarrow> byte" where "sextet1 a b = push_bit 4 (a AND 3) OR drop_bit 4 b"
definition sextet2 :: "byte \<Rightarrow> byte \<Rightarrow> byte" where "sextet2 b c = push_bit 2 (b AND 0xf) OR drop_bit 6 c"
definition sextet3 :: "byte \<Rightarrow> byte" where "sextet3 c = c AND 0x3f"

lemmas sextet_defs = sextet0_def sextet1_def sextet2_def sextet3_def

lemma sextet_less [simp]: "sextet0 a < 64" "sextet1 a b < 64" "sextet2 b c < 64" "sextet3 c < 64"
  by (simp_all only: sextet_defs sextets)

lemma sextet_rejoin:
  "ucast (push_bit 2 (ucast (sextet0 a) :: u32) OR drop_bit 4 (ucast (sextet1 a b))) = a"
  "ucast (push_bit 4 (ucast (sextet1 a b) :: u32) OR drop_bit 2 (ucast (sextet2 b c))) = b"
  "ucast (push_bit 6 (ucast (sextet2 b c) :: u32) OR ucast (sextet3 c)) = c"
  by (simp_all only: sextet_defs rejoin)

lemma encode_chunk_sextets:
  "encode_chunk [a, b, c] =
     [b64_char (sextet0 a), b64_char (sextet1 a b), b64_char (sextet2 b c), b64_char (sextet3 c)]"
  "encode_chunk [a, b] =
     [b64_char (sextet0 a), b64_char (sextet1 a b), b64_char (sextet2 b 0), equals_sign]"
  "encode_chunk [a] = [b64_char (sextet0 a), b64_char (sextet1 a 0), equals_sign, equals_sign]"
  by (simp_all add: encode_chunk_def sextet_defs Let_def)

lemma b64_clean_simps [simp]:
  "b64_clean [] = []" "b64_clean (xs @ ys) = b64_clean xs @ b64_clean ys"
  "b64_clean (equals_sign # xs) = b64_clean xs"
  "i < 64 \<Longrightarrow> b64_clean (b64_char i # xs) = b64_char i # b64_clean xs"
  by (simp_all add: b64_clean_def b64_char_facts)

lemma decode_chunk_chars:
  assumes "i < 64" "j < 64"
  shows "decode_chunk [b64_char i, b64_char j] = Some [ucast (push_bit 2 (ucast i :: u32) OR drop_bit 4 (ucast j))]"
    and "k < 64 \<Longrightarrow> decode_chunk [b64_char i, b64_char j, b64_char k] =
      Some [ucast (push_bit 2 (ucast i :: u32) OR drop_bit 4 (ucast j)),
        ucast (push_bit 4 (ucast j :: u32) OR drop_bit 2 (ucast k))]"
    and "k < 64 \<Longrightarrow> l < 64 \<Longrightarrow> decode_chunk [b64_char i, b64_char j, b64_char k, b64_char l] =
      Some [ucast (push_bit 2 (ucast i :: u32) OR drop_bit 4 (ucast j)),
        ucast (push_bit 4 (ucast j :: u32) OR drop_bit 2 (ucast k)),
        ucast (push_bit 6 (ucast k :: u32) OR ucast l)]"
  using assms
  by (simp_all add: decode_chunk_def b64_char_facts small_not_255 Let_def nth_Cons numeral_2_eq_2
      numeral_3_eq_3 del: push_bit_numeral)

lemma chunk3:
  "b64_clean (encode_chunk [a, b, c]) = encode_chunk [a, b, c]"
  "decode_chunk (encode_chunk [a, b, c]) = Some [a, b, c]"
  "length (encode_chunk [a, b, c]) = 4"
  by (simp_all add: encode_chunk_sextets decode_chunk_chars sextet_rejoin)

lemma chunk2:
  "decode_chunk (b64_clean (encode_chunk [a, b])) = Some [a, b]"
  "length (b64_clean (encode_chunk [a, b])) = 3"
  by (simp_all add: encode_chunk_sextets decode_chunk_chars sextet_rejoin)

lemma chunk1:
  "decode_chunk (b64_clean (encode_chunk [a])) = Some [a]"
  "length (b64_clean (encode_chunk [a])) = 2"
  by (simp_all add: encode_chunk_sextets decode_chunk_chars sextet_rejoin)

lemma chunks_short: "xs \<noteq> [] \<Longrightarrow> length xs \<le> n \<Longrightarrow> chunks n xs = [xs]"
  by (cases xs; subst chunks_take) auto

lemma chunks_block: "length xs = n \<Longrightarrow> n > 0 \<Longrightarrow> chunks n (xs @ ys) = xs # chunks n ys"
  by (subst chunks_take) auto

lemma base64_inverse: "base64_decode (base64_encode bs) = Some bs"
proof (induction "length bs" arbitrary: bs rule: less_induct)
  case less
  consider "bs = []" | a where "bs = [a]" | a b where "bs = [a, b]" | a b c r where "bs = [a, b, c] @ r"
    by (metis append_Cons append_Nil neq_Nil_conv)
  then show ?case
  proof cases
    case 1
    then show ?thesis by (simp add: base64_encode_def decode_clean)
  next
    case 2
    then show ?thesis using chunk1 [of a]
      by (simp add: base64_encode_def decode_clean chunks_short) (subst chunks_short; fastforce)
  next
    case 3
    then show ?thesis using chunk2 [of a b]
      by (simp add: base64_encode_def decode_clean chunks_short) (subst chunks_short; fastforce)
  next
    case 4
    have "base64_encode bs = encode_chunk [a, b, c] @ base64_encode r"
      unfolding base64_encode_def 4 by (subst chunks_block) simp_all
    then have "base64_decode (base64_encode bs) =
        decode_chunks (encode_chunk [a, b, c] # chunks 4 (b64_clean (base64_encode r)))"
      by (simp only: decode_clean b64_clean_simps chunk3(1) chunks_block [OF chunk3(3)] zero_less_numeral)
    then have "base64_decode (base64_encode bs) =
        map_option ((@) [a, b, c]) (base64_decode (base64_encode r))"
      by (simp only: chunk3(2) decode_clean decode_chunks.simps option.case)
    then show ?thesis using less [of r] 4 by simp
  qed
qed

section \<open>Credentials\<close>

text \<open>Well-formed UTF-8, as \<open>String::from_utf8\<close> tests it.\<close>

definition continuation :: "byte \<Rightarrow> bool" where
  "continuation b \<longleftrightarrow> 0x80 \<le> b \<and> b \<le> 0xBF"

text \<open>
  The number of bytes of the character its first byte announces, the bounds this byte puts on
  the second, and the width of the character a text starts with (0: it starts with none).
\<close>

definition utf8_lead :: "byte \<Rightarrow> nat" where
  "utf8_lead b =
     (if b < 0x80 then 1 else if 0xC2 \<le> b \<and> b \<le> 0xDF then 2
      else if 0xE0 \<le> b \<and> b \<le> 0xEF then 3 else if 0xF0 \<le> b \<and> b \<le> 0xF4 then 4 else 0)"

definition second_ok :: "byte \<Rightarrow> byte \<Rightarrow> bool" where
  "second_ok b c \<longleftrightarrow> (b = 0xE0 \<longrightarrow> 0xA0 \<le> c) \<and> (b = 0xED \<longrightarrow> c \<le> 0x9F) \<and>
     (b = 0xF0 \<longrightarrow> 0x90 \<le> c) \<and> (b = 0xF4 \<longrightarrow> c \<le> 0x8F)"

definition utf8_width :: "byte list \<Rightarrow> nat" where
  "utf8_width bs =
     (case bs of
        [] \<Rightarrow> 0
      | b # r \<Rightarrow>
          let w = utf8_lead b; tail = take (w - 1) r in
          if w \<le> length bs \<and> list_all continuation tail \<and> (tail = [] \<or> second_ok b (hd tail)) then w else 0)"

function valid_utf8 :: "byte list \<Rightarrow> bool" where
  "valid_utf8 bs \<longleftrightarrow>
     (if bs = [] then True else if utf8_width bs = 0 then False
      else valid_utf8 (drop (utf8_width bs) bs))"
  by pat_completeness auto
termination by (relation "measure length") (auto intro: diff_less)

declare valid_utf8.simps [simp del]

definition colon :: byte where "colon = 58"

fun split_once_byte :: "byte \<Rightarrow> byte list \<Rightarrow> (byte list \<times> byte list) option" where
  "split_once_byte c [] = None"
| "split_once_byte c (x # xs) =
     (if x = c then Some ([], xs) else map_option (\<lambda>(a, b). (x # a, b)) (split_once_byte c xs))"

text \<open>The map from servers to base64 texts in \<open>config.json\<close>.\<close>

datatype auth_file = No_auths | Auths "(str \<times> byte list) list"

definition load_auths :: "auth_file \<Rightarrow> (str \<times> byte list) list" where
  "load_auths f = (case f of Auths a \<Rightarrow> a | No_auths \<Rightarrow> [])"

definition save_auths :: "io \<Rightarrow> (str \<times> byte list) list \<Rightarrow> auth_file \<Rightarrow> unit res \<times> auth_file" where
  "save_auths io a f = (if save_ok io then (Inr (), Auths a) else (Inl Io_failed, f))"

definition normalize_server :: "str \<Rightarrow> str" where
  "normalize_server server =
     (let clean = trim_end_by (\<lambda>c. c = CHR ''/'')
            (trim_start_str ''http://'' (trim_start_str ''https://'' (trim server)))
      in if clean = ''docker.io'' \<or> clean = ''registry-1.docker.io'' \<or> clean = ''index.docker.io'' \<or>
            clean = ''index.docker.io/v1'' \<or> clean = ''https://index.docker.io/v1''
         then ''https://index.docker.io/v1/'' else clean)"

definition login :: "io \<Rightarrow> str \<Rightarrow> byte list \<Rightarrow> byte list \<Rightarrow> auth_file \<Rightarrow> unit res \<times> auth_file" where
  "login io server user secret f =
     save_auths io (AList.update (normalize_server server) (base64_encode (user @ colon # secret))
       (load_auths f)) f"

definition logout :: "io \<Rightarrow> str \<Rightarrow> auth_file \<Rightarrow> unit res \<times> auth_file" where
  "logout io server f = save_auths io (AList.delete (normalize_server server) (load_auths f)) f"

definition decode_entry :: "byte list \<Rightarrow> (byte list \<times> byte list) option" where
  "decode_entry e =
     Option.bind (base64_decode e) (\<lambda>bs. if valid_utf8 bs then split_once_byte colon bs else None)"

text \<open>\<open>docker\<close>: what \<open>~/.docker/config.json\<close> holds, asked when the own entry is missing or unusable.\<close>

definition get_credentials ::
  "str \<Rightarrow> auth_file \<Rightarrow> auth_file \<Rightarrow> (byte list \<times> byte list) option" where
  "get_credentials server docker f =
     (let lookup = (\<lambda>g. Option.bind (map_of (load_auths g) (normalize_server server)) decode_entry) in
      or_else (lookup f) (lookup docker))"

lemma utf8_width_append:
  assumes "utf8_width a > 0"
  shows "utf8_width (a @ b) = utf8_width a" and "utf8_width a \<le> length a"
proof -
  obtain x r where a: "a = x # r" using assms by (cases a) (auto simp: utf8_width_def)
  then have "utf8_lead x \<le> length a" and "utf8_width a = utf8_lead x"
    using assms by (auto simp: utf8_width_def Let_def split: if_splits)
  then show "utf8_width (a @ b) = utf8_width a" "utf8_width a \<le> length a"
    using a by (auto simp: utf8_width_def Let_def split: if_splits)
qed

lemma valid_utf8_append:
  assumes "valid_utf8 b"
  shows "valid_utf8 a \<Longrightarrow> valid_utf8 (a @ b)"
proof (induction a rule: valid_utf8.induct)
  case (1 a)
  show ?case
  proof (cases "a = []")
    case False
    then have w: "utf8_width a > 0" "valid_utf8 (drop (utf8_width a) a)"
      using 1(2) by (simp_all add: valid_utf8.simps [of a] split: if_splits)
    then have "valid_utf8 (drop (utf8_width a) a @ b)" using 1(1) False by simp
    then show ?thesis using utf8_width_append [OF w(1)] w(1)
      by (subst valid_utf8.simps) simp
  qed (simp add: assms)
qed

lemma valid_utf8_ascii: "valid_utf8 bs \<Longrightarrow> x < 0x80 \<Longrightarrow> valid_utf8 (x # bs)"
  by (subst valid_utf8.simps) (simp add: utf8_width_def utf8_lead_def)

lemma split_once_byte_append: "c \<notin> set a \<Longrightarrow> split_once_byte c (a @ c # b) = Some (a, b)"
  by (induction a) auto

lemma decode_login_entry:
  assumes "valid_utf8 user" and "valid_utf8 secret" and "colon \<notin> set user"
  shows "decode_entry (base64_encode (user @ colon # secret)) = Some (user, secret)"
  using assms valid_utf8_append [of "colon # secret" user] valid_utf8_ascii [of secret colon]
  by (simp add: decode_entry_def base64_inverse split_once_byte_append colon_def)

section \<open>Properties\<close>

text \<open>
  Decoding undoes encoding, for every byte string.
\<close>

theorem base64_roundtrip:
  "base64_decode (base64_encode bytes) = Some bytes"
  by (rule base64_inverse)

text \<open>
  After a login, every spelling of the server gives exactly the user name and the secret,
  as long as the name has no colon, and every other server what it gave before; after a logout
  the server gives what the Docker configuration says.
\<close>

theorem login_roundtrip:
  assumes "login io server user secret f = (Inr (), f1)"
    and "valid_utf8 user" and "valid_utf8 secret" and "colon \<notin> set user"
  shows "get_credentials s docker f1 =
      (if normalize_server s = normalize_server server then Some (user, secret) else get_credentials s docker f) \<and>
    (logout io server f1 = (Inr (), f2) \<longrightarrow>
      get_credentials server docker f2 = get_credentials server docker No_auths)"
  using assms
  by (auto simp: login_def logout_def save_auths_def get_credentials_def load_auths_def Let_def
      update_conv' delete_conv' decode_login_entry split: if_splits)

theorem login_roundtrip_witness:
  "\<exists>f1. login io_good ''https://docker.io/'' [104, 105] [58, 195, 169] No_auths = (Inr (), f1) \<and>
     get_credentials ''index.docker.io'' No_auths f1 = Some ([104, 105], [58, 195, 169])"
proof -
  obtain f1 where "login io_good ''https://docker.io/'' [104, 105] [58, 195, 169] No_auths = (Inr (), f1)"
    by (simp add: login_def save_auths_def)
  moreover have "valid_utf8 [58, 195, 169]" "valid_utf8 [104, 105]"
    by (simp_all add: valid_utf8.simps utf8_width_def utf8_lead_def second_ok_def continuation_def)
  moreover have "normalize_server ''index.docker.io'' = normalize_server ''https://docker.io/''"
    by code_simp
  ultimately show ?thesis
    using login_roundtrip [of io_good "''https://docker.io/''" "[104, 105]" "[58, 195, 169]" No_auths f1
        "''index.docker.io''" No_auths No_auths]
    by (simp add: colon_def)
qed

end
