(* ===== verification/Container_Copy.thy ===== *)
theory Container_Copy
  imports Container_Store Path_Text
begin

text \<open>
  \<open>boxr cp\<close> (\<open>src/runtime/cp.rs\<close>): which side of a copy is in a container, and the check that
  keeps a path inside the container's root file system. What the file system answers is a
  record: \<open>canonicalize\<close> (no path: it fails, as on a dangling link), \<open>symlink_metadata\<close> and
  \<open>exists\<close>. The recursive copy itself is not modelled.

  Shown: an accepted path is lexically below the root file system, and it, or when it does not exist
  its nearest existing ancestor, resolves inside; without \<open>..\<close> in it so does every entry on the
  way, and a dangling link is refused. With \<open>..\<close> a dangling link is accepted, so that a copy can
  create a file outside.
\<close>

record fs_view =
  canon :: "path \<Rightarrow> path option"
  link_exists :: "path \<Rightarrow> bool"
  path_exists :: "path \<Rightarrow> bool"

section \<open>The order of paths\<close>

text \<open>\<open>PathBuf\<close> compares lexicographically by components, names by their bytes.\<close>

fun name_less :: "str \<Rightarrow> str \<Rightarrow> bool" where
  "name_less _ [] \<longleftrightarrow> False"
| "name_less [] (_ # _) \<longleftrightarrow> True"
| "name_less (a # as) (b # bs) \<longleftrightarrow> ord a < ord b \<or> a = b \<and> name_less as bs"

fun component_less :: "component \<Rightarrow> component \<Rightarrow> bool" where
  "component_less (Normal a) (Normal b) \<longleftrightarrow> name_less a b"
| "component_less (Normal _) _ \<longleftrightarrow> False"
| "component_less _ (Normal _) \<longleftrightarrow> True"
| "component_less RootDir c \<longleftrightarrow> c \<noteq> RootDir"
| "component_less CurDir c \<longleftrightarrow> c = ParentDir"
| "component_less ParentDir _ \<longleftrightarrow> False"

fun path_less :: "path \<Rightarrow> path \<Rightarrow> bool" where
  "path_less _ [] \<longleftrightarrow> False"
| "path_less [] (_ # _) \<longleftrightarrow> True"
| "path_less (a # as) (b # bs) \<longleftrightarrow> component_less a b \<or> a = b \<and> path_less as bs"

lemma name_less_irrefl [simp]: "\<not> name_less a a"
  by (induction a) auto

lemma component_less_irrefl [simp]: "\<not> component_less c c"
  by (cases c) auto

lemma path_less_append [simp]: "path_less p (p @ q) \<longleftrightarrow> q \<noteq> []"
proof (induction p)
  case Nil
  show ?case by (cases q) auto
qed simp

section \<open>Resolving a path in a container\<close>

fun walk_path :: "path \<Rightarrow> str \<Rightarrow> path \<Rightarrow> path \<Rightarrow> path res" where
  "walk_path root shown [] resolved = Inr resolved"
| "walk_path root shown (Normal c # cs) resolved = walk_path root shown cs (resolved @ [Normal c])"
| "walk_path root shown (ParentDir # cs) resolved =
     (if path_less root resolved then walk_path root shown cs (fst (path_pop resolved))
      else Inl (Path_traversal shown))"
| "walk_path root shown (CurDir # cs) resolved = walk_path root shown cs resolved"
| "walk_path root shown (RootDir # cs) resolved = Inl (Invalid_component shown)"

text \<open>The canonical form of an existing path is inside; a failing \<open>canonicalize\<close> is an error.\<close>

definition canon_inside :: "fs_view \<Rightarrow> str \<Rightarrow> path \<Rightarrow> path \<Rightarrow> unit res" where
  "canon_inside fs shown canon_root p =
     (case canon fs p of
        None \<Rightarrow> Inl Io_failed
      | Some c \<Rightarrow> if path_below c canon_root then Inr () else Inl (Path_traversal shown))"

fun check_links :: "fs_view \<Rightarrow> str \<Rightarrow> path \<Rightarrow> path \<Rightarrow> path \<Rightarrow> unit res" where
  "check_links fs shown canon_root check [] = Inr ()"
| "check_links fs shown canon_root check (Normal c # cs) =
     (let check = check @ [Normal c] in
      if link_exists fs check then
        bind_res (canon_inside fs shown canon_root check) (\<lambda>_. check_links fs shown canon_root check cs)
      else check_links fs shown canon_root check cs)"
| "check_links fs shown canon_root check (_ # cs) = check_links fs shown canon_root check cs"

text \<open>The \<open>while let Some(parent)\<close> loop: the nearest existing ancestor decides.\<close>

function check_ancestor :: "fs_view \<Rightarrow> str \<Rightarrow> path \<Rightarrow> path \<Rightarrow> unit res" where
  "check_ancestor fs shown canon_root here =
     (case path_parent here of
        None \<Rightarrow> Inr ()
      | Some parent \<Rightarrow>
          if path_exists fs parent then canon_inside fs shown canon_root parent
          else check_ancestor fs shown canon_root parent)"
  by pat_completeness auto
termination
  by (relation "measure (\<lambda>(fs, shown, canon_root, here). length here)")
    (auto simp: path_parent_def split: if_splits)

declare check_ancestor.simps [simp del]

definition resolve_container_path :: "fs_view \<Rightarrow> path \<Rightarrow> str \<Rightarrow> path res" where
  "resolve_container_path fs root container_path =
     (let cs = components (trim_start_by (\<lambda>c. c = CHR ''/'') container_path) in
      bind_res (walk_path root container_path cs root) (\<lambda>resolved.
      bind_res (ok_or (canon fs root) Io_failed) (\<lambda>canon_root.
      bind_res (check_links fs container_path canon_root root cs) (\<lambda>_.
      bind_res (if path_exists fs resolved then canon_inside fs container_path canon_root resolved
                else check_ancestor fs container_path canon_root resolved) (\<lambda>_.
      Inr resolved)))))"

section \<open>The two sides of a copy\<close>

definition in_container :: "str \<Rightarrow> bool" where
  "in_container s \<longleftrightarrow> \<not> starts_with s ''.'' \<and> \<not> starts_with s ''/'' \<and> contains_char s CHR '':''"

definition container_root :: "container \<Rightarrow> path" where
  "container_root c = components (c_bundle_path c @ ''/rootfs'')"

text \<open>One side that names a container: the container, then the path resolved in it.\<close>

definition container_side :: "io \<Rightarrow> fs_view \<Rightarrow> container_file \<Rightarrow> bool \<Rightarrow> str \<Rightarrow> path res" where
  "container_side io fs f must_exist s =
     (case split_once CHR '':'' s of
        None \<Rightarrow> Inl (Invalid_spec s)
      | Some (q, p) \<Rightarrow>
          bind_res (ok_or (container_find io q f) (Not_found q)) (\<lambda>c.
          bind_res (resolve_container_path fs (container_root c) p) (\<lambda>r.
          if must_exist \<and> \<not> path_exists fs r then Inl (Not_found p) else Inr r)))"

definition copy_plan :: "io \<Rightarrow> fs_view \<Rightarrow> container_file \<Rightarrow> str \<Rightarrow> str \<Rightarrow> (path \<times> path) res" where
  "copy_plan io fs f src dest =
     (if in_container src \<and> in_container dest then
        (let (sq, sp) = the (split_once CHR '':'' src); (dq, dp) = the (split_once CHR '':'' dest) in
         bind_res (ok_or (container_find io sq f) (Not_found sq)) (\<lambda>sc.
         bind_res (ok_or (container_find io dq f) (Not_found dq)) (\<lambda>dc.
         bind_res (container_side io fs f True src) (\<lambda>s.
         bind_res (container_side io fs f False dest) (\<lambda>d. Inr (s, d))))))
      else if in_container src then
        bind_res (container_side io fs f True src) (\<lambda>s. Inr (s, components dest))
      else if in_container dest then
        (case split_once CHR '':'' dest of
           None \<Rightarrow> Inl (Invalid_spec dest)
         | Some (q, _) \<Rightarrow>
             bind_res (ok_or (container_find io q f) (Not_found q)) (\<lambda>_.
             if \<not> path_exists fs (components src) then Inl (Not_found src)
             else bind_res (container_side io fs f False dest) (\<lambda>d. Inr (components src, d))))
      else Inl (Invalid_spec src))"

section \<open>What an accepted path is\<close>

lemma walk_path_below:
  "walk_path root shown cs (root @ map Normal ns) = Inr r \<Longrightarrow> \<exists>ms. r = root @ map Normal ms"
proof (induction root shown cs "root @ map Normal ns" arbitrary: ns rule: walk_path.induct)
  case (2 root shown c cs)
  then show ?case using 2(1) [of "ns @ [c]"] by simp
next
  case (3 root shown cs)
  then have "ns \<noteq> []" by (auto split: if_splits)
  then obtain n m where ns: "ns = n @ [m]" by (cases ns rule: rev_cases) auto
  then have "fst (path_pop (root @ map Normal ns)) = root @ map Normal n"
    by (simp add: path_pop_def path_parent_def butlast_append)
  then show ?case using 3(1) [of n] 3(2) \<open>ns \<noteq> []\<close> by simp
qed auto

lemma canon_inside_Inr:
  "canon_inside fs shown cr p = Inr u \<longleftrightarrow> (\<exists>c. canon fs p = Some c \<and> path_below c cr)"
  by (auto simp: canon_inside_def split: option.splits)

lemma check_ancestor_inside:
  "check_ancestor fs shown cr (root @ map Normal ns) = Inr u \<Longrightarrow> path_exists fs root \<Longrightarrow> ns \<noteq> [] \<Longrightarrow>
     \<exists>k<length ns. path_exists fs (root @ map Normal (take k ns)) \<and>
       (\<forall>j<length ns. k < j \<longrightarrow> \<not> path_exists fs (root @ map Normal (take j ns))) \<and>
       (\<exists>c. canon fs (root @ map Normal (take k ns)) = Some c \<and> path_below c cr)"
proof (induction ns rule: rev_induct)
  case (snoc n ns)
  have p: "path_parent (root @ map Normal (ns @ [n])) = Some (root @ map Normal ns)"
    by (simp add: path_parent_def butlast_append)
  show ?case
  proof (cases "path_exists fs (root @ map Normal ns)")
    case True
    then have "\<exists>c. canon fs (root @ map Normal ns) = Some c \<and> path_below c cr"
      using snoc(2) p by (simp add: check_ancestor.simps canon_inside_Inr)
    then show ?thesis using True by (intro exI [of _ "length ns"]) auto
  next
    case False
    then have "check_ancestor fs shown cr (root @ map Normal ns) = Inr u" and ne: "ns \<noteq> []"
      using snoc(2,3) p by (auto simp: check_ancestor.simps)
    from snoc(1) [OF this(1) snoc(3) this(2)] obtain k where k: "k < length ns"
      "path_exists fs (root @ map Normal (take k ns))"
      "\<forall>j<length ns. k < j \<longrightarrow> \<not> path_exists fs (root @ map Normal (take j ns))"
      "\<exists>c. canon fs (root @ map Normal (take k ns)) = Some c \<and> path_below c cr" by blast
    then show ?thesis using False by (intro exI [of _ k]) (auto simp: less_Suc_eq)
  qed
qed simp

section \<open>Properties\<close>

fun ordinary_names :: "path \<Rightarrow> str list" where
  "ordinary_names [] = []"
| "ordinary_names (Normal n # cs) = n # ordinary_names cs"
| "ordinary_names (_ # cs) = ordinary_names cs"

lemma walk_path_names:
  "walk_path root shown cs resolved = Inr r \<Longrightarrow> ParentDir \<notin> set cs \<Longrightarrow>
     r = resolved @ map Normal (ordinary_names cs)"
  by (induction root shown cs resolved rule: walk_path.induct) auto

lemma check_links_inside:
  "check_links fs shown cr here cs = Inr u \<Longrightarrow> 0 < j \<Longrightarrow> j \<le> length (ordinary_names cs) \<Longrightarrow>
     link_exists fs (here @ map Normal (take j (ordinary_names cs))) \<Longrightarrow>
     \<exists>c. canon fs (here @ map Normal (take j (ordinary_names cs))) = Some c \<and> path_below c cr"
proof (induction fs shown cr here cs arbitrary: j rule: check_links.induct)
  case (2 fs shown cr here n cs)
  let ?here = "here @ [Normal n]"
  obtain i where j: "j = Suc i" using 2(4) by (cases j) auto
  have rest: "check_links fs shown cr ?here cs = Inr u"
    and now: "link_exists fs ?here \<longrightarrow> (\<exists>c. canon fs ?here = Some c \<and> path_below c cr)"
    using 2(3) by (auto simp: Let_def bind_res_Inr_iff canon_inside_Inr split: if_splits)
  show ?case
  proof (cases i)
    case 0
    then show ?thesis using now 2(6) j by simp
  next
    case (Suc k)
    have "\<exists>c. canon fs (?here @ map Normal (take i (ordinary_names cs))) = Some c \<and> path_below c cr"
    proof (cases "link_exists fs ?here")
      case True
      show ?thesis using 2(1) [OF refl True rest, of i] 2(5,6) j Suc by simp
    next
      case False
      show ?thesis using 2(2) [OF refl False rest, of i] 2(5,6) j Suc by simp
    qed
    then show ?thesis by (simp add: j)
  qed
qed auto

text \<open>
  C17. An accepted path is the root file system followed by ordinary names. When it exists it
  resolves to a place inside the root, and otherwise its nearest existing ancestor does. When the
  path that was asked for has no \<open>..\<close>, every entry on the way, the last one included and a
  dangling link too, resolves inside the root: so a dangling link is refused there. With \<open>..\<close> in
  the path the last part fails, see the next theorem.
\<close>

theorem resolved_path_inside:
  assumes "resolve_container_path fs root p = Inr r" and "path_exists fs root"
  shows "\<exists>ns cr k. r = root @ map Normal ns \<and> canon fs root = Some cr \<and> k \<le> length ns \<and>
    path_exists fs (root @ map Normal (take k ns)) \<and>
    (\<exists>c. canon fs (root @ map Normal (take k ns)) = Some c \<and> path_below c cr) \<and>
    (\<forall>j\<le>length ns. k < j \<longrightarrow> \<not> path_exists fs (root @ map Normal (take j ns))) \<and>
    (ParentDir \<notin> set (components (trim_start_by (\<lambda>c. c = CHR ''/'') p)) \<longrightarrow>
       (\<forall>j\<le>length ns. 0 < j \<and> link_exists fs (root @ map Normal (take j ns)) \<longrightarrow>
          (\<exists>c. canon fs (root @ map Normal (take j ns)) = Some c \<and> path_below c cr)))"
proof -
  let ?cs = "components (trim_start_by (\<lambda>c. c = CHR ''/'') p)"
  obtain cr where w: "walk_path root p ?cs root = Inr r" and cr: "canon fs root = Some cr"
    and lnk: "check_links fs p cr root ?cs = Inr ()"
    and chk: "(if path_exists fs r then canon_inside fs p cr r else check_ancestor fs p cr r) = Inr ()"
    using assms(1)
    by (auto simp: resolve_container_path_def Let_def bind_res_Inr_iff ok_or_def split: option.splits)
  obtain ns where r: "r = root @ map Normal ns" using walk_path_below [of root p ?cs "[]"] w by auto
  have way: "\<exists>c. canon fs (root @ map Normal (take j ns)) = Some c \<and> path_below c cr"
    if "ParentDir \<notin> set ?cs" "j \<le> length ns" "0 < j" "link_exists fs (root @ map Normal (take j ns))" for j
  proof -
    have "map Normal ns = map Normal (ordinary_names ?cs)" using walk_path_names [OF w that(1)] r by simp
    then have "ns = ordinary_names ?cs" by (rule map_injective) (simp add: inj_def)
    then show ?thesis using check_links_inside [OF lnk, of j] that by simp
  qed
  have "\<exists>k\<le>length ns. path_exists fs (root @ map Normal (take k ns)) \<and>
    (\<exists>c. canon fs (root @ map Normal (take k ns)) = Some c \<and> path_below c cr) \<and>
    (\<forall>j\<le>length ns. k < j \<longrightarrow> \<not> path_exists fs (root @ map Normal (take j ns)))"
  proof (cases "path_exists fs r")
    case True
    then show ?thesis using chk r by (intro exI [of _ "length ns"]) (auto simp: canon_inside_Inr)
  next
    case False
    then have ne: "ns \<noteq> []" using r assms(2) by auto
    obtain k where "k < length ns" "path_exists fs (root @ map Normal (take k ns))"
      "\<forall>j<length ns. k < j \<longrightarrow> \<not> path_exists fs (root @ map Normal (take j ns))"
      "\<exists>c. canon fs (root @ map Normal (take k ns)) = Some c \<and> path_below c cr"
      using check_ancestor_inside [of fs p cr root ns] chk False assms(2) ne r by auto
    then show ?thesis using False r by (intro exI [of _ k]) (auto simp: le_less)
  qed
  then show ?thesis using r cr way by blast
qed

definition sample_fs :: "path \<Rightarrow> path set \<Rightarrow> fs_view" where
  "sample_fs link dirs =
     \<lparr>canon = (\<lambda>p. if p \<in> dirs then Some p else None), link_exists = (\<lambda>p. p \<in> dirs \<or> p = link),
      path_exists = (\<lambda>p. p \<in> dirs)\<rparr>"

text \<open>
  The check of the components skips \<open>..\<close> without leaving the directory before it, and the
  check of the whole path takes a dangling link for a file that does not exist yet. So a
  dangling link is refused by its own name but accepted as \<open>x/../link\<close>: a copy to it follows the
  link and creates a file outside.
\<close>

theorem dangling_link_accepted:
  assumes "plain_piece x" and "plain_piece l" and "root \<noteq> []" and "canon fs root = Some cr"
    and "path_exists fs root"
    and "link_exists fs (root @ [Normal l])" and "\<not> path_exists fs (root @ [Normal l])"
    and "canon fs (root @ [Normal l]) = None"
    and "\<not> link_exists fs (root @ [Normal x])" and "\<not> link_exists fs (root @ [Normal x, Normal l])"
  shows "resolve_container_path fs root l = Inl Io_failed \<and>
    resolve_container_path fs root (x @ ''/../'' @ l) = Inr (root @ [Normal l])"
proof -
  have slash: "trim_start_by (\<lambda>c. c = CHR ''/'') (n @ t) = n @ t" if "plain_piece n" for n t
    using that by (cases n) (auto simp: trim_start_by_def plain_piece_def)
  have l: "components (trim_start_by (\<lambda>c. c = CHR ''/'') l) = [Normal l]"
    using slash [OF assms(2), of "[]"] assms(2) by simp
  have "path_pieces (x @ ''/../'' @ l) = [x, ''..'', l]"
  proof -
    have "path_pieces ''..'' = [''..'']" by (simp add: path_pieces_def)
    then show ?thesis
      using path_pieces_append_sep [of x "''../'' @ l"] path_pieces_append_sep [of "''..''" l]
        path_pieces_plain [OF assms(1)] path_pieces_plain [OF assms(2)] by simp
  qed
  moreover have "\<not> starts_with (x @ ''/../'' @ l) ''/''" "\<not> starts_with (x @ ''/../'' @ l) ''./''"
    "x @ ''/../'' @ l \<noteq> ''.''"
    using assms(1) by (cases x; cases "tl x"; auto simp: starts_with_def plain_piece_def)+
  ultimately have x: "components (x @ ''/../'' @ l) = [Normal x, ParentDir, Normal l]"
    using assms(1,2) by (simp add: components_def component_of_def plain_piece_def)
  have par: "path_parent (root @ [Normal l]) = Some root" "path_parent (root @ [Normal x]) = Some root"
    by (simp_all add: path_parent_def)
  have "resolve_container_path fs root l = Inl Io_failed"
    using assms(4-) by (simp add: resolve_container_path_def l Let_def canon_inside_def)
  moreover have "resolve_container_path fs root p = Inr (root @ [Normal l])"
    if "components (trim_start_by (\<lambda>c. c = CHR ''/'') p) = [Normal x, ParentDir, Normal l]" for p
    using assms(4-) par
    by (simp add: resolve_container_path_def that Let_def canon_inside_def path_pop_def
        check_ancestor.simps)
  ultimately show ?thesis
    using x slash [OF assms(1), of "''/../'' @ l"] by (simp only: simp_thms)
qed

theorem dangling_link_accepted_witness:
  "resolve_container_path (sample_fs [RootDir, Normal ''evil''] {[RootDir]}) [RootDir] ''x/../evil'' =
     Inr [RootDir, Normal ''evil'']"
  using dangling_link_accepted [of "''x''" "''evil''" "[RootDir]"
      "sample_fs [RootDir, Normal ''evil''] {[RootDir]}" "[RootDir]"]
  by (simp add: sample_fs_def plain_piece_def)

theorem resolved_path_inside_witness:
  "let fs = sample_fs [] {[RootDir], [RootDir, Normal ''a'']} in
   \<exists>ns cr. [RootDir, Normal ''a'', Normal ''b''] = [RootDir] @ map Normal ns \<and> canon fs [RootDir] = Some cr \<and>
     (\<forall>j\<le>length ns. 0 < j \<and> link_exists fs ([RootDir] @ map Normal (take j ns)) \<longrightarrow>
        (\<exists>c. canon fs ([RootDir] @ map Normal (take j ns)) = Some c \<and> path_below c cr))"
proof -
  let ?fs = "sample_fs [] {[RootDir], [RootDir, Normal ''a'']}"
  have c: "components (trim_start_by (\<lambda>c. c = CHR ''/'') ''/a/b'') = [Normal ''a'', Normal ''b'']" by code_simp
  have "path_below [RootDir, Normal ''a''] [RootDir]" by code_simp
  then have a: "resolve_container_path ?fs [RootDir] ''/a/b'' = Inr [RootDir, Normal ''a'', Normal ''b'']"
    by (simp add: resolve_container_path_def c sample_fs_def Let_def check_ancestor.simps path_parent_def
        canon_inside_def)
  have b: "path_exists ?fs [RootDir]" by (simp add: sample_fs_def)
  have d: "ParentDir \<notin> set [Normal ''a'', Normal ''b'']" by simp
  show ?thesis
    using resolved_path_inside [OF a b] d unfolding Let_def c by (elim exE conjE) (intro exI conjI; blast)
qed

end
