(* ===== verification/Image_Unpack.thy ===== *)
theory Image_Unpack
  imports Container_Copy
begin

text \<open>
  Unpacking layers and archives (\<open>src/oci/image.rs\<close>): the checks on the path of each entry, the
  directories made and modes set for it, the whiteouts of a layer and the symbolic links of an
  archive. Reading the tar stream and \<open>Entry::unpack_in\<close> are the \<open>tar\<close> crate's; an entry comes
  with what the file system answers while it is processed. An effect names the path the call is
  given: \<open>create_dir_all\<close>, \<open>set_permissions\<close> and \<open>read_dir\<close> follow links below it.

  Shown: whatever the entries are, the paths a layer names to the system are lexically below the
  target (or the parent of the target, made accessible by an entry for the target itself); that
  is not where the calls land: the mode of an entry that is a link is set on what the link leads
  to, outside too. An archive only gets links that stay below it; and a bare whiteout removes
  the directory it lies in, the whole root file system when it lies at the top.
\<close>

datatype entry_kind = Plain | Link path

text \<open>
  \<open>e_view\<close> is the file system when the entry is met, \<open>e_after\<close> after \<open>unpack_in\<close>; \<open>e_mkdir\<close> says
  whether the parent could be made, \<open>e_parent_mode\<close> is its mode then, \<open>e_mode\<close> the header's.
\<close>

record tar_entry =
  e_path :: path
  e_kind :: entry_kind
  e_is_dir :: bool
  e_mode :: "u32 option"
  e_view :: fs_view
  e_mkdir :: bool
  e_parent_mode :: "u32 option"
  e_after :: fs_view

datatype unpack_effect =
  Make_dirs path | Set_mode path u32 | Clear_dir path | Unpack path | Remove_path path

fun effect_path :: "unpack_effect \<Rightarrow> path" where
  "effect_path (Make_dirs p) = p"
| "effect_path (Set_mode p m) = p"
| "effect_path (Clear_dir p) = p"
| "effect_path (Unpack p) = p"
| "effect_path (Remove_path p) = p"

definition escapes :: "path \<Rightarrow> bool" where
  "escapes p \<longleftrightarrow> list_ex (\<lambda>c. c = ParentDir \<or> c = RootDir) p"

text \<open>The owner may not read, write and search: \<open>mode & 0o700 != 0o700\<close>, mended by \<open>| 0o755\<close>.\<close>

definition owner_shut :: "u32 \<Rightarrow> bool" where
  "owner_shut m \<longleftrightarrow> m AND 448 \<noteq> 448"

definition opened_mode :: "u32 \<Rightarrow> u32" where
  "opened_mode m = m OR 493"

section \<open>Layers\<close>

text \<open>A canonical form outside the target is an error, a failing \<open>canonicalize\<close> too.\<close>

definition existing_inside :: "fs_view \<Rightarrow> path \<Rightarrow> path \<Rightarrow> unit res" where
  "existing_inside fs canon_target p =
     (if path_exists fs p then canon_inside fs ''whiteout'' canon_target p else Inr ())"

text \<open>An ordinary entry: its parent is made and opened, the entry unpacked, its mode restored.\<close>

definition unpack_entry :: "path \<Rightarrow> tar_entry \<Rightarrow> path list res \<times> unpack_effect list" where
  "unpack_entry dest e =
     (let made = (case path_parent dest of None \<Rightarrow> [] | Some q \<Rightarrow> [Make_dirs q]);
          opened = (case (path_parent dest, e_parent_mode e) of
             (Some q, Some m) \<Rightarrow> if owner_shut m then [Set_mode q (opened_mode m)] else []
           | _ \<Rightarrow> []);
          restored = (if path_exists (e_after e) dest then
             (case e_mode e of
                None \<Rightarrow> []
              | Some m \<Rightarrow> [Set_mode dest (if e_is_dir e \<and> owner_shut m then opened_mode m else m)])
             else [])
      in if path_parent dest \<noteq> None \<and> \<not> e_mkdir e then (Inl Io_failed, made)
         else (Inr [], made @ opened @ [Unpack dest] @ restored))"

text \<open>
  One entry of a layer: the whiteouts to apply at the end, or the error that stops the layer,
  and what was done.
\<close>

definition layer_entry ::
  "path \<Rightarrow> path \<Rightarrow> tar_entry \<Rightarrow> path list res \<times> unpack_effect list" where
  "layer_entry target canon_target e =
     (let p = e_path e; fs = e_view e; name = unwrap_or (file_name p) [] in
      if escapes p then (Inl (Path_traversal name), [])
      else if name = ''.wh..wh..opq'' then
        (case path_parent p of
           None \<Rightarrow> (Inr [], [])
         | Some parent \<Rightarrow>
             let dest_parent = path_join target parent in
             case existing_inside fs canon_target dest_parent of
               Inl err \<Rightarrow> (Inl err, [])
             | Inr _ \<Rightarrow> (Inr [], if path_exists fs dest_parent then [Clear_dir dest_parent] else []))
      else case strip_prefix ''.wh.'' name of
        Some wh \<Rightarrow>
          if contains_char wh CHR ''/'' \<or> contains_char wh (char_of (92 :: nat)) \<or> contains_str wh ''..''
          then (Inl (Invalid_name wh), [])
          else (case path_parent p of
                  None \<Rightarrow> (Inr [], [])
                | Some parent \<Rightarrow>
                    let dest_parent = path_join target parent in
                    (case existing_inside fs canon_target dest_parent of
                       Inl err \<Rightarrow> (Inl err, [])
                     | Inr _ \<Rightarrow> (Inr [path_join dest_parent (components wh)], [])))
      | None \<Rightarrow> unpack_entry (path_join target p) e)"

text \<open>An entry that cannot be read is \<open>None\<close>.\<close>

fun layer_entries ::
  "path \<Rightarrow> path \<Rightarrow> tar_entry option list \<Rightarrow> path list res \<times> unpack_effect list" where
  "layer_entries target canon_target [] = (Inr [], [])"
| "layer_entries target canon_target (None # es) = (Inl Io_failed, [])"
| "layer_entries target canon_target (Some e # es) =
     (case layer_entry target canon_target e of
        (Inl err, fx) \<Rightarrow> (Inl err, fx)
      | (Inr ws, fx) \<Rightarrow>
          (case layer_entries target canon_target es of
             (Inl err, fx') \<Rightarrow> (Inl err, fx @ fx')
           | (Inr ws', fx') \<Rightarrow> (Inr (ws @ ws'), fx @ fx')))"

definition apply_whiteout :: "fs_view \<Rightarrow> path \<Rightarrow> path \<Rightarrow> unpack_effect list" where
  "apply_whiteout fs canon_target wh =
     (if path_exists fs wh \<or> link_exists fs wh then
        (case canon fs wh of
           Some c \<Rightarrow> if path_below c canon_target then [Remove_path wh] else []
         | None \<Rightarrow> [Remove_path wh])
      else [])"

text \<open>
  \<open>before\<close> and \<open>after\<close>: the file system once the target is made and after the entries. A layer
  file that cannot be opened ends like a target that cannot be made.
\<close>

definition unpack_layer ::
  "fs_view \<Rightarrow> fs_view \<Rightarrow> path \<Rightarrow> tar_entry option list \<Rightarrow> unit res \<times> unpack_effect list" where
  "unpack_layer before after target es =
     (case canon before target of
        None \<Rightarrow> (Inl Io_failed, [Make_dirs target])
      | Some canon_target \<Rightarrow>
          (case layer_entries target canon_target es of
             (Inl err, fx) \<Rightarrow> (Inl err, Make_dirs target # fx)
           | (Inr ws, fx) \<Rightarrow> (Inr (), Make_dirs target # fx @ concat (map (apply_whiteout after canon_target) ws))))"

section \<open>Archives\<close>

text \<open>The target of a link, followed from the directory of the entry.\<close>

fun follow_link :: "path \<Rightarrow> path \<Rightarrow> path \<Rightarrow> path option" where
  "follow_link canon_target at [] = Some at"
| "follow_link canon_target at (Normal c # cs) = follow_link canon_target (at @ [Normal c]) cs"
| "follow_link canon_target at (ParentDir # cs) =
     (case path_pop at of (up, popped) \<Rightarrow>
        if \<not> popped \<or> \<not> path_below up canon_target then None else follow_link canon_target up cs)"
| "follow_link canon_target at (_ # cs) = follow_link canon_target at cs"

definition link_ok :: "path \<Rightarrow> path \<Rightarrow> entry_kind \<Rightarrow> bool" where
  "link_ok canon_target p k \<longleftrightarrow>
     (case k of
        Plain \<Rightarrow> True
      | Link to_path \<Rightarrow> \<not> is_absolute to_path \<and>
          follow_link canon_target
            (case path_parent p of Some parent \<Rightarrow> path_join canon_target parent | None \<Rightarrow> canon_target)
            to_path \<noteq> None)"

text \<open>\<open>unpack_in\<close> and what the file system answers after it are given with the entry.\<close>

definition archive_entry ::
  "path \<Rightarrow> path \<Rightarrow> tar_entry \<Rightarrow> bool \<Rightarrow> fs_view \<Rightarrow> unit res \<times> unpack_effect list" where
  "archive_entry target canon_target e unpacked after =
     (let p = e_path e; dest = path_join target p in
      if escapes p then (Inl (Path_traversal []), [])
      else if \<not> link_ok canon_target p (e_kind e) then (Inl (Path_traversal []), [])
      else case check_ancestor (e_view e) [] canon_target dest of
        Inl err \<Rightarrow> (Inl err, [])
      | Inr _ \<Rightarrow>
          if \<not> unpacked then (Inl Io_failed, [])
          else if path_exists after dest then
            (case canon after dest of
               None \<Rightarrow> (Inl Io_failed, [Unpack dest])
             | Some c \<Rightarrow>
                 if path_below c canon_target then (Inr (), [Unpack dest])
                 else (Inl (Path_traversal []), [Unpack dest, Remove_path dest]))
          else (Inr (), [Unpack dest]))"

fun archive_entries ::
  "path \<Rightarrow> path \<Rightarrow> (tar_entry \<times> bool \<times> fs_view) list \<Rightarrow> unit res \<times> unpack_effect list" where
  "archive_entries target canon_target [] = (Inr (), [])"
| "archive_entries target canon_target ((e, unpacked, after) # es) =
     (case archive_entry target canon_target e unpacked after of
        (Inl err, fx) \<Rightarrow> (Inl err, fx)
      | (Inr _, fx) \<Rightarrow>
          (case archive_entries target canon_target es of (r, fx') \<Rightarrow> (r, fx @ fx')))"

section \<open>Paths of entries\<close>

lemma normals: "\<not> escapes p \<Longrightarrow> \<exists>ns. filter (\<lambda>c. c \<noteq> CurDir) p = map Normal ns"
proof (induction p)
  case (Cons c p)
  then obtain ns where "filter (\<lambda>c. c \<noteq> CurDir) p = map Normal ns" by (auto simp: escapes_def)
  with Cons.prems show ?case
    by (cases c) (auto simp: escapes_def intro: exI [of _ ns] exI [of _ "_ # ns"])
qed simp

text \<open>Joining a path that does not escape adds ordinary names.\<close>

definition extends :: "path \<Rightarrow> path \<Rightarrow> bool" where
  "extends q root \<longleftrightarrow> (\<exists>ns. q = root @ map Normal ns)"

lemma extends_refl [simp]: "extends p p"
  by (simp add: extends_def)

lemma join_extends:
  assumes "extends q root" and "root \<noteq> []" and "\<not> escapes p"
  shows "extends (path_join q p) root"
proof -
  obtain ns where q: "q = root @ map Normal ns" using assms(1) by (auto simp: extends_def)
  obtain ms where ms: "filter (\<lambda>c. c \<noteq> CurDir) p = map Normal ms"
    using normals [OF assms(3)] by blast
  have "\<not> is_absolute p" using assms(3) by (cases p) (auto simp: escapes_def is_absolute_def)
  then have "path_join q p = root @ map Normal (ns @ ms)" using assms(2) by (simp add: path_join_def q ms)
  then show ?thesis unfolding extends_def by blast
qed

lemma escapes_parent: "\<not> escapes p \<Longrightarrow> path_parent p = Some q \<Longrightarrow> \<not> escapes q"
  by (auto simp: escapes_def list_ex_iff path_parent_def dest: in_set_butlastD split: if_splits)

lemma contains_str_self: "contains_str s s"
  by (cases s) auto

lemma whiteout_name: "CHR ''/'' \<notin> set wh \<Longrightarrow> \<not> contains_str wh ''..'' \<Longrightarrow> \<not> escapes (components wh)"
proof -
  assume s: "CHR ''/'' \<notin> set wh" and d: "\<not> contains_str wh ''..''"
  have "wh \<noteq> ''..''" using d contains_str_self by metis
  moreover have "\<not> starts_with wh ''/''" using s by (auto simp: starts_with_iff)
  ultimately show ?thesis
    by (auto simp: escapes_def list_ex_iff components_def path_pieces_def split_on_no_sep [OF s]
        component_of_def)
qed

text \<open>
  Where the calls of a layer may point: to the target or below it by ordinary names; and making
  and opening the parent of an entry for the target itself points to the parent of the target.
\<close>

definition points_below :: "path \<Rightarrow> unpack_effect \<Rightarrow> bool" where
  "points_below target x \<longleftrightarrow> extends (effect_path x) target \<or>
     path_parent target = Some (effect_path x) \<and>
       (x = Make_dirs (effect_path x) \<or> (\<exists>m. x = Set_mode (effect_path x) (opened_mode m)))"

lemma some_opened [simp]: "(\<forall>m. opened_mode k \<noteq> opened_mode m) \<longleftrightarrow> False"
  by blast

lemma parent_below:
  assumes "extends dest target" and "path_parent dest = Some q"
  shows "extends q target \<or> path_parent target = Some q"
proof -
  obtain ns where d: "dest = target @ map Normal ns" using assms(1) by (auto simp: extends_def)
  show ?thesis
  proof (cases ns rule: rev_cases)
    case (snoc ms m)
    then have "q = target @ map Normal ms" using assms(2) d
      by (auto simp: path_parent_def butlast_append split: if_splits)
    then show ?thesis by (auto simp: extends_def)
  qed (use assms(2) d in simp)
qed

lemma unpack_entry_inside:
  assumes "extends dest target" and "unpack_entry dest e = (r, fx)"
  shows "\<forall>x\<in>set fx. points_below target x" and "r = Inr ws \<Longrightarrow> ws = []"
  using assms parent_below [OF assms(1)]
  by (auto simp: unpack_entry_def Let_def points_below_def split: if_splits option.splits)

lemma layer_entry_inside:
  assumes "layer_entry target ct e = (r, fx)" and "target \<noteq> []"
  shows "\<forall>x\<in>set fx. points_below target x"
    and "r = Inr ws \<Longrightarrow> \<forall>w\<in>set ws. extends w target"
proof -
  have parent: "extends (path_join target q) target" if "\<not> escapes (e_path e)" "path_parent (e_path e) = Some q" for q
    using that assms(2) by (intro join_extends escapes_parent [OF that]) simp_all
  have own: "extends (path_join target (e_path e)) target" if "\<not> escapes (e_path e)"
    using that assms(2) by (intro join_extends) simp_all
  note plain = unpack_entry_inside [OF own, of e r fx]
  show "\<forall>x\<in>set fx. points_below target x"
    using assms parent plain(1) by (auto simp: layer_entry_def Let_def points_below_def
        split: if_splits option.splits sum.splits)
  show "r = Inr ws \<Longrightarrow> \<forall>w\<in>set ws. extends w target"
    using assms plain(2) by (auto simp: layer_entry_def Let_def contains_char_def whiteout_name join_extends parent
        split: if_splits option.splits sum.splits)
qed

lemma layer_entries_inside:
  assumes "target \<noteq> []"
  shows "layer_entries target ct es = (r, fx) \<Longrightarrow>
    (\<forall>x\<in>set fx. points_below target x) \<and> (\<forall>ws. r = Inr ws \<longrightarrow> (\<forall>w\<in>set ws. extends w target))"
proof (induction es arbitrary: r fx)
  case (Cons oe es)
  show ?case
  proof (cases oe)
    case (Some e)
    obtain r1 fx1 where e: "layer_entry target ct e = (r1, fx1)" by (rule prod.exhaust)
    obtain r2 fx2 where es: "layer_entries target ct es = (r2, fx2)" by (rule prod.exhaust)
    note i1 = layer_entry_inside(1) [OF e assms]
    show ?thesis
    proof (cases r1)
      case (Inl err)
      then show ?thesis using Cons.prems Some e i1 by auto
    next
      case (Inr ws)
      then show ?thesis
        using Cons.prems Some e es i1 layer_entry_inside(2) [OF e assms Inr] Cons.IH [OF es]
        by (cases r2) auto
    qed
  qed (use Cons.prems in auto)
qed simp

lemma whiteout_effects: "x \<in> set (apply_whiteout fs ct w) \<Longrightarrow> effect_path x = w"
  by (auto simp: apply_whiteout_def split: if_splits option.splits)

lemma follow_link_below:
  "follow_link ct at cs = Some q \<Longrightarrow> path_below at ct \<Longrightarrow> RootDir \<notin> set cs \<Longrightarrow>
     path_below q ct \<and> q = lead at cs"
  by (induction ct at cs rule: follow_link.induct)
    (auto simp: path_below_snoc split: prod.splits if_splits)

lemma RootDir_only_first: "RootDir \<in> set (components s) \<Longrightarrow> is_absolute (components s)"
  by (auto simp: components_def component_of_def is_absolute_def split: if_splits)

section \<open>Properties\<close>

text \<open>
  C18. Whatever entries a layer has and whatever the file system answers, every path unpacking it
  names to the system, to make directories, set modes, clear, write or remove, is the target
  directory or lies lexically below it by ordinary names, even when it fails half-way; the one
  exception is the parent of the target, which an entry for the target itself makes and opens to
  its owner. It is a statement on the paths named: links below the target are followed by these
  calls (see the next lemma), and what \<open>unpack_in\<close> does at its path is the \<open>tar\<close> crate's.
\<close>

theorem layer_stays_inside:
  assumes "target \<noteq> []" and "unpack_layer before after target es = (r, fx)"
  shows "\<forall>x\<in>set fx. (\<exists>ns. effect_path x = target @ map Normal ns) \<or>
    path_parent target = Some (effect_path x) \<and>
      (x = Make_dirs (effect_path x) \<or> (\<exists>m. x = Set_mode (effect_path x) (m OR 493)))"
proof -
  have t: "points_below target (Make_dirs target)" by (simp add: points_below_def)
  have "\<forall>x\<in>set fx. points_below target x"
  proof (cases "canon before target")
    case (Some ct)
    obtain r1 fx1 where l: "layer_entries target ct es = (r1, fx1)" by (rule prod.exhaust)
    note below = layer_entries_inside [OF assms(1) l]
    have "points_below target x" if "x \<in> set (apply_whiteout after ct w)" "extends w target" for x w
      using whiteout_effects [OF that(1)] that(2) by (simp add: points_below_def)
    then show ?thesis
      using assms(2) Some l t below by (cases r1) (auto simp: unpack_layer_def)
  qed (use assms(2) t in \<open>auto simp: unpack_layer_def\<close>)
  then show ?thesis by (simp add: points_below_def extends_def opened_mode_def)
qed

definition link_entry :: "str \<Rightarrow> path \<Rightarrow> u32 \<Rightarrow> fs_view \<Rightarrow> fs_view \<Rightarrow> tar_entry" where
  "link_entry n to_path m before after =
     \<lparr>e_path = [Normal n], e_kind = Link to_path, e_is_dir = False, e_mode = Some m, e_view = before,
      e_mkdir = True, e_parent_mode = Some 448, e_after = after\<rparr>"

text \<open>
  A layer may bring a link to any existing path, outside the target too: it is unpacked, and then
  the mode in its header is set through it, on the file of the host it leads to.
\<close>

lemma link_mode_set_outside:
  assumes "\<not> starts_with n ''.wh.''" and "target \<noteq> []" and "last target \<noteq> RootDir"
    and "path_exists host (target @ [Normal n])"
  shows "layer_entry target ct (link_entry n victim m before host) =
    (Inr [], [Make_dirs target, Unpack (target @ [Normal n]), Set_mode (target @ [Normal n]) m])"
proof -
  have j: "path_join target [Normal n] = target @ [Normal n]"
    using assms(2) by (simp add: path_join_def is_absolute_def)
  have "n \<noteq> ''.wh..wh..opq''" "strip_prefix ''.wh.'' n = None"
    using assms(1) by (auto simp: strip_prefix_def starts_with_def)
  then show ?thesis
    using assms(2-4) by (simp add: layer_entry_def link_entry_def escapes_def file_name_def j unpack_entry_def
        path_parent_def owner_shut_def Let_def)
qed

definition wiping_entry :: "path \<Rightarrow> fs_view \<Rightarrow> tar_entry" where
  "wiping_entry dir fs =
     \<lparr>e_path = dir @ [Normal ''.wh.''], e_kind = Plain, e_is_dir = False, e_mode = None, e_view = fs,
      e_mkdir = True, e_parent_mode = None, e_after = fs\<rparr>"

text \<open>
  A whiteout without a name, \<open>.wh.\<close>, passes the checks and removes the whole directory it
  lies in: at the top of a layer, everything the layers before it unpacked.
\<close>

theorem bare_whiteout_removes_directory:
  assumes "target \<noteq> []" and "canon before target = Some ct" and "dir = map Normal ns"
    and "path_exists fs (target @ dir)" and "canon fs (target @ dir) = Some c" and "path_below c ct"
    and "path_exists after (target @ dir)" and "canon after (target @ dir) = Some c"
  shows "unpack_layer before after target [Some (wiping_entry dir fs)] =
    (Inr (), [Make_dirs target, Remove_path (target @ dir)])"
proof -
  have n: "strip_prefix ''.wh.'' ''.wh.'' = Some []" "components [] = []"
    by (simp_all add: strip_prefix_def components_def path_pieces_def starts_with_def)
  have j: "path_join target dir = target @ dir"
    using assms(1,3) by (cases ns) (auto simp: path_join_def is_absolute_def filter_map comp_def)
  have "\<not> escapes (dir @ [Normal ''.wh.''])" using assms(3) by (auto simp: escapes_def list_ex_iff)
  then have "layer_entry target ct (wiping_entry dir fs) = (Inr [target @ dir], [])"
    using assms n j
    by (simp add: layer_entry_def wiping_entry_def Let_def file_name_def path_parent_def existing_inside_def
        canon_inside_def contains_char_def) (simp add: path_join_def is_absolute_def)
  then show ?thesis using assms by (simp add: unpack_layer_def apply_whiteout_def)
qed

theorem bare_whiteout_removes_directory_witness:
  "unpack_layer (sample_fs [] {[RootDir, Normal ''r'']}) (sample_fs [] {[RootDir, Normal ''r'']}) [RootDir, Normal ''r'']
     [Some (wiping_entry [] (sample_fs [] {[RootDir, Normal ''r'']}))] =
   (Inr (), [Make_dirs [RootDir, Normal ''r''], Remove_path [RootDir, Normal ''r'']])"
  using bare_whiteout_removes_directory [of "[RootDir, Normal ''r'']" "sample_fs [] {[RootDir, Normal ''r'']}"
      "[RootDir, Normal ''r'']" "[]" "[]" "sample_fs [] {[RootDir, Normal ''r'']}" "[RootDir, Normal ''r'']"
      "sample_fs [] {[RootDir, Normal ''r'']}"]
  by (simp add: sample_fs_def)

theorem layer_stays_inside_witness:
  "let x = Remove_path [RootDir, Normal ''r''] in
   (\<exists>ns. effect_path x = [RootDir, Normal ''r''] @ map Normal ns) \<or>
   path_parent [RootDir, Normal ''r''] = Some (effect_path x) \<and>
     (x = Make_dirs (effect_path x) \<or> (\<exists>m. x = Set_mode (effect_path x) (m OR 493)))"
proof -
  have "unpack_layer (sample_fs [] {[RootDir, Normal ''r'']}) (sample_fs [] {[RootDir, Normal ''r'']}) [RootDir, Normal ''r'']
      [Some (wiping_entry [] (sample_fs [] {[RootDir, Normal ''r'']}))] =
      (Inr (), [Make_dirs [RootDir, Normal ''r''], Remove_path [RootDir, Normal ''r'']])"
    by code_simp
  from layer_stays_inside [OF list.distinct(2) this]
  show ?thesis unfolding Let_def by (rule bspec) simp
qed

text \<open>
  A symbolic link that is taken from an archive leads, from the directory of its entry, to
  a place below the target without ever leaving it on the way; the entry itself lies below the
  target, and where it exists afterwards it resolves inside.
\<close>

theorem archive_links_stay_inside:
  assumes "archive_entry target ct e unpacked after = (Inr (), fx)" and "target \<noteq> []" and "ct \<noteq> []"
    and "e_kind e = Link (components t)" and "path_parent (e_path e) = Some d"
  shows "path_below (lead (path_join ct d) (components t)) ct \<and>
    (\<exists>ns. path_join target (e_path e) = target @ map Normal ns) \<and>
    (path_exists after (path_join target (e_path e)) \<longrightarrow>
      (\<exists>c. canon after (path_join target (e_path e)) = Some c \<and> path_below c ct))"
proof -
  have ok: "\<not> escapes (e_path e)" "link_ok ct (e_path e) (e_kind e)"
    and rest: "path_exists after (path_join target (e_path e)) \<longrightarrow>
      (\<exists>c. canon after (path_join target (e_path e)) = Some c \<and> path_below c ct)"
    using assms(1) by (auto simp: archive_entry_def Let_def split: if_splits sum.splits option.splits)
  obtain q where q: "follow_link ct (path_join ct d) (components t) = Some q" and "RootDir \<notin> set (components t)"
    using ok(2) assms(4,5) RootDir_only_first by (auto simp: link_ok_def)
  moreover have "extends (path_join ct d) ct"
    using ok(1) assms(3,5) by (intro join_extends escapes_parent [OF ok(1) assms(5)]) simp_all
  then have "path_below (path_join ct d) ct" by (auto simp: extends_def)
  ultimately have "path_below (lead (path_join ct d) (components t)) ct"
    using follow_link_below [OF q] by auto
  moreover have "extends (path_join target (e_path e)) target"
    using ok(1) assms(2) by (intro join_extends) simp_all
  ultimately show ?thesis using rest by (simp add: extends_def)
qed

theorem archive_links_stay_inside_witness:
  "path_below (lead (path_join [RootDir, Normal ''r''] [Normal ''a'']) (components ''../b'')) [RootDir, Normal ''r'']"
proof -
  let ?t = "[RootDir, Normal ''r'']"
  let ?fs = "sample_fs [] {?t}"
  have "archive_entry ?t ?t \<lparr>e_path = [Normal ''a'', Normal ''l''], e_kind = Link (components ''../b''), e_is_dir = False,
        e_mode = None, e_view = ?fs, e_mkdir = True, e_parent_mode = None, e_after = ?fs\<rparr>
      True ?fs = (Inr (), [Unpack [RootDir, Normal ''r'', Normal ''a'', Normal ''l'']])"
    by code_simp
  then show ?thesis
    using archive_links_stay_inside [where target = ?t and ct = ?t and t = "''../b''" and d = "[Normal ''a'']"]
    by (simp add: path_parent_def)
qed

end
