(* ===== verification/Security.thy ===== *)
theory Security
  imports Prelude
begin

text \<open>
  What \<open>src/security/mod.rs\<close> computes: subordinate id ranges from \<open>/etc/subuid\<close> and
  \<open>/etc/subgid\<close>, the commands and files that set up a user namespace, the default capability
  profile and the default system-call filter. Which helpers are installed and how they end are
  arguments; installing the filter in the kernel is not modelled.
\<close>

section \<open>User namespaces\<close>

record id_mapping =
  im_container_id :: u32
  im_host_id :: u32
  im_size :: u32

record rootless_config =
  rc_enabled :: bool
  rc_uid_mappings :: "id_mapping list"
  rc_gid_mappings :: "id_mapping list"

record sub_range =
  sr_start :: u32
  sr_count :: u32

definition single_mapping :: "u32 \<Rightarrow> id_mapping" where
  "single_mapping host = \<lparr>im_container_id = 0, im_host_id = host, im_size = 1\<rparr>"

definition default_rootless :: "u32 \<Rightarrow> u32 \<Rightarrow> rootless_config" where
  "default_rootless uid gid =
     \<lparr>rc_enabled = (uid \<noteq> 0), rc_uid_mappings = [single_mapping uid], rc_gid_mappings = [single_mapping gid]\<rparr>"

definition subid_range :: "u32 \<Rightarrow> str option \<Rightarrow> str \<Rightarrow> sub_range option" where
  "subid_range user_id username line =
     (let l = trim line in
      if l = [] \<or> starts_with l ''#'' then None
      else case split_on CHR '':'' l of
        who # start # cnt # _ \<Rightarrow>
          if username = Some (trim who) \<or> trim who = show_nat (unat user_id)
          then (case (parse_unsigned 32 (trim start), parse_unsigned 32 (trim cnt)) of
                  (Some s, Some c) \<Rightarrow> Some \<lparr>sr_start = of_nat s, sr_count = of_nat c\<rparr>
                | _ \<Rightarrow> None)
          else None
      | _ \<Rightarrow> None)"

fun first_some :: "('a \<Rightarrow> 'b option) \<Rightarrow> 'a list \<Rightarrow> 'b option" where
  "first_some f [] = None"
| "first_some f (x # xs) = (case f x of Some y \<Rightarrow> Some y | None \<Rightarrow> first_some f xs)"

definition parse_subid_content :: "str \<Rightarrow> u32 \<Rightarrow> str option \<Rightarrow> sub_range option" where
  "parse_subid_content content user_id username =
     first_some (subid_range user_id username) (lines content)"

text \<open>
  \<open>read_subordinate_range\<close> looks \<open>/etc/subgid\<close> up with the group id, under the name in \<open>USER\<close>.
\<close>

definition read_subordinate_range ::
  "(str \<Rightarrow> str option) \<Rightarrow> u32 \<Rightarrow> u32 \<Rightarrow> str option \<Rightarrow> bool \<Rightarrow> sub_range option" where
  "read_subordinate_range read uid gid user is_gid =
     (case read (if is_gid then ''/etc/subgid'' else ''/etc/subuid'') of
        Some content \<Rightarrow> parse_subid_content content (if is_gid then gid else uid) user
      | None \<Rightarrow> None)"

datatype map_effect = Run_helper str "str list" | Write_proc str str

record map_host =
  newidmaps :: bool
  helper_ok :: "str \<Rightarrow> bool"
  setgroups_exists :: bool
  uid_map_ok :: bool
  gid_map_ok :: bool

definition mapping_line :: "id_mapping \<Rightarrow> str" where
  "mapping_line m =
     show_nat (unat (im_container_id m)) @ '' '' @ show_nat (unat (im_host_id m)) @ '' '' @
     show_nat (unat (im_size m)) @ [newline]"

definition mapping_text :: "id_mapping list \<Rightarrow> str" where
  "mapping_text ms = concat (map mapping_line ms)"

definition write_proc_mappings ::
  "map_host \<Rightarrow> rootless_config \<Rightarrow> unit res \<times> map_effect list" where
  "write_proc_mappings h c =
     (let pre = (if setgroups_exists h then [Write_proc ''setgroups'' ''deny''] else []);
          u = Write_proc ''uid_map'' (mapping_text (rc_uid_mappings c));
          g = Write_proc ''gid_map'' (mapping_text (rc_gid_mappings c))
      in if \<not> uid_map_ok h then (Inl Io_failed, pre)
         else if \<not> gid_map_ok h then (Inl Io_failed, pre @ [u])
         else (Inr (), pre @ [u, g]))"

definition helper_args :: "int \<Rightarrow> u32 \<Rightarrow> sub_range \<Rightarrow> str list" where
  "helper_args pid host r =
     [show_int pid, ''0'', show_nat (unat host), ''1'', ''1'', show_nat (unat (sr_start r)),
      show_nat (unat (sr_count r))]"

definition setup_child_mappings ::
  "map_host \<Rightarrow> (str \<Rightarrow> str option) \<Rightarrow> u32 \<Rightarrow> u32 \<Rightarrow> str option \<Rightarrow> int \<Rightarrow> unit res \<times> map_effect list" where
  "setup_child_mappings h read uid gid user pid =
     (let fallback = write_proc_mappings h
            \<lparr>rc_enabled = True, rc_uid_mappings = [single_mapping uid], rc_gid_mappings = [single_mapping gid]\<rparr>
      in if \<not> newidmaps h then fallback
         else case (read_subordinate_range read uid gid user False, read_subordinate_range read uid gid user True) of
           (Some u, Some g) \<Rightarrow>
             (let es = [Run_helper ''newuidmap'' (helper_args pid uid u), Run_helper ''newgidmap'' (helper_args pid gid g)]
              in if helper_ok h ''newuidmap'' \<and> helper_ok h ''newgidmap'' then (Inr (), es)
                 else (case fallback of (r, es') \<Rightarrow> (r, es @ es')))
         | _ \<Rightarrow> fallback)"

section \<open>Capabilities\<close>

record capability_profile =
  cp_bounding :: "str list"
  cp_effective :: "str list"
  cp_permitted :: "str list"

definition default_capabilities :: "str list" where
  "default_capabilities =
     [''CAP_CHOWN'', ''CAP_DAC_OVERRIDE'', ''CAP_FOWNER'', ''CAP_FSETID'', ''CAP_KILL'', ''CAP_SETGID'',
      ''CAP_SETUID'', ''CAP_SETPCAP'', ''CAP_NET_BIND_SERVICE'', ''CAP_NET_RAW'', ''CAP_SYS_CHROOT'',
      ''CAP_MKNOD'', ''CAP_AUDIT_WRITE'', ''CAP_SETFCAP'']"

definition same_caps :: "str list \<Rightarrow> capability_profile" where
  "same_caps cs = \<lparr>cp_bounding = cs, cp_effective = cs, cp_permitted = cs\<rparr>"

definition default_profile :: capability_profile where
  "default_profile = same_caps default_capabilities"

section \<open>The system-call filter\<close>

record seccomp_syscall =
  sc_names :: "str list"
  sc_action :: str

record seccomp_rule =
  sc_default_action :: str
  sc_architectures :: "str list"
  sc_syscalls :: "seccomp_syscall list"

definition blocked_syscalls :: "str list" where
  "blocked_syscalls =
     [''acct'', ''add_key'', ''bpf'', ''clock_settime'', ''init_module'', ''finit_module'', ''delete_module'',
      ''kexec_load'', ''kexec_file_load'', ''keyctl'', ''lookup_dcookie'', ''perf_event_open'', ''pivot_root'',
      ''ptrace'', ''reboot'', ''request_key'', ''set_mempolicy'', ''settimeofday'', ''stime'', ''swapoff'',
      ''swapon'', ''sysfs'', ''sys_settimeofday'', ''umount2'', ''unshare'', ''userfaultfd'', ''vmsplice'']"

definition default_filter :: seccomp_rule where
  "default_filter =
     \<lparr>sc_default_action = ''SCMP_ACT_ALLOW'',
      sc_architectures = [''SCMP_ARCH_X86_64'', ''SCMP_ARCH_AARCH64''],
      sc_syscalls = [\<lparr>sc_names = blocked_syscalls, sc_action = ''SCMP_ACT_ERRNO''\<rparr>]\<rparr>"

section \<open>Properties\<close>

lemma first_some_append:
  "first_some f (xs @ ys) = (case first_some f xs of Some y \<Rightarrow> Some y | None \<Rightarrow> first_some f ys)"
  by (induction xs) (auto split: option.splits)

lemma first_some_SomeD:
  "first_some f xs = Some y \<Longrightarrow> \<exists>as x bs. xs = as @ x # bs \<and> f x = Some y \<and> (\<forall>a\<in>set as. f a = None)"
proof (induction xs)
  case (Cons x xs)
  show ?case
  proof (cases "f x")
    case None
    with Cons obtain as z bs where "xs = as @ z # bs" "f z = Some y" "\<forall>a\<in>set as. f a = None" by auto
    with None show ?thesis by (intro exI [of _ "x # as"] exI [of _ z] exI [of _ bs]) auto
  next
    case (Some w)
    with Cons.prems show ?thesis by (intro exI [of _ "[]"] exI [of _ x] exI [of _ xs]) auto
  qed
qed simp

definition subid_line :: "str \<Rightarrow> nat \<Rightarrow> nat \<Rightarrow> str" where
  "subid_line who s c = who @ '':'' @ show_nat s @ '':'' @ show_nat c"

lemma trim_show_nat [simp]: "trim (show_nat n) = show_nat n"
  by (rule trim_no_ws) (auto simp: char_class_defs dest!: show_nat_digits)

lemma subid_line_parses:
  assumes "who \<noteq> []" and "\<not> starts_with who ''#''" and "\<And>x. x \<in> set who \<Longrightarrow> x \<noteq> CHR '':'' \<and> \<not> is_whitespace x"
    and "s < 2 ^ 32" and "c < 2 ^ 32"
  shows "subid_range uid user (subid_line who s c) =
    (if user = Some who \<or> who = show_nat (unat uid) then Some \<lparr>sr_start = of_nat s, sr_count = of_nat c\<rparr> else None)"
proof -
  have t: "trim (subid_line who s c) = subid_line who s c"
    by (rule trim_no_ws) (use assms(3) in \<open>auto simp: subid_line_def char_class_defs dest!: show_nat_digits\<close>)
  have h: "\<not> starts_with (subid_line who s c) ''#''"
    using assms(1,2) by (cases who) (auto simp: subid_line_def starts_with_def)
  have "split_on CHR '':'' (subid_line who s c) = [who, show_nat s, show_nat c]"
  proof -
    have "CHR '':'' \<notin> set who" using assms(3) by blast
    moreover have "\<not> is_ascii_digit CHR '':''" by (simp add: is_ascii_digit_def ord_def)
    ultimately show ?thesis by (simp add: subid_line_def split_on_append split_on_no_sep)
  qed
  moreover have "trim who = who" using assms(3) by (intro trim_no_ws) auto
  ultimately show ?thesis using t h assms(1,4,5) by (auto simp: subid_range_def subid_line_def)
qed

text \<open>
  A child's user namespace maps its user 0 to the caller's id alone, unless both helpers are
  installed, both files name a range for the caller and both helpers succeed; then the ids
  from 1 are the range's.
\<close>

lemma mappings_fall_back:
  assumes "setup_child_mappings h read uid gid user pid = (Inr (), es)"
  shows "Write_proc ''uid_map'' (mapping_line (single_mapping uid)) \<in> set es \<or>
    (\<exists>u g. es = [Run_helper ''newuidmap'' (helper_args pid uid u), Run_helper ''newgidmap'' (helper_args pid gid g)] \<and>
       read_subordinate_range read uid gid user False = Some u \<and>
       read_subordinate_range read uid gid user True = Some g)"
  using assms
  by (auto simp: setup_child_mappings_def write_proc_mappings_def mapping_text_def Let_def
      split: if_splits option.splits)

end
