(* ===== verification/Runtime_Spec.thy ===== *)
theory Runtime_Spec
  imports Security Pod_Store Image_Store
begin

text \<open>
  The OCI runtime specification written to a bundle's \<open>config.json\<close> (\<open>src/oci/runtime.rs\<close>): its
  data, the default \<open>Spec::new_default\<close> builds from an image and the command line, and the two
  helpers of \<open>src/lib.rs\<close> that both \<open>run\<close> and \<open>create\<close> apply to it: capabilities and namespaces.
  Absent JSON fields are \<open>None\<close>; annotations are a map.
\<close>

section \<open>Data\<close>

record oci_user =
  u_uid :: u32
  u_gid :: u32
  u_additional_gids :: "u32 list option"
  u_username :: "str option"

record linux_capabilities =
  ca_bounding :: "str list option"
  ca_effective :: "str list option"
  ca_inheritable :: "str list option"
  ca_permitted :: "str list option"
  ca_ambient :: "str list option"

record process =
  pr_terminal :: bool
  pr_user :: oci_user
  pr_args :: "str list"
  pr_env :: "str list"
  pr_cwd :: str
  pr_no_new_privileges :: "bool option"
  pr_capabilities :: "linux_capabilities option"
  pr_oom_score_adj :: "int option"
  pr_umask :: "u32 option"

record oci_root =
  ro_path :: str
  ro_readonly :: bool

record oci_mount =
  mo_destination :: str
  mo_type :: str
  mo_source :: str
  mo_options :: "str list option"

record linux_namespace =
  ns_type :: str
  ns_path :: "str option"

record linux_cpu =
  cpu_shares_of :: "nat option"
  cpu_quota_of :: "int option"
  cpu_period_of :: "nat option"
  cpu_cpus :: "str option"
  cpu_mems :: "str option"

record linux_memory =
  mem_limit :: "int option"
  mem_reservation :: "int option"
  mem_swap :: "int option"
  mem_swappiness :: "nat option"
  mem_disable_oom_killer :: "bool option"

record linux_device =
  dev_type :: str
  dev_path :: str
  dev_major :: "int option"
  dev_minor :: "int option"
  dev_file_mode :: "u32 option"
  dev_uid :: "u32 option"
  dev_gid :: "u32 option"

record linux_resources =
  lr_memory :: "linux_memory option"
  lr_cpu :: "linux_cpu option"
  lr_pids :: "int option"
  lr_devices :: "linux_device list"
  lr_oom_score_adj :: "int option"

record linux_spec =
  li_namespaces :: "linux_namespace list"
  li_resources :: "linux_resources option"
  li_cgroup_parent :: "str option"
  li_seccomp :: "seccomp_rule option"
  li_devices :: "linux_device list"

record windows_spec =
  wi_cpu_count :: "64 word option"
  wi_cpu_percent :: "u16 option"
  wi_storage_bps :: "64 word option"
  wi_storage_iops :: "nat option"

type_synonym annotations = "str \<rightharpoonup> str"

record oci_spec =
  sp_version :: str
  sp_process :: process
  sp_root :: oci_root
  sp_hostname :: "str option"
  sp_domainname :: "str option"
  sp_mounts :: "oci_mount list"
  sp_annotations :: "annotations option"
  sp_linux :: "linux_spec option"
  sp_windows :: "windows_spec option"

section \<open>The default specification\<close>

definition default_args :: "exec_config option \<Rightarrow> str list option \<Rightarrow> str list" where
  "default_args img cmd =
     (let given = unwrap_or cmd [];
          from_image = (case img of
              None \<Rightarrow> [] | Some c \<Rightarrow> unwrap_or (x_entrypoint c) [] @ unwrap_or (x_cmd c) []);
          chosen = (if given = [] then from_image else given)
      in if chosen = [] then [''/bin/sh''] else chosen)"

definition env_key :: "str \<Rightarrow> str" where
  "env_key e = hd (split_on CHR ''='' e)"

definition set_env :: "str list \<Rightarrow> str \<Rightarrow> str list" where
  "set_env env e = filter (\<lambda>x. env_key x \<noteq> env_key e) env @ [e]"

definition base_env :: "str list" where
  "base_env = [''PATH=/usr/local/sbin:/usr/local/bin:/usr/sbin:/usr/bin:/sbin:/bin'', ''TERM=xterm'']"

definition default_env :: "exec_config option \<Rightarrow> str list option \<Rightarrow> str list" where
  "default_env img overrides =
     foldl set_env
       (foldl set_env base_env (case img of None \<Rightarrow> [] | Some c \<Rightarrow> unwrap_or (x_env c) []))
       (unwrap_or overrides [])"

definition default_cwd :: "exec_config option \<Rightarrow> str" where
  "default_cwd img =
     (case Option.bind img x_working_dir of
        Some w \<Rightarrow> if w = [] then ''/'' else w | None \<Rightarrow> ''/'')"

definition mk_mount :: "str \<Rightarrow> str \<Rightarrow> str \<Rightarrow> str list option \<Rightarrow> oci_mount" where
  "mk_mount dest type src opts =
     \<lparr>mo_destination = dest, mo_type = type, mo_source = src, mo_options = opts\<rparr>"

definition default_mounts :: "oci_mount list" where
  "default_mounts =
     [mk_mount ''/proc'' ''proc'' ''proc'' None,
      mk_mount ''/dev'' ''tmpfs'' ''tmpfs'' (Some [''nosuid'', ''strictatime'', ''mode=755'', ''size=65536k'']),
      mk_mount ''/dev/pts'' ''devpts'' ''devpts''
        (Some [''nosuid'', ''noexec'', ''newinstance'', ''ptmxmode=0666'', ''mode=0620'']),
      mk_mount ''/dev/shm'' ''tmpfs'' ''shm''
        (Some [''nosuid'', ''noexec'', ''nodev'', ''mode=1777'', ''size=65536k'']),
      mk_mount ''/sys'' ''sysfs'' ''sysfs'' (Some [''nosuid'', ''noexec'', ''nodev'', ''ro''])]"

definition fresh_namespace :: "str \<Rightarrow> linux_namespace" where
  "fresh_namespace t = \<lparr>ns_type = t, ns_path = None\<rparr>"

definition default_linux :: linux_spec where
  "default_linux =
     \<lparr>li_namespaces = map fresh_namespace [''pid'', ''network'', ''ipc'', ''uts'', ''mount''],
      li_resources = Some \<lparr>lr_memory = None, lr_cpu = None, lr_pids = Some 1024, lr_devices = [],
                           lr_oom_score_adj = None\<rparr>,
      li_cgroup_parent = None, li_seccomp = None, li_devices = []\<rparr>"

definition new_default :: "exec_config option \<Rightarrow> str list option \<Rightarrow> str list option \<Rightarrow> oci_spec" where
  "new_default img cmd env =
     \<lparr>sp_version = ''1.0.2'',
      sp_process =
        \<lparr>pr_terminal = False,
         pr_user = \<lparr>u_uid = 0, u_gid = 0, u_additional_gids = None, u_username = None\<rparr>,
         pr_args = default_args img cmd, pr_env = default_env img env, pr_cwd = default_cwd img,
         pr_no_new_privileges = Some True, pr_capabilities = None, pr_oom_score_adj = None,
         pr_umask = None\<rparr>,
      sp_root = \<lparr>ro_path = ''rootfs'', ro_readonly = False\<rparr>,
      sp_hostname = Some ''boxr-container'', sp_domainname = None, sp_mounts = default_mounts,
      sp_annotations = None, sp_linux = Some default_linux, sp_windows = None\<rparr>"

section \<open>Capabilities\<close>

definition all_capabilities :: "str list" where
  "all_capabilities =
     [''CAP_CHOWN'', ''CAP_DAC_OVERRIDE'', ''CAP_DAC_READ_SEARCH'', ''CAP_FOWNER'', ''CAP_FSETID'', ''CAP_KILL'',
      ''CAP_SETGID'', ''CAP_SETUID'', ''CAP_SETPCAP'', ''CAP_LINUX_IMMUTABLE'', ''CAP_NET_BIND_SERVICE'',
      ''CAP_NET_BROADCAST'', ''CAP_NET_ADMIN'', ''CAP_NET_RAW'', ''CAP_IPC_LOCK'', ''CAP_IPC_OWNER'',
      ''CAP_SYS_MODULE'', ''CAP_SYS_RAWIO'', ''CAP_SYS_CHROOT'', ''CAP_SYS_PTRACE'', ''CAP_SYS_PACCT'',
      ''CAP_SYS_ADMIN'', ''CAP_SYS_BOOT'', ''CAP_SYS_NICE'', ''CAP_SYS_RESOURCE'', ''CAP_SYS_TIME'',
      ''CAP_SYS_TTY_CONFIG'', ''CAP_MKNOD'', ''CAP_LEASE'', ''CAP_AUDIT_WRITE'', ''CAP_AUDIT_CONTROL'',
      ''CAP_SETFCAP'', ''CAP_MAC_OVERRIDE'', ''CAP_MAC_ADMIN'', ''CAP_SYSLOG'', ''CAP_WAKE_ALARM'',
      ''CAP_BLOCK_SUSPEND'', ''CAP_AUDIT_READ'']"

definition norm_cap :: "str \<Rightarrow> str" where
  "norm_cap c = (if starts_with c ''CAP_'' then to_uppercase c else ''CAP_'' @ to_uppercase c)"

definition drop_cap :: "str list \<Rightarrow> str \<Rightarrow> str list" where
  "drop_cap cs d = filter (\<lambda>c. c \<noteq> norm_cap d) cs"

definition add_cap :: "str list \<Rightarrow> str \<Rightarrow> str list" where
  "add_cap cs a = (if norm_cap a \<in> set cs then cs else cs @ [norm_cap a])"

definition on_profile :: "(str list \<Rightarrow> str list) \<Rightarrow> capability_profile \<Rightarrow> capability_profile" where
  "on_profile f p =
     \<lparr>cp_bounding = f (cp_bounding p), cp_effective = f (cp_effective p), cp_permitted = f (cp_permitted p)\<rparr>"

definition adjust_capabilities :: "str list \<Rightarrow> str list \<Rightarrow> capability_profile \<Rightarrow> capability_profile" where
  "adjust_capabilities cap_add cap_drop p =
     (let dropped = (if \<exists>c\<in>set cap_drop. eq_ignore_ascii_case c ''all'' then on_profile (\<lambda>_. []) p
                     else foldl (\<lambda>p d. on_profile (\<lambda>cs. drop_cap cs d) p) p cap_drop)
      in foldl (\<lambda>p a. on_profile (\<lambda>cs. add_cap cs a) p) dropped cap_add)"

definition apply_capabilities_and_security ::
  "bool \<Rightarrow> str list \<Rightarrow> str list \<Rightarrow> oci_spec \<Rightarrow> oci_spec" where
  "apply_capabilities_and_security privileged cap_add cap_drop spec =
     (let p = (if privileged then same_caps all_capabilities
               else adjust_capabilities cap_add cap_drop default_profile);
          spec = (if privileged
                  then spec\<lparr>sp_linux := map_option (\<lambda>l. l\<lparr>li_seccomp := None\<rparr>) (sp_linux spec)\<rparr> else spec)
      in spec\<lparr>sp_process := (sp_process spec)\<lparr>pr_capabilities :=
           Some \<lparr>ca_bounding = Some (cp_bounding p), ca_effective = Some (cp_effective p),
                 ca_inheritable = Some (cp_bounding p), ca_permitted = Some (cp_permitted p),
                 ca_ambient = Some (cp_effective p)\<rparr>\<rparr>\<rparr>)"

section \<open>Namespaces\<close>

definition without_ns :: "str \<Rightarrow> linux_spec \<Rightarrow> linux_spec" where
  "without_ns t l = l\<lparr>li_namespaces := filter (\<lambda>n. ns_type n \<noteq> t) (li_namespaces l)\<rparr>"

definition join_ns :: "str \<Rightarrow> str \<Rightarrow> linux_spec \<Rightarrow> linux_spec" where
  "join_ns t p l =
     (let l' = without_ns t l
      in l'\<lparr>li_namespaces := li_namespaces l' @ [\<lparr>ns_type = t, ns_path = Some p\<rparr>]\<rparr>)"

definition apply_namespace_to_linux ::
  "(str \<Rightarrow> str \<Rightarrow> str option res) \<Rightarrow> str \<Rightarrow> str option \<Rightarrow> linux_spec \<times> annotations \<Rightarrow> linux_spec \<times> annotations" where
  "apply_namespace_to_linux resolve t v la =
     (case la of (l, a) \<Rightarrow> (case v of
        None \<Rightarrow> (l, a)
      | Some val \<Rightarrow>
          (if val = ''host'' then without_ns t l
           else if val = ''private'' \<or> val = [] then l
           else case resolve val t of
             Inr (Some p) \<Rightarrow> if p = ''host'' then without_ns t l else join_ns t p l
           | _ \<Rightarrow> if starts_with val ''/'' then join_ns t val l else l,
           a(''boxr.'' @ t \<mapsto> val))))"

section \<open>Properties\<close>

lemma env_keys_set_env:
  "distinct (map env_key env) \<Longrightarrow> distinct (map env_key (set_env env e))"
  by (auto simp: set_env_def distinct_map_filter)

lemma env_keys_fold:
  "distinct (map env_key env) \<Longrightarrow> distinct (map env_key (foldl set_env env es))"
  by (induction es arbitrary: env) (simp_all add: env_keys_set_env)

lemma last_filter_set_env:
  "filter (\<lambda>e. env_key e = k) (set_env env x) =
     (if env_key x = k then [x] else filter (\<lambda>e. env_key e = k) env)"
  by (auto simp: set_env_def filter_empty_conv intro: filter_cong)

lemma fold_set_env_entry:
  "filter (\<lambda>e. env_key e = k) (foldl set_env env es) =
     (case filter (\<lambda>e. env_key e = k) es of [] \<Rightarrow> filter (\<lambda>e. env_key e = k) env | xs \<Rightarrow> [last xs])"
proof (induction es arbitrary: env)
  case (Cons e es)
  show ?case
    by (simp add: Cons.IH last_filter_set_env split: list.splits)
qed simp

lemma base_env_keys: "map env_key base_env = [''PATH'', ''TERM'']"
  by (simp add: base_env_def env_key_def)

text \<open>
  The environment of a container has one entry per key, and for each key it is the one given
  last: in the command's list, else in the image's, else the built-in one.
\<close>

theorem environment_last_wins:
  "distinct (map env_key (pr_env (sp_process (new_default img cmd env)))) \<and>
   (\<forall>k. filter (\<lambda>e. env_key e = k) (pr_env (sp_process (new_default img cmd env))) =
      (let given = filter (\<lambda>e. env_key e = k)
             (base_env @ (case img of None \<Rightarrow> [] | Some c \<Rightarrow> unwrap_or (x_env c) []) @ unwrap_or env [])
       in if given = [] then [] else [last given]))"
proof (intro conjI allI)
  have "distinct (map env_key base_env)" by (simp add: base_env_keys)
  then show "distinct (map env_key (pr_env (sp_process (new_default img cmd env))))"
    by (simp add: new_default_def default_env_def env_keys_fold)
next
  fix k
  have "filter (\<lambda>e. env_key e = k) base_env = [] \<or> (\<exists>e. filter (\<lambda>e. env_key e = k) base_env = [e])"
    by (auto simp: base_env_def env_key_def)
  then show "filter (\<lambda>e. env_key e = k) (pr_env (sp_process (new_default img cmd env))) =
      (let given = filter (\<lambda>e. env_key e = k)
             (base_env @ (case img of None \<Rightarrow> [] | Some c \<Rightarrow> unwrap_or (x_env c) []) @ unwrap_or env [])
       in if given = [] then [] else [last given])"
    by (auto simp: new_default_def default_env_def fold_set_env_entry Let_def split: list.splits)
qed

lemma fold_on_profile:
  "foldl (\<lambda>p d. on_profile (\<lambda>cs. f cs d) p) p ds =
     on_profile (\<lambda>cs. foldl f cs ds) p"
  by (induction ds arbitrary: p) (simp_all add: on_profile_def)

lemma same_caps_sel [simp]:
  "cp_bounding (same_caps cs) = cs" "cp_effective (same_caps cs) = cs" "cp_permitted (same_caps cs) = cs"
  by (simp_all add: same_caps_def)

lemma on_profile_same: "on_profile f (same_caps cs) = same_caps (f cs)"
  by (simp add: on_profile_def same_caps_def)

lemma adjust_same:
  "adjust_capabilities adds drops (same_caps cs) =
     same_caps (foldl add_cap (if \<exists>c\<in>set drops. eq_ignore_ascii_case c ''all'' then []
                               else foldl drop_cap cs drops) adds)"
  by (simp only: adjust_capabilities_def fold_on_profile Let_def on_profile_same if_distrib [of "\<lambda>p. on_profile _ p"]
      if_distrib [of same_caps, symmetric])

lemma set_fold_drop: "set (foldl drop_cap cs ds) = set cs - norm_cap ` set ds"
  by (induction ds arbitrary: cs) (auto simp: drop_cap_def)

lemma set_fold_add: "set (foldl add_cap cs as) = set cs \<union> norm_cap ` set as"
  by (induction as arbitrary: cs) (auto simp: add_cap_def)

lemma distinct_fold_add: "distinct cs \<Longrightarrow> distinct (foldl add_cap cs as)"
  by (induction as arbitrary: cs) (auto simp: add_cap_def)

text \<open>What a container is granted, as a set: the specification of \<open>--cap-add\<close> and \<open>--cap-drop\<close>.\<close>

definition granted :: "bool \<Rightarrow> str list \<Rightarrow> str list \<Rightarrow> str set" where
  "granted privileged adds drops =
     (if privileged then set all_capabilities
      else (if \<exists>c\<in>set drops. eq_ignore_ascii_case c ''all'' then {}
            else set default_capabilities - norm_cap ` set drops) \<union> norm_cap ` set adds)"

definition granted_list :: "bool \<Rightarrow> str list \<Rightarrow> str list \<Rightarrow> str list" where
  "granted_list privileged adds drops =
     (if privileged then all_capabilities
      else foldl add_cap (if \<exists>c\<in>set drops. eq_ignore_ascii_case c ''all'' then []
                          else foldl drop_cap default_capabilities drops) adds)"

lemma set_granted_list: "set (granted_list privileged adds drops) = granted privileged adds drops"
  by (simp add: granted_list_def granted_def set_fold_drop set_fold_add)

lemma applied_capabilities:
  "pr_capabilities (sp_process (apply_capabilities_and_security privileged adds drops spec)) =
     (let b = Some (granted_list privileged adds drops)
      in Some \<lparr>ca_bounding = b, ca_effective = b, ca_inheritable = b, ca_permitted = b, ca_ambient = b\<rparr>)"
  by (simp add: apply_capabilities_and_security_def default_profile_def adjust_same granted_list_def Let_def)

text \<open>
  C19. All five capability sets of the specification are the same: every capability when the
  container is privileged, and otherwise the default ones without the dropped and with the
  added ones, an addition winning over a drop.
\<close>

theorem capabilities_exact:
  "\<exists>ca b. pr_capabilities (sp_process (apply_capabilities_and_security privileged adds drops spec)) = Some ca \<and>
     ca_bounding ca = Some b \<and> ca_effective ca = Some b \<and> ca_permitted ca = Some b \<and>
     ca_inheritable ca = Some b \<and> ca_ambient ca = Some b \<and> set b = granted privileged adds drops"
  by (simp add: applied_capabilities set_granted_list Let_def)

text \<open>\<open>ALL\<close> is a keyword of \<open>--cap-drop\<close> only: added, it becomes a name the kernel does not know.\<close>

lemma cap_add_all_adds_nothing:
  "granted False [''ALL''] [''ALL''] = {''CAP_ALL''} \<and> ''CAP_ALL'' \<notin> set all_capabilities"
  by code_simp

text \<open>A lower-case name with its prefix is prefixed again.\<close>

lemma lower_case_prefix_doubled: "norm_cap ''cap_chown'' = ''CAP_CAP_CHOWN''"
  by code_simp

lemma join_ns_types:
  "ns \<in> set (li_namespaces (join_ns t p l)) \<Longrightarrow> ns_type ns = t \<Longrightarrow> ns_path ns = Some p"
  by (auto simp: join_ns_def without_ns_def Let_def)

lemma namespaces_other_kinds:
  "t' \<noteq> t \<Longrightarrow>
     filter (\<lambda>n. ns_type n = t') (li_namespaces (fst (apply_namespace_to_linux resolve t v (l, a)))) =
     filter (\<lambda>n. ns_type n = t') (li_namespaces l)"
  by (auto simp: apply_namespace_to_linux_def join_ns_def without_ns_def Let_def
      split: option.splits sum.splits intro: filter_cong)

lemma namespace_host:
  "filter (\<lambda>n. ns_type n = t) (li_namespaces (fst (apply_namespace_to_linux resolve t (Some ''host'') (l, a)))) = []"
  by (auto simp: apply_namespace_to_linux_def without_ns_def filter_empty_conv)

lemma namespace_private:
  "v \<in> {None, Some ''private'', Some []} \<Longrightarrow> fst (apply_namespace_to_linux resolve t v (l, a)) = l"
  by (auto simp: apply_namespace_to_linux_def)

end
