(* ===== verification/Network_Mode.thy ===== *)
theory Network_Mode
  imports Port_Mapping
begin

text \<open>
  The network modes of a container and the command line of the pasta helper
  (\<open>src/network/pasta.rs\<close>): \<open>NetworkMode\<close> with its parser, its printer and its predicates, and
  \<open>PastaConfig::build_args\<close>. Whether pasta is installed is an argument; starting it is not
  modelled.
\<close>

section \<open>Modes\<close>

datatype network_mode =
    Mode_auto | Mode_pasta | Mode_user_net | Mode_bridge | Mode_host | Mode_none | Mode_container str

definition container_prefix :: str where
  "container_prefix = ''container:''"

definition mode_table :: "(str \<times> network_mode) list" where
  "mode_table =
     [(''pasta'', Mode_pasta), (''usernet'', Mode_user_net), (''native'', Mode_user_net),
      (''slirp'', Mode_user_net), (''host'', Mode_host), (''none'', Mode_none), (''bridge'', Mode_bridge)]"

definition parse_network_mode :: "str \<Rightarrow> network_mode" where
  "parse_network_mode s =
     (let t = trim s; named = unwrap_or (map_of mode_table (to_lowercase t)) Mode_auto
      in case or_else (strip_prefix container_prefix t) (strip_prefix ''container://'' t) of
           Some target \<Rightarrow> if target \<noteq> [] then Mode_container target else named
         | None \<Rightarrow> named)"

fun container_target :: "network_mode \<Rightarrow> str option" where
  "container_target (Mode_container n) = Some n"
| "container_target _ = None"

definition should_use_pasta :: "bool \<Rightarrow> network_mode \<Rightarrow> bool" where
  "should_use_pasta available m = (case m of Mode_pasta \<Rightarrow> True | Mode_auto \<Rightarrow> available | _ \<Rightarrow> False)"

definition should_use_native_usernet :: "network_mode \<Rightarrow> bool" where
  "should_use_native_usernet m = (case m of Mode_user_net \<Rightarrow> True | _ \<Rightarrow> False)"

definition requires_new_netns :: "bool \<Rightarrow> network_mode \<Rightarrow> bool" where
  "requires_new_netns available m =
     (case m of Mode_pasta \<Rightarrow> True | Mode_user_net \<Rightarrow> True | Mode_none \<Rightarrow> True | Mode_auto \<Rightarrow> available
      | _ \<Rightarrow> False)"

fun show_network_mode :: "network_mode \<Rightarrow> str" where
  "show_network_mode Mode_auto = ''auto''"
| "show_network_mode Mode_pasta = ''pasta''"
| "show_network_mode Mode_user_net = ''usernet''"
| "show_network_mode Mode_bridge = ''bridge''"
| "show_network_mode Mode_host = ''host''"
| "show_network_mode Mode_none = ''none''"
| "show_network_mode (Mode_container n) = container_prefix @ n"

section \<open>The command line of pasta\<close>

record pasta_config =
  netns_pid :: "int option"
  netns_path :: "str option"
  pasta_ports :: "port_mapping list"
  ifname :: "str option"
  pasta_address :: "str option"
  pasta_gateway :: "str option"
  pasta_dns :: "str list"
  pasta_quiet :: bool

definition pasta_for_pid :: "int \<Rightarrow> port_mapping list \<Rightarrow> pasta_config" where
  "pasta_for_pid pid ports =
     \<lparr>netns_pid = Some pid, netns_path = None, pasta_ports = ports, ifname = Some ''eth0'',
      pasta_address = None, pasta_gateway = None, pasta_dns = [''1.1.1.1'', ''8.8.8.8''],
      pasta_quiet = True\<rparr>"

definition flag_value :: "str \<Rightarrow> str option \<Rightarrow> str list" where
  "flag_value flag v = (case v of None \<Rightarrow> [] | Some x \<Rightarrow> [flag, x])"

definition forward_spec :: "port_mapping \<Rightarrow> str" where
  "forward_spec p =
     (case host_ip p of
        Some a \<Rightarrow> a @ ''/'' @ show_nat (unat (host_port p)) @ '':'' @ show_nat (unat (container_port p))
      | None \<Rightarrow> show_nat (unat (host_port p)) @ '':'' @ show_nat (unat (container_port p)))"

definition forward_args :: "port_mapping \<Rightarrow> str list" where
  "forward_args p =
     [if eq_ignore_ascii_case (pm_protocol p) ''udp'' then ''-u'' else ''-t'', forward_spec p]"

definition pasta_args :: "pasta_config \<Rightarrow> str list" where
  "pasta_args c =
     [''--config-net''] @ (if pasta_quiet c then [''-q''] else []) @
     flag_value ''-I'' (ifname c) @ flag_value ''-a'' (pasta_address c) @ flag_value ''-g'' (pasta_gateway c) @
     concat (map (\<lambda>d. [''-D'', d]) (pasta_dns c)) @
     concat (map forward_args (pasta_ports c)) @
     (case netns_pid c of
        Some pid \<Rightarrow> [show_int pid]
      | None \<Rightarrow> (case netns_path c of Some p \<Rightarrow> [p] | None \<Rightarrow> []))"

section \<open>Properties\<close>

lemma trim_container:
  assumes "n \<noteq> []" and "trim n = n"
  shows "trim (container_prefix @ n) = container_prefix @ n"
proof -
  have l: "\<not> is_whitespace (last n)"
  proof
    assume w: "is_whitespace (last n)"
    have "length (trim (butlast n @ [last n])) < length n"
    proof -
      have d: "length (dropWhile p (rev (dropWhile q xs))) \<le> length xs" for p q and xs :: str
        by (metis length_dropWhile_le length_rev order_trans)
      have "length (trim (butlast n @ [last n])) \<le> length (butlast n)"
        using w d [of is_whitespace is_whitespace "butlast n"]
        unfolding trim_def trim_end_by_def trim_start_by_def
        by (cases "\<forall>c\<in>set (butlast n). is_whitespace c")
          (auto simp: dropWhile_append1 dropWhile_append2 simp del: length_butlast)
      then show ?thesis using assms(1) by (metis length_butlast diff_less length_greater_0_conv less_numeral_extra(1) order_le_less_trans)
    qed
    then show False using assms by simp
  qed
  have "dropWhile is_whitespace (rev (container_prefix @ n)) = rev (container_prefix @ n)"
    using l assms(1) by (cases n rule: rev_cases) auto
  moreover have "dropWhile is_whitespace (container_prefix @ n) = container_prefix @ n"
    by (simp add: container_prefix_def is_whitespace_def ord_def)
  ultimately show ?thesis unfolding trim_def trim_end_by_def trim_start_by_def by simp
qed

text \<open>
  Every mode but a container's printed form parses back to it, and so does a container mode
  whose name is not empty and has no white space at its ends.
\<close>

theorem network_mode_roundtrip:
  assumes "\<And>n. m = Mode_container n \<Longrightarrow> n \<noteq> [] \<and> trim n = n"
  shows "parse_network_mode (show_network_mode m) = m"
proof (cases m)
  case (Mode_container n)
  then show ?thesis using assms [of n] by (simp add: parse_network_mode_def trim_container Let_def)
qed (simp_all add: parse_network_mode_def container_prefix_def mode_table_def trim_def trim_end_by_def trim_start_by_def
    strip_prefix_def starts_with_def to_lowercase_def to_lower_char_def char_class_defs)

theorem network_mode_roundtrip_witness:
  "parse_network_mode (show_network_mode (Mode_container ''web'')) = Mode_container ''web''"
  by (rule network_mode_roundtrip) (simp add: trim_def trim_end_by_def trim_start_by_def char_class_defs)

lemma network_mode_forms:
  "parse_network_mode ''bridge'' = Mode_bridge" "parse_network_mode ''host'' = Mode_host"
  "parse_network_mode ''my-net'' = Mode_auto"
  by (simp_all add: parse_network_mode_def container_prefix_def mode_table_def trim_def trim_end_by_def
      trim_start_by_def strip_prefix_def starts_with_def to_lowercase_def to_lower_char_def char_class_defs)

text \<open>The second prefix is never reached: what it would match the first one strips.\<close>

lemma url_form_keeps_slashes:
  "parse_network_mode ''container://web'' = Mode_container ''//web''"
  by (simp add: parse_network_mode_def container_prefix_def trim_def trim_end_by_def trim_start_by_def
      strip_prefix_def starts_with_def char_class_defs)

lemma forward_args_concat:
  "length (concat (map forward_args ps)) = 2 * length ps"
  by (induction ps) (simp_all add: forward_args_def)

text \<open>Pasta is told of each published port once and in order, and of its target last.\<close>

lemma pasta_args_ports:
  "\<exists>pre. pasta_args (pasta_for_pid pid ports) = pre @ concat (map forward_args ports) @ [show_int pid]"
  by (simp add: pasta_args_def pasta_for_pid_def flag_value_def)

end
