(* ===== verification/Ip_Text.thy ===== *)
theory Ip_Text
  imports Ipv4_Text
begin

text \<open>
  Which texts \<open>str::parse\<close> accepts as a \<open>std::net::IpAddr\<close>, as \<open>--dns\<close> and \<open>--add-host\<close> check them:
  an IPv4 address, or an IPv6 address of eight groups, of which one run may be written \<open>::\<close>
  and the last two as an IPv4 address. Every reader returns what it leaves of its input.
\<close>

definition skip :: "char \<Rightarrow> str \<Rightarrow> str option" where
  "skip c s = (case s of x # xs \<Rightarrow> if x = c then Some xs else None | [] \<Rightarrow> None)"

definition read_octet :: "str \<Rightarrow> str option" where
  "read_octet s =
     (case parse_octet (takeWhile is_ascii_digit s) of
        Some _ \<Rightarrow> Some (dropWhile is_ascii_digit s) | None \<Rightarrow> None)"

definition after_sep :: "char \<Rightarrow> nat \<Rightarrow> (str \<Rightarrow> str option) \<Rightarrow> str \<Rightarrow> str option" where
  "after_sep c i reader s = (if i = 0 then reader s else Option.bind (skip c s) reader)"

definition read_ipv4 :: "str \<Rightarrow> str option" where
  "read_ipv4 s =
     Option.bind (after_sep CHR ''.'' 0 read_octet s) (\<lambda>s.
     Option.bind (after_sep CHR ''.'' 1 read_octet s) (\<lambda>s.
     Option.bind (after_sep CHR ''.'' 2 read_octet s) (after_sep CHR ''.'' 3 read_octet)))"

definition is_hex_digit :: "char \<Rightarrow> bool" where
  "is_hex_digit c \<longleftrightarrow> is_ascii_digit c \<or> (97 \<le> ord c \<and> ord c \<le> 102) \<or> (65 \<le> ord c \<and> ord c \<le> 70)"

definition read_group :: "str \<Rightarrow> str option" where
  "read_group s =
     (let n = length (takeWhile is_hex_digit s)
      in if n = 0 \<or> 4 < n then None else Some (dropWhile is_hex_digit s))"

text \<open>\<open>read_groups\<close>: at most \<open>k\<close> more groups; an IPv4 address takes the place of two.\<close>

fun read_groups :: "nat \<Rightarrow> nat \<Rightarrow> str \<Rightarrow> nat \<times> bool \<times> str" where
  "read_groups 0 i s = (i, False, s)"
| "read_groups (Suc k) i s =
     (case (if 0 < k then after_sep CHR '':'' i read_ipv4 s else None) of
        Some rest \<Rightarrow> (i + 2, True, rest)
      | None \<Rightarrow> (case after_sep CHR '':'' i read_group s of
          Some rest \<Rightarrow> read_groups k (i + 1) rest
        | None \<Rightarrow> (i, False, s)))"

definition read_ipv6 :: "str \<Rightarrow> str option" where
  "read_ipv6 s =
     (case read_groups 8 0 s of (n, v4, rest) \<Rightarrow>
        if n = 8 then Some rest
        else if v4 then None
        else map_option (\<lambda>r. snd (snd (read_groups (8 - (n + 1)) 0 r)))
               (Option.bind (skip CHR '':'' rest) (skip CHR '':'')))"

definition is_ip_addr :: "str \<Rightarrow> bool" where
  "is_ip_addr s \<longleftrightarrow> or_else (read_ipv4 s) (read_ipv6 s) = Some []"

lemma takeWhile_show_octet:
  "s = [] \<or> \<not> is_ascii_digit (hd s) \<Longrightarrow> takeWhile is_ascii_digit (show_octet b @ s) = show_octet b"
  by (cases s) (auto simp: show_octet_def takeWhile_append dest: show_nat_digits)

lemma dropWhile_show_octet:
  "s = [] \<or> \<not> is_ascii_digit (hd s) \<Longrightarrow> dropWhile is_ascii_digit (show_octet b @ s) = s"
  by (cases s) (auto simp: show_octet_def dropWhile_append dest: show_nat_digits)

lemma read_octet_show:
  "s = [] \<or> \<not> is_ascii_digit (hd s) \<Longrightarrow> read_octet (show_octet b @ s) = Some s"
  by (simp add: read_octet_def takeWhile_show_octet dropWhile_show_octet)

text \<open>Every printed IPv4 address is accepted.\<close>

lemma printed_ipv4_accepted: "is_ip_addr (show_ipv4 a)"
proof -
  have dot: "\<not> is_ascii_digit CHR ''.''" by (simp add: is_ascii_digit_def ord_def)
  have "read_octet (show_octet b) = Some []" for b using read_octet_show [of "[]" b] by simp
  then have "read_ipv4 (show_ipv4 a) = Some []"
    by (cases a) (simp add: read_ipv4_def after_sep_def skip_def read_octet_show dot)
  then show ?thesis by (simp add: is_ip_addr_def)
qed

lemma ipv6_samples:
  "is_ip_addr ''::1''" "is_ip_addr ''fe80::1:2''" "is_ip_addr ''::ffff:10.0.0.1''"
  "\<not> is_ip_addr ''1:2:3''" "\<not> is_ip_addr ''12345::''" "\<not> is_ip_addr ''host''"
  by code_simp+

end
