(* ===== verification/Run_Options.thy ===== *)
theory Run_Options
  imports Runtime_Spec Limits Network_Mode Ip_Text
begin

text \<open>
  The command-line options of \<open>run\<close> and \<open>create\<close> (\<open>RunArgs\<close>, \<open>src/cli/container.rs\<close>) and how
  \<open>run_container\<close> and \<open>create_only_container_impl\<close> (\<open>src/lib.rs\<close>) turn them into a runtime
  specification and the files of a bundle. The two functions repeat most of this code; what
  they share is defined once here, what each does alone has its own definition. Options that
  neither function reads are left out of the record.

  Arguments stand for the host: the environment of the caller, the files it names, whether
  pasta is installed, and the floating-point \<open>parse_cpus\<close>.
\<close>

section \<open>Options\<close>

record run_options =
  o_interactive :: bool
  o_tty :: bool
  o_detach :: bool
  o_rm :: bool
  o_name :: "str option"
  o_env :: "str list"
  o_ports :: "str list"
  o_volumes :: "str list"
  o_workdir :: "str option"
  o_memory :: "str option"
  o_labels :: "str list"
  o_dns :: "str list"
  o_cidfile :: "str option"
  o_env_file :: "str option"
  o_cpus :: "str option"
  o_pids_limit :: "int option"
  o_user :: "str option"
  o_hostname :: "str option"
  o_add_host :: "str list"
  o_restart :: str
  o_health_cmd :: "str option"
  o_platform :: "str option"
  o_network :: str
  o_privileged :: bool
  o_gpus :: "str option"
  o_entrypoint :: "str option"
  o_shm_size :: "str option"
  o_cap_add :: "str list"
  o_cap_drop :: "str list"
  o_read_only :: bool
  o_init :: bool
  o_tmpfs :: "str list"
  o_devices :: "str list"
  o_security_opt :: "str list"
  o_cpu_shares :: "nat option"
  o_cpuset_cpus :: "str option"
  o_memory_swap :: "str option"
  o_memory_reservation :: "str option"
  o_dns_search :: "str list"
  o_dns_option :: "str list"
  o_expose :: "str list"
  o_sysctl :: "str list"
  o_stop_timeout :: "nat option"
  o_stop_signal :: "str option"
  o_annotations :: "str list"
  o_ulimits :: "str list"
  o_ipc :: "str option"
  o_pid :: "str option"
  o_uts :: "str option"
  o_userns :: "str option"
  o_cgroupns :: "str option"
  o_cgroup_parent :: "str option"
  o_cpu_count :: "int option"
  o_cpu_percent :: "int option"
  o_io_maxbandwidth :: "str option"
  o_io_maxiops :: "nat option"
  o_mount :: "str list"
  o_health_interval :: "str option"
  o_health_timeout :: "str option"
  o_no_healthcheck :: bool
  o_pull :: "str option"
  o_oom_kill_disable :: bool
  o_oom_score_adj :: "int option"
  o_group_add :: "str list"
  o_umask :: "str option"
  o_domainname :: "str option"
  o_memory_swappiness :: "nat option"
  o_pod :: "str option"
  o_volumes_from :: "str list"
  o_image :: str
  o_command :: "str list"

section \<open>Resource limits\<close>

definition optional :: "'a option \<Rightarrow> ('a \<Rightarrow> 'b res) \<Rightarrow> 'b option res" where
  "optional x f = (case x of None \<Rightarrow> Inr None | Some a \<Rightarrow> bind_res (f a) (\<lambda>b. Inr (Some b)))"

definition memory_flag :: "str option \<Rightarrow> int option res" where
  "memory_flag x = optional x (\<lambda>s. bind_res (parse_memory s) (\<lambda>w. Inr (sint w)))"

definition limits_of :: "(str \<Rightarrow> (int \<times> nat) res) \<Rightarrow> run_options \<Rightarrow> resource_limits res" where
  "limits_of parse_cpus a =
     bind_res (memory_flag (o_memory a)) (\<lambda>mem.
     bind_res (memory_flag (o_memory_reservation a)) (\<lambda>reserved.
     bind_res (optional (o_cpus a) parse_cpus) (\<lambda>cpus.
     bind_res (memory_flag (o_memory_swap a)) (\<lambda>swap.
     if o_pids_limit a = Some 0 then Inl (Invalid_limit ''--pids-limit'')
     else Inr
       \<lparr>memory_max = mem, memory_swap_max = swap, memory_reservation = reserved,
        cpu_quota_us = map_option fst cpus, cpu_period_us = map_option snd cpus,
        cpu_shares = o_cpu_shares a, cpuset_cpus = o_cpuset_cpus a,
        memory_swappiness = o_memory_swappiness a, pids_max = o_pids_limit a\<rparr>))))"

section \<open>Environment and process\<close>

text \<open>
  \<open>--env\<close> first, then the lines of \<open>--env-file\<close>; an entry without \<open>=\<close> takes its value from the
  caller's environment and is dropped when it has none.
\<close>

definition env_file_lines :: "str \<Rightarrow> str list" where
  "env_file_lines content =
     filter (\<lambda>l. l \<noteq> [] \<and> \<not> starts_with l ''#'') (map trim (lines content))"

definition combined_env :: "(str \<Rightarrow> str option) \<Rightarrow> run_options \<Rightarrow> str list res" where
  "combined_env read a =
     (case o_env_file a of
        None \<Rightarrow> Inr (o_env a)
      | Some p \<Rightarrow> (case read p of
          None \<Rightarrow> Inl Io_failed
        | Some content \<Rightarrow> Inr (o_env a @ env_file_lines content)))"

definition normalize_env :: "(str \<Rightarrow> str option) \<Rightarrow> str list \<Rightarrow> str list" where
  "normalize_env getenv es =
     concat (map (\<lambda>e. if contains_char e CHR ''='' then [e]
                      else case getenv e of Some v \<Rightarrow> [e @ ''='' @ v] | None \<Rightarrow> []) es)"

definition nonempty :: "'a list \<Rightarrow> 'a list option" where
  "nonempty xs = (if xs = [] then None else Some xs)"

definition parse_uid :: "str \<Rightarrow> u32" where
  "parse_uid s = of_nat (unwrap_or (parse_unsigned 32 s) 0)"

definition set_user :: "str \<Rightarrow> oci_user \<Rightarrow> oci_user" where
  "set_user u r =
     (case split_once CHR '':'' u of
        Some (a, b) \<Rightarrow> r\<lparr>u_uid := parse_uid a, u_gid := parse_uid b\<rparr>
      | None \<Rightarrow> r\<lparr>u_uid := parse_uid u\<rparr>)"

definition resolve_workdir :: "str \<Rightarrow> str \<Rightarrow> str" where
  "resolve_workdir cwd w =
     (if starts_with w ''/'' then w
      else let base = trim_end_by (\<lambda>c. c = CHR ''/'') cwd
           in if base = [] then ''/'' @ w else base @ ''/'' @ w)"

definition set_shm_size :: "str \<Rightarrow> oci_mount list \<Rightarrow> oci_mount list" where
  "set_shm_size shm ms =
     update_first (\<lambda>m. mo_destination m = ''/dev/shm'')
       (\<lambda>m. m\<lparr>mo_options := Some [''nosuid'', ''noexec'', ''nodev'', ''mode=1777'', ''size='' @ shm]\<rparr>) ms"

definition update_process :: "(process \<Rightarrow> process) \<Rightarrow> oci_spec \<Rightarrow> oci_spec" where
  "update_process f s = s\<lparr>sp_process := f (sp_process s)\<rparr>"

definition when_some :: "'a option \<Rightarrow> ('a \<Rightarrow> 's \<Rightarrow> 's) \<Rightarrow> 's \<Rightarrow> 's" where
  "when_some x f s = (case x of None \<Rightarrow> s | Some a \<Rightarrow> f a s)"

definition process_spec ::
  "(str \<Rightarrow> str option) \<Rightarrow> exec_config option \<Rightarrow> run_options \<Rightarrow> str list \<Rightarrow> oci_spec res" where
  "process_spec getenv img a env =
     (let s = new_default img (nonempty (o_command a)) (nonempty (normalize_env getenv env));
          s = when_some (o_hostname a) (\<lambda>h s. s\<lparr>sp_hostname := Some h\<rparr>) s;
          s = when_some (o_user a) (\<lambda>u. update_process (\<lambda>p. p\<lparr>pr_user := set_user u (pr_user p)\<rparr>)) s;
          s = (if o_read_only a then s\<lparr>sp_root := (sp_root s)\<lparr>ro_readonly := True\<rparr>\<rparr> else s)
      in bind_res (optional (o_shm_size a) parse_memory) (\<lambda>_.
         let s = when_some (o_shm_size a) (\<lambda>z s. s\<lparr>sp_mounts := set_shm_size z (sp_mounts s)\<rparr>) s;
             s = when_some (o_entrypoint a) (\<lambda>e. update_process (\<lambda>p. p\<lparr>pr_args := e # o_command a\<rparr>)) s;
             s = when_some (o_workdir a) (\<lambda>w. update_process (\<lambda>p. p\<lparr>pr_cwd := resolve_workdir (pr_cwd p) w\<rparr>)) s
         in Inr s))"

section \<open>Annotations\<close>

text \<open>\<open>serde_json::to_string\<close> for a list of strings.\<close>

definition quote :: char where "quote = char_of (34 :: nat)"

definition json_char :: "char \<Rightarrow> str" where
  "json_char c =
     (if c = quote then [backslash, quote]
      else if c = backslash then [backslash, backslash]
      else if ord c = 8 then [backslash, CHR ''b'']
      else if ord c = 9 then [backslash, CHR ''t'']
      else if ord c = 10 then [backslash, CHR ''n'']
      else if ord c = 12 then [backslash, CHR ''f'']
      else if ord c = 13 then [backslash, CHR ''r'']
      else if ord c < 32 then [backslash] @ ''u00'' @ show_hex2 (of_nat (ord c))
      else [c])"

definition json_string :: "str \<Rightarrow> str" where
  "json_string s = [quote] @ concat (map json_char s) @ [quote]"

definition json_list :: "str list \<Rightarrow> str" where
  "json_list xs = ''['' @ join '','' (map json_string xs) @ '']''"

fun octal_val :: "nat \<Rightarrow> str \<Rightarrow> nat option" where
  "octal_val a [] = Some a"
| "octal_val a (c # cs) =
     (if 48 \<le> ord c \<and> ord c \<le> 55 then octal_val (8 * a + (ord c - 48)) cs else None)"

definition parse_octal :: "str \<Rightarrow> nat option" where
  "parse_octal s =
     (if drop_plus s = [] then None
      else case octal_val 0 (drop_plus s) of
             Some n \<Rightarrow> if n < 2 ^ 32 then Some n else None | None \<Rightarrow> None)"

definition parse_umask :: "str \<Rightarrow> u32" where
  "parse_umask s =
     of_nat (unwrap_or
       (case strip_prefix ''0o'' s of
          Some r \<Rightarrow> parse_octal r
        | None \<Rightarrow> if starts_with s ''0'' \<and> length s > 1 then parse_octal s else parse_unsigned 32 s) 18)"

definition annot :: "str \<Rightarrow> str option \<Rightarrow> annotations \<Rightarrow> annotations" where
  "annot k v a = (case v of None \<Rightarrow> a | Some x \<Rightarrow> a(k \<mapsto> x))"

definition flag_annot :: "str \<Rightarrow> bool \<Rightarrow> annotations \<Rightarrow> annotations" where
  "flag_annot k b a = (if b then a(k \<mapsto> ''true'') else a)"

definition given_annot :: "annotations \<Rightarrow> str \<Rightarrow> annotations" where
  "given_annot a ann = (case split_once CHR ''='' ann of Some (k, v) \<Rightarrow> a(k \<mapsto> v) | None \<Rightarrow> a)"

definition base_annotations :: "str \<Rightarrow> run_options \<Rightarrow> resource_limits \<Rightarrow> annotations" where
  "base_annotations arch opts l =
     (let a = [''org.opencontainers.image.architecture'' \<mapsto> arch];
          a = annot ''boxr.platform'' (o_platform opts) a;
          a = annot ''boxr.gpus'' (o_gpus opts) a;
          a = flag_annot ''boxr.init'' (o_init opts) a;
          a = annot ''boxr.memory'' (map_option show_int (memory_max l)) a;
          a = annot ''boxr.cpus'' (o_cpus opts) a;
          a = annot ''boxr.cpuset_cpus'' (o_cpuset_cpus opts) a;
          a = annot ''boxr.memory_reservation'' (map_option show_int (memory_reservation l)) a;
          a = annot ''boxr.memory_swappiness'' (map_option show_nat (o_memory_swappiness opts)) a;
          a = flag_annot ''boxr.oom_kill_disable'' (o_oom_kill_disable opts) a;
          a = annot ''boxr.oom_score_adj'' (map_option show_int (o_oom_score_adj opts)) a;
          a = annot ''boxr.group_add'' (map_option json_list (nonempty (o_group_add opts))) a;
          a = annot ''boxr.umask'' (o_umask opts) a;
          a = annot ''boxr.domainname'' (o_domainname opts) a;
          a = foldl given_annot a (o_annotations opts);
          a = annot ''boxr.stop_timeout'' (map_option show_nat (o_stop_timeout opts)) a
      in annot ''boxr.stop_signal'' (o_stop_signal opts) a)"

definition group_ids :: "str list \<Rightarrow> u32 list" where
  "group_ids gs = map of_nat (List.map_filter (parse_unsigned 32) gs)"

text \<open>What the same stretch of code sets in the specification.\<close>

definition identity_spec :: "run_options \<Rightarrow> oci_spec \<Rightarrow> oci_spec" where
  "identity_spec opts s =
     (let s = (if group_ids (o_group_add opts) = [] then s
               else update_process (\<lambda>p. p\<lparr>pr_user := (pr_user p)\<lparr>u_additional_gids :=
                 Some (group_ids (o_group_add opts))\<rparr>\<rparr>) s);
          s = when_some (o_umask opts) (\<lambda>u. update_process (\<lambda>p. p\<lparr>pr_umask := Some (parse_umask u)\<rparr>)) s
      in when_some (o_domainname opts) (\<lambda>d s. s\<lparr>sp_domainname := Some d\<rparr>) s)"

section \<open>Files of the bundle\<close>

definition bad_host_entry :: "str \<Rightarrow> bool" where
  "bad_host_entry e =
     (case split_once CHR '':'' e of
        None \<Rightarrow> True | Some (host, ip) \<Rightarrow> host = [] \<or> \<not> is_ip_addr ip)"

definition json_file :: "str \<Rightarrow> str list \<Rightarrow> (str \<times> str) list" where
  "json_file f xs = (if xs = [] then [] else [(f, json_list xs)])"

text \<open>
  The checks of \<open>--add-host\<close> and \<open>--dns\<close> come before their own file is written and after the files
  before it; a failed write is ignored.
\<close>

definition bundle_files :: "run_options \<Rightarrow> unit res \<times> (str \<times> str) list" where
  "bundle_files opts =
     (case find bad_host_entry (o_add_host opts) of
        Some e \<Rightarrow> (Inl (Invalid_spec e), [])
      | None \<Rightarrow> (case find (\<lambda>d. \<not> is_ip_addr d) (o_dns opts) of
          Some d \<Rightarrow> (Inl (Invalid_address d), json_file ''hosts.json'' (o_add_host opts))
        | None \<Rightarrow>
            (Inr (), json_file ''hosts.json'' (o_add_host opts) @ json_file ''dns.json'' (o_dns opts) @
               json_file ''dns_search.json'' (o_dns_search opts) @
               json_file ''dns_option.json'' (o_dns_option opts) @ json_file ''labels.json'' (o_labels opts) @
               json_file ''sysctl.json'' (o_sysctl opts) @ json_file ''ulimits.json'' (o_ulimits opts))))"

section \<open>Mounts\<close>

text \<open>\<open>--volumes-from\<close>: the mounts of another container's \<open>config.json\<close> but the standard ones.\<close>

definition standard_destinations :: "str list" where
  "standard_destinations = [''/proc'', ''/sys'', ''/dev'', ''/dev/pts'', ''/dev/shm'', ''/dev/mqueue'']"

definition make_read_only :: "oci_mount \<Rightarrow> oci_mount" where
  "make_read_only m =
     m\<lparr>mo_options := Some (filter (\<lambda>s. s \<noteq> ''rw'') (unwrap_or (mo_options m) []) @ [''ro''])\<rparr>"

definition inherited_mounts ::
  "io \<Rightarrow> (str \<Rightarrow> oci_spec option) \<Rightarrow> container_file \<Rightarrow> str \<Rightarrow> oci_mount list" where
  "inherited_mounts io read_spec cf vf =
     (let (target, mode) = (case split_once CHR '':'' vf of Some (c, m) \<Rightarrow> (c, Some m) | None \<Rightarrow> (vf, None))
      in case container_find io target cf of
           None \<Rightarrow> []
         | Some c \<Rightarrow> (case read_spec (c_bundle_path c) of
             None \<Rightarrow> []
           | Some s \<Rightarrow>
               map (if mode = Some ''ro'' then make_read_only else (\<lambda>m. m))
                 (filter (\<lambda>m. mo_destination m \<notin> set standard_destinations) (sp_mounts s))))"

definition tmpfs_mount :: "str \<Rightarrow> oci_mount" where
  "tmpfs_mount t =
     (let (dest, opts) = (case split_once CHR '':'' t of
            Some (d, p) \<Rightarrow> (d, p) | None \<Rightarrow> (t, ''rw,nosuid,nodev,size=65536k''))
      in mk_mount dest ''tmpfs'' ''tmpfs'' (Some (split_on CHR '','' opts)))"

record mount_flag =
  mf_type :: str
  mf_source :: str
  mf_target :: str
  mf_ro :: bool

definition mount_field :: "mount_flag \<Rightarrow> str \<Rightarrow> mount_flag" where
  "mount_field f kv =
     (case split_once CHR ''='' kv of
        Some (k, v) \<Rightarrow>
          (if trim k = ''type'' then f\<lparr>mf_type := trim v\<rparr>
           else if trim k \<in> {''source'', ''src''} then f\<lparr>mf_source := trim v\<rparr>
           else if trim k \<in> {''target'', ''destination'', ''dst''} then f\<lparr>mf_target := trim v\<rparr>
           else if trim k \<in> {''readonly'', ''ro''} then f\<lparr>mf_ro := True\<rparr>
           else f)
      | None \<Rightarrow> if trim kv \<in> {''readonly'', ''ro''} then f\<lparr>mf_ro := True\<rparr> else f)"

definition parse_mount_flag :: "str \<Rightarrow> oci_mount list" where
  "parse_mount_flag m =
     (let f = foldl mount_field \<lparr>mf_type = ''bind'', mf_source = [], mf_target = [], mf_ro = False\<rparr>
                (split_on CHR '','' m)
      in if mf_target f = [] then []
         else [mk_mount (mf_target f) (mf_type f) (mf_source f)
                 (Some ([''rbind''] @ (if mf_ro f then [''ro''] else [])))])"

definition extra_mounts ::
  "io \<Rightarrow> (str \<Rightarrow> oci_spec option) \<Rightarrow> container_file \<Rightarrow> run_options \<Rightarrow> oci_mount list" where
  "extra_mounts io read_spec cf opts =
     concat (map (inherited_mounts io read_spec cf) (o_volumes_from opts)) @
     map tmpfs_mount (o_tmpfs opts) @ concat (map parse_mount_flag (o_mount opts))"

definition push_mounts :: "oci_mount list \<Rightarrow> oci_spec \<Rightarrow> oci_spec" where
  "push_mounts ms s = s\<lparr>sp_mounts := sp_mounts s @ ms\<rparr>"

section \<open>Security and Windows\<close>

definition set_seccomp :: "seccomp_rule option \<Rightarrow> oci_spec \<Rightarrow> oci_spec" where
  "set_seccomp r s = s\<lparr>sp_linux := map_option (\<lambda>l. l\<lparr>li_seccomp := r\<rparr>) (sp_linux s)\<rparr>"

definition add_default_seccomp :: "oci_spec \<Rightarrow> oci_spec" where
  "add_default_seccomp s =
     s\<lparr>sp_linux := map_option (\<lambda>l. if li_seccomp l = None then l\<lparr>li_seccomp := Some default_filter\<rparr> else l)
                    (sp_linux s)\<rparr>"

definition security_spec :: "run_options \<Rightarrow> oci_spec \<Rightarrow> oci_spec" where
  "security_spec opts s =
     (let unconfined = ''seccomp=unconfined'' \<in> set (o_security_opt opts);
          s = (if unconfined then set_seccomp None s else s);
          s = (if ''no-new-privileges'' \<in> set (o_security_opt opts) \<or>
                  ''no-new-privileges:true'' \<in> set (o_security_opt opts)
               then update_process (\<lambda>p. p\<lparr>pr_no_new_privileges := Some True\<rparr>) s else s);
          s = apply_capabilities_and_security (o_privileged opts) (o_cap_add opts) (o_cap_drop opts) s
      in if \<not> o_privileged opts \<and> \<not> unconfined then add_default_seccomp s else s)"

definition windows_spec_of :: "run_options \<Rightarrow> oci_spec \<Rightarrow> oci_spec" where
  "windows_spec_of opts s =
     (if o_cpu_count opts = None \<and> o_cpu_percent opts = None \<and> o_io_maxbandwidth opts = None \<and>
         o_io_maxiops opts = None then s
      else s\<lparr>sp_windows := Some
        \<lparr>wi_cpu_count = map_option of_int (o_cpu_count opts),
         wi_cpu_percent = map_option of_int (o_cpu_percent opts),
         wi_storage_bps = (case o_io_maxbandwidth opts of
             None \<Rightarrow> None
           | Some b \<Rightarrow> (case parse_memory b of Inr w \<Rightarrow> Some w | Inl _ \<Rightarrow> None)),
         wi_storage_iops = o_io_maxiops opts\<rparr>\<rparr>)"

section \<open>What only one of the commands does\<close>

definition with_namespaces ::
  "(str \<Rightarrow> str \<Rightarrow> str option res) \<Rightarrow> run_options \<Rightarrow> linux_spec \<times> annotations \<Rightarrow> linux_spec \<times> annotations" where
  "with_namespaces resolve opts la =
     apply_namespace_to_linux resolve ''pid'' (o_pid opts)
       (apply_namespace_to_linux resolve ''uts'' (o_uts opts)
         (apply_namespace_to_linux resolve ''ipc'' (o_ipc opts) la))"

text \<open>\<open>run\<close> resolves the namespaces first and keeps their annotations.\<close>

definition run_annotations ::
  "(str \<Rightarrow> str \<Rightarrow> str option res) \<Rightarrow> run_options \<Rightarrow> annotations \<Rightarrow> oci_spec \<Rightarrow> oci_spec" where
  "run_annotations resolve opts a s =
     (let a = annot ''boxr.network_container'' (container_target (parse_network_mode (o_network opts))) a;
          a = a(''boxr.network'' \<mapsto> o_network opts)
      in case sp_linux s of
           None \<Rightarrow> s\<lparr>sp_annotations := Some a\<rparr>
         | Some l \<Rightarrow> (case with_namespaces resolve opts (l, a) of (l', a') \<Rightarrow>
             s\<lparr>sp_linux := Some l', sp_annotations := Some a'\<rparr>))"

text \<open>
  \<open>create\<close> stores the annotations in the specification before it resolves the namespaces: what
  that adds to them is lost.
\<close>

definition create_annotations :: "run_options \<Rightarrow> annotations \<Rightarrow> annotations" where
  "create_annotations opts a =
     (let a = flag_annot ''boxr.privileged'' (o_privileged opts) a;
          a = annot ''boxr.cap_add'' (map_option json_list (nonempty (o_cap_add opts))) a;
          a = annot ''boxr.cap_drop'' (map_option json_list (nonempty (o_cap_drop opts))) a
      in a(''boxr.network'' \<mapsto> o_network opts))"

definition no_resources :: linux_resources where
  "no_resources = \<lparr>lr_memory = None, lr_cpu = None, lr_pids = None, lr_devices = [], lr_oom_score_adj = None\<rparr>"

definition no_linux :: linux_spec where
  "no_linux = \<lparr>li_namespaces = [], li_resources = None, li_cgroup_parent = None, li_seccomp = None, li_devices = []\<rparr>"

definition no_memory :: linux_memory where
  "no_memory = \<lparr>mem_limit = None, mem_reservation = None, mem_swap = None, mem_swappiness = None,
     mem_disable_oom_killer = None\<rparr>"

definition no_cpu :: linux_cpu where
  "no_cpu = \<lparr>cpu_shares_of = None, cpu_quota_of = None, cpu_period_of = None, cpu_cpus = None, cpu_mems = None\<rparr>"

definition on_memory :: "(linux_memory \<Rightarrow> linux_memory) \<Rightarrow> linux_resources \<Rightarrow> linux_resources" where
  "on_memory f r = r\<lparr>lr_memory := Some (f (unwrap_or (lr_memory r) no_memory))\<rparr>"

definition resources_of :: "run_options \<Rightarrow> resource_limits \<Rightarrow> linux_resources \<Rightarrow> linux_resources" where
  "resources_of opts l r =
     (let r = when_some (memory_max l) (\<lambda>m. on_memory (\<lambda>x. x\<lparr>mem_limit := Some m\<rparr>)) r;
          r = when_some (memory_reservation l) (\<lambda>m. on_memory (\<lambda>x. x\<lparr>mem_reservation := Some m\<rparr>)) r;
          r = when_some (memory_swap_max l) (\<lambda>m. on_memory (\<lambda>x. x\<lparr>mem_swap := Some m\<rparr>)) r;
          r = when_some (memory_swappiness l) (\<lambda>m. on_memory (\<lambda>x. x\<lparr>mem_swappiness := Some m\<rparr>)) r;
          r = (if o_oom_kill_disable opts then on_memory (\<lambda>x. x\<lparr>mem_disable_oom_killer := Some True\<rparr>) r else r);
          r = when_some (o_oom_score_adj opts) (\<lambda>v r. r\<lparr>lr_oom_score_adj := Some v\<rparr>) r;
          r = (if cpu_shares l \<noteq> None \<or> cpu_quota_us l \<noteq> None \<or> cpuset_cpus l \<noteq> None
               then r\<lparr>lr_cpu := Some ((unwrap_or (lr_cpu r) no_cpu)
                      \<lparr>cpu_shares_of := cpu_shares l, cpu_quota_of := cpu_quota_us l,
                       cpu_period_of := cpu_period_us l, cpu_cpus := cpuset_cpus l\<rparr>)\<rparr>
               else r)
      in when_some (pids_max l) (\<lambda>p r. r\<lparr>lr_pids := Some p\<rparr>) r)"

definition own_namespace :: "str \<Rightarrow> str option \<Rightarrow> linux_spec \<Rightarrow> linux_spec" where
  "own_namespace t v l =
     (case v of
        None \<Rightarrow> l
      | Some n \<Rightarrow>
          if n = ''host'' then without_ns t l
          else if n = [] then l
          else l\<lparr>li_namespaces := li_namespaces l @
                 [\<lparr>ns_type = t, ns_path = if starts_with n ''/'' then Some n else None\<rparr>]\<rparr>)"

definition device_paths :: "str \<Rightarrow> str \<times> str" where
  "device_paths d =
     (case split_on CHR '':'' d of
        h # c # _ \<Rightarrow> (h, c) | [h] \<Rightarrow> (h, h) | [] \<Rightarrow> ([], []))"

definition device_mount :: "str \<Rightarrow> oci_mount" where
  "device_mount d =
     (case device_paths d of (h, c) \<Rightarrow> mk_mount c ''bind'' h (Some [''rbind'', ''rprivate'']))"

definition device_node :: "str \<Rightarrow> linux_device" where
  "device_node d =
     \<lparr>dev_type = ''c'', dev_path = snd (device_paths d), dev_major = None, dev_minor = None,
      dev_file_mode = Some 438, dev_uid = Some 0, dev_gid = Some 0\<rparr>"

definition create_linux ::
  "(str \<Rightarrow> str \<Rightarrow> str option res) \<Rightarrow> run_options \<Rightarrow> resource_limits \<Rightarrow> annotations \<Rightarrow> linux_spec \<Rightarrow> linux_spec" where
  "create_linux resolve opts lim a l =
     (let l = l\<lparr>li_resources := Some (resources_of opts lim (unwrap_or (li_resources l) no_resources))\<rparr>;
          l = when_some (o_cgroup_parent opts) (\<lambda>p l. l\<lparr>li_cgroup_parent := Some p\<rparr>) l;
          l = fst (with_namespaces resolve opts (l, a));
          l = own_namespace ''user'' (o_userns opts) l;
          l = own_namespace ''cgroup'' (o_cgroupns opts) l
      in l\<lparr>li_devices := li_devices l @ map device_node (o_devices opts)\<rparr>)"

definition create_resources ::
  "(str \<Rightarrow> str \<Rightarrow> str option res) \<Rightarrow> run_options \<Rightarrow> resource_limits \<Rightarrow> annotations \<Rightarrow> oci_spec \<Rightarrow> oci_spec" where
  "create_resources resolve opts lim a s =
     (let s = when_some (o_oom_score_adj opts) (\<lambda>v. update_process (\<lambda>p. p\<lparr>pr_oom_score_adj := Some v\<rparr>)) s;
          s = s\<lparr>sp_linux := Some (create_linux resolve opts lim a (unwrap_or (sp_linux s) no_linux))\<rparr>
      in push_mounts (map device_mount (o_devices opts)) s)"

section \<open>The two specifications\<close>

record spec_host =
  sh_getenv :: "str \<Rightarrow> str option"
  sh_read :: "str \<Rightarrow> str option"
  sh_parse_cpus :: "str \<Rightarrow> (int \<times> nat) res"
  sh_pasta :: bool
  sh_resolve :: "str \<Rightarrow> str \<Rightarrow> str option res"
  sh_read_spec :: "str \<Rightarrow> oci_spec option"

text \<open>
  From the options to the specification that is saved, with the failures in the order of the
  code; the files written to the bundle on the way come with both outcomes. \<open>image_arch\<close> and
  \<open>img\<close> are the image's architecture and execution configuration.
\<close>

definition run_spec ::
  "io \<Rightarrow> spec_host \<Rightarrow> str \<Rightarrow> exec_config option \<Rightarrow> container_file \<Rightarrow> run_options \<Rightarrow> resource_limits \<Rightarrow>
     oci_spec res \<times> (str \<times> str) list" where
  "run_spec io h image_arch img cf opts lim =
     (case bind_res (combined_env (sh_read h) opts) (process_spec (sh_getenv h) img opts) of
        Inl e \<Rightarrow> (Inl e, [])
      | Inr s \<Rightarrow>
          if parse_network_mode (o_network opts) = Mode_pasta \<and> \<not> sh_pasta h
          then (Inl (Unsupported ''pasta''), [])
          else (case bundle_files opts of
              (Inl e, fs) \<Rightarrow> (Inl e, fs)
            | (Inr _, fs) \<Rightarrow>
                (Inr (windows_spec_of opts (security_spec opts
                   (push_mounts (extra_mounts io (sh_read_spec h) cf opts)
                     (run_annotations (sh_resolve h) opts (base_annotations image_arch opts lim)
                       (identity_spec opts s))))), fs)))"

definition create_spec ::
  "io \<Rightarrow> spec_host \<Rightarrow> str \<Rightarrow> exec_config option \<Rightarrow> container_file \<Rightarrow> run_options \<Rightarrow>
     (oci_spec \<times> resource_limits) res \<times> (str \<times> str) list" where
  "create_spec io h image_arch img cf opts =
     (case bind_res (combined_env (sh_read h) opts) (process_spec (sh_getenv h) img opts) of
        Inl e \<Rightarrow> (Inl e, [])
      | Inr s \<Rightarrow> (case limits_of (sh_parse_cpus h) opts of
          Inl e \<Rightarrow> (Inl e, [])
        | Inr lim \<Rightarrow>
            let a = create_annotations opts (base_annotations image_arch opts lim)
            in (case bundle_files opts of
                (Inl e, fs) \<Rightarrow> (Inl e, fs)
              | (Inr _, fs) \<Rightarrow>
                  (Inr (windows_spec_of opts (security_spec opts
                     (create_resources (sh_resolve h) opts lim a
                       (push_mounts (extra_mounts io (sh_read_spec h) cf opts)
                         ((identity_spec opts s)\<lparr>sp_annotations := Some a\<rparr>)))), lim), fs))))"

section \<open>Properties\<close>

lemma update_process_frame [simp]:
  "sp_linux (update_process f s) = sp_linux s" "sp_mounts (update_process f s) = sp_mounts s"
  "sp_annotations (update_process f s) = sp_annotations s" "sp_root (update_process f s) = sp_root s"
  "sp_process (update_process f s) = f (sp_process s)"
  by (simp_all add: update_process_def)

lemma when_some_simps [simp]: "when_some None f s = s" "when_some (Some a) f s = f a s"
  by (simp_all add: when_some_def)

lemma when_some_keeps:
  "(\<And>a s. sp_linux (f a s) = sp_linux s) \<Longrightarrow> sp_linux (when_some x f s) = sp_linux s"
  "(\<And>a s. sp_annotations (f a s) = sp_annotations s) \<Longrightarrow> sp_annotations (when_some x f s) = sp_annotations s"
  "(\<And>a s. sp_mounts (f a s) = sp_mounts s) \<Longrightarrow> sp_mounts (when_some x f s) = sp_mounts s"
  "(\<And>a s. pr_no_new_privileges (sp_process (f a s)) = pr_no_new_privileges (sp_process s)) \<Longrightarrow>
     pr_no_new_privileges (sp_process (when_some x f s)) = pr_no_new_privileges (sp_process s)"
  "(\<And>a s. pr_env (sp_process (f a s)) = pr_env (sp_process s)) \<Longrightarrow>
     pr_env (sp_process (when_some x f s)) = pr_env (sp_process s)"
  by (cases x; simp)+

lemma process_spec_frame:
  assumes "process_spec getenv img opts env = Inr s"
  shows "sp_linux s = Some default_linux" and "sp_annotations s = None"
    and "pr_no_new_privileges (sp_process s) = Some True"
    and "sp_mounts s = when_some (o_shm_size opts) set_shm_size default_mounts"
    and "pr_env (sp_process s) = default_env img (nonempty (normalize_env getenv env))"
proof -
  have m: "sp_mounts (when_some x (\<lambda>z s. s\<lparr>sp_mounts := set_shm_size z (sp_mounts s)\<rparr>) s) =
      when_some x set_shm_size (sp_mounts s)" for x s
    by (cases x) simp_all
  note defs = process_spec_def Let_def bind_res_Inr_iff new_default_def when_some_keeps m
  show "sp_linux s = Some default_linux" and "sp_annotations s = None"
    and "pr_no_new_privileges (sp_process s) = Some True"
    and "sp_mounts s = when_some (o_shm_size opts) set_shm_size default_mounts"
    and "pr_env (sp_process s) = default_env img (nonempty (normalize_env getenv env))"
    using assms by (auto simp: defs)
qed

lemma identity_spec_frame [simp]:
  "sp_linux (identity_spec opts s) = sp_linux s" "sp_mounts (identity_spec opts s) = sp_mounts s"
  "sp_annotations (identity_spec opts s) = sp_annotations s"
  "pr_no_new_privileges (sp_process (identity_spec opts s)) = pr_no_new_privileges (sp_process s)"
  "pr_env (sp_process (identity_spec opts s)) = pr_env (sp_process s)"
  by (simp_all add: identity_spec_def Let_def when_some_def split: option.splits)

lemma push_mounts_frame [simp]:
  "sp_linux (push_mounts ms s) = sp_linux s" "sp_process (push_mounts ms s) = sp_process s"
  "sp_annotations (push_mounts ms s) = sp_annotations s" "sp_mounts (push_mounts ms s) = sp_mounts s @ ms"
  by (simp_all add: push_mounts_def)

lemma windows_spec_frame [simp]:
  "sp_linux (windows_spec_of opts s) = sp_linux s" "sp_process (windows_spec_of opts s) = sp_process s"
  "sp_mounts (windows_spec_of opts s) = sp_mounts s"
  "sp_annotations (windows_spec_of opts s) = sp_annotations s"
  by (simp_all add: windows_spec_of_def)

lemma run_annotations_frame [simp]:
  "sp_process (run_annotations r opts a s) = sp_process s" "sp_mounts (run_annotations r opts a s) = sp_mounts s"
  by (simp_all add: run_annotations_def Let_def split: option.splits prod.splits)

lemma apply_namespace_seccomp [simp]:
  "li_seccomp (fst (apply_namespace_to_linux r t v la)) = li_seccomp (fst la)"
  by (cases la) (auto simp: apply_namespace_to_linux_def join_ns_def without_ns_def Let_def
      split: option.splits sum.splits)

lemma with_namespaces_seccomp [simp]: "li_seccomp (fst (with_namespaces r opts la)) = li_seccomp (fst la)"
  by (simp add: with_namespaces_def)

lemma run_annotations_linux:
  assumes "sp_linux s = Some l"
  shows "\<exists>l'. sp_linux (run_annotations r opts a s) = Some l' \<and> li_seccomp l' = li_seccomp l"
proof -
  have "li_seccomp l' = li_seccomp l" if "with_namespaces r opts (l, b) = (l', b')" for l' b b'
    using with_namespaces_seccomp [of r opts "(l, b)"] that by simp
  then show ?thesis using assms by (auto simp: run_annotations_def Let_def split: prod.splits)
qed

lemma security_spec_frame [simp]:
  "sp_mounts (security_spec opts s) = sp_mounts s"
  "sp_annotations (security_spec opts s) = sp_annotations s"
  by (simp_all add: security_spec_def Let_def set_seccomp_def add_default_seccomp_def
      apply_capabilities_and_security_def update_process_def)

lemma security_spec_linux:
  assumes "sp_linux s = Some l" and "li_seccomp l = None"
  shows "map_option li_seccomp (sp_linux (security_spec opts s)) =
    Some (if o_privileged opts \<or> ''seccomp=unconfined'' \<in> set (o_security_opt opts) then None
          else Some default_filter)"
  using assms
  by (simp add: security_spec_def Let_def set_seccomp_def add_default_seccomp_def
      apply_capabilities_and_security_def update_process_def)

lemma security_spec_process:
  "pr_no_new_privileges (sp_process s) = Some True \<Longrightarrow>
     pr_no_new_privileges (sp_process (security_spec opts s)) = Some True"
  by (simp add: security_spec_def Let_def set_seccomp_def add_default_seccomp_def
      apply_capabilities_and_security_def update_process_def)

lemma security_spec_caps:
  "pr_capabilities (sp_process (security_spec opts s)) =
     (let b = Some (granted_list (o_privileged opts) (o_cap_add opts) (o_cap_drop opts))
      in Some \<lparr>ca_bounding = b, ca_effective = b, ca_inheritable = b, ca_permitted = b, ca_ambient = b\<rparr>)"
  by (simp add: security_spec_def add_default_seccomp_def applied_capabilities Let_def)

lemma annot_other [simp]: "k \<noteq> k' \<Longrightarrow> annot k v a k' = a k'"
  by (simp add: annot_def split: option.splits)

lemma annot_same [simp]: "annot k v a k = (case v of None \<Rightarrow> a k | Some x \<Rightarrow> Some x)"
  by (simp add: annot_def split: option.splits)

lemma flag_annot_other [simp]: "k \<noteq> k' \<Longrightarrow> flag_annot k b a k' = a k'"
  by (simp add: flag_annot_def)

definition namespace_keys :: "str list" where
  "namespace_keys = [''boxr.ipc'', ''boxr.uts'', ''boxr.pid'', ''boxr.userns'', ''boxr.cgroupns'']"

lemma base_annotations_no_namespace:
  assumes "o_annotations opts = []" and "k \<in> set namespace_keys"
  shows "base_annotations arch opts l k = None"
  using assms by (auto simp: base_annotations_def Let_def namespace_keys_def)

lemma create_annotations_no_namespace:
  "k \<in> set namespace_keys \<Longrightarrow> create_annotations opts a k = a k"
  by (auto simp: create_annotations_def Let_def namespace_keys_def)

lemma apply_namespace_annotations:
  "snd (apply_namespace_to_linux r t v (l, a)) = annot (''boxr.'' @ t) v a"
  by (auto simp: apply_namespace_to_linux_def annot_def split: option.splits)

lemma with_namespaces_annotations:
  "snd (with_namespaces r opts (l, a)) =
     annot ''boxr.pid'' (o_pid opts) (annot ''boxr.uts'' (o_uts opts) (annot ''boxr.ipc'' (o_ipc opts) a))"
  using apply_namespace_annotations [of r] unfolding with_namespaces_def
  by (metis append_Cons append_Nil prod.collapse)

lemma run_spec_parts:
  assumes "run_spec io h arch img cf opts lim = (Inr s, fs)"
  obtains s0 where "sp_linux s0 = Some default_linux" and "sp_annotations s0 = None"
    and "pr_no_new_privileges (sp_process s0) = Some True"
    and "sp_mounts s0 = when_some (o_shm_size opts) set_shm_size default_mounts"
    and "s = windows_spec_of opts (security_spec opts
       (push_mounts (extra_mounts io (sh_read_spec h) cf opts)
         (run_annotations (sh_resolve h) opts (base_annotations arch opts lim) s0)))"
proof -
  from assms obtain env s1 where "process_spec (sh_getenv h) img opts env = Inr s1"
    and "s = windows_spec_of opts (security_spec opts
       (push_mounts (extra_mounts io (sh_read_spec h) cf opts)
         (run_annotations (sh_resolve h) opts (base_annotations arch opts lim) (identity_spec opts s1))))"
    by (auto simp: run_spec_def bind_res_Inr_iff split: sum.splits if_splits prod.splits)
  then show ?thesis using that [of "identity_spec opts s1"] process_spec_frame by simp
qed

lemma create_spec_parts:
  assumes "create_spec io h arch img cf opts = (Inr (s, lim), fs)"
  obtains s0 where "sp_linux s0 = Some default_linux" and "pr_no_new_privileges (sp_process s0) = Some True"
    and "sp_mounts s0 = when_some (o_shm_size opts) set_shm_size default_mounts"
    and "sp_annotations s0 = Some (create_annotations opts (base_annotations arch opts lim))"
    and "s = windows_spec_of opts (security_spec opts (create_resources (sh_resolve h) opts lim
       (create_annotations opts (base_annotations arch opts lim))
       (push_mounts (extra_mounts io (sh_read_spec h) cf opts) s0)))"
proof -
  let ?a = "create_annotations opts (base_annotations arch opts lim)"
  from assms obtain env s1 where "process_spec (sh_getenv h) img opts env = Inr s1"
    and "s = windows_spec_of opts (security_spec opts (create_resources (sh_resolve h) opts lim ?a
       (push_mounts (extra_mounts io (sh_read_spec h) cf opts) ((identity_spec opts s1)\<lparr>sp_annotations := Some ?a\<rparr>))))"
    by (auto simp: create_spec_def bind_res_Inr_iff Let_def split: sum.splits prod.splits)
  then show ?thesis using that [of "(identity_spec opts s1)\<lparr>sp_annotations := Some ?a\<rparr>"] process_spec_frame by simp
qed

lemma own_namespace_seccomp [simp]: "li_seccomp (own_namespace t v l) = li_seccomp l"
  by (simp add: own_namespace_def without_ns_def split: option.splits)

lemma create_linux_seccomp [simp]: "li_seccomp (create_linux r opts lim a l) = li_seccomp l"
  by (simp add: create_linux_def Let_def when_some_def split: option.splits)

lemma create_resources_frame [simp]:
  "sp_annotations (create_resources r opts lim a s) = sp_annotations s"
  "pr_no_new_privileges (sp_process (create_resources r opts lim a s)) = pr_no_new_privileges (sp_process s)"
  "sp_mounts (create_resources r opts lim a s) = sp_mounts s @ map device_mount (o_devices opts)"
  "sp_linux (create_resources r opts lim a s) = Some (create_linux r opts lim a (unwrap_or (sp_linux s) no_linux))"
  by (simp_all add: create_resources_def Let_def when_some_def update_process_def push_mounts_def split: option.splits)

text \<open>
  Whatever the options, the specification both commands save forbids new privileges, grants
  exactly the capabilities the flags describe, and filters system calls unless the container
  is privileged or asks not to be.
\<close>

definition hardened :: "run_options \<Rightarrow> oci_spec \<Rightarrow> bool" where
  "hardened opts s \<longleftrightarrow>
     pr_no_new_privileges (sp_process s) = Some True \<and>
     map_option ca_bounding (pr_capabilities (sp_process s)) =
       Some (Some (granted_list (o_privileged opts) (o_cap_add opts) (o_cap_drop opts))) \<and>
     map_option li_seccomp (sp_linux s) =
       Some (if o_privileged opts \<or> ''seccomp=unconfined'' \<in> set (o_security_opt opts) then None
             else Some default_filter)"

lemma run_spec_hardened: "run_spec io h arch img cf opts lim = (Inr s, fs) \<Longrightarrow> hardened opts s"
proof (erule run_spec_parts)
  fix s0 assume l: "sp_linux s0 = Some default_linux" and n: "pr_no_new_privileges (sp_process s0) = Some True"
    and s: "s = windows_spec_of opts (security_spec opts
       (push_mounts (extra_mounts io (sh_read_spec h) cf opts)
         (run_annotations (sh_resolve h) opts (base_annotations arch opts lim) s0)))"
  obtain l' where l': "sp_linux (run_annotations (sh_resolve h) opts (base_annotations arch opts lim) s0) = Some l'"
    "li_seccomp l' = None"
    using run_annotations_linux [OF l, of "sh_resolve h" opts "base_annotations arch opts lim"]
    by (auto simp: default_linux_def)
  show ?thesis using n l' by (simp add: s hardened_def security_spec_process security_spec_caps
      security_spec_linux [where l = l'] Let_def)
qed

lemma create_spec_hardened: "create_spec io h arch img cf opts = (Inr (s, lim), fs) \<Longrightarrow> hardened opts s"
proof (erule create_spec_parts)
  fix s0
  let ?a = "create_annotations opts (base_annotations arch opts lim)"
  assume l: "sp_linux s0 = Some default_linux" and n: "pr_no_new_privileges (sp_process s0) = Some True"
    and s: "s = windows_spec_of opts (security_spec opts (create_resources (sh_resolve h) opts lim ?a
       (push_mounts (extra_mounts io (sh_read_spec h) cf opts) s0)))"
  have "li_seccomp (create_linux (sh_resolve h) opts lim ?a default_linux) = None"
    by (simp add: default_linux_def)
  then show ?thesis using n l
    by (simp add: s hardened_def security_spec_process security_spec_caps
        security_spec_linux [where l = "create_linux (sh_resolve h) opts lim ?a default_linux"] Let_def)
qed

text \<open>A user given by name, like any text that is not a number, runs as user 0.\<close>

lemma named_user_is_root:
  "CHR '':'' \<notin> set u \<Longrightarrow> parse_unsigned 32 u = None \<Longrightarrow> u_uid (set_user u r) = 0"
  by (simp add: set_user_def parse_uid_def)

text \<open>\<open>ro=false\<close> makes a mount read-only.\<close>

lemma ro_false_is_read_only:
  "parse_mount_flag ''type=bind,src=/a,dst=/b,ro=false'' =
     [mk_mount ''/b'' ''bind'' ''/a'' (Some [''rbind'', ''ro''])]"
  by code_simp

text \<open>Options with every flag absent, for the network \<open>bridge\<close>, of an image \<open>alpine\<close>.\<close>

definition bare_options :: run_options where
  "bare_options =
     \<lparr>o_interactive = False, o_tty = False, o_detach = False, o_rm = False, o_name = None, o_env = [],
      o_ports = [], o_volumes = [], o_workdir = None, o_memory = None, o_labels = [], o_dns = [],
      o_cidfile = None, o_env_file = None, o_cpus = None, o_pids_limit = None, o_user = None,
      o_hostname = None, o_add_host = [], o_restart = ''no'', o_health_cmd = None, o_platform = None,
      o_network = ''bridge'', o_privileged = False, o_gpus = None, o_entrypoint = None, o_shm_size = None,
      o_cap_add = [], o_cap_drop = [], o_read_only = False, o_init = False, o_tmpfs = [], o_devices = [],
      o_security_opt = [], o_cpu_shares = None, o_cpuset_cpus = None, o_memory_swap = None,
      o_memory_reservation = None, o_dns_search = [], o_dns_option = [], o_expose = [], o_sysctl = [],
      o_stop_timeout = None, o_stop_signal = None, o_annotations = [], o_ulimits = [], o_ipc = None,
      o_pid = None, o_uts = None, o_userns = None, o_cgroupns = None, o_cgroup_parent = None,
      o_cpu_count = None, o_cpu_percent = None, o_io_maxbandwidth = None, o_io_maxiops = None,
      o_mount = [], o_health_interval = None, o_health_timeout = None, o_no_healthcheck = False,
      o_pull = None, o_oom_kill_disable = False, o_oom_score_adj = None, o_group_add = [],
      o_umask = None, o_domainname = None, o_memory_swappiness = None, o_pod = None,
      o_volumes_from = [], o_image = ''alpine'', o_command = []\<rparr>"

definition no_limits :: resource_limits where
  "no_limits = \<lparr>memory_max = None, memory_swap_max = None, memory_reservation = None, cpu_quota_us = None,
     cpu_period_us = None, cpu_shares = None, cpuset_cpus = None, memory_swappiness = None, pids_max = None\<rparr>"

lemma bridge_mode: "parse_network_mode ''bridge'' = Mode_bridge"
  by (simp add: parse_network_mode_def container_prefix_def mode_table_def trim_def trim_end_by_def
      trim_start_by_def strip_prefix_def starts_with_def to_lowercase_def to_lower_char_def char_class_defs)

definition easy :: "run_options \<Rightarrow> bool" where
  "easy opts \<longleftrightarrow> o_env_file opts = None \<and> o_shm_size opts = None \<and> o_network opts = ''bridge'' \<and>
     o_add_host opts = [] \<and> o_dns opts = []"

lemma easy_specs:
  assumes "easy opts"
  shows "\<exists>s fs. run_spec io h arch img cf opts lim = (Inr s, fs)"
    and "limits_of (sh_parse_cpus h) opts = Inr lim \<Longrightarrow>
      \<exists>s fs. create_spec io h arch img cf opts = (Inr (s, lim), fs)"
proof -
  obtain s where s: "process_spec (sh_getenv h) img opts (o_env opts) = Inr s"
    using assms by (simp add: easy_def process_spec_def optional_def Let_def)
  have f: "\<exists>fs. bundle_files opts = (Inr (), fs)" using assms by (simp add: easy_def bundle_files_def)
  show "\<exists>s fs. run_spec io h arch img cf opts lim = (Inr s, fs)"
    using assms s f by (auto simp: easy_def run_spec_def combined_env_def bridge_mode)
  show "\<exists>s fs. create_spec io h arch img cf opts = (Inr (s, lim), fs)"
    if "limits_of (sh_parse_cpus h) opts = Inr lim"
    using assms s f that by (auto simp: easy_def create_spec_def combined_env_def Let_def)
qed

lemma bare_options_easy: "easy bare_options"
  by (simp add: easy_def bare_options_def)

lemma bare_limits: "limits_of pc bare_options = Inr no_limits"
  by (simp add: limits_of_def bare_options_def memory_flag_def optional_def no_limits_def)

end
