(* ===== verification/Linux_Runtime.thy ===== *)
theory Linux_Runtime
  imports Run_Options Volume_Store Path_Text
begin

text \<open>
  The Linux runtime (\<open>src/runtime/linux.rs\<close>): which namespaces \<open>run_trampoline\<close> unshares for a
  specification, the exact sequence of system calls with which \<open>run_container_child\<close> sets up
  the root file system, the process and its privileges before it executes the container's
  program, and the command line of \<open>exec_in_bundle\<close>. What the kernel answers where the code
  looks at the answer is an argument. Forking, waiting and the synchronisation of parent and
  child are not modelled.
\<close>

section \<open>System calls\<close>

datatype ms_flag =
    MS_REC | MS_PRIVATE | MS_BIND | MS_RDONLY | MS_NOSUID | MS_NODEV | MS_NOEXEC | MS_STRICTATIME | MS_REMOUNT

datatype clone_flag =
    CLONE_NEWUSER | CLONE_NEWPID | CLONE_NEWNS | CLONE_NEWUTS | CLONE_NEWIPC | CLONE_NEWNET | CLONE_NEWCGROUP

datatype syscall =
    Set_subreaper
  | Set_hostname str
  | Do_mount "str option" str "str option" "ms_flag list" "str option"
  | Make_dirs str
  | Create_file str
  | Make_symlink str str
  | Set_sticky str
  | Write_text str str
  | Pivot_root str str
  | Do_chroot str
  | Change_dir str
  | Detach_mount str
  | Remove_dir str
  | Clear_env
  | Set_var str str
  | Install_seccomp
  | Drop_bounding nat
  | Set_groups "u32 list"
  | Set_umask u32
  | Write_oom_adj int
  | Set_gid u32
  | Set_uid u32
  | Execvp "str list"

text \<open>The child ends with an error, by a panic, or by becoming the container's program.\<close>

datatype child_end = Failed_with error | Panicked

type_synonym segment = "(child_end + unit) \<times> syscall list"

definition and_then :: "segment \<Rightarrow> segment \<Rightarrow> segment" where
  "and_then s t = (case s of (Inl e, l) \<Rightarrow> (Inl e, l) | (Inr _, l) \<Rightarrow> (case t of (r, m) \<Rightarrow> (r, l @ m)))"

definition always :: "syscall list \<Rightarrow> segment" where
  "always l = (Inr (), l)"

definition checked :: "bool \<Rightarrow> syscall list \<Rightarrow> segment" where
  "checked good l = (if good then Inr () else Inl (Failed_with Io_failed), l)"

record linux_host =
  lh_accepts :: "syscall \<Rightarrow> bool"
  lh_canonical :: "str \<Rightarrow> path option"
  lh_exists :: "str \<Rightarrow> bool"
  lh_resolv_conf :: "str option"
  lh_json :: "str \<Rightarrow> str list option"
  lh_term :: "str option"

section \<open>Namespaces\<close>

definition annotation :: "str \<Rightarrow> oci_spec \<Rightarrow> str option" where
  "annotation k s = Option.bind (sp_annotations s) (\<lambda>a. a k)"

definition spec_network_mode :: "oci_spec \<Rightarrow> network_mode" where
  "spec_network_mode s =
     (case annotation ''boxr.network'' s of None \<Rightarrow> Mode_auto | Some n \<Rightarrow> parse_network_mode n)"

text \<open>
  The rootless child unshares its user namespace, then the network one when the mode asks for
  it, then the rest in one call.
\<close>

definition rootless_unshares :: "bool \<Rightarrow> oci_spec \<Rightarrow> clone_flag list list" where
  "rootless_unshares pasta s =
     [[CLONE_NEWUSER]] @
     (if requires_new_netns pasta (spec_network_mode s) then [[CLONE_NEWNET]] else []) @
     [[CLONE_NEWPID, CLONE_NEWNS] @
      (if annotation ''boxr.ipc'' s = Some ''host'' then [] else [CLONE_NEWIPC]) @
      (if annotation ''boxr.uts'' s = Some ''host'' then [] else [CLONE_NEWUTS]) @
      (if annotation ''boxr.cgroupns'' s = Some ''private'' then [CLONE_NEWCGROUP] else [])]"

definition root_unshares :: "bool \<Rightarrow> oci_spec \<Rightarrow> clone_flag list list" where
  "root_unshares pasta s =
     [[CLONE_NEWPID, CLONE_NEWNS, CLONE_NEWUTS, CLONE_NEWIPC] @
      (if requires_new_netns pasta (spec_network_mode s) then [CLONE_NEWNET] else [])]"

definition trampoline_unshares :: "bool \<Rightarrow> bool \<Rightarrow> oci_spec \<Rightarrow> clone_flag list list" where
  "trampoline_unshares rootless pasta s =
     (if rootless then rootless_unshares pasta s else root_unshares pasta s)"

text \<open>\<open>WaitStatus\<close> to the exit code of the trampoline.\<close>

datatype wait_status = Exited_with int | Signaled_by int | Other_status

fun trampoline_code :: "wait_status \<Rightarrow> int" where
  "trampoline_code (Exited_with c) = c"
| "trampoline_code (Signaled_by s) = 128 + s"
| "trampoline_code Other_status = 1"

section \<open>Root file system\<close>

definition in_root :: "str \<Rightarrow> str \<Rightarrow> str" where
  "in_root rootfs p = rootfs @ ''/'' @ p"

definition nul :: char where "nul = char_of (0 :: nat)"

definition start_child :: "linux_host \<Rightarrow> str \<Rightarrow> oci_spec \<Rightarrow> segment" where
  "start_child h rootfs s =
     and_then (always (if annotation ''boxr.init'' s = Some ''true'' then [Set_subreaper] else []))
     (and_then (case sp_hostname s of
          None \<Rightarrow> always []
        | Some n \<Rightarrow> if contains_char n nul then (Inl (Failed_with Io_failed), []) else always [Set_hostname n])
     (let private_root = Do_mount None ''/'' None [MS_REC, MS_PRIVATE] None;
          bind_root = Do_mount (Some rootfs) rootfs None [MS_BIND, MS_REC] None
      in and_then (checked (lh_accepts h private_root) [private_root])
           (checked (lh_accepts h bind_root) [bind_root])))"

definition mount_at :: "str \<Rightarrow> str \<Rightarrow> str \<Rightarrow> ms_flag list \<Rightarrow> str option \<Rightarrow> syscall list" where
  "mount_at kind target src flags data = [Make_dirs target, Do_mount (Some src) target (Some kind) flags data]"

definition kernel_mounts :: "linux_host \<Rightarrow> str \<Rightarrow> syscall list" where
  "kernel_mounts h rootfs =
     (let sys = Do_mount (Some ''sysfs'') (in_root rootfs ''sys'') (Some ''sysfs'') [MS_RDONLY] None
      in mount_at ''proc'' (in_root rootfs ''proc'') ''proc'' [] None @
         [Make_dirs (in_root rootfs ''sys''), sys] @
         (if lh_accepts h sys then []
          else [Do_mount (Some ''tmpfs'') (in_root rootfs ''sys'') (Some ''tmpfs'') [MS_RDONLY] (Some ''mode=755'')]) @
         mount_at ''tmpfs'' (in_root rootfs ''dev'') ''tmpfs'' [MS_NOSUID, MS_STRICTATIME] (Some ''mode=755''))"

definition device_binds :: "linux_host \<Rightarrow> str \<Rightarrow> syscall list" where
  "device_binds h rootfs =
     concat (map (\<lambda>d. if lh_exists h (''/dev/'' @ d)
          then [Create_file (in_root rootfs (''dev/'' @ d)),
                Do_mount (Some (''/dev/'' @ d)) (in_root rootfs (''dev/'' @ d)) None [MS_BIND] None]
          else []) [''null'', ''zero'', ''full'', ''random'', ''urandom'', ''tty''])"

definition dev_tree :: "str \<Rightarrow> syscall list" where
  "dev_tree rootfs =
     mount_at ''devpts'' (in_root rootfs ''dev/pts'') ''devpts'' [MS_NOSUID, MS_NOEXEC]
       (Some ''newinstance,ptmxmode=0666,mode=0620'') @
     mount_at ''tmpfs'' (in_root rootfs ''dev/shm'') ''tmpfs'' [MS_NOSUID, MS_NODEV, MS_NOEXEC]
       (Some ''mode=1777,size=67108864'') @
     [Make_symlink ''pts/ptmx'' (in_root rootfs ''dev/ptmx''),
      Make_symlink ''/proc/self/fd'' (in_root rootfs ''dev/fd''),
      Make_symlink ''/proc/self/fd/0'' (in_root rootfs ''dev/stdin''),
      Make_symlink ''/proc/self/fd/1'' (in_root rootfs ''dev/stdout''),
      Make_symlink ''/proc/self/fd/2'' (in_root rootfs ''dev/stderr''),
      Make_dirs (in_root rootfs ''tmp''), Set_sticky (in_root rootfs ''tmp''),
      Make_dirs (in_root rootfs ''var/tmp''), Set_sticky (in_root rootfs ''var/tmp'')]"

section \<open>Mounts of the container\<close>

definition mount_target :: "str \<Rightarrow> str \<Rightarrow> str" where
  "mount_target rootfs dest = in_root rootfs (trim_start_by (\<lambda>c. c = CHR ''/'') dest)"

text \<open>
  A destination is created, then refused when it resolves outside the root file system; one
  that does not resolve is not checked.
\<close>

definition guarded_mount :: "linux_host \<Rightarrow> path \<Rightarrow> str \<Rightarrow> str \<Rightarrow> syscall list \<Rightarrow> segment" where
  "guarded_mount h canon_root rootfs dest calls =
     (let target = mount_target rootfs dest in
      case lh_canonical h target of
        Some t \<Rightarrow> if take (length canon_root) t = canon_root then always (Make_dirs target # calls)
                  else (Inl (Failed_with (Path_traversal dest)), [Make_dirs target])
      | None \<Rightarrow> always (Make_dirs target # calls))"

definition volume_call :: "str \<Rightarrow> mount_spec \<Rightarrow> syscall" where
  "volume_call rootfs m =
     Do_mount (Some (m_source m)) (mount_target rootfs (m_destination m)) None
       ([MS_BIND, MS_REC] @ (if m_read_only m then [MS_RDONLY] else [])) None"

definition bind_volume :: "linux_host \<Rightarrow> path \<Rightarrow> str \<Rightarrow> mount_spec \<Rightarrow> segment" where
  "bind_volume h canon_root rootfs m =
     guarded_mount h canon_root rootfs (m_destination m) [volume_call rootfs m]"

definition spec_mount_calls :: "str \<Rightarrow> oci_mount \<Rightarrow> syscall list" where
  "spec_mount_calls rootfs m =
     (let target = mount_target rootfs (mo_destination m) in
      if mo_type m = ''bind'' then
        [Do_mount (Some (mo_source m)) target None
           ([MS_BIND, MS_REC] @ (if ''ro'' \<in> set (unwrap_or (mo_options m) []) then [MS_RDONLY] else [])) None]
      else [Do_mount (Some ''tmpfs'') target (Some ''tmpfs'') [MS_NOSUID, MS_NODEV] None])"

definition mount_spec_entry :: "linux_host \<Rightarrow> path \<Rightarrow> str \<Rightarrow> oci_mount \<Rightarrow> segment" where
  "mount_spec_entry h canon_root rootfs m =
     (if mo_type m = ''bind'' \<or>
         mo_type m = ''tmpfs'' \<and> mo_destination m \<notin> {''/dev'', ''/proc'', ''/sys''}
      then guarded_mount h canon_root rootfs (mo_destination m) (spec_mount_calls rootfs m)
      else always [])"

fun each_in_turn :: "segment list \<Rightarrow> segment" where
  "each_in_turn [] = always []"
| "each_in_turn (s # ss) = and_then s (each_in_turn ss)"

definition container_mounts :: "linux_host \<Rightarrow> str \<Rightarrow> mount_spec list \<Rightarrow> oci_spec \<Rightarrow> segment" where
  "container_mounts h rootfs vols s =
     (case lh_canonical h rootfs of
        None \<Rightarrow> (Inl (Failed_with Io_failed), [])
      | Some root \<Rightarrow>
          and_then (each_in_turn (map (bind_volume h root rootfs) vols))
            (each_in_turn (map (mount_spec_entry h root rootfs) (sp_mounts s))))"

section \<open>Name resolution files\<close>

definition text_line :: "str \<Rightarrow> str" where
  "text_line l = l @ [newline]"

definition given_servers :: "linux_host \<Rightarrow> str" where
  "given_servers h =
     concat (map (\<lambda>s. text_line (''nameserver '' @ trim s)) (unwrap_or (lh_json h ''dns.json'') []))"

definition host_servers :: "linux_host \<Rightarrow> str" where
  "host_servers h =
     concat (map text_line (filter (\<lambda>l. starts_with l ''nameserver'')
       (map trim (lines (unwrap_or (lh_resolv_conf h) [])))))"

definition add_server :: "str \<Rightarrow> str \<Rightarrow> str" where
  "add_server ip d = (if contains_str d ip then d else d @ text_line (''nameserver '' @ ip))"

definition list_line :: "linux_host \<Rightarrow> str \<Rightarrow> str \<Rightarrow> str" where
  "list_line h file kw =
     (case lh_json h file of
        Some (x # xs) \<Rightarrow> text_line (kw @ '' '' @ join '' '' (x # xs)) | _ \<Rightarrow> [])"

definition resolv_conf :: "linux_host \<Rightarrow> oci_spec \<Rightarrow> str" where
  "resolv_conf h s =
     (if given_servers h \<noteq> [] then given_servers h
      else add_server ''8.8.8.8'' (add_server ''1.1.1.1'' (host_servers h))) @
     list_line h ''dns_search.json'' ''search'' @ list_line h ''dns_option.json'' ''options'' @
     (case sp_domainname s of Some d \<Rightarrow> text_line (''domain '' @ d) | None \<Rightarrow> [])"

definition hosts_text :: "linux_host \<Rightarrow> oci_spec \<Rightarrow> str" where
  "hosts_text h s =
     text_line ''127.0.0.1 localhost'' @ text_line ''::1 localhost ip6-localhost ip6-loopback'' @
     (case sp_hostname s of Some n \<Rightarrow> text_line (''127.0.0.1 '' @ n) | None \<Rightarrow> []) @
     concat (map (\<lambda>e. case split_once CHR '':'' e of
          Some (host, ip) \<Rightarrow> text_line (trim ip @ '' '' @ trim host) | None \<Rightarrow> [])
       (unwrap_or (lh_json h ''hosts.json'') []))"

definition name_files :: "linux_host \<Rightarrow> str \<Rightarrow> oci_spec \<Rightarrow> syscall list" where
  "name_files h rootfs s =
     [Make_dirs (in_root rootfs ''etc''), Write_text (in_root rootfs ''etc/resolv.conf'') (resolv_conf h s),
      Write_text (in_root rootfs ''etc/hosts'') (hosts_text h s)]"

section \<open>Entering the root file system\<close>

definition enter_root :: "linux_host \<Rightarrow> str \<Rightarrow> segment" where
  "enter_root h rootfs =
     (let old = in_root rootfs ''.oldroot''; pivot = Pivot_root rootfs old; cd = Change_dir ''/'' in
      and_then (always [Make_dirs old, pivot])
        (if lh_accepts h pivot
         then and_then (checked (lh_accepts h cd) [cd]) (always [Detach_mount ''/.oldroot'', Remove_dir ''/.oldroot''])
         else and_then (checked (lh_accepts h (Do_chroot rootfs)) [Do_chroot rootfs])
                (checked (lh_accepts h cd) [cd])))"

section \<open>The process\<close>

definition default_path :: str where
  "default_path = ''/usr/local/sbin:/usr/local/bin:/usr/sbin:/usr/bin:/sbin:/bin''"

definition env_pairs :: "str list \<Rightarrow> (str \<times> str) list" where
  "env_pairs es = List.map_filter (split_once CHR ''='') es"

text \<open>\<open>std::env::set_var\<close> panics on an empty name and on NUL characters.\<close>

definition settable :: "str \<times> str \<Rightarrow> bool" where
  "settable kv \<longleftrightarrow> fst kv \<noteq> [] \<and> nul \<notin> set (fst kv) \<and> nul \<notin> set (snd kv)"

fun set_vars :: "(str \<times> str) list \<Rightarrow> segment" where
  "set_vars [] = always []"
| "set_vars (kv # kvs) =
     (if settable kv then and_then (always [Set_var (fst kv) (snd kv)]) (set_vars kvs)
      else (Inl Panicked, []))"

definition process_env :: "linux_host \<Rightarrow> oci_spec \<Rightarrow> segment" where
  "process_env h s =
     (let kvs = env_pairs (pr_env (sp_process s)); ks = map fst kvs in
      and_then (always [Clear_env]) (and_then (set_vars kvs)
        (always ((if ''PATH'' \<in> set ks then [] else [Set_var ''PATH'' default_path]) @
           (if ''TERM'' \<in> set ks then [] else case lh_term h of Some t \<Rightarrow> [Set_var ''TERM'' t] | None \<Rightarrow> [])))))"

definition capability_names :: "str list" where
  "capability_names =
     [''CAP_CHOWN'', ''CAP_DAC_OVERRIDE'', ''CAP_DAC_READ_SEARCH'', ''CAP_FOWNER'', ''CAP_FSETID'', ''CAP_KILL'',
      ''CAP_SETGID'', ''CAP_SETUID'', ''CAP_SETPCAP'', ''CAP_LINUX_IMMUTABLE'', ''CAP_NET_BIND_SERVICE'',
      ''CAP_NET_BROADCAST'', ''CAP_NET_ADMIN'', ''CAP_NET_RAW'', ''CAP_IPC_LOCK'', ''CAP_IPC_OWNER'',
      ''CAP_SYS_MODULE'', ''CAP_SYS_RAWIO'', ''CAP_SYS_CHROOT'', ''CAP_SYS_PTRACE'', ''CAP_SYS_PACCT'',
      ''CAP_SYS_ADMIN'', ''CAP_SYS_BOOT'', ''CAP_SYS_NICE'', ''CAP_SYS_RESOURCE'', ''CAP_SYS_TIME'',
      ''CAP_SYS_TTY_CONFIG'', ''CAP_MKNOD'', ''CAP_LEASE'', ''CAP_AUDIT_WRITE'', ''CAP_AUDIT_CONTROL'',
      ''CAP_SETFCAP'', ''CAP_MAC_OVERRIDE'', ''CAP_MAC_ADMIN'', ''CAP_SYSLOG'', ''CAP_WAKE_ALARM'',
      ''CAP_BLOCK_SUSPEND'', ''CAP_AUDIT_READ'', ''CAP_PERFMON'', ''CAP_BPF'', ''CAP_CHECKPOINT_RESTORE'']"

definition drop_bounding :: "str list \<Rightarrow> syscall list" where
  "drop_bounding bounding =
     concat (map (\<lambda>(i, n). if n \<in> set bounding then [] else [Drop_bounding i])
       (List.enumerate 0 capability_names))"

text \<open>Privileges are given up in this order; what the kernel answers is ignored.\<close>

definition restrict_process :: "oci_spec \<Rightarrow> syscall list" where
  "restrict_process s =
     (let p = sp_process s; u = pr_user p in
      (if ro_readonly (sp_root s)
       then [Do_mount None ''/'' None [MS_REMOUNT, MS_RDONLY, MS_BIND] None] else []) @
      (case sp_linux s of
         Some l \<Rightarrow> if li_seccomp l \<noteq> None then [Install_seccomp] else []
       | None \<Rightarrow> []) @
      (case Option.bind (pr_capabilities p) ca_bounding of Some b \<Rightarrow> drop_bounding b | None \<Rightarrow> []) @
      (case u_additional_gids u of Some gs \<Rightarrow> [Set_groups gs] | None \<Rightarrow> []) @
      (case pr_umask p of Some m \<Rightarrow> [Set_umask m] | None \<Rightarrow> []) @
      (case pr_oom_score_adj p of Some v \<Rightarrow> [Write_oom_adj v] | None \<Rightarrow> []) @
      (if u_gid u \<noteq> 0 then [Set_gid (u_gid u)] else []) @
      (if u_uid u \<noteq> 0 then [Set_uid (u_uid u)] else []))"

definition execute :: "linux_host \<Rightarrow> str list \<Rightarrow> segment" where
  "execute h args =
     (case args of
        [] \<Rightarrow> (Inl Panicked, [])
      | a # as \<Rightarrow>
          if nul \<in> set a then (Inl (Failed_with Io_failed), [])
          else if \<exists>x\<in>set as. nul \<in> set x then (Inl Panicked, [])
          else checked (lh_accepts h (Execvp args)) [Execvp args])"

definition working_dir :: "oci_spec \<Rightarrow> str" where
  "working_dir s = (if pr_cwd (sp_process s) = [] then ''/'' else pr_cwd (sp_process s))"

definition run_container_child :: "linux_host \<Rightarrow> str \<Rightarrow> mount_spec list \<Rightarrow> oci_spec \<Rightarrow> segment" where
  "run_container_child h rootfs vols s =
     each_in_turn
       [start_child h rootfs s,
        always (kernel_mounts h rootfs @ device_binds h rootfs @ dev_tree rootfs),
        container_mounts h rootfs vols s,
        always (name_files h rootfs s),
        enter_root h rootfs,
        always [Make_dirs ''/proc'', Do_mount (Some ''proc'') ''/proc'' (Some ''proc'') [] None,
                Change_dir (working_dir s)],
        process_env h s,
        always (restrict_process s),
        execute h (pr_args (sp_process s))]"

section \<open>Properties\<close>

lemma and_then_Inr_iff:
  "and_then s t = (Inr u, l) \<longleftrightarrow> (\<exists>l1 l2. s = (Inr (), l1) \<and> t = (Inr (), l2) \<and> l = l1 @ l2)"
  by (cases s; cases "fst s"; cases t) (auto simp: and_then_def)

lemma always_simp [simp]: "always l = (r, m) \<longleftrightarrow> r = Inr () \<and> m = l"
  by (auto simp: always_def)

lemma checked_Inr_iff [simp]: "checked b l = (Inr u, m) \<longleftrightarrow> b \<and> m = l"
  by (auto simp: checked_def)

lemma execute_Inr: "execute h args = (Inr u, l) \<Longrightarrow> l = [Execvp args]"
  by (auto simp: execute_def checked_def split: list.splits if_splits)

lemma drop_bounding_iff:
  "Drop_bounding i \<in> set (drop_bounding b) \<longleftrightarrow> i < length capability_names \<and> capability_names ! i \<notin> set b"
  by (force simp: drop_bounding_def in_set_enumerate_eq)

lemma drop_bounding_only: "c \<in> set (drop_bounding b) \<Longrightarrow> \<exists>i. c = Drop_bounding i"
  by (auto simp: drop_bounding_def split: if_splits)

text \<open>
  The calls that set the container up: none of them gives up a privilege or changes an existing
  mount. All calls before \<open>restrict_process\<close> are of this kind.
\<close>

fun setup_call :: "syscall \<Rightarrow> bool" where
  "setup_call (Do_mount src t ty fl d) \<longleftrightarrow> MS_REMOUNT \<notin> set fl"
| "setup_call Install_seccomp \<longleftrightarrow> False"
| "setup_call (Drop_bounding i) \<longleftrightarrow> False"
| "setup_call (Set_groups gs) \<longleftrightarrow> False"
| "setup_call (Set_umask m) \<longleftrightarrow> False"
| "setup_call (Write_oom_adj v) \<longleftrightarrow> False"
| "setup_call (Set_gid g) \<longleftrightarrow> False"
| "setup_call (Set_uid u) \<longleftrightarrow> False"
| "setup_call _ \<longleftrightarrow> True"

definition calm :: "segment \<Rightarrow> bool" where
  "calm s \<longleftrightarrow> list_all setup_call (snd s)"

lemma calm_always [simp]: "calm (always l) \<longleftrightarrow> list_all setup_call l"
  by (simp add: calm_def always_def)

lemma calm_checked [simp]: "calm (checked b l) \<longleftrightarrow> list_all setup_call l"
  by (simp add: calm_def checked_def)

lemma calm_pair [simp]: "calm (r, l) \<longleftrightarrow> list_all setup_call l"
  by (simp add: calm_def)

lemma calm_and_then [intro!]: "calm s \<Longrightarrow> calm t \<Longrightarrow> calm (and_then s t)"
  by (cases s; cases t; cases "fst s") (auto simp: and_then_def)

lemma calm_each: "list_all calm ss \<Longrightarrow> calm (each_in_turn ss)"
  by (induction ss) auto

lemma calm_set_vars: "calm (set_vars kvs)"
  by (induction kvs) auto

lemma calm_guarded: "list_all setup_call l \<Longrightarrow> calm (guarded_mount h root rootfs dest l)"
  by (simp add: guarded_mount_def Let_def split: option.splits)

lemma calm_mounts: "calm (container_mounts h rootfs vols s)"
proof -
  have v: "calm (bind_volume h root rootfs m)" for root m
    by (simp add: bind_volume_def calm_guarded volume_call_def)
  have e: "calm (mount_spec_entry h root rootfs m)" for root m
    by (simp add: mount_spec_entry_def calm_guarded spec_mount_calls_def Let_def)
  show ?thesis by (auto simp: container_mounts_def list_all_iff v e intro!: calm_each split: option.splits)
qed

lemma calm_process_env: "calm (process_env h s)"
  by (auto simp: process_env_def Let_def intro!: calm_set_vars split: option.splits)

lemma calm_start: "calm (start_child h rootfs s)"
  by (auto simp: start_child_def Let_def split: option.splits)

lemma calm_setup: "list_all setup_call (kernel_mounts h rootfs @ device_binds h rootfs @ dev_tree rootfs)"
  by (simp add: kernel_mounts_def device_binds_def dev_tree_def mount_at_def Let_def)

lemma calm_enter: "calm (enter_root h rootfs)"
  by (auto simp: enter_root_def Let_def)

lemma each_in_turn_append:
  "each_in_turn (xs @ ys) = (Inr u, l) \<longleftrightarrow>
     (\<exists>l1 l2. each_in_turn xs = (Inr (), l1) \<and> each_in_turn ys = (Inr (), l2) \<and> l = l1 @ l2)"
  by (induction xs arbitrary: l) (auto simp: and_then_Inr_iff)

lemma child_ends_with:
  assumes "run_container_child h rootfs vols s = (Inr u, calls)"
  shows "\<exists>pre. calls = pre @ restrict_process s @ [Execvp (pr_args (sp_process s))] \<and> list_all setup_call pre"
proof -
  let ?x = "execute h (pr_args (sp_process s))"
  let ?front = "[start_child h rootfs s,
        always (kernel_mounts h rootfs @ device_binds h rootfs @ dev_tree rootfs),
        container_mounts h rootfs vols s,
        always (name_files h rootfs s),
        enter_root h rootfs,
        always [Make_dirs ''/proc'', Do_mount (Some ''proc'') ''/proc'' (Some ''proc'') [] None,
                Change_dir (working_dir s)],
        process_env h s]"
  have "run_container_child h rootfs vols s = each_in_turn (?front @ [always (restrict_process s), ?x])"
    by (simp only: run_container_child_def append.simps)
  then obtain pre l2 where pre: "each_in_turn ?front = (Inr (), pre)"
    and l2: "each_in_turn [always (restrict_process s), ?x] = (Inr (), l2)" and calls: "calls = pre @ l2"
    using assms each_in_turn_append [of ?front "[always (restrict_process s), ?x]" u calls] by metis
  have "calm (each_in_turn ?front)"
    by (rule calm_each) (simp add: calm_mounts calm_process_env calm_start calm_setup calm_enter name_files_def
        del: list_all_append)
  then have "list_all setup_call pre" unfolding pre calm_pair .
  moreover have "l2 = restrict_process s @ [Execvp (pr_args (sp_process s))]"
    using l2 execute_Inr [of h "pr_args (sp_process s)"] by (auto simp: and_then_Inr_iff)
  ultimately show ?thesis using calls by blast
qed

lemma restrict_hardened:
  assumes "hardened opts s"
  shows "Install_seccomp \<in> set (restrict_process s) \<longleftrightarrow>
      \<not> o_privileged opts \<and> ''seccomp=unconfined'' \<notin> set (o_security_opt opts)"
    and "Drop_bounding i \<in> set (restrict_process s) \<longleftrightarrow> i < length capability_names \<and>
      capability_names ! i \<notin> granted (o_privileged opts) (o_cap_add opts) (o_cap_drop opts)"
proof -
  obtain l where l: "sp_linux s = Some l" and sec: "li_seccomp l =
      (if o_privileged opts \<or> ''seccomp=unconfined'' \<in> set (o_security_opt opts) then None else Some default_filter)"
    using assms by (auto simp: hardened_def)
  obtain ca where ca: "pr_capabilities (sp_process s) = Some ca"
    and b: "ca_bounding ca = Some (granted_list (o_privileged opts) (o_cap_add opts) (o_cap_drop opts))"
    using assms by (auto simp: hardened_def)
  show "Install_seccomp \<in> set (restrict_process s) \<longleftrightarrow>
      \<not> o_privileged opts \<and> ''seccomp=unconfined'' \<notin> set (o_security_opt opts)"
    using l sec ca b drop_bounding_only
    by (auto simp: restrict_process_def Let_def split: option.splits)
  show "Drop_bounding i \<in> set (restrict_process s) \<longleftrightarrow> i < length capability_names \<and>
      capability_names ! i \<notin> granted (o_privileged opts) (o_cap_add opts) (o_cap_drop opts)"
    using l ca b
    by (auto simp: restrict_process_def Let_def drop_bounding_iff set_granted_list split: option.splits)
qed

text \<open>
  What the calls come to, on the side of the kernel: the numbers left in the bounding set and
  whether a filter is installed. A refused call changes nothing.
\<close>

record privileges =
  pv_bounding :: "nat set"
  pv_filtered :: bool

fun take_effect :: "syscall \<Rightarrow> privileges \<Rightarrow> privileges" where
  "take_effect (Drop_bounding i) pv = pv\<lparr>pv_bounding := pv_bounding pv - {i}\<rparr>"
| "take_effect Install_seccomp pv = pv\<lparr>pv_filtered := True\<rparr>"
| "take_effect _ pv = pv"

definition privileges_after :: "(syscall \<Rightarrow> bool) \<Rightarrow> syscall list \<Rightarrow> privileges \<Rightarrow> privileges" where
  "privileges_after accepts calls pv =
     fold (\<lambda>c pv. if accepts c then take_effect c pv else pv) calls pv"

text \<open>The numbers of the capabilities in \<open>linux/capability.h\<close>.\<close>

definition kernel_capability :: "(nat \<times> str) set" where
  "kernel_capability =
     {(0, ''CAP_CHOWN''), (1, ''CAP_DAC_OVERRIDE''), (2, ''CAP_DAC_READ_SEARCH''), (3, ''CAP_FOWNER''),
      (4, ''CAP_FSETID''), (5, ''CAP_KILL''), (6, ''CAP_SETGID''), (7, ''CAP_SETUID''), (8, ''CAP_SETPCAP''),
      (9, ''CAP_LINUX_IMMUTABLE''), (10, ''CAP_NET_BIND_SERVICE''), (11, ''CAP_NET_BROADCAST''),
      (12, ''CAP_NET_ADMIN''), (13, ''CAP_NET_RAW''), (14, ''CAP_IPC_LOCK''), (15, ''CAP_IPC_OWNER''),
      (16, ''CAP_SYS_MODULE''), (17, ''CAP_SYS_RAWIO''), (18, ''CAP_SYS_CHROOT''), (19, ''CAP_SYS_PTRACE''),
      (20, ''CAP_SYS_PACCT''), (21, ''CAP_SYS_ADMIN''), (22, ''CAP_SYS_BOOT''), (23, ''CAP_SYS_NICE''),
      (24, ''CAP_SYS_RESOURCE''), (25, ''CAP_SYS_TIME''), (26, ''CAP_SYS_TTY_CONFIG''), (27, ''CAP_MKNOD''),
      (28, ''CAP_LEASE''), (29, ''CAP_AUDIT_WRITE''), (30, ''CAP_AUDIT_CONTROL''), (31, ''CAP_SETFCAP''),
      (32, ''CAP_MAC_OVERRIDE''), (33, ''CAP_MAC_ADMIN''), (34, ''CAP_SYSLOG''), (35, ''CAP_WAKE_ALARM''),
      (36, ''CAP_BLOCK_SUSPEND''), (37, ''CAP_AUDIT_READ''), (38, ''CAP_PERFMON''), (39, ''CAP_BPF''),
      (40, ''CAP_CHECKPOINT_RESTORE'')}"

lemma kernel_capability_enumerate: "kernel_capability = set (List.enumerate 0 capability_names)"
  by (simp only: kernel_capability_def capability_names_def enumerate_simps list.set add_0 One_nat_def [symmetric]
      Suc_eq_plus1 numeral_plus_one semiring_norm one_add_one)

lemma kernel_capability_iff: "(i, n) \<in> kernel_capability \<longleftrightarrow> i < length capability_names \<and> n = capability_names ! i"
  by (auto simp: kernel_capability_enumerate in_set_enumerate_eq)

lemma privileges_after_bounding:
  "pv_bounding (privileges_after accepts calls pv) =
     pv_bounding pv - {i. Drop_bounding i \<in> set calls \<and> accepts (Drop_bounding i)}"
proof (induction calls arbitrary: pv)
  case (Cons c calls)
  then show ?case by (cases c) (auto simp: privileges_after_def)
qed (simp add: privileges_after_def)

lemma privileges_after_filtered:
  "pv_filtered (privileges_after accepts calls pv) \<longleftrightarrow>
     pv_filtered pv \<or> Install_seccomp \<in> set calls \<and> accepts Install_seccomp"
proof (induction calls arbitrary: pv)
  case (Cons c calls)
  then show ?case by (cases c) (auto simp: privileges_after_def)
qed (simp add: privileges_after_def)

lemma setup_calls_plain:
  "list_all setup_call pre \<Longrightarrow> Install_seccomp \<notin> set pre" "list_all setup_call pre \<Longrightarrow> Drop_bounding i \<notin> set pre"
  by (auto simp: list_all_iff)


text \<open>The calls whose answer the child looks at.\<close>

lemma restrict_unchecked:
  "Do_mount None ''/'' None [MS_REC, MS_PRIVATE] None \<notin> set (restrict_process s)"
  "Do_mount (Some x) t ty fl d \<notin> set (restrict_process s)"
  "Pivot_root a b \<notin> set (restrict_process s)" "Do_chroot a \<notin> set (restrict_process s)"
  "Change_dir a \<notin> set (restrict_process s)" "Execvp as \<notin> set (restrict_process s)"
  by (auto simp: restrict_process_def Let_def dest: drop_bounding_only split: option.splits if_splits)

lemma guarded_mount_accepts [simp]: "guarded_mount (h\<lparr>lh_accepts := f\<rparr>) r rootfs d c = guarded_mount h r rootfs d c"
  by (simp add: guarded_mount_def)

lemma mount_accepts [simp]:
  "bind_volume (h\<lparr>lh_accepts := f\<rparr>) r rootfs = bind_volume h r rootfs"
  "mount_spec_entry (h\<lparr>lh_accepts := f\<rparr>) r rootfs = mount_spec_entry h r rootfs"
  by (simp_all add: bind_volume_def mount_spec_entry_def fun_eq_iff)

lemma container_mounts_accepts [simp]:
  "container_mounts (h\<lparr>lh_accepts := f\<rparr>) rootfs vols s = container_mounts h rootfs vols s"
  by (simp add: container_mounts_def split: option.splits)

lemma process_env_accepts [simp]: "process_env (h\<lparr>lh_accepts := f\<rparr>) s = process_env h s"
  by (simp add: process_env_def Let_def split: option.splits)

lemma device_binds_accepts [simp]: "device_binds (h\<lparr>lh_accepts := f\<rparr>) rootfs = device_binds h rootfs"
  by (simp add: device_binds_def)

lemma name_files_accepts [simp]: "name_files (h\<lparr>lh_accepts := f\<rparr>) rootfs s = name_files h rootfs s"
  by (simp add: name_files_def resolv_conf_def hosts_text_def given_servers_def host_servers_def list_line_def)

text \<open>
  Whether the kernel accepts the calls that give up privileges makes no difference: when
  changing to the container's user fails, or the filter is refused, the program is executed
  all the same, with the privileges of the runtime.
\<close>

theorem refused_restrictions_ignored:
  assumes "\<forall>c. c \<notin> set (restrict_process s) \<longrightarrow> f c = lh_accepts h c"
  shows "run_container_child (h\<lparr>lh_accepts := f\<rparr>) rootfs vols s = run_container_child h rootfs vols s"
proof -
  note same = assms [rule_format, OF restrict_unchecked(1)] assms [rule_format, OF restrict_unchecked(2)]
    assms [rule_format, OF restrict_unchecked(3)] assms [rule_format, OF restrict_unchecked(4)]
    assms [rule_format, OF restrict_unchecked(5)] assms [rule_format, OF restrict_unchecked(6)]
  let ?h = "h\<lparr>lh_accepts := f\<rparr>"
  have acc: "lh_accepts ?h = f" by simp
  have "start_child ?h rootfs s = start_child h rootfs s" by (simp only: start_child_def Let_def acc same)
  moreover have "kernel_mounts ?h rootfs = kernel_mounts h rootfs" by (simp only: kernel_mounts_def Let_def acc same)
  moreover have "enter_root ?h rootfs = enter_root h rootfs" by (simp only: enter_root_def Let_def acc same)
  moreover have "execute ?h as = execute h as" for as by (simp only: execute_def acc same)
  ultimately show ?thesis by (simp only: run_container_child_def container_mounts_accepts name_files_accepts
      process_env_accepts device_binds_accepts)
qed

text \<open>Options of a file system in memory never reach the kernel.\<close>

lemma mount_spec_entry_options:
  "mo_type m \<noteq> ''bind'' \<Longrightarrow>
     mount_spec_entry h r rootfs (m\<lparr>mo_options := v\<rparr>) = mount_spec_entry h r rootfs m"
  by (simp add: mount_spec_entry_def spec_mount_calls_def)

lemma child_ignores_mounts:
  "start_child h rootfs (s\<lparr>sp_mounts := m\<rparr>) = start_child h rootfs s"
  "name_files h rootfs (s\<lparr>sp_mounts := m\<rparr>) = name_files h rootfs s"
  "process_env h (s\<lparr>sp_mounts := m\<rparr>) = process_env h s"
  "working_dir (s\<lparr>sp_mounts := m\<rparr>) = working_dir s"
  "restrict_process (s\<lparr>sp_mounts := m\<rparr>) = restrict_process s"
  by (simp_all add: start_child_def annotation_def name_files_def resolv_conf_def hosts_text_def
      process_env_def working_dir_def restrict_process_def)

text \<open>
  \<open>--shm-size\<close> has no effect on Linux: the size is written to the specification, and the
  runtime mounts shared memory without it.
\<close>

theorem shm_size_has_no_effect:
  assumes "sp_mounts s = default_mounts @ ms"
  shows "run_container_child h rootfs vols (s\<lparr>sp_mounts := set_shm_size z (sp_mounts s)\<rparr>) =
    run_container_child h rootfs vols s"
proof -
  have "map (mount_spec_entry h r rootfs) (set_shm_size z (default_mounts @ ms)) =
      map (mount_spec_entry h r rootfs) (default_mounts @ ms)" for r
    by (simp add: set_shm_size_def default_mounts_def mk_mount_def mount_spec_entry_def spec_mount_calls_def)
  then show ?thesis
    by (simp add: assms run_container_child_def child_ignores_mounts container_mounts_def split: option.splits)
qed

text \<open>
  \<open>--ipc host\<close> keeps a container that is run in the host's IPC namespace; one that is created
  with the same options and started gets a namespace of its own, because its annotations were
  saved before the namespaces were resolved. A private cgroup namespace is unshared for neither.
\<close>

theorem create_forgets_host_ipc:
  assumes "run_spec io sh arch img cf opts lim = (Inr r, fs)"
    and "create_spec io sh arch img cf opts = (Inr (c, lim'), fs')"
    and "o_annotations opts = []" and "o_ipc opts = Some ''host''"
  shows "CLONE_NEWIPC \<notin> set (concat (rootless_unshares pasta r)) \<and>
    CLONE_NEWIPC \<in> set (concat (rootless_unshares pasta c)) \<and>
    CLONE_NEWCGROUP \<notin> set (concat (rootless_unshares pasta r @ rootless_unshares pasta c))"
proof -
  let ?ann = "base_annotations arch opts"
  have none: "?ann l k = None" if "k \<in> set namespace_keys" for l k
    using base_annotations_no_namespace [OF assms(3) that] .
  have c: "sp_annotations c = Some (create_annotations opts (?ann lim'))"
    using assms(2) by (rule create_spec_parts) simp
  have "annotation k c = None" if "k \<in> set namespace_keys" for k
    using that by (simp add: annotation_def c create_annotations_no_namespace none)
  then have c': "annotation ''boxr.ipc'' c = None" "annotation ''boxr.cgroupns'' c = None"
    by (simp_all add: namespace_keys_def)
  obtain s0 where s0: "sp_linux s0 = Some default_linux"
    and r: "sp_annotations r = sp_annotations (run_annotations (sh_resolve sh) opts (?ann lim) s0)"
    using assms(1) by (rule run_spec_parts) simp
  have "annotation ''boxr.ipc'' r = Some ''host''" and "annotation ''boxr.cgroupns'' r = None"
    using none [of "''boxr.cgroupns''" lim] assms(4) with_namespaces_annotations [of "sh_resolve sh" opts default_linux]
    by (auto simp: annotation_def r run_annotations_def s0 Let_def namespace_keys_def
        split: prod.splits option.splits dest!: arg_cong [where f = snd])
  with c' show ?thesis by (auto simp: rootless_unshares_def)
qed

theorem create_forgets_host_ipc_witness:
  "\<exists>c. fst (create_spec io_good sh arch img cf (bare_options\<lparr>o_ipc := Some ''host''\<rparr>)) = Inr (c, no_limits) \<and>
     CLONE_NEWIPC \<in> set (concat (rootless_unshares True c))"
proof -
  let ?o = "bare_options\<lparr>o_ipc := Some ''host''\<rparr>"
  have e: "easy ?o" by (simp add: easy_def bare_options_def)
  have l: "limits_of (sh_parse_cpus sh) ?o = Inr no_limits"
    by (simp add: limits_of_def bare_options_def memory_flag_def optional_def no_limits_def)
  obtain c fs' where c: "create_spec io_good sh arch img cf ?o = (Inr (c, no_limits), fs')"
    using easy_specs(2) [OF e l] by blast
  obtain r fs where "run_spec io_good sh arch img cf ?o no_limits = (Inr r, fs)"
    using easy_specs(1) [OF e] by blast
  from create_forgets_host_ipc [OF this c, of True] c show ?thesis by (simp add: bare_options_def)
qed

lemma nul_char: "nul = CHR 0x00"
  by (simp add: nul_def char_of_def)

definition kind_host :: linux_host where
  "kind_host = \<lparr>lh_accepts = \<lambda>_. True, lh_canonical = \<lambda>_. Some [], lh_exists = \<lambda>_. False,
     lh_resolv_conf = None, lh_json = \<lambda>_. None, lh_term = None\<rparr>"

lemma and_then_always [simp]: "and_then (Inr (), l) (r, m) = (r, l @ m)"
  by (simp add: and_then_def)

lemma each_in_turn_always: "(\<And>x. x \<in> set xs \<Longrightarrow> \<exists>l. f x = (Inr (), l)) \<Longrightarrow> \<exists>l. each_in_turn (map f xs) = (Inr (), l)"
proof (induction xs)
  case Nil
  show ?case by (simp add: always_def)
next
  case (Cons x xs)
  then obtain l m where "f x = (Inr (), l)" "each_in_turn (map f xs) = (Inr (), m)" by fastforce
  then show ?case by simp
qed

lemma set_vars_settable: "list_all settable kvs \<Longrightarrow> \<exists>l. set_vars kvs = (Inr (), l)"
proof (induction kvs)
  case Nil
  show ?case by (simp add: always_def)
next
  case (Cons kv kvs)
  then obtain l where "set_vars kvs = (Inr (), l)" by auto
  with Cons show ?case by (simp add: always_def)
qed

lemma kind_child:
  assumes "sp_hostname s = None \<or> (\<exists>n. sp_hostname s = Some n \<and> nul \<notin> set n)"
    and "pr_args (sp_process s) \<noteq> []" and "\<forall>a\<in>set (pr_args (sp_process s)). nul \<notin> set a"
    and "list_all settable (env_pairs (pr_env (sp_process s)))"
  shows "\<exists>calls. run_container_child kind_host rootfs vols s = (Inr (), calls)"
proof -
  obtain a where a: "start_child kind_host rootfs s = (Inr (), a)"
    using assms(1) by (auto simp: start_child_def kind_host_def always_def checked_def contains_char_def)
  have v: "\<exists>l. bind_volume kind_host [] rootfs m = (Inr (), l)" for m
    by (simp add: bind_volume_def guarded_mount_def kind_host_def always_def)
  have w: "\<exists>l. mount_spec_entry kind_host [] rootfs m = (Inr (), l)" for m
    by (simp add: mount_spec_entry_def guarded_mount_def kind_host_def always_def)
  obtain v' where v': "each_in_turn (map (bind_volume kind_host [] rootfs) vols) = (Inr (), v')"
    using each_in_turn_always [of vols "bind_volume kind_host [] rootfs"] v by blast
  obtain w' where w': "each_in_turn (map (mount_spec_entry kind_host [] rootfs) (sp_mounts s)) = (Inr (), w')"
    using each_in_turn_always [of "sp_mounts s" "mount_spec_entry kind_host [] rootfs"] w by blast
  have "lh_canonical kind_host rootfs = Some []" by (simp add: kind_host_def)
  then have m: "container_mounts kind_host rootfs vols s = (Inr (), v' @ w')"
    by (simp add: container_mounts_def v' w')
  obtain e where e: "enter_root kind_host rootfs = (Inr (), e)"
    by (simp add: enter_root_def kind_host_def always_def checked_def Let_def)
  obtain k where "set_vars (env_pairs (pr_env (sp_process s))) = (Inr (), k)"
    using set_vars_settable [OF assms(4)] by blast
  then obtain p where p: "process_env kind_host s = (Inr (), p)"
    by (simp add: process_env_def always_def Let_def)
  obtain x where x: "execute kind_host (pr_args (sp_process s)) = (Inr (), x)"
    using assms(2,3) by (cases "pr_args (sp_process s)") (auto simp: execute_def kind_host_def checked_def)
  show ?thesis by (simp add: run_container_child_def a m e p x) (simp add: always_def)
qed

lemma plain_run_spec:
  "\<exists>s fs. run_spec io h arch None cf bare_options lim = (Inr s, fs) \<and>
     sp_hostname s = Some ''boxr-container'' \<and> pr_args (sp_process s) = [''/bin/sh''] \<and>
     pr_env (sp_process s) = base_env"
proof -
  have env: "default_env None None = base_env" by (simp add: default_env_def)
  show ?thesis
    by (simp add: run_spec_def bare_options_def combined_env_def process_spec_def optional_def bridge_mode
        bundle_files_def json_file_def identity_spec_def group_ids_def map_filter_simps run_annotations_def new_default_def
        default_args_def nonempty_def normalize_env_def env Let_def windows_spec_of_def security_spec_def
        add_default_seccomp_def apply_capabilities_and_security_def push_mounts_def with_namespaces_def
        apply_namespace_to_linux_def default_linux_def split: prod.splits)
qed

lemma base_env_settable: "list_all settable (env_pairs base_env)"
  by (simp add: env_pairs_def base_env_def map_filter_simps settable_def nul_char)


theorem refused_restrictions_ignored_witness:
  "fst (run_container_child (kind_host\<lparr>lh_accepts := (\<lambda>c. c \<noteq> Set_uid 1000)\<rparr>) ''/r'' []
     ((new_default None None None)\<lparr>sp_process := (sp_process (new_default None None None))
        \<lparr>pr_user := \<lparr>u_uid = 1000, u_gid = 0, u_additional_gids = None, u_username = None\<rparr>\<rparr>\<rparr>)) = Inr ()"
proof -
  let ?s = "(new_default None None None)\<lparr>sp_process := (sp_process (new_default None None None))
        \<lparr>pr_user := \<lparr>u_uid = 1000, u_gid = 0, u_additional_gids = None, u_username = None\<rparr>\<rparr>\<rparr>"
  have "Set_uid 1000 \<in> set (restrict_process ?s)" by (simp add: restrict_process_def Let_def)
  then have "run_container_child (kind_host\<lparr>lh_accepts := (\<lambda>c. c \<noteq> Set_uid 1000)\<rparr>) ''/r'' [] ?s =
      run_container_child kind_host ''/r'' [] ?s"
    by (intro refused_restrictions_ignored) (auto simp: kind_host_def)
  moreover have "\<exists>calls. run_container_child kind_host ''/r'' [] ?s = (Inr (), calls)"
    using base_env_settable by (intro kind_child) (auto simp: new_default_def default_args_def default_env_def nul_char)
  ultimately show ?thesis by auto
qed

theorem shm_size_has_no_effect_witness:
  "run_container_child kind_host ''/r'' [] ((new_default None None None)\<lparr>sp_mounts := set_shm_size ''1g'' default_mounts\<rparr>) =
   run_container_child kind_host ''/r'' [] (new_default None None None)"
  using shm_size_has_no_effect [of "new_default None None None" "[]" kind_host "''/r''" "[]" "''1g''"]
  by (simp add: new_default_def)

lemma each_in_turn_Inr: "each_in_turn ss = (Inr u, l) \<Longrightarrow> s \<in> set ss \<Longrightarrow> \<exists>m. s = (Inr (), m) \<and> set m \<subseteq> set l"
  by (induction ss arbitrary: l) (fastforce simp: and_then_Inr_iff)+

lemma guarded_mount_Inr:
  "guarded_mount h root rootfs dest calls = (Inr u, l) \<Longrightarrow> lh_canonical h (mount_target rootfs dest) = Some t \<Longrightarrow>
     take (length root) t = root"
  by (auto simp: guarded_mount_def Let_def split: if_splits)

fun keeps_mounts :: "syscall \<Rightarrow> bool" where
  "keeps_mounts (Do_mount src t ty fl d) \<longleftrightarrow> t = ''/'' \<or> MS_REMOUNT \<notin> set fl"
| "keeps_mounts _ \<longleftrightarrow> True"

lemma setup_keeps_mounts: "setup_call c \<Longrightarrow> keeps_mounts c"
  by (cases c) auto

lemma restrict_keeps_mounts: "list_all keeps_mounts (restrict_process s)"
proof -
  have "list_all keeps_mounts (drop_bounding b)" for b
    by (auto simp: list_all_iff dest: drop_bounding_only)
  then show ?thesis by (simp add: restrict_process_def Let_def split: option.splits)
qed

text \<open>
  C21. A container only starts when the destination of every volume, resolved through the links of
  the image, lies in its root file system; each volume is then mounted by one call, and no call
  changes an existing mount but that of the root: the kernel, which takes no read-only flag in
  the call that binds, is never asked to make a volume read-only afterwards.
\<close>

theorem volumes_bound_once_inside:
  assumes "run_container_child h rootfs vols s = (Inr (), calls)" and "m \<in> set vols"
  shows "volume_call rootfs m \<in> set calls \<and>
    (\<exists>root. lh_canonical h rootfs = Some root \<and>
       (\<forall>t. lh_canonical h (mount_target rootfs (m_destination m)) = Some t \<longrightarrow> take (length root) t = root)) \<and>
    list_all keeps_mounts calls"
proof (intro conjI)
  have "\<exists>l. container_mounts h rootfs vols s = (Inr (), l) \<and> set l \<subseteq> set calls"
    by (rule each_in_turn_Inr [OF assms(1) [unfolded run_container_child_def]]) simp
  then obtain l root where l: "container_mounts h rootfs vols s = (Inr (), l)" "set l \<subseteq> set calls"
    and root: "lh_canonical h rootfs = Some root"
    by (auto simp: container_mounts_def split: option.splits)
  then obtain l1 l2 where v: "each_in_turn (map (bind_volume h root rootfs) vols) = (Inr (), l1)" and l12: "l = l1 @ l2"
    by (auto simp: container_mounts_def and_then_Inr_iff)
  obtain k where k: "bind_volume h root rootfs m = (Inr (), k)" "set k \<subseteq> set l1"
    using each_in_turn_Inr [OF v, of "bind_volume h root rootfs m"] assms(2) by auto
  have "volume_call rootfs m \<in> set k"
    using k(1) by (auto simp: bind_volume_def guarded_mount_def always_def Let_def split: option.splits if_splits)
  then show "volume_call rootfs m \<in> set calls" using k(2) l12 l(2) by auto
  show "\<exists>root. lh_canonical h rootfs = Some root \<and>
       (\<forall>t. lh_canonical h (mount_target rootfs (m_destination m)) = Some t \<longrightarrow> take (length root) t = root)"
    using root k(1) guarded_mount_Inr by (auto simp: bind_volume_def)
  show "list_all keeps_mounts calls"
    using child_ends_with [OF assms(1)] restrict_keeps_mounts [of s] setup_keeps_mounts
    by (auto simp: list_all_iff)
qed

theorem volumes_bound_once_inside_witness:
  "\<exists>calls. run_container_child kind_host ''/r'' [\<lparr>m_source = ''/data'', m_destination = ''/d'', m_read_only = True,
       m_is_volume = False\<rparr>] (new_default None None None) = (Inr (), calls) \<and>
     Do_mount (Some ''/data'') ''/r/d'' None [MS_BIND, MS_REC, MS_RDONLY] None \<in> set calls"
proof -
  let ?m = "\<lparr>m_source = ''/data'', m_destination = ''/d'', m_read_only = True, m_is_volume = False\<rparr>"
  obtain calls where c: "run_container_child kind_host ''/r'' [?m] (new_default None None None) = (Inr (), calls)"
    using kind_child [of "new_default None None None" "''/r''" "[?m]"] base_env_settable
    by (auto simp: new_default_def default_args_def default_env_def nul_char)
  have "volume_call ''/r'' ?m \<in> set calls" using volumes_bound_once_inside [OF c] by simp
  with c show ?thesis by (simp add: volume_call_def mount_target_def in_root_def trim_start_by_def)
qed

section \<open>exec\<close>

record exec_host =
  eh_read :: "str \<Rightarrow> str option"
  eh_children :: "int \<Rightarrow> str option"
  eh_alive :: "int \<Rightarrow> bool"
  eh_same_userns :: "int \<Rightarrow> bool"

definition exec_target :: "exec_host \<Rightarrow> int option" where
  "exec_target h =
     or_else (Option.bind (eh_read h ''container.pid'') (\<lambda>s. parse_signed 32 (trim s)))
       (Option.bind (Option.bind (eh_read h ''vm.pid'') (\<lambda>s. parse_signed 32 (trim s))) (\<lambda>pid.
          case eh_children h pid of
            Some cs \<Rightarrow> (case split_whitespace cs of c # _ \<Rightarrow> parse_signed 32 c | [] \<Rightarrow> Some pid)
          | None \<Rightarrow> Some pid))"

definition nsenter_args :: "exec_host \<Rightarrow> int \<Rightarrow> str list \<Rightarrow> str option \<Rightarrow> str option \<Rightarrow> str list" where
  "nsenter_args h pid command workdir user =
     [''-t'', show_int pid] @ (if eh_same_userns h pid then [] else [''-U'']) @
     [''-m'', ''-p'', ''-u'', ''--preserve-credentials''] @
     (case workdir of Some w \<Rightarrow> [''--wd='' @ w] | None \<Rightarrow> []) @
     (case Option.bind user (parse_unsigned 32) of
        Some u \<Rightarrow> [''--setuid'', show_nat u, ''--setgid'', show_nat u] | None \<Rightarrow> []) @
     [''--''] @ command"

definition exec_in_bundle ::
  "exec_host \<Rightarrow> str list \<Rightarrow> str list \<Rightarrow> str option \<Rightarrow> str option \<Rightarrow> (str list \<times> (str \<times> str) list) res" where
  "exec_in_bundle h command env workdir user =
     (case exec_target h of
        Some p \<Rightarrow> if eh_alive h p then Inr (nsenter_args h p command workdir user, env_pairs env)
                  else Inl (Not_running [])
      | None \<Rightarrow> Inl (Not_running []))"

text \<open>
  A command executed in a container joins its mount, process and host-name namespaces but
  neither its network nor its IPC namespace, and a user given by name is left out.
\<close>

lemma exec_stays_in_host_network:
  assumes "exec_in_bundle h command env workdir user = Inr (args, kvs)"
  shows "\<exists>opts. args = opts @ ''--'' # command \<and> ''-n'' \<notin> set opts \<and> ''-i'' \<notin> set opts \<and>
    (Option.bind user (parse_unsigned 32) = None \<longrightarrow> ''--setuid'' \<notin> set opts)"
proof -
  obtain p where a: "args = nsenter_args h p command workdir user"
    using assms by (auto simp: exec_in_bundle_def split: option.splits if_splits)
  have sn: "show_nat u \<noteq> x" if "\<not> list_all is_ascii_digit x" for u x
    using that show_nat_digits [of _ u] by (auto simp: list_all_iff)
  have digits: "show_int p \<noteq> ''-n'' \<and> show_int p \<noteq> ''-i'' \<and> show_int p \<noteq> ''--setuid'' \<and>
      show_nat u \<noteq> ''-n'' \<and> show_nat u \<noteq> ''-i'' \<and> ''-n'' \<noteq> show_nat u \<and> ''-i'' \<noteq> show_nat u" for u
    using sn [of "''-n''" u, THEN not_sym] sn [of "''-i''" u, THEN not_sym]
    by (auto simp: show_int_def sn is_ascii_digit_def ord_def)
  show ?thesis
    unfolding a nsenter_args_def using digits
    by (intro exI [of _ "[''-t'', show_int p] @ (if eh_same_userns h p then [] else [''-U'']) @
     [''-m'', ''-p'', ''-u'', ''--preserve-credentials''] @
     (case workdir of Some w \<Rightarrow> [''--wd='' @ w] | None \<Rightarrow> []) @
     (case Option.bind user (parse_unsigned 32) of
        Some u \<Rightarrow> [''--setuid'', show_nat u, ''--setgid'', show_nat u] | None \<Rightarrow> [])"])
      (auto split: option.splits if_splits)
qed

end
