(* ===== verification/Run_Command.thy ===== *)
theory Run_Command
  imports Linux_Runtime Guardrails Health Network_Store
begin

text \<open>
  The commands \<open>run\<close> (\<open>run_container\<close>) and \<open>create\<close> (\<open>create_only_container\<close>) of \<open>src/lib.rs\<close>, from
  the options to the records, files and executions they leave. The indexes they use are the
  state; everything else they do is recorded as a list of effects. What the host answers is an
  argument: the registry, the id that is drawn, whether directories can be made, how the
  program ends, and what making a pod's infra container does.
\<close>

section \<open>Commands over the indexes\<close>

record run_world =
  rw_images :: image_file
  rw_containers :: container_file
  rw_volumes :: volume_file
  rw_pods :: pod_file

datatype run_effect =
    Make_bundle str
  | Make_cow_layer str str
  | Cgroup_writes writes
  | Bundle_text str str str
  | Write_cidfile str str
  | Save_config str oci_spec
  | Record_container_event str str
  | Start_bundle str "mount_spec list" "port_mapping list" bool
  | Forward_ports "port_mapping list"
  | Drop_layers str
  | Drop_bundle str
  | Clean_bundle "effect list"

type_synonym 'a cmd = "run_world \<Rightarrow> 'a res \<times> run_world \<times> run_effect list"

definition give :: "'a \<Rightarrow> 'a cmd" where
  "give a w = (Inr a, w, [])"

definition from_res :: "'a res \<Rightarrow> 'a cmd" where
  "from_res r w = (r, w, [])"

definition emit :: "run_effect list \<Rightarrow> unit cmd" where
  "emit es w = (Inr (), w, es)"

definition require :: "bool \<Rightarrow> error \<Rightarrow> unit cmd" where
  "require b e w = (if b then Inr () else Inl e, w, [])"

definition follow :: "'a cmd \<Rightarrow> ('a \<Rightarrow> 'b cmd) \<Rightarrow> 'b cmd" where
  "follow c f w =
     (case c w of
        (Inl e, w', es) \<Rightarrow> (Inl e, w', es)
      | (Inr a, w', es) \<Rightarrow> (case f a w' of (r, w'', es') \<Rightarrow> (r, w'', es @ es')))"

definition on_containers :: "(container_file \<Rightarrow> 'a res \<times> container_file) \<Rightarrow> 'a cmd" where
  "on_containers f w = (case f (rw_containers w) of (r, cf) \<Rightarrow> (r, w\<lparr>rw_containers := cf\<rparr>, []))"

definition on_volumes :: "(volume_file \<Rightarrow> 'a res \<times> volume_file) \<Rightarrow> 'a cmd" where
  "on_volumes f w = (case f (rw_volumes w) of (r, vf) \<Rightarrow> (r, w\<lparr>rw_volumes := vf\<rparr>, []))"

definition on_pods :: "(pod_file \<Rightarrow> 'a res \<times> pod_file) \<Rightarrow> 'a cmd" where
  "on_pods f w = (case f (rw_pods w) of (r, pf) \<Rightarrow> (r, w\<lparr>rw_pods := pf\<rparr>, []))"

definition on_images :: "(image_file \<Rightarrow> 'a res \<times> image_file) \<Rightarrow> 'a cmd" where
  "on_images f w = (case f (rw_images w) of (r, f') \<Rightarrow> (r, w\<lparr>rw_images := f'\<rparr>, []))"

definition inspect :: "(run_world \<Rightarrow> 'a) \<Rightarrow> 'a cmd" where
  "inspect f w = (Inr (f w), w, [])"

text \<open>\<open>let _ = ...\<close>: the state changes, a failure is ignored.\<close>

definition ignoring :: "'a cmd \<Rightarrow> unit cmd" where
  "ignoring c w = (case c w of (r, w', es) \<Rightarrow> (Inr (), w', es))"

record run_host =
  rh_io :: io
  rh_arch :: str
  rh_exists :: "str \<Rightarrow> bool"
  rh_manifest_layers :: "str \<Rightarrow> nat option"
  rh_pull :: "str \<Rightarrow> str option \<Rightarrow> image_file \<Rightarrow> image_record res \<times> image_file"
  rh_vol :: vol_host
  rh_vol_id :: "nat \<Rightarrow> str"
  rh_now :: int
  rh_id :: str
  rh_infra :: "pod \<Rightarrow> str cmd"
  rh_home :: str
  rh_mkdir :: bool
  rh_cow :: bool
  rh_cgroup :: bool
  rh_pid_at :: "str \<Rightarrow> str option"
  rh_getenv :: "str \<Rightarrow> str option"
  rh_read :: "str \<Rightarrow> str option"
  rh_parse_cpus :: "str \<Rightarrow> (int \<times> nat) res"
  rh_pasta :: bool
  rh_read_spec :: "str \<Rightarrow> oci_spec option"
  rh_cid :: bool
  rh_save :: bool
  rh_exec :: "u32 \<Rightarrow> int res"
  rh_vm_pid :: "str option"
  rh_vm_pid_exists :: bool
  rh_pid_alive :: "int \<Rightarrow> bool"
  rh_ports_ready :: bool
  rh_probe :: "int res"
  rh_bundle :: bundle_host

section \<open>Finding the image\<close>

definition validate_image_record :: "run_host \<Rightarrow> image_record \<Rightarrow> bool" where
  "validate_image_record h r =
     (rh_exists h (i_rootfs_path r) \<and>
      (case Option.bind (Option.bind (g_config (i_config r)) x_entrypoint) (\<lambda>es. case es of [] \<Rightarrow> None | e # _ \<Rightarrow> Some e) of
         Some ep \<Rightarrow> entrypoint_exists (rh_exists h) (i_rootfs_path r) ep | None \<Rightarrow> True) \<and>
      (case g_rootfs (i_config r) of
         Some fs \<Rightarrow> (case rh_manifest_layers h (i_rootfs_path r) of
             Some n \<Rightarrow> n = length (diff_ids fs) | None \<Rightarrow> True)
       | None \<Rightarrow> True))"

definition local_or_pulled :: "run_host \<Rightarrow> run_options \<Rightarrow> image_record cmd" where
  "local_or_pulled h opts =
     on_images (\<lambda>f. case find_with_platform (rh_io h) (rh_arch h) (o_image opts) (o_platform opts) f of
         Some r \<Rightarrow> if validate_image_record h r then (Inr r, f) else rh_pull h (o_image opts) (o_platform opts) f
       | None \<Rightarrow> rh_pull h (o_image opts) (o_platform opts) f)"

section \<open>What both commands check\<close>

definition restart_flag :: "run_options \<Rightarrow> restart_policy res" where
  "restart_flag opts =
     bind_res (parse_restart_policy (o_restart opts)) (\<lambda>p.
       if o_rm opts \<and> p \<noteq> No then Inl (Invalid_spec ''--restart and --rm'') else Inr p)"

definition check_flags :: "run_options \<Rightarrow> unit res" where
  "check_flags opts =
     bind_res (optional (o_pull opts) validate_pull_option) (\<lambda>_.
     bind_res (optional (o_health_interval opts) (\<lambda>v. parse_duration_flag v ''--health-interval'')) (\<lambda>_.
     bind_res (optional (o_health_timeout opts) (\<lambda>v. parse_duration_flag v ''--health-timeout'')) (\<lambda>_. Inr ())))"

fun resolve_all ::
  "io \<Rightarrow> vol_host \<Rightarrow> (nat \<Rightarrow> str) \<Rightarrow> int \<Rightarrow> nat \<Rightarrow> str list \<Rightarrow> volume_file \<Rightarrow> mount_spec list res \<times> volume_file" where
  "resolve_all io h ids now n [] f = (Inr [], f)"
| "resolve_all io h ids now n (v # vs) f =
     (case resolve_mount io h (ids n) now v f of
        (Inl e, f') \<Rightarrow> (Inl e, f')
      | (Inr m, f') \<Rightarrow> (case resolve_all io h ids now (Suc n) vs f' of
          (Inl e, f'') \<Rightarrow> (Inl e, f'') | (Inr ms, f'') \<Rightarrow> (Inr (m # ms), f'')))"

definition container_name_for :: "run_host \<Rightarrow> run_options \<Rightarrow> str" where
  "container_name_for h opts = unwrap_or (o_name opts) (''boxr-'' @ take 6 (rh_id h))"

definition bundle_dir :: "run_host \<Rightarrow> str" where
  "bundle_dir h = rh_home h @ ''/containers/'' @ rh_id h"

definition pod_options :: "pod \<Rightarrow> str \<Rightarrow> run_options \<Rightarrow> run_options" where
  "pod_options p infra a =
     (let n = apply_pod_to_run_args p infra
        \<lparr>na_network = o_network a, na_ipc = o_ipc a, na_uts = o_uts a, na_pid = o_pid a,
         na_hostname = o_hostname a, na_dns = o_dns a, na_memory = o_memory a, na_cpus = o_cpus a,
         na_labels = o_labels a\<rparr>
      in a\<lparr>o_network := na_network n, o_ipc := na_ipc n, o_uts := na_uts n, o_pid := na_pid n,
           o_hostname := na_hostname n, o_dns := na_dns n, o_memory := na_memory n, o_cpus := na_cpus n,
           o_labels := na_labels n\<rparr>)"

definition join_pod :: "run_host \<Rightarrow> run_options \<Rightarrow> run_options cmd" where
  "join_pod h opts =
     (case o_pod opts of
        None \<Rightarrow> give opts
      | Some q \<Rightarrow>
          follow (inspect (\<lambda>w. pod_find (rh_io h) q (rw_pods w))) (\<lambda>found. case found of
              None \<Rightarrow> from_res (Inl (Not_found q))
            | Some p \<Rightarrow> follow (rh_infra h p) (\<lambda>infra. give (pod_options p infra opts))))"

definition spec_host_of :: "run_host \<Rightarrow> container_file \<Rightarrow> spec_host" where
  "spec_host_of h cf =
     \<lparr>sh_getenv = rh_getenv h, sh_read = rh_read h, sh_parse_cpus = rh_parse_cpus h, sh_pasta = rh_pasta h,
      sh_resolve = resolve_namespace_spec (rh_io h) (rh_pid_at h) cf, sh_read_spec = rh_read_spec h\<rparr>"

definition make_layers :: "run_host \<Rightarrow> image_record \<Rightarrow> unit cmd" where
  "make_layers h img =
     follow (require (rh_mkdir h) Io_failed) (\<lambda>_.
     follow (emit [Make_bundle (bundle_dir h)]) (\<lambda>_.
     follow (require (rh_cow h) Io_failed) (\<lambda>_.
     emit [Make_cow_layer (bundle_dir h) (i_rootfs_path img)])))"

definition write_files :: "run_host \<Rightarrow> (str \<times> str) list \<Rightarrow> unit cmd" where
  "write_files h fs = emit (map (\<lambda>(f, c). Bundle_text (bundle_dir h) f c) fs)"

definition with_files :: "run_host \<Rightarrow> 'a res \<times> (str \<times> str) list \<Rightarrow> 'a cmd" where
  "with_files h x = follow (write_files h (snd x)) (\<lambda>_. from_res (fst x))"

definition save_bundle :: "run_host \<Rightarrow> run_options \<Rightarrow> oci_spec \<Rightarrow> unit cmd" where
  "save_bundle h opts s =
     follow (case o_cidfile opts of
         None \<Rightarrow> give ()
       | Some p \<Rightarrow> follow (require (rh_cid h) Io_failed) (\<lambda>_. emit [Write_cidfile p (rh_id h)])) (\<lambda>_.
     follow (require (rh_save h) Io_failed) (\<lambda>_.
     emit [Save_config (bundle_dir h) s]))"

definition health_config_of :: "run_options \<Rightarrow> health_config" where
  "health_config_of opts =
     (if o_no_healthcheck opts then default_health_config
      else case o_health_cmd opts of
        Some cmd \<Rightarrow> default_health_config\<lparr>health_test := split_whitespace cmd\<rparr>
      | None \<Rightarrow> default_health_config)"

definition new_record ::
  "run_host \<Rightarrow> run_options \<Rightarrow> str \<Rightarrow> image_record \<Rightarrow> restart_policy \<Rightarrow> port_mapping list \<Rightarrow> oci_spec \<Rightarrow>
     container_status \<Rightarrow> container" where
  "new_record h opts name img policy ports s st =
     \<lparr>c_id = rh_id h, c_name = name, c_image = i_reference img @ '':'' @ i_tag img,
      c_command = pr_args (sp_process s), c_created_at = rh_now h, c_status = st,
      c_bundle_path = bundle_dir h, c_restart_policy = policy,
      c_health_status = (if health_test (health_config_of opts) = [] then Health_None else Starting),
      c_restart_count = 0, c_ports = ports, c_exposed_ports = o_expose opts\<rparr>"

section \<open>run\<close>

record prepared =
  pp_image :: image_record
  pp_policy :: restart_policy
  pp_ports :: "port_mapping list"
  pp_mounts :: "mount_spec list"
  pp_name :: str
  pp_options :: run_options
  pp_spec :: oci_spec

text \<open>Up to the saved bundle: nothing is in the container index yet.\<close>

definition prepare_run :: "run_host \<Rightarrow> run_options \<Rightarrow> prepared cmd" where
  "prepare_run h opts =
     follow (from_res (restart_flag opts)) (\<lambda>policy.
     follow (local_or_pulled h opts) (\<lambda>img.
     follow (from_res (check_flags opts)) (\<lambda>_.
     follow (from_res (parse_ports (o_ports opts))) (\<lambda>ports.
     follow (inspect (\<lambda>w. list_locked (rh_io h) (rw_containers w))) (\<lambda>cs.
     follow (from_res (ensure_no_conflicts ports cs)) (\<lambda>_.
     follow (on_volumes (resolve_all (rh_io h) (rh_vol h) (rh_vol_id h) (rh_now h) 0 (o_volumes opts))) (\<lambda>mounts.
     follow (join_pod h opts) (\<lambda>opts'.
     follow (make_layers h img) (\<lambda>_.
     follow (from_res (limits_of (rh_parse_cpus h) opts')) (\<lambda>lim.
     follow (emit [Cgroup_writes (apply_limits (rh_cgroup h) lim)]) (\<lambda>_.
     follow (inspect rw_containers) (\<lambda>cf.
     follow (with_files h (run_spec (rh_io h) (spec_host_of h cf) (g_architecture (i_config img)) (g_config (i_config img))
       cf opts' lim)) (\<lambda>s.
     follow (save_bundle h opts' s) (\<lambda>_.
     give \<lparr>pp_image = img, pp_policy = policy, pp_ports = ports, pp_mounts = mounts,
           pp_name = container_name_for h opts, pp_options = opts', pp_spec = s\<rparr>))))))))))))))"

text \<open>The \<open>create\<close> event is recorded before the index accepts the container.\<close>

definition register :: "run_host \<Rightarrow> prepared \<Rightarrow> unit cmd" where
  "register h p =
     follow (emit [Record_container_event ''create'' (rh_id h)]) (\<lambda>_.
     follow (on_containers (container_add (rh_io h)
       (new_record h (pp_options p) (pp_name p) (pp_image p) (pp_policy p) (pp_ports p) (pp_spec p) Running))) (\<lambda>_.
     case o_pod (pp_options p) of
       None \<Rightarrow> give ()
     | Some q \<Rightarrow> ignoring (on_pods (add_container_to_pod (rh_io h) q (rh_id h)))))"

definition begin_run :: "run_host \<Rightarrow> run_options \<Rightarrow> prepared cmd" where
  "begin_run h opts = follow (prepare_run h opts) (\<lambda>p. follow (register h p) (\<lambda>_. give p))"

definition check_vm_pid :: "run_host \<Rightarrow> unit res" where
  "check_vm_pid h =
     (case rh_vm_pid h of
        Some s \<Rightarrow> (case parse_signed 32 (trim s) of
            Some pid \<Rightarrow> if rh_pid_alive h pid then Inr () else Inl Exec_failed | None \<Rightarrow> Inr ())
      | None \<Rightarrow> if rh_vm_pid_exists h then Inr () else Inl Exec_failed)"

definition finish_detached :: "run_host \<Rightarrow> prepared \<Rightarrow> int \<Rightarrow> int cmd" where
  "finish_detached h p code =
     follow (from_res (check_vm_pid h)) (\<lambda>_.
     follow (require (pp_ports p = [] \<or> rh_ports_ready h) Io_failed) (\<lambda>_.
     follow (if health_test (health_config_of (pp_options p)) = [] then give ()
             else ignoring (on_containers (update_health_status (rh_io h) (rh_id h)
               (hr_status (snd (check_container_health (rh_probe h) (rh_now h) (health_config_of (pp_options p))
                 (default_health_result (rh_now h))))))))
       (\<lambda>_. give code)))"

definition remove_own_record :: "run_host \<Rightarrow> unit cmd" where
  "remove_own_record h w =
     (case container_remove (rh_io h) (rh_bundle h) (rh_id h) (rw_containers w) of
        (Inl e, f) \<Rightarrow> (Inr (), w\<lparr>rw_containers := f\<rparr>, [])
      | (Inr (c, es), f) \<Rightarrow> (Inr (), w\<lparr>rw_containers := f\<rparr>, [Clean_bundle es]))"

definition finish_attached :: "run_host \<Rightarrow> prepared \<Rightarrow> int \<Rightarrow> int cmd" where
  "finish_attached h p code =
     follow (emit [Record_container_event ''die'' (rh_id h)]) (\<lambda>_.
     follow (if o_rm (pp_options p)
             then follow (emit [Drop_layers (bundle_dir h)]) (\<lambda>_.
                  follow (remove_own_record h) (\<lambda>_.
                  emit [Drop_bundle (bundle_dir h)]))
             else ignoring (on_containers (update_status (rh_io h) (rh_id h) (Exited code))))
       (\<lambda>_. give code))"

definition after :: "run_effect list \<Rightarrow> 'a res \<times> run_world \<times> run_effect list \<Rightarrow> 'a res \<times> run_world \<times> run_effect list" where
  "after es r = (case r of (x, w, es') \<Rightarrow> (x, w, es @ es'))"

text \<open>
  An attached container is run again as its policy says; the fuel bounds the runs, \<open>None\<close> stands
  for a container that is still being restarted. The first start is recorded, not the later ones.
\<close>

definition run_container ::
  "nat \<Rightarrow> run_host \<Rightarrow> run_options \<Rightarrow> run_world \<Rightarrow> (int res \<times> run_world \<times> run_effect list) option" where
  "run_container fuel h opts w =
     (case begin_run h opts w of
        (Inl e, w', es) \<Rightarrow> Some (Inl e, w', es)
      | (Inr p, w', es) \<Rightarrow>
          let es = es @ (if o_detach opts \<and> pp_ports p \<noteq> [] then [Forward_ports (pp_ports p)] else []) @
                [Record_container_event ''start'' (rh_id h),
                 Start_bundle (bundle_dir h) (pp_mounts p) (pp_ports p) (o_detach opts)]
          in case rh_exec h 0 of
               Inl e \<Rightarrow> Some (Inl e, w', es)
             | Inr code \<Rightarrow>
                 if o_detach opts then Some (after es (finish_detached h p code w'))
                 else case restart_loop fuel (pp_policy p) (rh_exec h) 0 code of
                        None \<Rightarrow> None
                      | Some (Inl e) \<Rightarrow> Some (Inl e, w', es)
                      | Some (Inr (code', n)) \<Rightarrow> Some (after es (finish_attached h p code' w')))"

section \<open>create\<close>

definition known_network :: "io \<Rightarrow> str \<Rightarrow> network_file \<Rightarrow> bool" where
  "known_network io n f \<longleftrightarrow>
     n \<in> {''none'', ''host'', ''bridge'', ''auto'', ''default''} \<or> network_find io n f \<noteq> None"

definition create_only_container_impl :: "run_host \<Rightarrow> network_file \<Rightarrow> run_options \<Rightarrow> str cmd" where
  "create_only_container_impl h nets opts =
     follow (from_res (restart_flag opts)) (\<lambda>policy.
     follow (local_or_pulled h opts) (\<lambda>img.
     follow (from_res (check_flags opts)) (\<lambda>_.
     follow (require (known_network (rh_io h) (o_network opts) nets) (Not_found (o_network opts))) (\<lambda>_.
     follow (from_res (parse_ports (o_ports opts))) (\<lambda>ports.
     follow (on_volumes (resolve_all (rh_io h) (rh_vol h) (rh_vol_id h) (rh_now h) 0 (o_volumes opts))) (\<lambda>mounts.
     follow (make_layers h img) (\<lambda>_.
     follow (inspect rw_containers) (\<lambda>cf.
     follow (with_files h (create_spec (rh_io h) (spec_host_of h cf) (g_architecture (i_config img)) (g_config (i_config img))
       cf opts)) (\<lambda>(s, lim).
     follow (emit [Cgroup_writes (apply_limits (rh_cgroup h) lim)]) (\<lambda>_.
     follow (save_bundle h opts s) (\<lambda>_.
     follow (emit [Record_container_event ''create'' (rh_id h)]) (\<lambda>_.
     follow (on_containers (container_add (rh_io h)
       (new_record h opts (container_name_for h opts) img policy ports s Created))) (\<lambda>_.
     give (rh_id h))))))))))))))"

text \<open>\<open>create\<close> takes the namespaces of a pod but does not make the container a member of it.\<close>

definition create_only_container :: "run_host \<Rightarrow> network_file \<Rightarrow> run_options \<Rightarrow> str cmd" where
  "create_only_container h nets opts =
     follow (join_pod h opts) (\<lambda>opts'. create_only_container_impl h nets opts')"

section \<open>Rules for commands\<close>

text \<open>How a command succeeds, and what parts of the indexes it leaves alone.\<close>

lemma follow_Inr:
  "follow c f w = (Inr b, w', es) \<longleftrightarrow>
     (\<exists>a w1 es1 es2. c w = (Inr a, w1, es1) \<and> f a w1 = (Inr b, w', es2) \<and> es = es1 @ es2)"
  by (auto simp: follow_def split: prod.splits sum.splits)

lemma basic_Inr [simp]:
  "give a w = (Inr b, w', es) \<longleftrightarrow> b = a \<and> w' = w \<and> es = []"
  "from_res r w = (Inr b, w', es) \<longleftrightarrow> r = Inr b \<and> w' = w \<and> es = []"
  "emit l w = (Inr u, w', es) \<longleftrightarrow> w' = w \<and> es = l"
  "require c e w = (Inr u, w', es) \<longleftrightarrow> c \<and> w' = w \<and> es = []"
  "inspect g w = (Inr b, w', es) \<longleftrightarrow> b = g w \<and> w' = w \<and> es = []"
  by (auto simp: give_def from_res_def emit_def require_def inspect_def)

definition frames :: "(run_world \<Rightarrow> 'b) \<Rightarrow> 'a cmd \<Rightarrow> bool" where
  "frames g c \<longleftrightarrow> (\<forall>w. g (fst (snd (c w))) = g w)"

definition silent :: "'a cmd \<Rightarrow> bool" where
  "silent c \<longleftrightarrow> (\<forall>w. \<forall>d ms ps b. Start_bundle d ms ps b \<notin> set (snd (snd (c w))))"

named_theorems cmd_rules

lemma frames_follow [cmd_rules]: "frames g c \<Longrightarrow> (\<And>a. frames g (f a)) \<Longrightarrow> frames g (follow c f)"
proof (unfold frames_def, intro allI)
  fix w
  assume c: "\<forall>w. g (fst (snd (c w))) = g w" and f: "\<And>a. \<forall>w. g (fst (snd (f a w))) = g w"
  obtain r w1 es where r: "c w = (r, w1, es)" by (cases "c w")
  then have w1: "g w1 = g w" using c [rule_format, of w] by simp
  show "g (fst (snd (follow c f w))) = g w"
  proof (cases r)
    case (Inr a)
    then show ?thesis using r w1 f [of a, rule_format, of w1] by (cases "f a w1") (simp add: follow_def)
  qed (simp add: follow_def r w1)
qed

lemma silent_follow [cmd_rules]: "silent c \<Longrightarrow> (\<And>a. silent (f a)) \<Longrightarrow> silent (follow c f)"
proof (unfold silent_def, intro allI)
  fix w d ms ps b
  assume c: "\<forall>w d ms ps b. Start_bundle d ms ps b \<notin> set (snd (snd (c w)))"
    and f: "\<And>a. \<forall>w d ms ps b. Start_bundle d ms ps b \<notin> set (snd (snd (f a w)))"
  obtain r w1 es where r: "c w = (r, w1, es)" by (cases "c w")
  then have e: "Start_bundle d ms ps b \<notin> set es" using c [rule_format, where w = w] by simp
  show "Start_bundle d ms ps b \<notin> set (snd (snd (follow c f w)))"
  proof (cases r)
    case (Inr a)
    then show ?thesis using r e f [of a, rule_format, where w = w1] by (cases "f a w1") (simp add: follow_def)
  qed (simp add: follow_def r e)
qed

lemma frames_basic [cmd_rules]:
  "frames g (give a)" "frames g (from_res r)" "frames g (emit es)" "frames g (require b e)" "frames g (inspect i)"
  "frames rw_containers (on_volumes v)" "frames rw_containers (on_images m)" "frames rw_containers (on_pods q)"
  "frames rw_pods (on_volumes v)" "frames rw_pods (on_images m)" "frames rw_pods (on_containers k)"
  by (simp_all add: frames_def give_def from_res_def emit_def require_def inspect_def on_volumes_def
      on_images_def on_pods_def on_containers_def split: prod.splits)

lemma frames_ignoring [cmd_rules]: "frames g c \<Longrightarrow> frames g (ignoring c)"
  by (simp add: frames_def ignoring_def split: prod.splits) (metis fst_conv snd_conv)

lemma silent_basic [cmd_rules]:
  "silent (give a)" "silent (from_res r)" "silent (require b e)" "silent (inspect i)"
  "silent (on_volumes v)" "silent (on_images m)" "silent (on_pods q)" "silent (on_containers k)"
  by (simp_all add: silent_def give_def from_res_def require_def inspect_def on_volumes_def
      on_images_def on_pods_def on_containers_def split: prod.splits)

lemma silent_emit [cmd_rules]: "(\<And>d ms ps b. Start_bundle d ms ps b \<notin> set es) \<Longrightarrow> silent (emit es)"
  by (simp add: silent_def emit_def)

lemma silent_ignoring [cmd_rules]: "silent c \<Longrightarrow> silent (ignoring c)"
  by (simp add: silent_def ignoring_def split: prod.splits) (metis snd_conv)

lemma framesD: "frames g c \<Longrightarrow> c w = (r, w', es) \<Longrightarrow> g w' = g w"
  by (simp add: frames_def) (metis fst_conv snd_conv)

lemma silentD: "silent c \<Longrightarrow> c w = (r, w', es) \<Longrightarrow> Start_bundle d ms ps b \<notin> set es"
  by (simp add: silent_def) (metis snd_conv)

section \<open>Properties\<close>

lemma layers_frames [cmd_rules]:
  "frames g (make_layers h img)" "frames g (write_files h fs)" "frames g (save_bundle h opts s)"
  by (auto simp: make_layers_def write_files_def save_bundle_def intro!: cmd_rules split: option.splits)

lemma layers_silent [cmd_rules]:
  "silent (make_layers h img)" "silent (write_files h fs)" "silent (save_bundle h opts s)"
  "silent (local_or_pulled h opts)"
  by (auto simp: make_layers_def write_files_def save_bundle_def local_or_pulled_def intro!: cmd_rules split: option.splits)

lemma pulled_frames [cmd_rules]:
  "frames rw_containers (local_or_pulled h opts)" "frames rw_pods (local_or_pulled h opts)"
  by (simp_all add: local_or_pulled_def cmd_rules)

lemma with_files_Inr [simp]:
  "with_files h x w = (Inr b, w', es) \<longleftrightarrow>
     fst x = Inr b \<and> w' = w \<and> es = map (\<lambda>(f, c). Bundle_text (bundle_dir h) f c) (snd x)"
  by (auto simp: with_files_def follow_Inr write_files_def)

lemma with_files_rules [cmd_rules]: "frames g (with_files h x)" "silent (with_files h x)"
  by (auto simp: with_files_def intro!: cmd_rules)

lemma prepare_frames:
  assumes "o_pod opts = None"
  shows "frames rw_containers (prepare_run h opts)" and "silent (prepare_run h opts)"
  using assms by (auto simp: prepare_run_def join_pod_def intro!: cmd_rules layers_frames)

lemma prepare_run_parts:
  assumes "prepare_run h opts w = (Inr p, w', es)"
  shows "\<exists>arch img cf lim. fst (run_spec (rh_io h) (spec_host_of h cf) arch img cf (pp_options p) lim) = Inr (pp_spec p)"
    and "parse_ports (o_ports opts) = Inr (pp_ports p)" and "restart_flag opts = Inr (pp_policy p)"
proof -
  show "\<exists>arch img cf lim. fst (run_spec (rh_io h) (spec_host_of h cf) arch img cf (pp_options p) lim) = Inr (pp_spec p)"
    using assms unfolding prepare_run_def follow_Inr basic_Inr with_files_Inr by fastforce
  show "parse_ports (o_ports opts) = Inr (pp_ports p)"
    using assms unfolding prepare_run_def follow_Inr basic_Inr with_files_Inr by fastforce
  show "restart_flag opts = Inr (pp_policy p)"
    using assms unfolding prepare_run_def follow_Inr basic_Inr with_files_Inr by fastforce
qed

lemma join_pod_none: "o_pod opts = None \<Longrightarrow> join_pod h opts = give opts"
  by (simp add: join_pod_def)

lemma prepare_run_options:
  "prepare_run h opts w = (Inr p, w', es) \<Longrightarrow> o_pod opts = None \<Longrightarrow> pp_options p = opts \<and> pp_name p = container_name_for h opts"
  unfolding prepare_run_def follow_Inr basic_Inr with_files_Inr by (fastforce simp: join_pod_none)

text \<open>What is left in the index when the container is registered, and when that fails.\<close>

abbreviation started_record :: "run_host \<Rightarrow> prepared \<Rightarrow> container" where
  "started_record h p \<equiv>
     new_record h (pp_options p) (pp_name p) (pp_image p) (pp_policy p) (pp_ports p) (pp_spec p) Running"

lemma follow_Inl:
  "follow c f w = (Inl e, w', es) \<longleftrightarrow> c w = (Inl e, w', es) \<or>
     (\<exists>a w1 es1 es2. c w = (Inr a, w1, es1) \<and> f a w1 = (Inl e, w', es2) \<and> es = es1 @ es2)"
  by (auto simp: follow_def split: prod.splits sum.splits)

lemma basic_Inl [simp]:
  "give a w = (Inl e, w', es) \<longleftrightarrow> False"
  "from_res r w = (Inl e, w', es) \<longleftrightarrow> r = Inl e \<and> w' = w \<and> es = []"
  "emit l w = (Inl e, w', es) \<longleftrightarrow> False"
  "require c e0 w = (Inl e, w', es) \<longleftrightarrow> \<not> c \<and> e = e0 \<and> w' = w \<and> es = []"
  "inspect g w = (Inl e, w', es) \<longleftrightarrow> False"
  "ignoring c0 w = (Inl e, w', es) \<longleftrightarrow> False"
  by (auto simp: give_def from_res_def emit_def require_def inspect_def ignoring_def split: prod.splits)

lemma on_containers_result:
  "on_containers f w = (r, w', es) \<longleftrightarrow> fst (f (rw_containers w)) = r \<and>
     w' = w\<lparr>rw_containers := snd (f (rw_containers w))\<rparr> \<and> es = []"
  by (auto simp: on_containers_def split: prod.splits)

lemma register_Inl: "register h p w = (Inl e, w', es) \<Longrightarrow> rw_containers w' = rw_containers w"
  using container_failed(1) [of "rh_io h" "started_record h p" "rw_containers w" e "rw_containers w'"]
  by (cases "container_add (rh_io h) (started_record h p) (rw_containers w)")
    (auto simp: register_def follow_Inl on_containers_result split: option.splits)

lemma register_Inr:
  assumes "register h p w = (Inr u, w', es)"
  shows "container_add (rh_io h) (started_record h p) (rw_containers w) = (Inr (), rw_containers w')"
proof -
  obtain w1 es1 where a: "on_containers (container_add (rh_io h) (started_record h p)) w = (Inr (), w1, [])"
    and r: "(case o_pod (pp_options p) of None \<Rightarrow> give ()
      | Some q \<Rightarrow> ignoring (on_pods (add_container_to_pod (rh_io h) q (rh_id h)))) w1 = (Inr u, w', es1)"
    using assms by (auto simp: register_def follow_Inr on_containers_result)
  have "frames rw_containers (case o_pod (pp_options p) of None \<Rightarrow> give ()
      | Some q \<Rightarrow> ignoring (on_pods (add_container_to_pod (rh_io h) q (rh_id h))))"
    by (auto intro!: cmd_rules split: option.splits)
  from framesD [OF this r] show ?thesis using a by (auto simp: on_containers_result) (metis prod.collapse)
qed

lemma register_silent [cmd_rules]: "silent (register h p)"
  by (auto simp: register_def intro!: cmd_rules split: option.splits)

lemma begin_run_Inr:
  "begin_run h opts w = (Inr p, w', es) \<longleftrightarrow>
     (\<exists>w1 es1 es2. prepare_run h opts w = (Inr p, w1, es1) \<and> register h p w1 = (Inr (), w', es2) \<and> es = es1 @ es2)"
  by (auto simp: begin_run_def follow_Inr)

lemma begin_run_Inl:
  assumes "begin_run h opts w = (Inl e, w', es)" and "o_pod opts = None"
  shows "rw_containers w' = rw_containers w" and "Start_bundle d ms ps b \<notin> set es"
proof -
  have "silent (begin_run h opts)"
    unfolding begin_run_def using prepare_frames [OF assms(2)] by (auto intro!: cmd_rules)
  from silentD [OF this assms(1)] show "Start_bundle d ms ps b \<notin> set es" .
  show "rw_containers w' = rw_containers w"
    using assms(1) framesD [OF prepare_frames(1) [OF assms(2), of h]] unfolding begin_run_def follow_Inl
    by (auto dest: register_Inl)
qed

lemma finish_detached_Inl:
  "finish_detached h p code w = (Inl e, w', es) \<Longrightarrow> w' = w"
  by (auto simp: finish_detached_def follow_Inl split: if_splits)

lemma finish_attached_Inl [simp]: "finish_attached h p code w \<noteq> (Inl e, w', es)"
  by (auto simp: finish_attached_def follow_Inl remove_own_record_def split: if_splits prod.splits sum.splits)

text \<open>
  C22. A run outside a pod (no \<open>--pod\<close>) that fails leaves the container index as it was, unless the
  container had been started: then its record is there, marked as running, also when it was to be
  removed. A run with \<open>--pod\<close> is not covered: it may have made the pod's infra container before.
\<close>

theorem failed_run_trace:
  assumes "o_pod opts = None" and "run_container fuel h opts w = Some (Inl e, w', es)"
  shows "if \<exists>d ms ps b. Start_bundle d ms ps b \<in> set es
    then \<exists>c\<in>set (load_unlocked (rw_containers w')). c_id c = rh_id h \<and> c_status c = Running
    else rw_containers w' = rw_containers w"
proof (cases "begin_run h opts w")
  case (fields r w1 es1)
  show ?thesis
  proof (cases r)
    case (Inl e1)
    then show ?thesis using assms(2) fields begin_run_Inl [OF fields [unfolded Inl] assms(1)]
      by (auto simp: run_container_def)
  next
    case (Inr p)
    have "w' = w1" and "\<exists>d ms ps b. Start_bundle d ms ps b \<in> set es"
      using assms(2) unfolding run_container_def fields Inr
      by (auto simp: Let_def after_def finish_detached_Inl
          split: sum.splits if_splits option.splits prod.splits dest!: finish_detached_Inl) blast+
    moreover have "started_record h p \<in> set (load_unlocked (rw_containers w1))"
      using fields [unfolded Inr begin_run_Inr] by (auto dest!: register_Inr simp: container_add_Inr)
    ultimately show ?thesis
      by (auto intro!: bexI [where x = "started_record h p"] simp: new_record_def)
  qed
qed

lemma update_own:
  assumes "\<forall>c\<in>set cs. \<not> c_matches (c_id r) c"
  shows "filter (\<lambda>c. c_id c \<noteq> c_id r) cs = cs" and "find (c_matches (c_id r)) (cs @ [r]) = Some r"
    and "update_first (c_matches (c_id r)) g (cs @ [r]) = cs @ [g r]"
    and "position (c_matches (c_id r)) (cs @ [r]) = Some (length cs)"
  using assms by (induction cs) (auto simp: c_matches_def)

text \<open>
  C23. An attached run outside a pod (no \<open>--pod\<close>) that succeeds adds one record to the container
  index, with the exit code of the last run of the program and a restart count of 0, or, with
  \<open>--rm\<close>, leaves the index as it was. The id that was drawn is taken to match no container. A run
  with \<open>--pod\<close> is not covered: the first one in a pod records the infra container too.
\<close>

theorem attached_run_recorded:
  assumes "run_container fuel h opts w = Some (Inr code, w', es)" and "\<not> o_detach opts" and "o_pod opts = None"
    and "\<forall>c\<in>set (load_unlocked (rw_containers w)). \<not> c_matches (rh_id h) c"
    and "trim (rh_id h) = rh_id h" and "rh_id h \<noteq> []"
  shows "\<exists>r. load_unlocked (rw_containers w') =
      load_unlocked (rw_containers w) @ (if o_rm opts then [] else [r]) \<and>
    c_id r = rh_id h \<and> c_name r = container_name_for h opts \<and> c_status r = Exited code \<and>
    c_restart_count r = 0 \<and> c_bundle_path r = bundle_dir h \<and> restart_flag opts = Inr (c_restart_policy r)"
proof -
  obtain p w1 es1 es2 where b: "begin_run h opts w = (Inr p, w1, es1)"
    and f: "finish_attached h p code w1 = (Inr code, w', es2)"
    using assms(1,2) unfolding run_container_def
    by (auto simp: Let_def after_def finish_attached_def follow_Inr split: prod.splits sum.splits option.splits if_splits)
  obtain w0 es3 es4 where p: "prepare_run h opts w = (Inr p, w0, es3)" and r: "register h p w0 = (Inr (), w1, es4)"
    using b by (auto simp: begin_run_Inr)
  have w0: "rw_containers w0 = rw_containers w"
    using framesD [OF prepare_frames(1) [OF assms(3)] p] .
  have o: "pp_options p = opts" "pp_name p = container_name_for h opts" "restart_flag opts = Inr (pp_policy p)"
    using prepare_run_options [OF p assms(3)] prepare_run_parts [OF p] by simp_all
  let ?r = "started_record h p" and ?cs = "load_unlocked (rw_containers w)"
  have id: "c_id ?r = rh_id h" by (simp add: new_record_def)
  note own = update_own [of ?cs ?r, unfolded id, OF assms(4)]
  have w1: "rw_containers w1 = Records (?cs @ [?r])" and io: "lock_ok (rh_io h)" "save_ok (rh_io h)"
    using register_Inr [OF r] own(1) id w0 by (simp_all add: container_add_Inr)
  have "load_unlocked (rw_containers w') = ?cs @ (if o_rm opts then [] else [?r\<lparr>c_status := Exited code\<rparr>])"
  proof -
    have "container_remove (rh_io h) (rh_bundle h) (rh_id h) (rw_containers w1) =
        (Inr (?r, clean_bundle (rh_bundle h) (c_bundle_path ?r)), Records ?cs)"
      unfolding container_remove_Inr using w1 own io assms(5,6) by (simp add: remove_at_def)
    moreover have "update_status (rh_io h) (rh_id h) (Exited code) (rw_containers w1) =
        (Inr (), Records (?cs @ [?r\<lparr>c_status := Exited code\<rparr>]))"
      unfolding update_status_def change_first_Inr using w1 own io by simp
    ultimately show ?thesis using f o(1)
      by (auto simp: finish_attached_def follow_Inr ignoring_def on_containers_def remove_own_record_def)
  qed
  then show ?thesis using o
    by (intro exI [of _ "?r\<lparr>c_status := Exited code\<rparr>"]) (simp add: new_record_def)
qed

definition mount_sources :: "oci_spec \<Rightarrow> str list" where
  "mount_sources s = map mo_source (sp_mounts s)"

lemma run_mount_sources:
  assumes "run_spec io sh arch img cf opts lim = (Inr s, fs)"
    and "o_volumes_from opts = []" and "o_tmpfs opts = []" and "o_mount opts = []"
  shows "mount_sources s = [''proc'', ''tmpfs'', ''devpts'', ''shm'', ''sysfs'']"
proof -
  have d: "map mo_source default_mounts = [''proc'', ''tmpfs'', ''devpts'', ''shm'', ''sysfs'']"
    by (simp add: default_mounts_def mk_mount_def)
  have z: "map mo_source (when_some z set_shm_size ms) = map mo_source ms" for z ms
    by (cases z) (simp_all add: set_shm_size_def)
  from assms show ?thesis
    by (elim run_spec_parts) (simp add: mount_sources_def extra_mounts_def z d)
qed

text \<open>
  C24. A volume that containers mount with \<open>-v\<close> is not in use for \<open>volume prune\<close>: when all
  containers were run with such mounts only, the sources recorded for them are those of the
  five default mounts, and every volume is pruned whose name does not end one of these.
\<close>

theorem volumes_of_runs_pruned:
  assumes "\<forall>c\<in>set cs. \<exists>h opts w p w' es. prepare_run h opts w = (Inr p, w', es) \<and>
      o_volumes_from (pp_options p) = [] \<and> o_tmpfs (pp_options p) = [] \<and> o_mount (pp_options p) = [] \<and>
      mounts_of vh c = mount_sources (pp_spec p)"
    and "\<forall>src\<in>set [''proc'', ''tmpfs'', ''devpts'', ''shm'', ''sysfs'']. \<not> ends_with src (v_name v)"
    and "lock_ok io" and "save_ok io"
  shows "v \<notin> set (load_unlocked (snd (volume_prune io vh cs before f)))"
proof -
  have "mounts_of vh c = [''proc'', ''tmpfs'', ''devpts'', ''shm'', ''sysfs'']" if c: "c \<in> set cs" for c
  proof -
    obtain h opts w p w' es where p: "prepare_run h opts w = (Inr p, w', es)"
      and o: "o_volumes_from (pp_options p) = []" "o_tmpfs (pp_options p) = []" "o_mount (pp_options p) = []"
      and m: "mounts_of vh c = mount_sources (pp_spec p)"
      using assms(1) c by blast
    obtain arch img cf lim where "fst (run_spec (rh_io h) (spec_host_of h cf) arch img cf (pp_options p) lim) = Inr (pp_spec p)"
      using prepare_run_parts(1) [OF p] by blast
    then obtain fs where "run_spec (rh_io h) (spec_host_of h cf) arch img cf (pp_options p) lim = (Inr (pp_spec p), fs)"
      by (metis prod.collapse)
    from run_mount_sources [OF this o] m show ?thesis by simp
  qed
  moreover have "\<not> contains_str src (''volumes/'' @ n)" if "src \<in> set [''proc'', ''tmpfs'', ''devpts'', ''shm'', ''sysfs'']" for src n
    using that by (auto simp: starts_with_def)
  ultimately have "\<not> volume_in_use vh cs before (v_name v)"
    using assms(2) by (auto simp: volume_in_use_def prune_uses_def)
  then show ?thesis using assms(3,4)
    by (simp add: volume_prune_def prune_matching_def with_index_lock_def commit_def save_unlocked_def Let_def)
qed

section \<open>A sample run\<close>

definition run_image :: image_record where
  "run_image = sample_image ''aa'' ''x86_64'' ''latest''"

definition run_sample :: "(u32 \<Rightarrow> int res) \<Rightarrow> run_host" where
  "run_sample exec =
     \<lparr>rh_io = io_good, rh_arch = ''x86_64'', rh_exists = \<lambda>_. True, rh_manifest_layers = \<lambda>_. None,
      rh_pull = \<lambda>_ _ f. (Inr run_image, f),
      rh_vol = sample_host, rh_vol_id = \<lambda>_. ''v0'', rh_now = 7, rh_id = ''abcdef0123'', rh_infra = \<lambda>_. give ''x'',
      rh_home = ''/h'', rh_mkdir = True, rh_cow = True, rh_cgroup = False, rh_pid_at = \<lambda>_. None,
      rh_getenv = \<lambda>_. None, rh_read = \<lambda>_. None, rh_parse_cpus = \<lambda>_. Inr (1, 0), rh_pasta = False,
      rh_read_spec = \<lambda>_. None, rh_cid = True, rh_save = True, rh_exec = exec, rh_vm_pid = None,
      rh_vm_pid_exists = True, rh_pid_alive = \<lambda>_. True, rh_ports_ready = True, rh_probe = Inr 0,
      rh_bundle = \<lparr>bundle_exists = \<lambda>_. True, pid_text = \<lambda>_ _. None, still_alive = \<lambda>_. False\<rparr>\<rparr>"

definition run_world_sample :: run_world where
  "run_world_sample = \<lparr>rw_images = Missing, rw_containers = Missing, rw_volumes = Missing, rw_pods = Missing\<rparr>"

lemma no_policy: "parse_restart_policy ''no'' = Inr No"
  by code_simp

lemma bare_easy:
  "easy bare_options" "o_pod bare_options = None" "o_volumes bare_options = []" "o_cidfile bare_options = None"
  "restart_flag bare_options = Inr No" "check_flags bare_options = Inr ()" "o_detach bare_options = False"
  "o_rm bare_options = False" "o_ports bare_options = []" "o_name bare_options = None"
  "o_volumes_from bare_options = []" "o_tmpfs bare_options = []" "o_mount bare_options = []"
  by (simp_all add: easy_def bare_options_def restart_flag_def check_flags_def optional_def no_policy)

lemma sample_finds_no_image: "find_with_platform io_good arch q plat Missing = None"
  by (simp add: find_with_platform_def Let_def find_locked_def)

lemma sample_prepared:
  "\<exists>p es. prepare_run (run_sample ex) bare_options run_world_sample = (Inr p, run_world_sample, es) \<and>
     pp_name p = ''boxr-abcdef'' \<and> pp_ports p = [] \<and> pp_policy p = No \<and> pp_options p = bare_options"
proof -
  have l: "limits_of pc bare_options = Inr no_limits" for pc
    by (simp add: limits_of_def bare_options_def memory_flag_def optional_def no_limits_def)
  have n: "container_name_for (run_sample ex) bare_options = ''boxr-abcdef''"
    by (simp add: container_name_for_def bare_easy run_sample_def)
  obtain s fs where r: "run_spec io_good (spec_host_of (run_sample ex) Missing) ''x86_64'' None Missing bare_options no_limits = (Inr s, fs)"
    using easy_specs(1) [OF bare_easy(1)] by blast
  have w: "rw_images run_world_sample = Missing" "rw_containers run_world_sample = Missing" "rw_volumes run_world_sample = Missing"
    "run_world_sample\<lparr>rw_images := Missing\<rparr> = run_world_sample" "run_world_sample\<lparr>rw_volumes := Missing\<rparr> = run_world_sample"
    by (simp_all add: run_world_sample_def)
  have h: "rh_io (run_sample ex) = io_good" "rh_mkdir (run_sample ex)" "rh_cow (run_sample ex)" "rh_save (run_sample ex)"
    "rh_pull (run_sample ex) a b f = (Inr run_image, f)" for a b f
    by (simp_all add: run_sample_def)
  have i: "g_architecture (i_config run_image) = ''x86_64''" "g_config (i_config run_image) = None"
    by (simp_all add: run_image_def sample_image_def)
  show ?thesis
    by (simp add: prepare_run_def follow_def give_def from_res_def require_def emit_def inspect_def bare_easy l n r w h i
        local_or_pulled_def on_images_def on_volumes_def sample_finds_no_image parse_ports_def
        join_pod_def make_layers_def with_files_def write_files_def save_bundle_def)
qed

lemma sample_container_run:
  "\<exists>w' es. run_container 1 (run_sample (\<lambda>_. Inr 3)) bare_options run_world_sample = Some (Inr 3, w', es)"
  "\<exists>w' es. run_container 1 (run_sample (\<lambda>_. Inl Exec_failed)) bare_options run_world_sample = Some (Inl Exec_failed, w', es) \<and>
     (\<exists>d ms ps b. Start_bundle d ms ps b \<in> set es)"
proof -
  have b: "\<exists>p w1 es. begin_run (run_sample ex) bare_options run_world_sample = (Inr p, w1, es) \<and>
      pp_ports p = [] \<and> pp_policy p = No \<and> pp_options p = bare_options" for ex
  proof -
    obtain p es where p: "prepare_run (run_sample ex) bare_options run_world_sample = (Inr p, run_world_sample, es)"
      and q: "pp_name p = ''boxr-abcdef''" "pp_ports p = []" "pp_policy p = No" "pp_options p = bare_options"
      using sample_prepared by blast
    have v: "valid_container_name ''boxr-abcdef''" by code_simp
    have "container_add io_good (started_record (run_sample ex) p) Missing = (Inr (), Records [started_record (run_sample ex) p])"
      by (simp add: container_add_Inr new_record_def q v)
    then have r: "register (run_sample ex) p run_world_sample =
        (Inr (), run_world_sample\<lparr>rw_containers := Records [started_record (run_sample ex) p]\<rparr>,
         [Record_container_event ''create'' (rh_id (run_sample ex))])"
      by (simp add: register_def follow_def emit_def on_containers_def q bare_easy give_def run_world_sample_def run_sample_def)
    then show ?thesis by (simp add: begin_run_def follow_def p give_def q)
  qed
  have e: "rh_exec (run_sample ex) = ex" for ex by (simp add: run_sample_def)
  show "\<exists>w' es. run_container 1 (run_sample (\<lambda>_. Inl Exec_failed)) bare_options run_world_sample = Some (Inl Exec_failed, w', es) \<and>
     (\<exists>d ms ps b. Start_bundle d ms ps b \<in> set es)"
    using b [of "\<lambda>_. Inl Exec_failed"] by (elim exE conjE) (simp add: run_container_def e Let_def bare_easy, blast)
  show "\<exists>w' es. run_container 1 (run_sample (\<lambda>_. Inr 3)) bare_options run_world_sample = Some (Inr 3, w', es)"
    using b [of "\<lambda>_. Inr 3"]
    by (elim exE conjE) (simp add: run_container_def e Let_def bare_easy should_restart_def finish_attached_def
        follow_def emit_def ignoring_def after_def give_def split: prod.splits)
qed

theorem attached_run_recorded_witness:
  "\<exists>r w' es. run_container 1 (run_sample (\<lambda>_. Inr 3)) bare_options run_world_sample = Some (Inr 3, w', es) \<and>
     load_unlocked (rw_containers w') = [r] \<and> c_name r = ''boxr-abcdef'' \<and> c_status r = Exited 3"
proof -
  obtain w' es where r: "run_container 1 (run_sample (\<lambda>_. Inr 3)) bare_options run_world_sample = Some (Inr 3, w', es)"
    using sample_container_run(1) by blast
  have t: "trim (rh_id (run_sample (\<lambda>_. Inr 3))) = rh_id (run_sample (\<lambda>_. Inr 3))" "rh_id (run_sample (\<lambda>_. Inr 3)) \<noteq> []"
    by (simp add: run_sample_def, code_simp, simp add: run_sample_def)
  have n: "container_name_for (run_sample (\<lambda>_. Inr 3)) bare_options = ''boxr-abcdef''"
    by (simp add: container_name_for_def bare_easy run_sample_def)
  from attached_run_recorded [OF r _ _ _ t] r show ?thesis by (auto simp: bare_easy run_world_sample_def n)
qed

theorem failed_run_trace_witness:
  "\<exists>w' es. run_container 1 (run_sample (\<lambda>_. Inl Exec_failed)) bare_options run_world_sample =
      Some (Inl Exec_failed, w', es) \<and>
     (\<exists>c\<in>set (load_unlocked (rw_containers w')). c_id c = ''abcdef0123'' \<and> c_status c = Running)"
proof -
  obtain w' es where r: "run_container 1 (run_sample (\<lambda>_. Inl Exec_failed)) bare_options run_world_sample =
      Some (Inl Exec_failed, w', es)" and s: "\<exists>d ms ps b. Start_bundle d ms ps b \<in> set es"
    using sample_container_run(2) by blast
  have "rh_id (run_sample ex) = ''abcdef0123''" for ex by (simp add: run_sample_def)
  with failed_run_trace [OF bare_easy(2) r] r s show ?thesis by simp
qed

theorem volumes_of_runs_pruned_witness:
  "sample_volume ''db'' \<notin> set (load_unlocked (snd (volume_prune io_good (sample_host\<lparr>mounts_of :=
     \<lambda>_. [''proc'', ''tmpfs'', ''devpts'', ''shm'', ''sysfs'']\<rparr>) [sample_container ''c1'' ''web'']
     [sample_volume ''db''] (Records [sample_volume ''db'']))))"
proof -
  let ?vh = "sample_host\<lparr>mounts_of := \<lambda>_. [''proc'', ''tmpfs'', ''devpts'', ''shm'', ''sysfs'']\<rparr>"
  obtain p es where p: "prepare_run (run_sample (\<lambda>_. Inr 3)) bare_options run_world_sample = (Inr p, run_world_sample, es)"
    and q: "pp_options p = bare_options"
    using sample_prepared by blast
  obtain arch img cf lim where "fst (run_spec (rh_io (run_sample (\<lambda>_. Inr 3))) (spec_host_of (run_sample (\<lambda>_. Inr 3)) cf) arch img cf (pp_options p) lim) = Inr (pp_spec p)"
    using prepare_run_parts(1) [OF p] by blast
  then have "mount_sources (pp_spec p) = [''proc'', ''tmpfs'', ''devpts'', ''shm'', ''sysfs'']"
    using run_mount_sources [of _ _ _ _ _ "pp_options p" _ "pp_spec p"] by (metis prod.collapse q bare_easy(11-13))
  then have "\<forall>c\<in>set [sample_container ''c1'' ''web'']. \<exists>h opts w p w' es. prepare_run h opts w = (Inr p, w', es) \<and>
      o_volumes_from (pp_options p) = [] \<and> o_tmpfs (pp_options p) = [] \<and> o_mount (pp_options p) = [] \<and>
      mounts_of ?vh c = mount_sources (pp_spec p)"
    using p q by (auto simp: bare_easy intro!: exI)
  from volumes_of_runs_pruned [OF this, of "sample_volume ''db''" io_good "[sample_volume ''db'']" "Records [sample_volume ''db'']"]
  show ?thesis by (simp add: sample_volume_def ends_with_def)
qed

text \<open>
  \<open>create --pod\<close> takes a pod's namespaces and never makes the container a member: unless making
  the infra container changes the pods, they are what they were. The record is then one of a
  created container.
\<close>

lemma create_frames:
  assumes "\<And>p. frames rw_pods (rh_infra h p)"
  shows "frames rw_pods (create_only_container h nets opts)"
proof -
  have "frames rw_pods (join_pod h opts)" using assms by (auto simp: join_pod_def intro!: cmd_rules split: option.splits)
  moreover have "frames rw_pods (create_only_container_impl h nets opts0)" for opts0
    by (auto simp: create_only_container_impl_def intro!: cmd_rules layers_frames split: prod.splits)
  ultimately show ?thesis by (auto simp: create_only_container_def intro: cmd_rules)
qed

end
