(* ===== verification/Dockerfile.thy ===== *)
theory Dockerfile
  imports Health Image_Ref Path_Text
begin

text \<open>
  The Dockerfile parser of \<open>src/builder/parser.rs\<close>: lines and continuations, one instruction
  per keyword, words, JSON arrays and key-value pairs. The JSON decoder of string arrays
  (\<open>serde_json\<close>) is an argument.
\<close>

section \<open>Instructions\<close>

datatype instruction =
    I_From str "str option"
  | I_Run str
  | I_Copy "str option" "str list" str
  | I_Add "str list" str
  | I_Workdir str
  | I_Env str str
  | I_Cmd "str list"
  | I_Entrypoint "str list"
  | I_Expose u16
  | I_Label str str
  | I_Healthcheck health_config
  | I_Arg str "str option"
  | I_User str
  | I_Volume "str list"
  | I_Stop_signal str
  | I_Shell "str list"
  | I_On_build instruction

type_synonym json_strings = "str \<Rightarrow> str list option"

section \<open>Words, arrays and pairs\<close>

definition parse_words :: "str \<Rightarrow> str list" where
  "parse_words s = map (trim_matches CHR 0x22) (split_whitespace s)"

definition parse_array_or_words :: "json_strings \<Rightarrow> str \<Rightarrow> str list" where
  "parse_array_or_words json s =
     (case (if starts_with s ''['' \<and> ends_with s '']'' then json s else None) of
        Some v \<Rightarrow> v | None \<Rightarrow> parse_words s)"

abbreviation backslash :: char where "backslash \<equiv> CHR 0x5C"
abbreviation dquote :: char where "dquote \<equiv> CHR 0x22"
abbreviation squote :: char where "squote \<equiv> CHR 0x27"

fun quoted_value :: "char \<Rightarrow> str \<Rightarrow> str \<times> str" where
  "quoted_value q [] = ([], [])"
| "quoted_value q (c # s) =
     (if c = q then ([], s)
      else if c = backslash
        then (case s of
            [] \<Rightarrow> ([c], [])
          | d # s' \<Rightarrow> (case quoted_value q s' of (v, r) \<Rightarrow> (d # v, r)))
      else (case quoted_value q s of (v, r) \<Rightarrow> (c # v, r)))"

definition value_at :: "str \<Rightarrow> str \<times> str" where
  "value_at s =
     (case s of
        [] \<Rightarrow> ([], [])
      | q # r \<Rightarrow> if q = dquote \<or> q = squote then quoted_value q r
          else (takeWhile (\<lambda>c. \<not> is_whitespace c) s, dropWhile (\<lambda>c. \<not> is_whitespace c) s))"

definition key_char :: "char \<Rightarrow> bool" where
  "key_char c \<longleftrightarrow> c \<noteq> CHR ''='' \<and> \<not> is_whitespace c"

abbreviation skip_ws :: "str \<Rightarrow> str" where "skip_ws \<equiv> dropWhile is_whitespace"

definition after_key :: "str \<Rightarrow> str" where
  "after_key s =
     (let r = skip_ws (dropWhile key_char s)
      in skip_ws (if r \<noteq> [] \<and> hd r = CHR ''='' then tl r else r))"

lemma quoted_value_shorter: "length (snd (quoted_value q s)) \<le> length s"
proof (induction q s rule: quoted_value.induct)
  case (2 q c s)
  show ?case
  proof (cases "c \<noteq> q \<and> c = backslash")
    case True
    then show ?thesis using 2(1) by (cases s) (auto simp: case_prod_beta)
  next
    case False
    then show ?thesis using 2(2) by (auto simp: case_prod_beta)
  qed
qed simp

lemma value_at_shorter: "length (snd (value_at s)) \<le> length s"
proof (cases s)
  case (Cons c t)
  have "length (snd (quoted_value c t)) \<le> Suc (length t)"
    by (rule le_SucI [OF quoted_value_shorter])
  then show ?thesis
    using length_dropWhile_le [of "\<lambda>c. \<not> is_whitespace c" s] by (simp add: value_at_def Cons)
qed (simp add: value_at_def)

lemma skip_ws_shorter: "length (skip_ws s) \<le> length s"
  by (rule length_dropWhile_le)

lemma after_key_shorter:
  assumes "s \<noteq> []" and "\<not> is_whitespace (hd s)"
  shows "length (after_key s) < length s"
proof -
  obtain c t where s: "s = c # t" using assms(1) by (cases s) auto
  let ?r = "skip_ws (dropWhile key_char s)"
  have "length (if ?r \<noteq> [] \<and> hd ?r = CHR ''='' then tl ?r else ?r) < length s"
  proof (cases "key_char c")
    case True
    then have "length ?r \<le> length t" unfolding s using skip_ws_shorter length_dropWhile_le le_trans by (simp, blast)
    then show ?thesis by (auto simp: s)
  next
    case False
    then show ?thesis using assms by (auto simp: s key_char_def)
  qed
  then show ?thesis unfolding after_key_def Let_def by (rule le_less_trans [OF skip_ws_shorter])
qed

function pairs_loop :: "str \<Rightarrow> (str \<times> str) list" where
  "pairs_loop s =
     (let t = skip_ws s
      in if t = [] then []
         else let key = takeWhile key_char t; v = value_at (after_key t)
              in (if key = [] then [] else [(key, fst v)]) @ pairs_loop (snd v))"
  by pat_completeness auto
termination
proof (relation "measure length", goal_cases)
  case (2 s t key v)
  then have "\<not> is_whitespace (hd t)" by (metis hd_dropWhile)
  then have "length (snd v) < length t"
    using 2 after_key_shorter [of t] value_at_shorter [of "after_key t"] by simp
  then show ?case using 2 skip_ws_shorter [of s] by simp
qed simp

declare pairs_loop.simps [simp del]

definition parse_key_value_pairs :: "str \<Rightarrow> (str \<times> str) list" where
  "parse_key_value_pairs rest =
     (if \<not> contains_char rest CHR ''='' then
        (case split_once_by is_whitespace rest of
           Some (k, v) \<Rightarrow> [(trim k, trim_matches squote (trim_matches dquote (trim v)))]
         | None \<Rightarrow> [])
      else pairs_loop rest)"

section \<open>One instruction\<close>

definition seconds :: "str \<Rightarrow> nat option" where
  "seconds v = parse_unsigned 64 (trim_end_by (\<lambda>c. c = CHR ''s'') v)"

definition health_flag :: "str \<Rightarrow> health_config \<Rightarrow> health_config" where
  "health_flag flag c =
     (case split_once CHR ''='' flag of
        None \<Rightarrow> c
      | Some (n, v) \<Rightarrow>
          if n = ''--interval'' then c\<lparr>interval_secs := unwrap_or (seconds v) (interval_secs c)\<rparr>
          else if n = ''--timeout'' then c\<lparr>timeout_secs := unwrap_or (seconds v) (timeout_secs c)\<rparr>
          else if n = ''--start-period'' then c\<lparr>start_period_secs := unwrap_or (seconds v) (start_period_secs c)\<rparr>
          else if n = ''--retries'' then (case parse_unsigned 32 v of Some r \<Rightarrow> c\<lparr>retries := of_nat r\<rparr> | None \<Rightarrow> c)
          else c)"

lemma split_once_by_SomeD:
  "split_once_by p s = Some (a, b) \<Longrightarrow> \<exists>c. s = a @ c # b \<and> p c \<and> (\<forall>d\<in>set a. \<not> p d)"
  by (induction s arbitrary: a) (auto split: if_splits)

lemma trim_shorter: "length (trim s) \<le> length s"
  unfolding trim_def trim_start_by_def trim_end_by_def
  by (metis length_dropWhile_le length_rev order_trans)

function health_flags :: "str \<Rightarrow> health_config \<Rightarrow> str \<times> health_config" where
  "health_flags s c =
     (if starts_with s ''--'' then
        (case split_once_by is_whitespace s of
           Some (flag, rem) \<Rightarrow> health_flags (trim rem) (health_flag flag c)
         | None \<Rightarrow> (s, c))
      else (s, c))"
  by pat_completeness auto
termination
  by (relation "measure (\<lambda>(s, c). length s)")
    (auto dest!: split_once_by_SomeD intro!: le_less_trans [OF trim_shorter])

declare health_flags.simps [simp del]

definition parse_healthcheck :: "json_strings \<Rightarrow> str \<Rightarrow> health_config" where
  "parse_healthcheck json rest =
     (let t = trim rest
      in if eq_ignore_ascii_case t ''NONE'' then default_health_config\<lparr>health_test := []\<rparr>
         else case health_flags t default_health_config of
           (s, c) \<Rightarrow> c\<lparr>health_test := (case strip_prefix ''CMD '' s of
               Some cmd \<Rightarrow> parse_array_or_words json (trim cmd) | None \<Rightarrow> parse_array_or_words json s)\<rparr>)"

definition parse_from :: "str \<Rightarrow> instruction list res" where
  "parse_from rest =
     (case split_whitespace rest of
        [] \<Rightarrow> Inl (Invalid_instruction ''FROM'')
      | [im] \<Rightarrow> Inr [I_From im None]
      | [im, _] \<Rightarrow> Inr [I_From im None]
      | im # w # stage # _ \<Rightarrow>
          Inr [I_From im (if eq_ignore_ascii_case w ''AS'' then Some stage else None)])"

definition sources_and_dest :: "str \<Rightarrow> str list \<Rightarrow> (str list \<times> str) res" where
  "sources_and_dest kw parts =
     (if length parts < 2 then Inl (Invalid_instruction kw) else Inr (butlast parts, last parts))"

definition parse_copy :: "json_strings \<Rightarrow> str \<Rightarrow> instruction list res" where
  "parse_copy json rest =
     bind_res (case strip_prefix ''--from='' rest of
         Some s \<Rightarrow> (case split_once_by is_whitespace s of
             Some (stage, rem) \<Rightarrow> Inr (Some stage, trim rem) | None \<Rightarrow> Inl (Invalid_instruction ''COPY --from''))
       | None \<Rightarrow> Inr (None, rest)) (\<lambda>(stage, rem).
     bind_res (sources_and_dest ''COPY'' (parse_array_or_words json rem)) (\<lambda>(src, dest).
     Inr [I_Copy stage src dest]))"

definition parse_expose :: "str \<Rightarrow> instruction list res" where
  "parse_expose rest =
     (case parse_words rest of
        [] \<Rightarrow> Inl (Invalid_instruction ''EXPOSE'')
      | p # _ \<Rightarrow> (case parse_unsigned 16 (hd (split_on CHR ''/'' p)) of
          Some n \<Rightarrow> Inr [I_Expose (of_nat n)] | None \<Rightarrow> Inl (Bad_number p)))"

definition parse_arg :: "str \<Rightarrow> instruction" where
  "parse_arg rest =
     (case split_once CHR ''='' rest of
        Some (n, d) \<Rightarrow> I_Arg (trim n) (Some (trim d)) | None \<Rightarrow> I_Arg (trim rest) None)"

definition keyword_of :: "str \<Rightarrow> str \<times> str" where
  "keyword_of line =
     (case split_once_by is_whitespace (trim line) of
        Some (k, r) \<Rightarrow> (to_uppercase k, trim r) | None \<Rightarrow> (to_uppercase (trim line), []))"

lemma keyword_of_shorter: "keyword_of line = (kw, rest) \<Longrightarrow> line \<noteq> [] \<Longrightarrow> length rest < length line"
  using trim_shorter [of line]
  by (auto simp: keyword_of_def split: option.splits dest!: split_once_by_SomeD)
    (metis (no_types, lifting) add_Suc_right le_add2 le_imp_less_Suc length_Cons length_append less_le_trans order_trans trim_shorter)

text \<open>What every keyword but \<open>ONBUILD\<close> is parsed to.\<close>

definition parse_simple :: "json_strings \<Rightarrow> str \<Rightarrow> str \<Rightarrow> instruction list res" where
  "parse_simple json kw rest =
     (if kw = ''FROM'' then parse_from rest
      else if kw = ''RUN'' then Inr [I_Run rest]
      else if kw = ''COPY'' then parse_copy json rest
      else if kw = ''ADD'' then
        bind_res (sources_and_dest ''ADD'' (parse_array_or_words json rest)) (\<lambda>(src, dest). Inr [I_Add src dest])
      else if kw = ''WORKDIR'' then Inr [I_Workdir rest]
      else if kw = ''ENV'' then Inr (map (\<lambda>(k, v). I_Env k v) (parse_key_value_pairs rest))
      else if kw = ''ARG'' then Inr [parse_arg rest]
      else if kw = ''CMD'' then Inr [I_Cmd (parse_array_or_words json rest)]
      else if kw = ''ENTRYPOINT'' then Inr [I_Entrypoint (parse_array_or_words json rest)]
      else if kw = ''EXPOSE'' then parse_expose rest
      else if kw = ''LABEL'' then Inr (map (\<lambda>(k, v). I_Label k v) (parse_key_value_pairs rest))
      else if kw = ''HEALTHCHECK'' then Inr [I_Healthcheck (parse_healthcheck json rest)]
      else if kw = ''USER'' then Inr [I_User rest]
      else if kw = ''VOLUME'' then Inr [I_Volume (parse_array_or_words json rest)]
      else if kw = ''STOPSIGNAL'' then Inr [I_Stop_signal rest]
      else if kw = ''SHELL'' then Inr [I_Shell (parse_array_or_words json rest)]
      else Inl (Invalid_instruction kw))"

lemma onbuild_shorter: "(''ONBUILD'', rest) = keyword_of line \<Longrightarrow> length rest < length line"
proof -
  assume k: "(''ONBUILD'', rest) = keyword_of line"
  then have "line \<noteq> []" by (auto simp: keyword_of_def to_uppercase_def)
  with k show "length rest < length line" by (intro keyword_of_shorter [of line "''ONBUILD''"]) simp_all
qed

function parse_line :: "json_strings \<Rightarrow> str \<Rightarrow> instruction list res" where
  "parse_line json line =
     (case keyword_of line of (kw, rest) \<Rightarrow>
        if kw = ''ONBUILD'' then
          (case parse_line json rest of
             Inl e \<Rightarrow> Inl e
           | Inr [i] \<Rightarrow> Inr [I_On_build i]
           | Inr _ \<Rightarrow> Inl (Invalid_instruction ''ONBUILD''))
        else parse_simple json kw rest)"
  by pat_completeness auto
termination
  by (relation "measure (\<lambda>(json, line). length line)") (auto intro: onbuild_shorter)

declare parse_line.simps [simp del]

section \<open>A whole file\<close>

text \<open>A continued line at the end of the file stays in the buffer and is dropped.\<close>

fun parse_lines :: "json_strings \<Rightarrow> str \<Rightarrow> str list \<Rightarrow> instruction list res" where
  "parse_lines json cur [] = Inr []"
| "parse_lines json cur (raw # ls) =
     (let line = trim raw
      in if line = [] \<or> starts_with line ''#'' then parse_lines json cur ls
         else case strip_suffix [backslash] line of
             Some s \<Rightarrow> parse_lines json (cur @ trim s @ '' '') ls
           | None \<Rightarrow> (let full = trim (cur @ line)
               in bind_res (if full = [] then Inr [] else parse_line json full) (\<lambda>is.
                  bind_res (parse_lines json [] ls) (\<lambda>rest. Inr (is @ rest)))))"

definition parse_str :: "json_strings \<Rightarrow> str \<Rightarrow> instruction list res" where
  "parse_str json content = parse_lines json [] (lines content)"

definition parse_file :: "json_strings \<Rightarrow> (str \<Rightarrow> str option) \<Rightarrow> str \<Rightarrow> instruction list res" where
  "parse_file json read path = bind_res (ok_or (read path) Io_failed) (parse_str json)"

section \<open>What a parsed instruction looks like\<close>

definition key_text :: "str \<Rightarrow> bool" where
  "key_text k \<longleftrightarrow> k \<noteq> [] \<and> list_all key_char k"

definition word_text :: "str \<Rightarrow> bool" where
  "word_text s \<longleftrightarrow> s \<noteq> [] \<and> (\<forall>c\<in>set s. \<not> is_whitespace c)"

fun wf_instruction :: "instruction \<Rightarrow> bool" where
  "wf_instruction (I_From im stage) \<longleftrightarrow> word_text im \<and> (case stage of Some s \<Rightarrow> word_text s | None \<Rightarrow> True)"
| "wf_instruction (I_Copy stage src dest) \<longleftrightarrow>
     src \<noteq> [] \<and> (case stage of Some s \<Rightarrow> \<forall>c\<in>set s. \<not> is_whitespace c | None \<Rightarrow> True)"
| "wf_instruction (I_Add src dest) \<longleftrightarrow> src \<noteq> []"
| "wf_instruction (I_Env k v) \<longleftrightarrow> key_text k"
| "wf_instruction (I_Label k v) \<longleftrightarrow> key_text k"
| "wf_instruction (I_Arg n d) \<longleftrightarrow> CHR ''='' \<notin> set n"
| "wf_instruction (I_On_build i) \<longleftrightarrow> wf_instruction i"
| "wf_instruction _ \<longleftrightarrow> True"

text \<open>What the loops over the text yield.\<close>

lemma split_whitespace_words: "w \<in> set (split_whitespace s) \<Longrightarrow> word_text w"
proof (induction s rule: split_whitespace.induct)
  case (1 s)
  let ?t = "dropWhile is_whitespace s"
  show ?case
  proof (cases "?t = []")
    case True
    then show ?thesis using 1(2) by (simp add: split_whitespace.simps)
  next
    case False
    then have "\<not> is_whitespace (hd ?t)" by (metis hd_dropWhile)
    then have "word_text (takeWhile (\<lambda>c. \<not> is_whitespace c) ?t)"
      using False by (cases ?t) (auto simp: word_text_def dest: set_takeWhileD)
    moreover have "w = takeWhile (\<lambda>c. \<not> is_whitespace c) ?t \<or>
        w \<in> set (split_whitespace (dropWhile (\<lambda>c. \<not> is_whitespace c) ?t))"
      using 1(2) False by (subst (asm) split_whitespace.simps) (auto simp: Let_def split: if_splits)
    ultimately show ?thesis using 1(1) [OF refl False] by blast
  qed
qed

lemma pairs_loop_keys: "(k, v) \<in> set (pairs_loop s) \<Longrightarrow> key_text k"
proof (induction s rule: pairs_loop.induct)
  case (1 s)
  let ?t = "skip_ws s"
  show ?case
  proof (cases "?t = []")
    case True
    then show ?thesis using 1(2) by (simp add: pairs_loop.simps)
  next
    case False
    have "(k, v) \<in> set (if takeWhile key_char ?t = [] then [] else [(takeWhile key_char ?t, fst (value_at (after_key ?t)))]) \<or>
        (k, v) \<in> set (pairs_loop (snd (value_at (after_key ?t))))"
      using 1(2) False by (subst (asm) pairs_loop.simps) (auto simp: Let_def split: if_splits)
    then show ?thesis using 1(1) [OF refl False refl refl]
      by (auto simp: key_text_def list_all_iff dest: set_takeWhileD split: if_splits)
  qed
qed

lemma parsed_keys:
  assumes "(k, v) \<in> set (parse_key_value_pairs (trim s))"
  shows "key_text k"
proof (cases "contains_char (trim s) CHR ''=''")
  case True
  then show ?thesis using assms by (auto simp: parse_key_value_pairs_def intro: pairs_loop_keys)
next
  case False
  then obtain a b where ab: "split_once_by is_whitespace (trim s) = Some (a, b)" and k: "k = trim a"
    using assms by (cases "split_once_by is_whitespace (trim s)") (auto simp: parse_key_value_pairs_def)
  from split_once_by_SomeD [OF ab] obtain c where s: "trim s = a @ c # b" and c: "is_whitespace c"
    and a: "\<forall>d\<in>set a. \<not> is_whitespace d" by blast
  have "a \<noteq> []" using s c trim_ends(1) [of s] by (cases a) auto
  moreover have "trim a = a" using a by (intro trim_no_ws) blast
  ultimately show ?thesis using k a s False
    by (auto simp: key_text_def key_char_def contains_char_def list_all_iff)
qed

lemma parse_arg_wf: "wf_instruction (parse_arg rest)"
  using set_trim_subset [of rest] by (auto simp: parse_arg_def split: option.splits
      dest!: split_once_SomeD subsetD [OF set_trim_subset])

lemma parse_from_words:
  "parse_from r = Inr is \<Longrightarrow> \<exists>im st. is = [I_From im st] \<and> im \<in> set (split_whitespace r) \<and>
     (\<forall>s. st = Some s \<longrightarrow> s \<in> set (split_whitespace r))"
  unfolding parse_from_def by (simp split: list.splits if_splits) auto

lemma parse_from_wf:
  assumes "parse_from r = Inr is" and "i \<in> set is"
  shows "wf_instruction i"
proof -
  obtain im st where i: "is = [I_From im st]" and im: "im \<in> set (split_whitespace r)"
    and st: "\<forall>s. st = Some s \<longrightarrow> s \<in> set (split_whitespace r)"
    using parse_from_words [OF assms(1)] by blast
  have "word_text im" by (rule split_whitespace_words [OF im])
  moreover have "word_text s" if "st = Some s" for s by (rule split_whitespace_words) (use st that in blast)
  ultimately show ?thesis using assms(2) i by (cases st) simp_all
qed

lemma sources_and_dest_src: "sources_and_dest kw parts = Inr (src, dest) \<Longrightarrow> src \<noteq> []"
  by (cases parts) (auto simp: sources_and_dest_def split: if_splits)

lemma parse_copy_wf: "parse_copy json r = Inr is \<Longrightarrow> i \<in> set is \<Longrightarrow> wf_instruction i"
  by (auto simp: parse_copy_def bind_res_Inr_iff split: option.splits prod.splits
      dest: sources_and_dest_src dest!: split_once_by_SomeD)

lemma parse_expose_wf: "parse_expose r = Inr is \<Longrightarrow> i \<in> set is \<Longrightarrow> wf_instruction i"
  by (auto simp: parse_expose_def split: list.splits option.splits)

lemma parse_simple_wf:
  assumes p: "parse_simple json kw (trim s) = Inr is" and i: "i \<in> set is"
  shows "wf_instruction i"
  using p unfolding parse_simple_def
  by (simp only: split: if_split_asm)
    (use i parsed_keys [of _ _ s] in \<open>auto simp: bind_res_Inr_iff parse_arg_wf
       intro: parse_from_wf parse_copy_wf parse_expose_wf dest: sources_and_dest_src\<close>)

lemma parse_line_wf: "parse_line json line = Inr is \<Longrightarrow> i \<in> set is \<Longrightarrow> wf_instruction i"
proof (induction json line arbitrary: "is" i rule: parse_line.induct)
  case (1 json line)
  obtain kw rest where k: "keyword_of line = (kw, rest)" by (cases "keyword_of line")
  then have t: "\<exists>s. rest = trim s" by (auto simp: keyword_of_def split: option.splits intro: trim_Nil [symmetric])
  show ?case
  proof (cases "kw = ''ONBUILD''")
    case True
    obtain j where "parse_line json rest = Inr [j]" and "is = [I_On_build j]"
      using 1(2) k True by (subst (asm) parse_line.simps) (auto split: sum.splits list.splits)
    then show ?thesis using 1(1) [OF k [symmetric] True] 1(3) by simp
  next
    case False
    then show ?thesis using 1(2,3) k t parse_simple_wf
      by (subst (asm) parse_line.simps) auto
  qed
qed

lemma parse_lines_wf: "parse_lines json cur ls = Inr is \<Longrightarrow> i \<in> set is \<Longrightarrow> wf_instruction i"
proof (induction json cur ls arbitrary: "is" rule: parse_lines.induct)
  case (2 json cur raw ls)
  then show ?case
    by (auto simp: Let_def bind_res_Inr_iff parse_line_wf split: if_splits option.splits)
qed simp

text \<open>
  C25. Every instruction the parser returns is well formed: an image name is a word, copies and
  additions have a source, and the keys of \<open>ENV\<close> and \<open>LABEL\<close> are not empty and hold neither
  \<open>=\<close> nor white space, and the name of an \<open>ARG\<close> holds no \<open>=\<close>.
\<close>

theorem parsed_well_formed:
  assumes "parse_str json content = Inr is" and "i \<in> set is"
  shows "wf_instruction i"
  using assms unfolding parse_str_def by (rule parse_lines_wf)

definition sample_dockerfile :: str where
  "sample_dockerfile = join [newline] [''FROM golang:1.22 AS builder'', ''ENV a=1 b='' @ [dquote] @ ''x y'' @ [dquote], ''COPY . /app'']"

lemma sample_dockerfile_parsed:
  "parse_str (\<lambda>_. None) sample_dockerfile =
     Inr [I_From ''golang:1.22'' (Some ''builder''), I_Env ''a'' ''1'', I_Env ''b'' ''x y'', I_Copy None [''.''] ''/app'']"
  by code_simp

theorem parsed_well_formed_witness: "wf_instruction (I_Env ''b'' ''x y'')"
  by (rule parsed_well_formed [OF sample_dockerfile_parsed]) simp

section \<open>Pairs print and parse\<close>

definition print_char :: "char \<Rightarrow> str" where
  "print_char c = (if c = dquote \<or> c = backslash then [backslash, c] else [c])"

definition print_pair :: "str \<times> str \<Rightarrow> str" where
  "print_pair p = fst p @ ''='' @ [dquote] @ concat (map print_char (snd p)) @ [dquote]"

lemma quoted_printed: "quoted_value dquote (concat (map print_char v) @ dquote # r) = (v, r)"
  by (induction v) (auto simp: print_char_def)

lemma pairs_loop_skip: "is_whitespace c \<Longrightarrow> pairs_loop (c # s) = pairs_loop s"
  by (subst (1 2) pairs_loop.simps) simp

lemma pairs_loop_printed:
  assumes "key_text k"
  shows "pairs_loop (print_pair (k, v) @ r) = (k, v) # pairs_loop r"
proof -
  let ?s = "print_pair (k, v) @ r"
  let ?q = "dquote # concat (map print_char v) @ dquote # r"
  have s: "?s = k @ CHR ''='' # ?q" by (simp add: print_pair_def)
  have k: "takeWhile key_char ?s = k" "dropWhile key_char ?s = CHR ''='' # ?q"
    using assms unfolding s by (simp_all add: key_text_def list_all_iff takeWhile_append2 dropWhile_append2 key_char_def)
  obtain c cs where "k = c # cs" "\<not> is_whitespace c" using assms by (cases k) (auto simp: key_text_def key_char_def)
  then have w: "skip_ws ?s = ?s" "?s \<noteq> []" unfolding s by simp_all
  have e: "\<not> is_whitespace CHR ''=''" "\<not> is_whitespace dquote" by (simp_all add: char_class_defs)
  have a: "after_key ?s = ?q" unfolding after_key_def k(2) using e by (simp add: Let_def)
  have v: "value_at ?q = (v, r)" by (simp add: value_at_def quoted_printed)
  show ?thesis using assms by (subst pairs_loop.simps) (simp only: w a v k Let_def, simp add: key_text_def)
qed

lemma pairs_loop_Nil [simp]: "pairs_loop [] = []"
  by (simp add: pairs_loop.simps)

lemma pairs_loop_join:
  "list_all (\<lambda>p. key_text (fst p)) ps \<Longrightarrow> pairs_loop (join '' '' (map print_pair ps)) = ps"
proof (induction ps rule: induct_list012)
  case (2 p)
  then show ?case using pairs_loop_printed [of "fst p" "snd p" "[]"] by simp
next
  case (3 p q ps)
  have "is_whitespace CHR '' ''" by (simp add: char_class_defs)
  then show ?case using 3 pairs_loop_printed [of "fst p" "snd p"] by (simp add: pairs_loop_skip)
qed simp

text \<open>
  C26. Key-value pairs, printed with their values in double quotes and with quotes and backslashes
  escaped, parse back to themselves, whatever characters the values have.
\<close>

theorem pairs_roundtrip:
  assumes "list_all (\<lambda>p. key_text (fst p)) ps"
  shows "parse_key_value_pairs (join '' '' (map print_pair ps)) = ps"
proof (cases ps)
  case (Cons p qs)
  have "CHR ''='' \<in> set (print_pair p)" by (simp add: print_pair_def)
  then have "CHR ''='' \<in> set (join '' '' (map print_pair ps))" unfolding Cons by (cases qs) auto
  then show ?thesis using pairs_loop_join [OF assms] by (simp add: parse_key_value_pairs_def contains_char_def)
qed (simp add: parse_key_value_pairs_def contains_char_def)

theorem pairs_roundtrip_witness:
  "parse_key_value_pairs (join '' '' (map print_pair [(''a'', ''x y''), (''b'', [dquote, backslash])])) =
     [(''a'', ''x y''), (''b'', [dquote, backslash])]"
  by (rule pairs_roundtrip) (simp add: key_text_def key_char_def char_class_defs)

section \<open>The end of the file\<close>

lemma lines_snoc:
  assumes "newline \<notin> set b" and "b \<noteq> []"
  shows "lines (a @ newline # b) = lines (a @ [newline]) @ [b]"
proof -
  have "split_on newline (a @ newline # b) = split_on newline a @ [b]"
    using assms(1) by (simp add: split_on_append_sep split_on_no_sep)
  moreover have "split_on newline (a @ [newline]) = split_on newline a @ [[]]"
    using split_on_append_sep [of newline a "[]"] by simp
  ultimately show ?thesis using assms(2) by (simp add: lines_def Let_def)
qed

lemma parse_lines_drop:
  assumes "trim b = x @ [backslash]" and "\<not> starts_with (trim b) ''#''"
  shows "parse_lines json cur (ls @ [b]) = parse_lines json cur ls"
proof (induction ls arbitrary: cur)
  case Nil
  have "strip_suffix [backslash] (trim b) = Some x" unfolding assms(1) by simp
  then show ?case using assms by (auto simp: Let_def)
qed (simp add: Let_def split: option.splits)

lemma trim_ends_with:
  assumes "\<not> is_whitespace c"
  obtains x where "trim (s @ [c]) = x @ [c]"
proof -
  let ?t = "dropWhile is_whitespace (s @ [c])"
  have "?t \<noteq> []" and l: "last ?t = c" using assms by (auto simp: dropWhile_append split: if_splits)
  then have "?t = butlast ?t @ [c]" by (metis append_butlast_last_id)
  moreover have "trim (s @ [c]) = rev (dropWhile is_whitespace (rev ?t))"
    by (simp add: trim_def trim_start_by_def trim_end_by_def)
  moreover have "rev ?t = c # rev (butlast ?t)" using calculation(1) by (metis rev_eq_Cons_iff rev_rev_ident)
  ultimately show thesis using that [of "butlast ?t"] assms by simp
qed

text \<open>
  An instruction that the file ends with a continuation mark is dropped, whatever it says:
  the file is read as if its last line were not there, and no error is reported.
\<close>

theorem unfinished_line_dropped:
  assumes "newline \<notin> set b" and "\<not> starts_with (trim (b @ [backslash])) ''#''"
  shows "parse_str json (a @ newline # b @ [backslash]) = parse_str json (a @ [newline])"
proof -
  have "\<not> is_whitespace backslash" and "backslash \<noteq> newline" by code_simp+
  then obtain x where "trim (b @ [backslash]) = x @ [backslash]" by (blast intro: trim_ends_with)
  from parse_lines_drop [OF this assms(2), of json "[]"] show ?thesis
    using lines_snoc [of "b @ [backslash]" a] assms(1) \<open>backslash \<noteq> newline\<close>
    by (simp add: parse_str_def)
qed

theorem unfinished_line_dropped_witness:
  "parse_str (\<lambda>_. None) (''FROM alpine'' @ newline # ''USER nobody'' @ [backslash]) = Inr [I_From ''alpine'' None]"
proof -
  have "\<not> starts_with (trim (''USER nobody'' @ [backslash])) ''#''" and "newline \<notin> set ''USER nobody''"
    by code_simp+
  then show ?thesis
    using unfinished_line_dropped [of "''USER nobody''" "\<lambda>_. None" "''FROM alpine''"] 
    by simp code_simp
qed

end
