(* ===== verification/Build_Cache.thy ===== *)
theory Build_Cache
  imports Path_Text Prelude
begin

text \<open>
  The files a build works on and its cache (\<open>src/builder/cache.rs\<close>, and \<open>copy_dir_all\<close> of
  \<open>src/builder/executor.rs\<close>). The file system is a state of any type with the operations of
  \<open>std::fs\<close> the builder calls; only what the builder does with them is defined here.
\<close>

section \<open>Files\<close>

datatype file_kind = Folder | Soft_link | Regular

record 'f file_ops =
  fo_exists :: "'f \<Rightarrow> path \<Rightarrow> bool"
  fo_is_dir :: "'f \<Rightarrow> path \<Rightarrow> bool"
  fo_is_file :: "'f \<Rightarrow> path \<Rightarrow> bool"
  fo_canon :: "'f \<Rightarrow> path \<Rightarrow> path option"
  fo_entries :: "'f \<Rightarrow> path \<Rightarrow> (str \<times> file_kind) list option"
  fo_read :: "'f \<Rightarrow> path \<Rightarrow> str option"
  fo_size :: "'f \<Rightarrow> path \<Rightarrow> nat"
  fo_mkdir :: "path \<Rightarrow> 'f \<Rightarrow> unit res \<times> 'f"
  fo_rmdir :: "path \<Rightarrow> 'f \<Rightarrow> 'f"
  fo_copy :: "path \<Rightarrow> path \<Rightarrow> 'f \<Rightarrow> unit res \<times> 'f"
  fo_link :: "path \<Rightarrow> path \<Rightarrow> 'f \<Rightarrow> 'f"
  fo_write :: "path \<Rightarrow> str \<Rightarrow> 'f \<Rightarrow> unit res \<times> 'f"
  fo_unpack :: "bool \<Rightarrow> path \<Rightarrow> path \<Rightarrow> 'f \<Rightarrow> unit res \<times> 'f"

text \<open>\<open>?\<close> after an operation on the files: the first failure ends the sequence.\<close>

definition act_then :: "('f \<Rightarrow> 'a res \<times> 'f) \<Rightarrow> ('a \<Rightarrow> 'f \<Rightarrow> 'b res \<times> 'f) \<Rightarrow> 'f \<Rightarrow> 'b res \<times> 'f" where
  "act_then c g f = (case c f of (Inl e, f') \<Rightarrow> (Inl e, f') | (Inr a, f') \<Rightarrow> g a f')"

fun each_of :: "('a \<Rightarrow> 'f \<Rightarrow> unit res \<times> 'f) \<Rightarrow> 'a list \<Rightarrow> 'f \<Rightarrow> unit res \<times> 'f" where
  "each_of g [] f = (Inr (), f)"
| "each_of g (x # xs) f = act_then (g x) (\<lambda>_. each_of g xs) f"

text \<open>
  \<open>copy_dir_all\<close>. Directories are created, a file that cannot be copied or a link that cannot be
  made is passed over. The depth bounds the recursion; when it runs out the copy fails, as it
  does on a tree so deep that its paths are longer than the kernel takes.
\<close>

primrec copy_tree :: "nat \<Rightarrow> 'f file_ops \<Rightarrow> path \<Rightarrow> path \<Rightarrow> 'f \<Rightarrow> unit res \<times> 'f" where
  "copy_tree 0 ops src dst f = (Inl Io_failed, f)"
| "copy_tree (Suc n) ops src dst f =
     act_then (fo_mkdir ops dst) (\<lambda>_ f.
       case fo_entries ops f src of
         None \<Rightarrow> (Inl Io_failed, f)
       | Some es \<Rightarrow> each_of (\<lambda>(name, kind) f.
           let from = src @ [Normal name]; to = dst @ [Normal name]
           in case kind of
                Folder \<Rightarrow> copy_tree n ops from to f
              | Soft_link \<Rightarrow> (Inr (), fo_link ops from to f)
              | Regular \<Rightarrow> (Inr (), snd (fo_copy ops from to f))) es f) f"

definition path_limit :: nat where "path_limit = 4096"

definition copy_dir_all :: "'f file_ops \<Rightarrow> path \<Rightarrow> path \<Rightarrow> 'f \<Rightarrow> unit res \<times> 'f" where
  "copy_dir_all = copy_tree path_limit"

section \<open>The cache\<close>

definition cache_dir :: "path \<Rightarrow> path" where
  "cache_dir home = path_join home (components ''buildcache'')"

definition cache_path :: "path \<Rightarrow> str \<Rightarrow> path" where
  "cache_path home key = path_join (path_join (cache_dir home) (components key)) (components ''rootfs'')"

definition cache_get :: "'f file_ops \<Rightarrow> path \<Rightarrow> str \<Rightarrow> 'f \<Rightarrow> path option" where
  "cache_get ops home key f =
     (if fo_exists ops f (cache_path home key) then Some (cache_path home key) else None)"

definition cache_put :: "'f file_ops \<Rightarrow> path \<Rightarrow> str \<Rightarrow> path \<Rightarrow> 'f \<Rightarrow> unit res \<times> 'f" where
  "cache_put ops home key rootfs =
     act_then (fo_mkdir ops (cache_path home key)) (\<lambda>_. copy_dir_all ops rootfs (cache_path home key))"

text \<open>Counted is every directory, also one that could not be removed.\<close>

definition cache_entries :: "'f file_ops \<Rightarrow> path \<Rightarrow> 'f \<Rightarrow> path list res" where
  "cache_entries ops home f =
     (if fo_exists ops f (cache_dir home)
      then (case fo_entries ops f (cache_dir home) of
          None \<Rightarrow> Inl Io_failed
        | Some es \<Rightarrow> Inr (filter (fo_is_dir ops f) (map (\<lambda>(n, _). cache_dir home @ [Normal n]) es)))
      else Inr [])"

definition cache_prune :: "'f file_ops \<Rightarrow> path \<Rightarrow> 'f \<Rightarrow> nat res \<times> 'f" where
  "cache_prune ops home f =
     (case cache_entries ops home f of
        Inl e \<Rightarrow> (Inl e, f)
      | Inr ps \<Rightarrow> (Inr (length ps), fold (fo_rmdir ops) ps f))"

definition cache_usage :: "'f file_ops \<Rightarrow> path \<Rightarrow> 'f \<Rightarrow> (nat \<times> nat) res" where
  "cache_usage ops home f =
     bind_res (cache_entries ops home f) (\<lambda>ps. Inr (length ps, sum_list (map (fo_size ops f) ps)))"

lemma act_then_Inr:
  "act_then c g f = (Inr b, f') \<longleftrightarrow> (\<exists>a f1. c f = (Inr a, f1) \<and> g a f1 = (Inr b, f'))"
  by (auto simp: act_then_def split: prod.splits sum.splits)

end
