(* ===== verification/Image_Builder.thy ===== *)
theory Image_Builder
  imports Dockerfile Build_Cache Build_Ignore Runtime_Spec
begin

text \<open>
  The image builder of \<open>src/builder/executor.rs\<close> and the command \<open>build\<close> of \<open>src/lib.rs\<close>: one step
  per instruction over the files, the image index, the stages and the configuration of the
  image. The registry, the hash, downloads and the run of a build container are arguments.
\<close>

section \<open>State\<close>

record build_stage =
  st_name :: "str option"
  st_rootfs :: path
  st_config :: exec_config

record build_options =
  bo_context :: path
  bo_dockerfile :: path
  bo_tag :: "str option"
  bo_no_cache :: bool
  bo_args :: "(str \<times> str) list"
  bo_target :: "str option"

record 'f build_state =
  b_fs :: 'f
  b_images :: image_file
  b_stages :: "build_stage list"
  b_root :: path
  b_config :: exec_config
  b_name :: "str option"
  b_shell :: "str list"
  b_step :: nat
  b_key :: str

record 'f build_host =
  bh_ops :: "'f file_ops"
  bh_io :: io
  bh_arch :: str
  bh_pull :: "str \<Rightarrow> 'f \<Rightarrow> image_file \<Rightarrow> image_record res \<times> 'f \<times> image_file"
  bh_hash :: "str \<Rightarrow> str"
  bh_json :: json_strings
  bh_fetch :: "str \<Rightarrow> str res"
  bh_execute :: "path \<Rightarrow> oci_spec \<Rightarrow> 'f \<Rightarrow> int res \<times> 'f"
  bh_save :: "path \<Rightarrow> oci_spec \<Rightarrow> 'f \<Rightarrow> unit res \<times> 'f"
  bh_rand :: str
  bh_now :: int
  bh_home :: str
  bh_temp :: path
  bh_order :: "str list \<Rightarrow> str list"

type_synonym ('f, 'a) bld = "'f build_state \<Rightarrow> 'a res \<times> 'f build_state"

definition on_files :: "('f \<Rightarrow> 'a res \<times> 'f) \<Rightarrow> ('f, 'a) bld" where
  "on_files act b = (case act (b_fs b) of (r, f) \<Rightarrow> (r, b\<lparr>b_fs := f\<rparr>))"

definition updates :: "('f build_state \<Rightarrow> 'f build_state) \<Rightarrow> ('f, unit) bld" where
  "updates g b = (Inr (), g b)"

definition checks :: "('f build_state \<Rightarrow> 'a res) \<Rightarrow> ('f, 'a) bld" where
  "checks g b = (g b, b)"

definition configure :: "(exec_config \<Rightarrow> exec_config) \<Rightarrow> 'f build_state \<Rightarrow> 'f build_state" where
  "configure g b = b\<lparr>b_config := g (b_config b)\<rparr>"

definition extend_key :: "str \<Rightarrow> 'f build_state \<Rightarrow> 'f build_state" where
  "extend_key s b = b\<lparr>b_key := b_key b @ s\<rparr>"

section \<open>Debug output\<close>

text \<open>The \<open>{:?}\<close> of strings, lists and instructions, which goes into cache keys and labels.\<close>

definition debug_digit :: "nat \<Rightarrow> char" where
  "debug_digit n = (if n < 10 then char_of (48 + n) else char_of (87 + n))"

definition debug_char :: "char \<Rightarrow> str" where
  "debug_char c =
     (if c = dquote \<or> c = backslash then [backslash, c]
      else if ord c = 0 then [backslash, CHR ''0'']
      else if ord c = 9 then [backslash, CHR ''t'']
      else if ord c = 10 then [backslash, CHR ''n'']
      else if ord c = 13 then [backslash, CHR ''r'']
      else if ord c < 32 \<or> ord c = 127
        then [backslash] @ ''u{'' @ (if ord c < 16 then [] else [debug_digit (ord c div 16)]) @
          [debug_digit (ord c mod 16)] @ ''}''
      else [c])"

definition debug_str :: "str \<Rightarrow> str" where
  "debug_str s = [dquote] @ concat (map debug_char s) @ [dquote]"

definition debug_list :: "str list \<Rightarrow> str" where
  "debug_list xs = ''['' @ join '', '' (map debug_str xs) @ '']''"

definition debug_option :: "str option \<Rightarrow> str" where
  "debug_option s = (case s of None \<Rightarrow> ''None'' | Some x \<Rightarrow> ''Some('' @ debug_str x @ '')'')"

definition debug_health :: "health_config \<Rightarrow> str" where
  "debug_health c =
     ''HealthConfig { test: '' @ debug_list (health_test c) @ '', interval_secs: '' @ show_nat (interval_secs c) @
     '', timeout_secs: '' @ show_nat (timeout_secs c) @ '', start_period_secs: '' @ show_nat (start_period_secs c) @
     '', retries: '' @ show_nat (unat (retries c)) @ '' }''"

fun debug_instruction :: "instruction \<Rightarrow> str" where
  "debug_instruction (I_From im stage) =
     ''From { image: '' @ debug_str im @ '', as_stage: '' @ debug_option stage @ '' }''"
| "debug_instruction (I_Run c) = ''Run('' @ debug_str c @ '')''"
| "debug_instruction (I_Copy stage src dest) =
     ''Copy { from_stage: '' @ debug_option stage @ '', src: '' @ debug_list src @ '', dest: '' @ debug_str dest @ '' }''"
| "debug_instruction (I_Add src dest) = ''Add { src: '' @ debug_list src @ '', dest: '' @ debug_str dest @ '' }''"
| "debug_instruction (I_Workdir d) = ''Workdir('' @ debug_str d @ '')''"
| "debug_instruction (I_Env k v) = ''Env { key: '' @ debug_str k @ '', value: '' @ debug_str v @ '' }''"
| "debug_instruction (I_Cmd xs) = ''Cmd('' @ debug_list xs @ '')''"
| "debug_instruction (I_Entrypoint xs) = ''Entrypoint('' @ debug_list xs @ '')''"
| "debug_instruction (I_Expose p) = ''Expose('' @ show_nat (unat p) @ '')''"
| "debug_instruction (I_Label k v) = ''Label { key: '' @ debug_str k @ '', value: '' @ debug_str v @ '' }''"
| "debug_instruction (I_Healthcheck c) = ''Healthcheck('' @ debug_health c @ '')''"
| "debug_instruction (I_Arg n d) = ''Arg { name: '' @ debug_str n @ '', default: '' @ debug_option d @ '' }''"
| "debug_instruction (I_User u) = ''User('' @ debug_str u @ '')''"
| "debug_instruction (I_Volume vs) = ''Volume('' @ debug_list vs @ '')''"
| "debug_instruction (I_Stop_signal s) = ''StopSignal('' @ debug_str s @ '')''"
| "debug_instruction (I_Shell xs) = ''Shell('' @ debug_list xs @ '')''"
| "debug_instruction (I_On_build i) = ''OnBuild('' @ debug_instruction i @ '')''"

section \<open>Destinations\<close>

definition no_lead_slash :: "str \<Rightarrow> str" where
  "no_lead_slash = trim_start_by (\<lambda>c. c = CHR ''/'')"

definition target_path :: "path \<Rightarrow> exec_config \<Rightarrow> str \<Rightarrow> path" where
  "target_path root cfg dest =
     (if starts_with dest ''/'' then path_join root (components (no_lead_slash dest))
      else path_join (path_join root (components (no_lead_slash (unwrap_or (x_working_dir cfg) ''/''))))
        (components dest))"

text \<open>The nearest parent that exists must resolve below the root; the target itself is not looked at.\<close>

function parents_inside :: "'f file_ops \<Rightarrow> 'f \<Rightarrow> path \<Rightarrow> path \<Rightarrow> bool" where
  "parents_inside ops f canon_root p =
     (case path_parent p of
        None \<Rightarrow> True
      | Some parent \<Rightarrow>
          if fo_exists ops f parent
          then (case fo_canon ops f parent of Some c \<Rightarrow> path_below c canon_root | None \<Rightarrow> True)
          else parents_inside ops f canon_root parent)"
  by pat_completeness auto
termination
  by (relation "measure (\<lambda>(ops, f, r, p). length p)") (auto simp: path_parent_def split: if_splits)

declare parents_inside.simps [simp del]

definition check_dest :: "'f file_ops \<Rightarrow> str \<Rightarrow> 'f build_state \<Rightarrow> path res" where
  "check_dest ops dest b =
     (if contains_str dest ''..'' then Inl (Path_traversal dest)
      else let target = target_path (b_root b) (b_config b) dest
           in case fo_canon ops (b_fs b) (b_root b) of
                Some cr \<Rightarrow> if parents_inside ops (b_fs b) cr target then Inr target else Inl (Path_traversal dest)
              | None \<Rightarrow> Inr target)"

section \<open>Sources\<close>

text \<open>
  A resolved source is its path and its text relative to the root it was looked up in. The
  entries of a directory are sorted by name (\<open>bh_order\<close> stands for \<open>sort_by_key\<close>).
\<close>

definition split_pattern :: "str \<Rightarrow> str \<times> str" where
  "split_pattern s = (case rsplit_once CHR ''/'' s of Some (d, p) \<Rightarrow> (d, p) | None \<Rightarrow> ([], s))"

definition source_inside :: "'f file_ops \<Rightarrow> 'f \<Rightarrow> path \<Rightarrow> path \<Rightarrow> bool" where
  "source_inside ops f root p =
     (case (fo_canon ops f root, fo_canon ops f p) of
        (Some cr, Some cp) \<Rightarrow> path_below cp cr | _ \<Rightarrow> True)"

definition resolve_source ::
  "'f file_ops \<Rightarrow> (str list \<Rightarrow> str list) \<Rightarrow> 'f \<Rightarrow> path \<Rightarrow> bool \<Rightarrow> str \<Rightarrow> (path \<times> str) list res" where
  "resolve_source ops order f root staged s =
     (if contains_str s ''..'' then Inl (Path_traversal s)
      else if \<not> staged \<and> starts_with s ''/'' then Inl (Path_traversal s)
      else if contains_char s CHR ''*'' \<or> contains_char s CHR ''?'' then
        (case split_pattern s of (dir, pattern) \<Rightarrow>
           let search = (if dir = [] then root else path_join root (components (no_lead_slash dir)))
           in if \<not> fo_exists ops f search then Inl (Not_found dir)
              else let names = (case fo_entries ops f search of None \<Rightarrow> [] | Some es \<Rightarrow> order (map fst es));
                       hits = filter (matches_wildcard pattern) names
                   in if hits = [] then Inl (Not_found s)
                      else Inr (map (\<lambda>n. (search @ [Normal n], dir @ ''/'' @ n)) hits))
      else let p = path_join root (components (if staged then no_lead_slash s else s))
           in if \<not> source_inside ops f root p then Inl (Path_traversal s)
              else if \<not> fo_exists ops f p then Inl (Not_found s)
              else Inr [(p, s)])"

fun resolve_sources ::
  "'f file_ops \<Rightarrow> (str list \<Rightarrow> str list) \<Rightarrow> 'f \<Rightarrow> path \<Rightarrow> bool \<Rightarrow> str list \<Rightarrow> (path \<times> str) list res" where
  "resolve_sources ops order f root staged [] = Inr []"
| "resolve_sources ops order f root staged (s # ss) =
     bind_res (resolve_source ops order f root staged s) (\<lambda>xs.
     bind_res (resolve_sources ops order f root staged ss) (\<lambda>ys. Inr (xs @ ys)))"

text \<open>\<open>strip_prefix\<close> of the context directory: empty and \<open>.\<close> components disappear at both ends.\<close>

definition idle_piece :: "str \<Rightarrow> bool" where
  "idle_piece p \<longleftrightarrow> p = [] \<or> p = ''.''"

definition rel_text :: "str \<Rightarrow> str" where
  "rel_text s = join ''/'' (rev (dropWhile idle_piece (rev (dropWhile idle_piece (split_on CHR ''/'' s)))))"

definition is_archive :: "str \<Rightarrow> bool" where
  "is_archive s \<longleftrightarrow> list_ex (ends_with (''/'' @ s)) [''.tar'', ''.tar.gz'', ''.tgz'', ''.tar.bz2'', ''.tar.xz'']"

definition is_gzip :: "str \<Rightarrow> bool" where
  "is_gzip s \<longleftrightarrow> ends_with (''/'' @ s) ''.tar.gz'' \<or> ends_with (''/'' @ s) ''.tgz''"

section \<open>Placing files\<close>

definition make_parent :: "'f file_ops \<Rightarrow> path \<Rightarrow> 'f \<Rightarrow> unit res \<times> 'f" where
  "make_parent ops p = (case path_parent p of Some d \<Rightarrow> fo_mkdir ops d | None \<Rightarrow> Pair (Inr ()))"

text \<open>\<open>file_name().unwrap()\<close>: a panic, here an error, on a path without a last name.\<close>

definition place_file :: "'f file_ops \<Rightarrow> path \<Rightarrow> str \<Rightarrow> path \<Rightarrow> 'f \<Rightarrow> unit res \<times> 'f" where
  "place_file ops target dest src =
     act_then (make_parent ops target) (\<lambda>_ f.
       if fo_is_dir ops f target \<or> ends_with dest ''/''
       then act_then (fo_mkdir ops target) (\<lambda>_ f.
         case file_name src of
           None \<Rightarrow> (Inl (Invalid_name []), f)
         | Some n \<Rightarrow> fo_copy ops src (target @ [Normal n]) f) f
       else fo_copy ops src target f)"

definition place_source :: "'f file_ops \<Rightarrow> path \<Rightarrow> str \<Rightarrow> path \<Rightarrow> 'f \<Rightarrow> unit res \<times> 'f" where
  "place_source ops target dest src f =
     (if fo_is_dir ops f src then copy_dir_all ops src target f else place_file ops target dest src f)"

definition copy_source ::
  "'f file_ops \<Rightarrow> str list \<Rightarrow> bool \<Rightarrow> path \<Rightarrow> str \<Rightarrow> path \<times> str \<Rightarrow> 'f \<Rightarrow> unit res \<times> 'f" where
  "copy_source ops pats staged target dest x f =
     (if \<not> staged \<and> is_ignored pats (rel_text (snd x)) then (Inr (), f)
      else place_source ops target dest (fst x) f)"

definition add_source ::
  "'f file_ops \<Rightarrow> str list \<Rightarrow> path \<Rightarrow> str \<Rightarrow> path \<times> str \<Rightarrow> 'f \<Rightarrow> unit res \<times> 'f" where
  "add_source ops pats target dest x f =
     (if is_ignored pats (rel_text (snd x)) then (Inr (), f)
      else if is_archive (snd x) \<and> fo_is_file ops f (fst x)
      then act_then (fo_mkdir ops target) (\<lambda>_. fo_unpack ops (is_gzip (snd x)) (fst x) target) f
      else place_source ops target dest (fst x) f)"

definition add_url :: "('f, 'x) build_host_scheme \<Rightarrow> path \<Rightarrow> str \<Rightarrow> str \<Rightarrow> 'f \<Rightarrow> unit res \<times> 'f" where
  "add_url h target dest url =
     act_then (Pair (bh_fetch h url)) (\<lambda>bytes.
     act_then (make_parent (bh_ops h) target) (\<lambda>_ f.
       if fo_is_dir (bh_ops h) f target \<or> ends_with dest ''/''
       then act_then (fo_mkdir (bh_ops h) target) (\<lambda>_.
         fo_write (bh_ops h) (path_join target (components (last (split_on CHR ''/'' url)))) bytes) f
       else fo_write (bh_ops h) target bytes f))"

definition many_need_slash :: "'f file_ops \<Rightarrow> 'f \<Rightarrow> nat \<Rightarrow> path \<Rightarrow> str \<Rightarrow> unit res" where
  "many_need_slash ops f n target dest =
     (if n > 1 \<and> \<not> ends_with dest ''/'' \<and> \<not> fo_is_dir ops f target then Inl (Invalid_instruction dest) else Inr ())"

section \<open>Instructions\<close>

definition fresh_dir :: "'f file_ops \<Rightarrow> path \<Rightarrow> ('f, unit) bld" where
  "fresh_dir ops p = on_files (\<lambda>f. fo_mkdir ops p (fo_rmdir ops p f))"

text \<open>The previous stage is kept when it has a name or another stage was kept before it.\<close>

definition save_stage :: "'f build_state \<Rightarrow> 'f build_state" where
  "save_stage b =
     (if b_name b \<noteq> None \<or> b_stages b \<noteq> []
      then b\<lparr>b_stages := b_stages b @ [\<lparr>st_name = b_name b, st_rootfs = b_root b, st_config = b_config b\<rparr>],
             b_name := None\<rparr>
      else b)"

definition stage_dir :: "path \<Rightarrow> nat \<Rightarrow> path" where
  "stage_dir temp n = temp @ [Normal (''stage-'' @ show_nat n)]"

definition base_image :: "('f, 'x) build_host_scheme \<Rightarrow> str \<Rightarrow> ('f, image_record) bld" where
  "base_image h im b =
     (case image_find (bh_io h) (bh_arch h) im (b_images b) of
        Some r \<Rightarrow> (Inr r, b)
      | None \<Rightarrow> (case bh_pull h im (b_fs b) (b_images b) of
          (r, f, imgs) \<Rightarrow> (r, b\<lparr>b_fs := f, b_images := imgs\<rparr>)))"

definition begin_stage :: "path \<Rightarrow> str option \<Rightarrow> 'f build_state \<Rightarrow> 'f build_state" where
  "begin_stage temp stage b =
     (let b = save_stage b in b\<lparr>b_name := stage, b_root := stage_dir temp (length (b_stages b))\<rparr>)"

definition take_base :: "str \<Rightarrow> str option \<Rightarrow> image_record \<Rightarrow> 'f build_state \<Rightarrow> 'f build_state" where
  "take_base im stage r b =
     b\<lparr>b_config := unwrap_or (g_config (i_config r)) (b_config b),
       b_key := ''from_'' @ im @ ''_'' @ i_manifest_digest r @ (case stage of Some s \<Rightarrow> ''_'' @ s | None \<Rightarrow> [])\<rparr>"

definition from_step :: "('f, 'x) build_host_scheme \<Rightarrow> str \<Rightarrow> str option \<Rightarrow> ('f, unit) bld" where
  "from_step h im stage b =
     (let b = begin_stage (bh_temp h) stage b; root = b_root b
      in act_then (on_files (fo_mkdir (bh_ops h) root)) (\<lambda>_.
         act_then (base_image h im) (\<lambda>r.
         act_then (on_files (copy_dir_all (bh_ops h) (components (i_rootfs_path r)) root)) (\<lambda>_.
         updates (take_base im stage r)))) b)"

definition workdir_path :: "'f build_state \<Rightarrow> str \<Rightarrow> path" where
  "workdir_path b d = target_path (b_root b) (b_config b) d"

definition workdir_step :: "('f, 'x) build_host_scheme \<Rightarrow> str \<Rightarrow> ('f, unit) bld" where
  "workdir_step h d b =
     act_then (on_files (fo_mkdir (bh_ops h) (workdir_path b d))) (\<lambda>_.
     updates (\<lambda>b. extend_key (''_workdir_'' @ d) (configure (\<lambda>c. c\<lparr>x_working_dir := Some d\<rparr>) b))) b"

definition set_env_entry :: "str \<Rightarrow> str \<Rightarrow> exec_config \<Rightarrow> exec_config" where
  "set_env_entry k v c =
     c\<lparr>x_env := Some (filter (\<lambda>e. env_key e \<noteq> k) (unwrap_or (x_env c) []) @ [k @ ''='' @ v])\<rparr>"

definition set_arg_entry :: "str \<Rightarrow> str \<Rightarrow> exec_config \<Rightarrow> exec_config" where
  "set_arg_entry n v c =
     c\<lparr>x_env := Some (filter (\<lambda>e. \<not> starts_with e (n @ ''='')) (unwrap_or (x_env c) []) @ [n @ ''='' @ v])\<rparr>"

definition arg_value :: "build_options \<Rightarrow> str \<Rightarrow> str option \<Rightarrow> str option" where
  "arg_value opts n d = or_else (map_of (bo_args opts) n) d"

definition stage_root :: "('f, 'x) build_host_scheme \<Rightarrow> build_options \<Rightarrow> str option \<Rightarrow> 'f build_state \<Rightarrow> path res" where
  "stage_root h opts from b =
     (case from of
        None \<Rightarrow> Inr (bo_context opts)
      | Some s \<Rightarrow>
          (case or_else (find (\<lambda>st. st_name st = Some s) (b_stages b))
             (case parse_unsigned 64 s of
                Some i \<Rightarrow> if i < length (b_stages b) then Some (b_stages b ! i) else None | None \<Rightarrow> None) of
             Some st \<Rightarrow> Inr (st_rootfs st)
           | None \<Rightarrow> (case image_find (bh_io h) (bh_arch h) s (b_images b) of
               Some r \<Rightarrow> Inr (components (i_rootfs_path r)) | None \<Rightarrow> Inl (Not_found s))))"

definition copy_step ::
  "('f, 'x) build_host_scheme \<Rightarrow> build_options \<Rightarrow> str list \<Rightarrow> str option \<Rightarrow> str list \<Rightarrow> str \<Rightarrow> ('f, unit) bld" where
  "copy_step h opts pats from src dest =
     act_then (checks (check_dest (bh_ops h) dest)) (\<lambda>target.
     act_then (checks (stage_root h opts from)) (\<lambda>root.
     act_then (checks (\<lambda>b. resolve_sources (bh_ops h) (bh_order h) (b_fs b) root (from \<noteq> None) src)) (\<lambda>xs.
     act_then (checks (\<lambda>b. many_need_slash (bh_ops h) (b_fs b) (length xs) target dest)) (\<lambda>_.
     act_then (on_files (each_of (copy_source (bh_ops h) pats (from \<noteq> None) target dest) xs)) (\<lambda>_.
     updates (extend_key (''_copy_'' @ dest @ ''_'' @ debug_list src)))))))"

definition is_url :: "str \<Rightarrow> bool" where
  "is_url s \<longleftrightarrow> starts_with s ''http://'' \<or> starts_with s ''https://''"

definition add_step ::
  "('f, 'x) build_host_scheme \<Rightarrow> build_options \<Rightarrow> str list \<Rightarrow> str list \<Rightarrow> str \<Rightarrow> ('f, unit) bld" where
  "add_step h opts pats src dest =
     (let urls = filter is_url src; files = filter (\<lambda>s. \<not> is_url s) src in
     act_then (checks (check_dest (bh_ops h) dest)) (\<lambda>target.
     act_then (checks (\<lambda>b. resolve_sources (bh_ops h) (bh_order h) (b_fs b) (bo_context opts) False files)) (\<lambda>xs.
     act_then (checks (\<lambda>b. many_need_slash (bh_ops h) (b_fs b) (length xs + length urls) target dest)) (\<lambda>_.
     act_then (on_files (each_of (add_url h target dest) urls)) (\<lambda>_.
     act_then (on_files (each_of (add_source (bh_ops h) pats target dest) xs)) (\<lambda>_.
     updates (extend_key (''_add_'' @ dest @ ''_'' @ debug_list src))))))))"

definition run_key :: "('f, 'x) build_host_scheme \<Rightarrow> str \<Rightarrow> str \<Rightarrow> str" where
  "run_key h key cmd = bh_hash h (key @ cmd)"

definition execute_run :: "('f, 'x) build_host_scheme \<Rightarrow> str \<Rightarrow> ('f, unit) bld" where
  "execute_run h cmd b =
     (let ops = bh_ops h; key = run_key h (b_key b) cmd;
          bundle = bh_temp h @ [Normal (''bundle-step-'' @ show_nat (b_step b))];
          bundle_root = bundle @ [Normal ''rootfs''];
          spec = new_default (Some (b_config b)) (Some (b_shell b @ [cmd])) None
      in act_then (on_files (fo_mkdir ops bundle)) (\<lambda>_.
         act_then (on_files (copy_dir_all ops (b_root b) bundle_root)) (\<lambda>_.
         act_then (on_files (bh_save h bundle spec)) (\<lambda>_.
         act_then (on_files (bh_execute h bundle spec)) (\<lambda>code.
         act_then (checks (\<lambda>_. if code \<noteq> 0 then Inl Exec_failed else Inr ())) (\<lambda>_.
         act_then (fresh_dir ops (b_root b)) (\<lambda>_.
         act_then (on_files (copy_dir_all ops bundle_root (b_root b))) (\<lambda>_.
         act_then (on_files (\<lambda>f. (Inr (), snd (cache_put ops (components (bh_home h)) key (b_root b) f)))) (\<lambda>_.
         updates (\<lambda>b. b\<lparr>b_key := key\<rparr>))))))))) b)"

definition run_step :: "('f, 'x) build_host_scheme \<Rightarrow> build_options \<Rightarrow> str \<Rightarrow> ('f, unit) bld" where
  "run_step h opts cmd b =
     (let ops = bh_ops h; key = run_key h (b_key b) cmd
      in case (if bo_no_cache opts then None else cache_get ops (components (bh_home h)) key (b_fs b)) of
           Some cached \<Rightarrow>
             act_then (fresh_dir ops (b_root b)) (\<lambda>_.
             act_then (on_files (copy_dir_all ops cached (b_root b))) (\<lambda>_.
             updates (\<lambda>b. b\<lparr>b_key := key\<rparr>))) b
         | None \<Rightarrow> execute_run h cmd b)"

definition image_label :: "str \<Rightarrow> str \<Rightarrow> exec_config \<Rightarrow> exec_config" where
  "image_label k v c = c\<lparr>x_labels := Some (AList.update k v (unwrap_or (x_labels c) []))\<rparr>"

definition add_port :: "u16 \<Rightarrow> exec_config \<Rightarrow> exec_config" where
  "add_port p c = c\<lparr>x_exposed_ports := Some (List.insert (show_nat (unat p) @ ''/tcp'') (unwrap_or (x_exposed_ports c) []))\<rparr>"

fun build_step ::
  "('f, 'x) build_host_scheme \<Rightarrow> build_options \<Rightarrow> str list \<Rightarrow> instruction \<Rightarrow> ('f, unit) bld" where
  "build_step h opts pats (I_From im stage) = from_step h im stage"
| "build_step h opts pats (I_Workdir d) = workdir_step h d"
| "build_step h opts pats (I_Env k v) =
     updates (\<lambda>b. extend_key (''_env_'' @ k @ ''_'' @ v) (configure (set_env_entry k v) b))"
| "build_step h opts pats (I_Add src dest) = add_step h opts pats src dest"
| "build_step h opts pats (I_Copy stage src dest) = copy_step h opts pats stage src dest"
| "build_step h opts pats (I_Run cmd) = run_step h opts cmd"
| "build_step h opts pats (I_Cmd xs) = updates (configure (\<lambda>c. c\<lparr>x_cmd := Some xs\<rparr>))"
| "build_step h opts pats (I_Entrypoint xs) = updates (configure (\<lambda>c. c\<lparr>x_entrypoint := Some xs\<rparr>))"
| "build_step h opts pats (I_Expose p) =
     updates (\<lambda>b. extend_key (''_expose_'' @ show_nat (unat p)) (configure (add_port p) b))"
| "build_step h opts pats (I_Label k v) = updates (configure (image_label k v))"
| "build_step h opts pats (I_Healthcheck hc) =
     updates (\<lambda>b. extend_key (''_hc_'' @ debug_list (health_test hc))
       (configure (\<lambda>c. c\<lparr>x_healthcheck := Some hc\<rparr>) b))"
| "build_step h opts pats (I_Arg n d) =
     updates (\<lambda>b. extend_key (''_arg_'' @ n @ ''_'' @ unwrap_or (arg_value opts n d) [])
       (case arg_value opts n d of Some v \<Rightarrow> configure (set_arg_entry n v) b | None \<Rightarrow> b))"
| "build_step h opts pats (I_User u) =
     updates (\<lambda>b. extend_key (''_user_'' @ u) (configure (\<lambda>c. c\<lparr>x_user := Some u\<rparr>) b))"
| "build_step h opts pats (I_Volume vs) =
     updates (\<lambda>b. extend_key (''_vol_'' @ debug_list vs) (configure (\<lambda>c. c\<lparr>x_volumes := Some (remdups vs)\<rparr>) b))"
| "build_step h opts pats (I_Stop_signal s) =
     updates (\<lambda>b. extend_key (''_stopsignal_'' @ s) (configure (\<lambda>c. c\<lparr>x_stop_signal := Some s\<rparr>) b))"
| "build_step h opts pats (I_Shell xs) =
     updates (\<lambda>b. extend_key (''_shell_'' @ debug_list xs) (b\<lparr>b_shell := xs\<rparr>))"
| "build_step h opts pats (I_On_build i) =
     updates (\<lambda>b. extend_key ''_onbuild''
       (configure (image_label (''boxr.onbuild.'' @ show_nat (length (b_key b))) (debug_instruction i)) b))"

text \<open>The loop stops before the stage after the target.\<close>

definition target_reached :: "build_options \<Rightarrow> instruction \<Rightarrow> 'f build_state \<Rightarrow> bool" where
  "target_reached opts i b \<longleftrightarrow>
     (case i of I_From _ _ \<Rightarrow> bo_target opts \<noteq> None \<and> b_name b = bo_target opts | _ \<Rightarrow> False)"

fun build_steps ::
  "('f, 'x) build_host_scheme \<Rightarrow> build_options \<Rightarrow> str list \<Rightarrow> instruction list \<Rightarrow> ('f, unit) bld" where
  "build_steps h opts pats [] b = (Inr (), b)"
| "build_steps h opts pats (i # is) b =
     (let b = b\<lparr>b_step := Suc (b_step b)\<rparr>
      in if target_reached opts i b then (Inr (), b)
         else act_then (build_step h opts pats i) (\<lambda>_. build_steps h opts pats is) b)"

section \<open>The whole build\<close>

definition check_instructions :: "build_options \<Rightarrow> instruction list \<Rightarrow> unit res" where
  "check_instructions opts is =
     (if is = [] then Inl Empty_spec
      else case find (\<lambda>i. case i of I_Arg _ _ \<Rightarrow> False | _ \<Rightarrow> True) is of
             Some (I_From _ _) \<Rightarrow>
               (case bo_target opts of
                  None \<Rightarrow> Inr ()
                | Some t \<Rightarrow> if list_ex (\<lambda>i. case i of I_From _ s \<Rightarrow> s = Some t | _ \<Rightarrow> False) is then Inr () else Inl (Not_found t))
           | _ \<Rightarrow> Inl (Invalid_instruction ''FROM''))"

definition initial_build :: "('f, 'x) build_host_scheme \<Rightarrow> 'f \<Rightarrow> image_file \<Rightarrow> 'f build_state" where
  "initial_build h f imgs =
     \<lparr>b_fs = f, b_images = imgs, b_stages = [], b_root = stage_dir (bh_temp h) 0,
      b_config = default_exec_config, b_name = None, b_shell = [''/bin/sh'', ''-c''], b_step = 1, b_key = ''initial''\<rparr>"

definition parse_tag :: "str \<Rightarrow> image_ref" where
  "parse_tag t =
     (case ref_parse t of
        Inr r \<Rightarrow> r
      | Inl _ \<Rightarrow> \<lparr>registry = DEFAULT_REGISTRY, repository = t, ref_tag = DEFAULT_TAG, digest = None\<rparr>)"

definition built_record :: "('f, 'x) build_host_scheme \<Rightarrow> build_options \<Rightarrow> exec_config \<Rightarrow> image_record" where
  "built_record h opts cfg =
     (let ref = parse_tag (unwrap_or (bo_tag opts) (''boxr-build:'' @ take 8 (bh_rand h)));
          im = ''sha256:'' @ bh_rand h
      in \<lparr>i_id = take 12 (bh_rand h), i_reference = repository ref, i_tag = ref_tag ref, i_registry = registry ref,
          i_manifest_digest = im, i_config_digest = im, i_size_bytes = 1024 * 1024, i_created_at = bh_now h,
          i_rootfs_path = bh_home h @ ''/images/sha256_'' @ bh_rand h @ ''/rootfs'',
          i_config = \<lparr>g_architecture = bh_arch h, g_os = ''linux'', g_config = Some cfg, g_rootfs = None, g_history = []\<rparr>\<rparr>)"

definition store_image :: "io \<Rightarrow> image_record \<Rightarrow> ('f, unit) bld" where
  "store_image io r b = (case image_add io r (b_images b) of (res, f) \<Rightarrow> (res, b\<lparr>b_images := f\<rparr>))"

definition package_image :: "('f, 'x) build_host_scheme \<Rightarrow> build_options \<Rightarrow> ('f, image_record) bld" where
  "package_image h opts b =
     (let r = built_record h opts (b_config b); dest = components (i_rootfs_path r)
      in act_then (on_files (fo_mkdir (bh_ops h) dest)) (\<lambda>_.
         act_then (on_files (copy_dir_all (bh_ops h) (b_root b) dest)) (\<lambda>_.
         act_then (store_image (bh_io h) r) (\<lambda>_. checks (\<lambda>_. Inr r)))) b)"

definition path_in :: "path \<Rightarrow> str \<Rightarrow> path" where
  "path_in d n = d @ [Normal n]"

definition build :: "('f, 'x) build_host_scheme \<Rightarrow> build_options \<Rightarrow> 'f \<Rightarrow> image_file \<Rightarrow> image_record res \<times> 'f build_state" where
  "build h opts f imgs =
     (let b = initial_build h f imgs; ops = bh_ops h
      in act_then (checks (\<lambda>_. bind_res (ok_or (fo_read ops f (bo_dockerfile opts)) Io_failed) (parse_str (bh_json h))))
           (\<lambda>is. act_then (checks (\<lambda>_. check_instructions opts is)) (\<lambda>_.
            act_then (on_files (fo_mkdir ops (stage_dir (bh_temp h) 0))) (\<lambda>_.
            act_then (build_steps h opts (load_patterns (fo_read ops f (path_in (bo_context opts) ''.dockerignore''))) is) (\<lambda>_.
            package_image h opts)))) b)"

text \<open>The command: build arguments without \<open>=\<close> are passed over; further tags are stored as copies.\<close>

definition build_args_of :: "str list \<Rightarrow> (str \<times> str) list" where
  "build_args_of args =
     fold (\<lambda>a m. case split_once CHR ''='' a of Some (k, v) \<Rightarrow> AList.update (trim k) (trim v) m | None \<Rightarrow> m) args []"

definition retag :: "str \<Rightarrow> image_record \<Rightarrow> image_record" where
  "retag t r =
     r\<lparr>i_reference := repository (parse_tag t), i_tag := ref_tag (parse_tag t), i_registry := registry (parse_tag t)\<rparr>"

definition build_image ::
  "('f, 'x) build_host_scheme \<Rightarrow> build_options \<Rightarrow> str list \<Rightarrow> 'f \<Rightarrow> image_file \<Rightarrow> unit res \<times> 'f build_state" where
  "build_image h opts tags f imgs =
     (case build h (opts\<lparr>bo_tag := (case tags of [] \<Rightarrow> None | t # _ \<Rightarrow> Some t)\<rparr>) f imgs of
        (Inl e, b) \<Rightarrow> (Inl e, b)
      | (Inr r, b) \<Rightarrow> (Inr (), fold (\<lambda>t b. snd (store_image (bh_io h) (retag t r) b)) (tl tags) b))"

section \<open>Rules for steps\<close>

lemma bld_Inr [simp]:
  "updates g b = (Inr u, b') \<longleftrightarrow> b' = g b"
  "checks c b = (Inr a, b') \<longleftrightarrow> c b = Inr a \<and> b' = b"
  by (auto simp: updates_def checks_def)

lemma on_files_Inr:
  "on_files act b = (Inr a, b') \<longleftrightarrow> (\<exists>f. act (b_fs b) = (Inr a, f) \<and> b' = b\<lparr>b_fs := f\<rparr>)"
  by (auto simp: on_files_def split: prod.splits)

text \<open>What a step leaves of the state when it only works on the files.\<close>

lemma on_files_keeps:
  assumes "on_files act b = (r, b')"
  shows "b_key b' = b_key b" and "b_config b' = b_config b" and "b_root b' = b_root b" and "b_stages b' = b_stages b"
    and "b_name b' = b_name b" and "b_images b' = b_images b" and "b_shell b' = b_shell b"
  using assms by (auto simp: on_files_def split: prod.splits)

lemma keep_fields [simp]:
  "b_key (configure g b) = b_key b" "b_fs (configure g b) = b_fs b" "b_root (configure g b) = b_root b"
  "b_config (configure g b) = g (b_config b)" "b_stages (configure g b) = b_stages b" "b_images (configure g b) = b_images b"
  "b_key (extend_key s b) = b_key b @ s" "b_fs (extend_key s b) = b_fs b" "b_root (extend_key s b) = b_root b"
  "b_config (extend_key s b) = b_config b" "b_stages (extend_key s b) = b_stages b" "b_images (extend_key s b) = b_images b"
  by (simp_all add: configure_def extend_key_def)

section \<open>Cache keys\<close>

text \<open>What the key becomes; \<open>digest_of\<close> gives the digest of the image a name stands for.\<close>

fun key_step :: "(str \<Rightarrow> str) \<Rightarrow> build_options \<Rightarrow> (str \<Rightarrow> str) \<Rightarrow> instruction \<Rightarrow> str \<Rightarrow> str" where
  "key_step hash opts digest_of (I_From im stage) k =
     ''from_'' @ im @ ''_'' @ digest_of im @ (case stage of Some s \<Rightarrow> ''_'' @ s | None \<Rightarrow> [])"
| "key_step hash opts digest_of (I_Workdir d) k = k @ ''_workdir_'' @ d"
| "key_step hash opts digest_of (I_Env n v) k = k @ ''_env_'' @ n @ ''_'' @ v"
| "key_step hash opts digest_of (I_Add src dest) k = k @ ''_add_'' @ dest @ ''_'' @ debug_list src"
| "key_step hash opts digest_of (I_Copy stage src dest) k = k @ ''_copy_'' @ dest @ ''_'' @ debug_list src"
| "key_step hash opts digest_of (I_Run cmd) k = hash (k @ cmd)"
| "key_step hash opts digest_of (I_Expose p) k = k @ ''_expose_'' @ show_nat (unat p)"
| "key_step hash opts digest_of (I_Healthcheck hc) k = k @ ''_hc_'' @ debug_list (health_test hc)"
| "key_step hash opts digest_of (I_Arg n d) k = k @ ''_arg_'' @ n @ ''_'' @ unwrap_or (arg_value opts n d) []"
| "key_step hash opts digest_of (I_User u) k = k @ ''_user_'' @ u"
| "key_step hash opts digest_of (I_Volume vs) k = k @ ''_vol_'' @ debug_list vs"
| "key_step hash opts digest_of (I_Stop_signal s) k = k @ ''_stopsignal_'' @ s"
| "key_step hash opts digest_of (I_Shell xs) k = k @ ''_shell_'' @ debug_list xs"
| "key_step hash opts digest_of (I_On_build i) k = k @ ''_onbuild''"
| "key_step hash opts digest_of _ k = k"

text \<open>While \<open>P\<close> holds of the image index, every name stands for an image with the given digest.\<close>

definition pinned :: "('f, 'x) build_host_scheme \<Rightarrow> (str \<Rightarrow> str) \<Rightarrow> (image_file \<Rightarrow> bool) \<Rightarrow> bool" where
  "pinned h digest_of P \<longleftrightarrow> (\<forall>imgs. P imgs \<longrightarrow>
     (\<forall>im r. image_find (bh_io h) (bh_arch h) im imgs = Some r \<longrightarrow> i_manifest_digest r = digest_of im) \<and>
     (\<forall>im f r f' imgs'. bh_pull h im f imgs = (Inr r, f', imgs') \<longrightarrow> i_manifest_digest r = digest_of im \<and> P imgs'))"

lemma base_image_pinned:
  assumes "pinned h d P" and "P (b_images b)" and "base_image h im b = (Inr r, b')"
  shows "i_manifest_digest r = d im" and "P (b_images b')"
proof -
  have *: "\<And>im r. image_find (bh_io h) (bh_arch h) im (b_images b) = Some r \<Longrightarrow> i_manifest_digest r = d im"
    "\<And>im f r f' imgs'. bh_pull h im f (b_images b) = (Inr r, f', imgs') \<Longrightarrow> i_manifest_digest r = d im \<and> P imgs'"
    using assms(1,2) by (auto simp: pinned_def)
  show "i_manifest_digest r = d im" and "P (b_images b')"
    using assms(2,3) * by (auto simp: base_image_def split: option.splits prod.splits)
qed

lemma begin_stage_keeps [simp]:
  "b_images (begin_stage temp stage b) = b_images b" "b_fs (begin_stage temp stage b) = b_fs b"
  "b_config (begin_stage temp stage b) = b_config b" "b_name (begin_stage temp stage b) = stage"
  by (simp_all add: begin_stage_def save_stage_def Let_def)

lemma from_step_Inr:
  "from_step h im stage b = (Inr u, b') \<longleftrightarrow>
     (\<exists>b2 r b3 b4. on_files (fo_mkdir (bh_ops h) (b_root (begin_stage (bh_temp h) stage b))) (begin_stage (bh_temp h) stage b) =
         (Inr (), b2) \<and> base_image h im b2 = (Inr r, b3) \<and>
       on_files (copy_dir_all (bh_ops h) (components (i_rootfs_path r)) (b_root (begin_stage (bh_temp h) stage b))) b3 = (Inr (), b4) \<and>
       b' = take_base im stage r b4)"
  by (auto simp: from_step_def act_then_Inr Let_def)

lemma from_step_key:
  assumes "pinned h d P" and "P (b_images b)" and "from_step h im stage b = (Inr u, b')"
  shows "b_key b' = key_step hash opts d (I_From im stage) k" and "P (b_images b')"
proof -
  let ?b = "begin_stage (bh_temp h) stage b"
  from assms(3) obtain b2 r b3 b4 where a: "on_files (fo_mkdir (bh_ops h) (b_root ?b)) ?b = (Inr (), b2)"
      and r: "base_image h im b2 = (Inr r, b3)"
      and c: "on_files (copy_dir_all (bh_ops h) (components (i_rootfs_path r)) (b_root ?b)) b3 = (Inr (), b4)"
      and b': "b' = take_base im stage r b4"
    unfolding from_step_Inr by blast
  have p: "P (b_images b2)" using assms(2) on_files_keeps(6) [OF a] by simp
  show "b_key b' = key_step hash opts d (I_From im stage) k" and "P (b_images b')"
    using base_image_pinned(1,2) [OF assms(1) p r] on_files_keeps(6) [OF c] by (simp_all add: b' take_base_def)
qed

lemma file_step_keys:
  "workdir_step h w b = (Inr u, b') \<Longrightarrow> b_key b' = b_key b @ ''_workdir_'' @ w \<and> b_images b' = b_images b"
  "copy_step h opts pats from src dest b = (Inr u, b') \<Longrightarrow>
     b_key b' = b_key b @ ''_copy_'' @ dest @ ''_'' @ debug_list src \<and> b_images b' = b_images b"
  "add_step h opts pats src dest b = (Inr u, b') \<Longrightarrow>
     b_key b' = b_key b @ ''_add_'' @ dest @ ''_'' @ debug_list src \<and> b_images b' = b_images b"
  "run_step h opts cmd b = (Inr u, b') \<Longrightarrow> b_key b' = bh_hash h (b_key b @ cmd) \<and> b_images b' = b_images b"
  by (auto simp: workdir_step_def copy_step_def add_step_def run_step_def execute_run_def run_key_def fresh_dir_def Let_def
      act_then_Inr on_files_Inr split: option.splits)

lemma build_step_key:
  assumes "pinned h d P" and "P (b_images b)" and "build_step h opts pats i b = (Inr u, b')"
  shows "b_key b' = key_step (bh_hash h) opts d i (b_key b) \<and> P (b_images b')"
proof (cases i)
  case (I_From im stage)
  then show ?thesis using assms from_step_key [OF assms(1,2)] by auto
qed (use assms in \<open>auto dest!: file_step_keys split: option.splits\<close>)

text \<open>
  The key of a build depends on the instructions, the build arguments and the digests of the
  base images only: it is the same whatever the files of the context are.
\<close>

theorem cache_key_ignores_files:
  assumes "pinned h d P" and "P (b_images b)" and "bo_target opts = None"
    and "build_steps h opts pats is b = (Inr u, b')"
  shows "b_key b' = fold (key_step (bh_hash h) opts d) is (b_key b)"
  using assms(2,4)
proof (induction "is" arbitrary: b)
  case (Cons i "is")
  let ?b = "b\<lparr>b_step := Suc (b_step b)\<rparr>"
  have t: "\<not> target_reached opts i ?b" using assms(3) by (simp add: target_reached_def split: instruction.splits)
  obtain b1 where s: "build_step h opts pats i ?b = (Inr (), b1)" and r: "build_steps h opts pats is b1 = (Inr u, b')"
    using Cons.prems(2) t by (auto simp: Let_def act_then_Inr)
  from build_step_key [OF assms(1) _ s] Cons.prems(1) have "b_key b1 = key_step (bh_hash h) opts d i (b_key b)" "P (b_images b1)"
    by simp_all
  with Cons.IH [OF _ r] show ?case by simp
qed simp

text \<open>
  C27. The cache does not see the files of the context. When a build has run a command and a
  later build of the same Dockerfile, with other files to copy, comes to the same command, it
  takes the cached root file system of the first and executes nothing.
\<close>

theorem cached_run_ignores_context:
  assumes "pinned h d P" and "P (b_images b)" and "pinned h' d P'" and "P' (b_images b')"
    and "bo_target opts = None" and "bo_target opts' = None" and "bo_args opts' = bo_args opts"
    and "bh_hash h' = bh_hash h" and "b_key b' = b_key b"
    and "build_steps h opts pats (is @ [I_Run cmd]) b = (Inr u, b1)"
    and "build_steps h' opts' pats' is b' = (Inr u', b1')"
    and "\<not> bo_no_cache opts'" and "cache_get (bh_ops h') (components (bh_home h')) (b_key b1) (b_fs b1') = Some cached"
  shows "run_step h' opts' cmd b1' =
     act_then (fresh_dir (bh_ops h') (b_root b1')) (\<lambda>_.
     act_then (on_files (copy_dir_all (bh_ops h') cached (b_root b1'))) (\<lambda>_.
     updates (\<lambda>b. b\<lparr>b_key := b_key b1\<rparr>))) b1'"
proof -
  have "key_step (bh_hash h) opts' d i x = key_step (bh_hash h) opts d i x" for i x
    using assms(7) by (cases i) (simp_all add: arg_value_def)
  then have k: "key_step (bh_hash h) opts' d = key_step (bh_hash h) opts d" by (simp add: fun_eq_iff)
  have "b_key b1 = bh_hash h (fold (key_step (bh_hash h) opts d) is (b_key b) @ cmd)"
    using cache_key_ignores_files [OF assms(1,2,5,10)] by simp
  moreover have "b_key b1' = fold (key_step (bh_hash h) opts d) is (b_key b)"
    using cache_key_ignores_files [OF assms(3,4,6,11)] assms(8,9) k by simp
  ultimately have "run_key h' (b_key b1') cmd = b_key b1" by (simp add: run_key_def assms(8))
  then show ?thesis using assms(12,13) by (simp add: run_step_def Let_def)
qed

section \<open>Stages\<close>

text \<open>Only \<open>FROM\<close> changes the stages, their names and the directory that is built in.\<close>

lemma base_image_keeps:
  "base_image h im b = (Inr r, b') \<Longrightarrow> b_root b' = b_root b \<and> b_stages b' = b_stages b \<and> b_config b' = b_config b \<and> b_name b' = b_name b"
  by (auto simp: base_image_def split: option.splits prod.splits)

lemma base_image_local:
  "image_find (bh_io h) (bh_arch h) im (b_images b) = Some r \<Longrightarrow> base_image h im b = (Inr r, b)"
  by (simp add: base_image_def)

lemma file_step_stages:
  "workdir_step h w b = (Inr u, b') \<Longrightarrow> b_stages b' = b_stages b \<and> b_name b' = b_name b \<and> b_root b' = b_root b"
  "copy_step h opts pats from src dest b = (Inr u, b') \<Longrightarrow>
     b_stages b' = b_stages b \<and> b_name b' = b_name b \<and> b_root b' = b_root b"
  "add_step h opts pats src dest b = (Inr u, b') \<Longrightarrow>
     b_stages b' = b_stages b \<and> b_name b' = b_name b \<and> b_root b' = b_root b"
  "run_step h opts cmd b = (Inr u, b') \<Longrightarrow>
     b_stages b' = b_stages b \<and> b_name b' = b_name b \<and> b_root b' = b_root b"
  by (auto simp: workdir_step_def copy_step_def add_step_def run_step_def execute_run_def fresh_dir_def Let_def
      act_then_Inr on_files_Inr extend_key_def configure_def split: option.splits)

fun is_from :: "instruction \<Rightarrow> bool" where
  "is_from (I_From _ _) = True"
| "is_from _ = False"

lemma build_step_stages:
  assumes "build_step h opts pats i b = (Inr u, b')" and "\<not> is_from i"
  shows "b_stages b' = b_stages b \<and> b_name b' = b_name b \<and> b_root b' = b_root b"
  using assms by (cases i) (auto simp: extend_key_def configure_def dest!: file_step_stages split: option.splits)

lemma build_steps_stages:
  assumes "build_steps h opts pats is b = (Inr u, b')" and "list_all (\<lambda>i. \<not> is_from i) is"
  shows "b_stages b' = b_stages b \<and> b_name b' = b_name b \<and> b_root b' = b_root b"
  using assms
proof (induction "is" arbitrary: b)
  case (Cons i "is")
  let ?b = "b\<lparr>b_step := Suc (b_step b)\<rparr>"
  have "\<not> target_reached opts i ?b" using Cons.prems(2) by (cases i) (simp_all add: target_reached_def)
  then obtain b1 where s: "build_step h opts pats i ?b = (Inr (), b1)" and r: "build_steps h opts pats is b1 = (Inr u, b')"
    using Cons.prems(1) by (auto simp: Let_def act_then_Inr)
  show ?case using build_step_stages [OF s] Cons.IH [OF r] Cons.prems(2) by simp
qed simp

lemma from_step_stages:
  assumes "from_step h im stage b = (Inr u, b')"
  shows "b_stages b' = b_stages (begin_stage (bh_temp h) stage b) \<and> b_name b' = stage \<and>
    b_root b' = b_root (begin_stage (bh_temp h) stage b)"
proof -
  let ?b = "begin_stage (bh_temp h) stage b"
  obtain b2 r b3 b4 where a: "on_files (fo_mkdir (bh_ops h) (b_root ?b)) ?b = (Inr (), b2)"
      and r: "base_image h im b2 = (Inr r, b3)"
      and c: "on_files (copy_dir_all (bh_ops h) (components (i_rootfs_path r)) (b_root ?b)) b3 = (Inr (), b4)"
      and b': "b' = take_base im stage r b4"
    using assms unfolding from_step_Inr by blast
  show ?thesis using on_files_keeps(3-5) [OF a] base_image_keeps [OF r] on_files_keeps(3-5) [OF c]
    by (simp add: b' take_base_def)
qed

lemma no_stage_root:
  "b_stages b = [] \<Longrightarrow> stage_root h opts (Some s) b =
     (case image_find (bh_io h) (bh_arch h) s (b_images b) of
        Some i \<Rightarrow> Inr (components (i_rootfs_path i)) | None \<Rightarrow> Inl (Not_found s))"
  by (simp add: stage_root_def split: option.splits)

text \<open>
  A first stage without a name is lost as a stage: the second is built in the same
  directory, on top of its files and without clearing it, and \<open>COPY --from=0\<close> in it looks for an
  image called \<open>0\<close>.
\<close>

theorem unnamed_stage_leaks:
  assumes "from_step h im None (initial_build h f imgs) = (Inr u, b0)"
    and "build_steps h opts pats is b0 = (Inr u, b1)" and "list_all (\<lambda>i. \<not> is_from i) is"
    and "from_step h im' stage b1 = (Inr u, b2)"
    and "image_find (bh_io h) (bh_arch h) im' (b_images b1) = Some r"
  shows "b_root b2 = b_root b1 \<and> b_stages b2 = [] \<and>
    (\<exists>f1. fo_mkdir (bh_ops h) (b_root b1) (b_fs b1) = (Inr (), f1) \<and>
      copy_dir_all (bh_ops h) (components (i_rootfs_path r)) (b_root b1) f1 = (Inr (), b_fs b2)) \<and>
    stage_root h opts (Some ''0'') b2 =
      (case image_find (bh_io h) (bh_arch h) ''0'' (b_images b2) of
         Some i \<Rightarrow> Inr (components (i_rootfs_path i)) | None \<Rightarrow> Inl (Not_found ''0''))"
proof -
  have "b_stages b0 = b_stages (begin_stage (bh_temp h) None (initial_build h f imgs)) \<and> b_name b0 = b_name (begin_stage (bh_temp h) None (initial_build h f imgs)) \<and> b_root b0 = b_root (begin_stage (bh_temp h) None (initial_build h f imgs))"
    using from_step_stages [OF assms(1)] by simp
  then have b0: "b_stages b0 = [] \<and> b_name b0 = None \<and> b_root b0 = stage_dir (bh_temp h) 0"
    by (simp add: begin_stage_def save_stage_def initial_build_def Let_def)
  have b1: "b_stages b1 = []" "b_name b1 = None" "b_root b1 = stage_dir (bh_temp h) 0"
    using build_steps_stages [OF assms(2,3)] b0 by simp_all
  have s: "begin_stage (bh_temp h) stage b1 = b1\<lparr>b_name := stage\<rparr>"
    using b1 by (cases b1) (simp add: begin_stage_def save_stage_def)
  have "b_root b2 = b_root b1 \<and> b_stages b2 = [] \<and>
      (\<exists>f1. fo_mkdir (bh_ops h) (b_root b1) (b_fs b1) = (Inr (), f1) \<and>
        copy_dir_all (bh_ops h) (components (i_rootfs_path r)) (b_root b1) f1 = (Inr (), b_fs b2))"
    using assms(4,5) b1 unfolding from_step_Inr s
    by (auto simp: on_files_Inr base_image_local take_base_def)
  then show ?thesis using no_stage_root [of b2] by blast
qed

section \<open>The environment of an image\<close>

definition env_ok :: "exec_config \<Rightarrow> bool" where
  "env_ok c \<longleftrightarrow> distinct (map env_key (unwrap_or (x_env c) [])) \<and> (\<forall>e\<in>set (unwrap_or (x_env c) []). CHR ''='' \<in> set e)"

lemma env_key_entry: "CHR ''='' \<notin> set k \<Longrightarrow> env_key (k @ ''='' @ v) = k"
  using split_on_append [of "CHR ''=''" k v] by (simp add: env_key_def)

lemma env_key_prefix:
  assumes "CHR ''='' \<in> set e" and "CHR ''='' \<notin> set n"
  shows "starts_with e (n @ ''='') \<longleftrightarrow> env_key e = n"
proof
  assume "starts_with e (n @ ''='')"
  then show "env_key e = n" using assms(2) env_key_entry by (auto simp: starts_with_iff)
next
  assume k: "env_key e = n"
  obtain a b where "split_once CHR ''='' e = Some (a, b)" using assms(1) by (cases "split_once CHR ''='' e") auto
  then have "e = a @ CHR ''='' # b" and "CHR ''='' \<notin> set a" by (auto dest: split_once_SomeD)
  then show "starts_with e (n @ ''='')" using k env_key_entry [of a b] by (auto simp: starts_with_iff)
qed

lemma set_env_ok: "env_ok c \<Longrightarrow> CHR ''='' \<notin> set k \<Longrightarrow> env_ok (set_env_entry k v c)"
  using env_key_entry [of k v] by (auto simp: env_ok_def set_env_entry_def distinct_map_filter)

lemma set_arg_is_set_env:
  assumes "env_ok c" and "CHR ''='' \<notin> set n"
  shows "set_arg_entry n v c = set_env_entry n v c"
proof -
  have "filter (\<lambda>e. \<not> starts_with e (n @ ''='')) (unwrap_or (x_env c) []) =
      filter (\<lambda>e. env_key e \<noteq> n) (unwrap_or (x_env c) [])"
    using assms by (intro filter_cong) (auto simp: env_ok_def env_key_prefix)
  then show ?thesis by (simp add: set_arg_entry_def set_env_entry_def)
qed

lemma env_ok_same: "x_env c' = x_env c \<Longrightarrow> env_ok c' = env_ok c"
  by (simp add: env_ok_def)

lemma file_step_env:
  "workdir_step h w b = (Inr u, b') \<Longrightarrow> x_env (b_config b') = x_env (b_config b)"
  "copy_step h opts pats from src dest b = (Inr u, b') \<Longrightarrow> x_env (b_config b') = x_env (b_config b)"
  "add_step h opts pats src dest b = (Inr u, b') \<Longrightarrow> x_env (b_config b') = x_env (b_config b)"
  "run_step h opts cmd b = (Inr u, b') \<Longrightarrow> x_env (b_config b') = x_env (b_config b)"
  by (auto simp: workdir_step_def copy_step_def add_step_def run_step_def execute_run_def fresh_dir_def Let_def
      act_then_Inr on_files_Inr split: option.splits)

text \<open>While \<open>P\<close> holds of the index, the environments of the images in it are well formed.\<close>

definition tidy_images :: "('f, 'x) build_host_scheme \<Rightarrow> (image_file \<Rightarrow> bool) \<Rightarrow> bool" where
  "tidy_images h P \<longleftrightarrow> (\<forall>imgs. P imgs \<longrightarrow>
     (\<forall>im r c. image_find (bh_io h) (bh_arch h) im imgs = Some r \<and> g_config (i_config r) = Some c \<longrightarrow> env_ok c) \<and>
     (\<forall>im f r c f' imgs'. bh_pull h im f imgs = (Inr r, f', imgs') \<longrightarrow>
        P imgs' \<and> (g_config (i_config r) = Some c \<longrightarrow> env_ok c)))"

lemma base_image_tidy:
  assumes "tidy_images h P" and "P (b_images b)" and "base_image h im b = (Inr r, b')"
  shows "P (b_images b')" and "g_config (i_config r) = Some c \<Longrightarrow> env_ok c"
proof -
  have *: "\<And>im r c. image_find (bh_io h) (bh_arch h) im (b_images b) = Some r \<Longrightarrow> g_config (i_config r) = Some c \<Longrightarrow> env_ok c"
    "\<And>im f r f' imgs'. bh_pull h im f (b_images b) = (Inr r, f', imgs') \<Longrightarrow> P imgs'"
    "\<And>im f r c f' imgs'. bh_pull h im f (b_images b) = (Inr r, f', imgs') \<Longrightarrow> g_config (i_config r) = Some c \<Longrightarrow> env_ok c"
    using assms(1,2) by (auto simp: tidy_images_def)
  show "P (b_images b')" using assms(2,3) * by (auto simp: base_image_def split: option.splits prod.splits)
  show "env_ok c" if "g_config (i_config r) = Some c"
    using assms(3) that * by (auto simp: base_image_def split: option.splits prod.splits)
qed

lemma from_step_env:
  assumes "tidy_images h P" and "P (b_images b)" and "from_step h im stage b = (Inr u, b')" and "env_ok (b_config b)"
  shows "env_ok (b_config b') \<and> P (b_images b')"
proof -
  let ?b = "begin_stage (bh_temp h) stage b"
  from assms(3) obtain b2 r b3 b4 where a: "on_files (fo_mkdir (bh_ops h) (b_root ?b)) ?b = (Inr (), b2)"
      and r: "base_image h im b2 = (Inr r, b3)"
      and c: "on_files (copy_dir_all (bh_ops h) (components (i_rootfs_path r)) (b_root ?b)) b3 = (Inr (), b4)"
      and b': "b' = take_base im stage r b4"
    unfolding from_step_Inr by blast
  have "P (b_images b2)" using assms(2) on_files_keeps(6) [OF a] by simp
  note t = base_image_tidy [OF assms(1) this r]
  have "b_config b4 = b_config b" using on_files_keeps(2) [OF a] base_image_keeps [OF r] on_files_keeps(2) [OF c] by simp
  then show ?thesis using t assms(4) on_files_keeps(6) [OF c]
    by (cases "g_config (i_config r)") (simp_all add: b' take_base_def)
qed

lemma build_step_env:
  assumes "tidy_images h P" and "P (b_images b)" and "build_step h opts pats i b = (Inr u, b')"
    and "env_ok (b_config b)" and "wf_instruction i"
  shows "env_ok (b_config b') \<and> P (b_images b')"
proof (cases i)
  case (I_From im stage)
  then show ?thesis using assms from_step_env [OF assms(1,2)] by auto
next
  case (I_Env k v)
  then have "CHR ''='' \<notin> set k" using assms(5) by (auto simp: key_text_def list_all_iff key_char_def)
  then show ?thesis using assms I_Env by (auto intro: set_env_ok)
next
  case (I_Arg n d)
  then show ?thesis using assms by (auto simp: set_arg_is_set_env intro: set_env_ok split: option.splits)
qed (use assms in \<open>auto dest: file_step_env file_step_keys simp: env_ok_def add_port_def image_label_def\<close>)

lemma build_steps_env:
  assumes "tidy_images h P"
  shows "P (b_images b) \<Longrightarrow> build_steps h opts pats is b = (Inr u, b') \<Longrightarrow> env_ok (b_config b) \<Longrightarrow>
    list_all wf_instruction is \<Longrightarrow> env_ok (b_config b')"
proof (induction "is" arbitrary: b)
  case (Cons i "is")
  let ?b = "b\<lparr>b_step := Suc (b_step b)\<rparr>"
  show ?case
  proof (cases "target_reached opts i ?b")
    case True
    then show ?thesis using Cons.prems by (auto simp: Let_def)
  next
    case False
    then obtain b1 where s: "build_step h opts pats i ?b = (Inr (), b1)" and r: "build_steps h opts pats is b1 = (Inr u, b')"
      using Cons.prems(2) by (auto simp: Let_def act_then_Inr)
    show ?thesis using build_step_env [OF assms _ s] Cons.prems Cons.IH [OF _ r] by simp
  qed
qed simp

text \<open>
  The environment of a built image has one entry for each key, whatever the Dockerfile and
  the build arguments are, when those of the base images have.
\<close>

theorem built_env_unique:
  assumes "build h opts f imgs = (Inr r, b)" and "tidy_images h P" and "P imgs"
  shows "\<exists>c. g_config (i_config r) = Some c \<and> env_ok c"
proof -
  obtain content "is" b1 b2 where p: "parse_lines (bh_json h) [] (lines content) = Inr is"
      and d: "on_files (fo_mkdir (bh_ops h) (stage_dir (bh_temp h) 0)) (initial_build h f imgs) = (Inr (), b1)"
      and s: "build_steps h opts (load_patterns (fo_read (bh_ops h) f (path_in (bo_context opts) ''.dockerignore''))) is b1 = (Inr (), b2)"
      and r: "package_image h opts b2 = (Inr r, b)"
    using assms(1) by (auto simp: build_def Let_def act_then_Inr bind_res_Inr_iff ok_or_def parse_str_def split: option.splits)
  have "env_ok (b_config b1)" and "P (b_images b1)"
    using on_files_keeps(2,6) [OF d] assms(3) by (simp_all add: initial_build_def env_ok_def default_exec_config_def)
  moreover have "list_all wf_instruction is" using parse_lines_wf [OF p] by (simp add: list_all_iff)
  ultimately have "env_ok (b_config b2)" using build_steps_env [OF assms(2) _ s] by blast
  then show ?thesis using r by (auto simp: package_image_def act_then_Inr Let_def built_record_def)
qed

section \<open>Destinations and ignored files\<close>

lemma plain_dest:
  assumes "plain_piece d"
  shows "target_path root cfg (''/'' @ d) = root @ [Normal d]" and "root \<noteq> [] \<Longrightarrow> path_parent (root @ [Normal d]) = Some root"
proof -
  have "no_lead_slash (''/'' @ d) = d"
    using assms by (cases d) (auto simp: no_lead_slash_def trim_start_by_def plain_piece_def)
  moreover have "components d = [Normal d]" using assms by simp
  ultimately show "target_path root cfg (''/'' @ d) = root @ [Normal d]"
    by (auto simp: target_path_def path_join_def is_absolute_def starts_with_def)
  show "root \<noteq> [] \<Longrightarrow> path_parent (root @ [Normal d]) = Some root" by (simp add: path_parent_def)
qed

text \<open>
  C28. The destination of a copy is only checked up to its parent. When the root file system of a
  base image has a link at the top that leads to a directory elsewhere, of the host for
  instance, \<open>COPY\<close> to it is accepted, and a file is written into that directory.
\<close>

theorem copy_follows_image_link:
  assumes "plain_piece d" and "\<not> contains_str d ''..''"
    and "b_root b \<noteq> []" and "fo_exists ops (b_fs b) (b_root b)" and "fo_canon ops (b_fs b) (b_root b) = Some cr"
    and "fo_canon ops (b_fs b) (b_root b @ [Normal d]) = Some outside" and "\<not> path_below outside cr"
    and "fo_is_dir ops (b_fs b) (b_root b @ [Normal d])" and "\<not> fo_is_dir ops (b_fs b) src" and "file_name src = Some n"
    and "fo_mkdir ops (b_root b) (b_fs b) = (Inr (), b_fs b)"
    and "fo_mkdir ops (b_root b @ [Normal d]) (b_fs b) = (Inr (), b_fs b)"
  shows "check_dest ops (''/'' @ d) b = Inr (b_root b @ [Normal d]) \<and>
    place_source ops (b_root b @ [Normal d]) (''/'' @ d) src (b_fs b) = fo_copy ops src (b_root b @ [Normal d, Normal n]) (b_fs b)"
proof -
  have "\<not> contains_str (''/'' @ d) ''..''" using assms(2) by (simp add: starts_with_def)
  moreover have "parents_inside ops (b_fs b) cr (b_root b @ [Normal d])"
    using assms(3-5) plain_dest(2) [OF assms(1,3)] by (subst parents_inside.simps) simp
  ultimately show ?thesis using assms plain_dest [OF assms(1)]
    by (simp add: check_dest_def place_source_def place_file_def make_parent_def act_then_def)
qed

text \<open>The patterns that match the context directory itself.\<close>

lemma pattern_matches_Nil:
  "pattern_matches p [] \<longleftrightarrow> trim_end_by (\<lambda>c. c = CHR ''/'') p \<in> {[], ''*''}"
proof -
  define q where "q = trim_end_by (\<lambda>c. c = CHR ''/'') p"
  define l where "l = (if contains_char q CHR ''*'' then split_on CHR ''*'' q else [])"
  have e: "starts_with [] x \<longleftrightarrow> x = []" "ends_with [] x \<longleftrightarrow> x = []" for x
    by (simp_all add: starts_with_iff ends_with_iff)
  have m: "pattern_matches p [] \<longleftrightarrow>
      (case l of [pre, suf] \<Rightarrow> pre = [] \<and> suf = [] | _ \<Rightarrow> q = [])"
    unfolding pattern_matches_def Let_def q_def [symmetric] l_def [symmetric] e
    by (auto split: list.split)
  show ?thesis
  proof (cases "\<exists>a b. l = [a, b]")
    case True
    then obtain a b where l: "l = [a, b]" by blast
    then have "split_on CHR ''*'' q = [a, b]" by (simp add: l_def split: if_splits)
    then have "q = a @ ''*'' @ b" using join_split_on [of "CHR ''*''" q] by simp
    then show ?thesis using m l by (auto simp: q_def [symmetric] append_eq_Cons_conv)
  next
    case False
    have "split_on CHR ''*'' ''*'' = [[], []]" by simp
    then have "q \<noteq> ''*''" using False by (auto simp: l_def contains_char_def)
    moreover have "pattern_matches p [] \<longleftrightarrow> q = []" using m False by (auto split: list.splits)
    ultimately show ?thesis by (simp add: q_def)
  qed
qed

lemma ignore_void: "list_all (\<lambda>p. \<not> pattern_matches p [] \<and> \<not> pattern_matches (drop 1 p) []) ps \<Longrightarrow> is_ignored ps [] = is_ignored [] []"
proof -
  assume a: "list_all (\<lambda>p. \<not> pattern_matches p [] \<and> \<not> pattern_matches (drop 1 p) []) ps"
  have one: "ignore_step [] p ig = ig" if "\<not> pattern_matches p []" and "\<not> pattern_matches (drop 1 p) []" for p ig
  proof (cases "strip_prefix ''!'' p")
    case (Some e)
    then have "drop 1 p = e" by (simp add: strip_prefix_SomeD [OF Some])
    then show ?thesis using that(2) Some by (simp add: ignore_step_def)
  qed (simp add: ignore_step_def that(1))
  have "fold (ignore_step []) ps ig = ig" for ig
    using a by (induction ps arbitrary: ig) (simp_all add: one)
  then show "is_ignored ps [] = is_ignored [] []" by (simp add: is_ignored_def)
qed

text \<open>
  \<open>.dockerignore\<close> has no effect on \<open>COPY .\<close>: unless a pattern is made of slashes, or is a
  single star or its negation, the whole context is copied as if there were no patterns.
\<close>

theorem dockerignore_void_for_context:
  assumes "\<forall>p\<in>set pats. trim_end_by (\<lambda>c. c = CHR ''/'') p \<notin> {[], ''*''} \<and>
      trim_end_by (\<lambda>c. c = CHR ''/'') (drop 1 p) \<notin> {[], ''*''}"
  shows "copy_source ops pats False target dest (ctx, ''.'') f = place_source ops target dest ctx f"
proof -
  have "rel_text ''.'' = []" by code_simp
  moreover have "is_ignored pats [] = is_ignored [] []"
    using assms by (intro ignore_void) (simp add: list_all_iff pattern_matches_Nil)
  ultimately show ?thesis by (simp add: copy_source_def is_ignored_def)
qed

section \<open>Sample builds\<close>

definition out_link :: path where
  "out_link = [RootDir, Normal ''t'', Normal ''stage-0'', Normal ''out'']"

definition sample_ops :: "path list file_ops" where
  "sample_ops =
     \<lparr>fo_exists = \<lambda>f p. p \<in> set f, fo_is_dir = \<lambda>f p. p = out_link, fo_is_file = \<lambda>f p. p \<in> set f,
      fo_canon = \<lambda>f p. Some (if p = out_link then [RootDir, Normal ''etc''] else p), fo_entries = \<lambda>_ _. Some [],
      fo_read = \<lambda>f p. if p = [RootDir, Normal ''c'', Normal ''Dockerfile'']
        then Some (join [newline] [''FROM alpine'', ''ENV a=1 b=2'', ''ARG a=3'']) else None,
      fo_size = \<lambda>_ _. 0, fo_mkdir = \<lambda>p f. (Inr (), List.insert p f), fo_rmdir = \<lambda>p f. f,
      fo_copy = \<lambda>a b f. (Inr (), List.insert b f), fo_link = \<lambda>a b f. List.insert b f,
      fo_write = \<lambda>p _ f. (Inr (), List.insert p f), fo_unpack = \<lambda>_ _ p f. (Inr (), List.insert p f)\<rparr>"

definition alpine_image :: image_record where
  "alpine_image = sample_image ''aa'' ''x86_64'' ''latest''"

definition sample_build_host :: "path list build_host" where
  "sample_build_host =
     \<lparr>bh_ops = sample_ops, bh_io = io_good, bh_arch = ''x86_64'', bh_pull = \<lambda>_ f imgs. (Inl Io_failed, f, imgs),
      bh_hash = \<lambda>s. ''k'', bh_json = \<lambda>_. None, bh_fetch = \<lambda>_. Inl Io_failed, bh_execute = \<lambda>_ _ f. (Inr 0, f),
      bh_save = \<lambda>p _ f. (Inr (), f), bh_rand = ''0123456789ab'', bh_now = 0, bh_home = ''/h'',
      bh_temp = [RootDir, Normal ''t''], bh_order = \<lambda>xs. xs\<rparr>"

definition sample_build_options :: build_options where
  "sample_build_options = \<lparr>bo_context = [RootDir, Normal ''c''], bo_dockerfile = [RootDir, Normal ''c'', Normal ''Dockerfile''],
     bo_tag = None, bo_no_cache = False, bo_args = [], bo_target = None\<rparr>"

theorem dockerignore_void_for_context_witness:
  "copy_source sample_ops [''.git'', ''*.key''] False out_link ''/'' ([RootDir, Normal ''c''], ''.'') [] =
     place_source sample_ops out_link ''/'' [RootDir, Normal ''c''] []"
  by (rule dockerignore_void_for_context) code_simp

lemma sample_found: "image_find io_good ''x86_64'' ''alpine'' (Records [alpine_image]) = Some alpine_image"
  by code_simp

lemma sample_build_runs:
  "is_ok (fst (build sample_build_host sample_build_options [] (Records [alpine_image])))"
  by code_simp

lemma sample_image_only: "image_find io a im (Records [alpine_image]) = Some r \<Longrightarrow> r = alpine_image"
  by (auto simp: image_find_def find_with_platform_def find_locked_def split: if_splits)

lemma sample_pinned: "pinned sample_build_host (\<lambda>_. ''sha256:aa'') (\<lambda>imgs. imgs = Records [alpine_image])"
  by (auto simp: pinned_def sample_build_host_def dest!: sample_image_only)
    (simp add: alpine_image_def sample_image_def)

lemma sample_tidy: "tidy_images sample_build_host (\<lambda>imgs. imgs = Records [alpine_image])"
  by (auto simp: tidy_images_def sample_build_host_def dest!: sample_image_only)
    (simp add: alpine_image_def sample_image_def)

theorem built_env_unique_witness:
  "\<exists>r b c. build sample_build_host sample_build_options [] (Records [alpine_image]) = (Inr r, b) \<and>
     g_config (i_config r) = Some c \<and> env_ok c"
proof -
  obtain r b where b: "build sample_build_host sample_build_options [] (Records [alpine_image]) = (Inr r, b)"
    using sample_build_runs by (cases "build sample_build_host sample_build_options [] (Records [alpine_image])")
      (auto simp: is_ok_def split: sum.splits)
  from built_env_unique [OF b sample_tidy refl] b show ?thesis by blast
qed

definition sample_steps :: "instruction list" where
  "sample_steps = [I_From ''alpine'' None, I_Copy None [''a''] ''/'']"

definition start_with :: "path list \<Rightarrow> path list build_state" where
  "start_with f = initial_build sample_build_host f (Records [alpine_image])"

lemma sample_first_run:
  "(case build_steps sample_build_host sample_build_options [] (sample_steps @ [I_Run ''make'']) (start_with [[RootDir, Normal ''c'', Normal ''a'']]) of
      (Inr _, b) \<Rightarrow> b_key b = ''k'' | _ \<Rightarrow> False)"
  "(case build_steps sample_build_host sample_build_options [] sample_steps
      (start_with [[RootDir, Normal ''c'', Normal ''a''], cache_path (components ''/h'') ''k'']) of
      (Inr _, b) \<Rightarrow> cache_get sample_ops (components ''/h'') ''k'' (b_fs b) = Some (cache_path (components ''/h'') ''k'')
    | _ \<Rightarrow> False)"
  by code_simp+

theorem cached_run_ignores_context_witness:
  "\<exists>b1'. build_steps sample_build_host sample_build_options [] sample_steps
       (start_with [[RootDir, Normal ''c'', Normal ''a''], cache_path (components ''/h'') ''k'']) = (Inr (), b1') \<and>
     run_step sample_build_host sample_build_options ''make'' b1' =
       act_then (fresh_dir sample_ops (b_root b1')) (\<lambda>_.
       act_then (on_files (copy_dir_all sample_ops (cache_path (components ''/h'') ''k'') (b_root b1'))) (\<lambda>_.
       updates (\<lambda>b. b\<lparr>b_key := ''k''\<rparr>))) b1'"
proof -
  let ?h = sample_build_host and ?o = sample_build_options
  let ?s = "start_with [[RootDir, Normal ''c'', Normal ''a'']]"
  let ?s' = "start_with [[RootDir, Normal ''c'', Normal ''a''], cache_path (components ''/h'') ''k'']"
  obtain b1 where a: "build_steps ?h ?o [] (sample_steps @ [I_Run ''make'']) ?s = (Inr (), b1)" and k: "b_key b1 = ''k''"
    using sample_first_run(1) by (auto split: prod.splits sum.splits)
  obtain b1' where b: "build_steps ?h ?o [] sample_steps ?s' = (Inr (), b1')"
    and c: "cache_get sample_ops (components ''/h'') ''k'' (b_fs b1') = Some (cache_path (components ''/h'') ''k'')"
    using sample_first_run(2) by (auto split: prod.splits sum.splits)
  have i: "b_images (start_with f) = Records [alpine_image]" "b_key (start_with f) = ''initial''" for f
    by (simp_all add: start_with_def initial_build_def)
  have op: "bo_target ?o = None" "\<not> bo_no_cache ?o" "bh_ops ?h = sample_ops" "bh_home ?h = ''/h''"
    by (simp_all add: sample_build_options_def sample_build_host_def)
  from cached_run_ignores_context [OF sample_pinned i(1) sample_pinned i(1) op(1) op(1) refl refl _ a b op(2)] b c k i(2) op
  show ?thesis by simp
qed

theorem unnamed_stage_leaks_witness:
  "\<exists>b0 b2. from_step sample_build_host ''alpine'' None (initial_build sample_build_host [] (Records [alpine_image])) = (Inr (), b0) \<and>
     from_step sample_build_host ''alpine'' (Some ''x'') b0 = (Inr (), b2) \<and> b_root b2 = b_root b0 \<and> b_stages b2 = []"
proof -
  let ?b = "initial_build sample_build_host [] (Records [alpine_image])"
  have r: "is_ok (fst (from_step sample_build_host ''alpine'' None ?b))"
    "is_ok (fst (from_step sample_build_host ''alpine'' (Some ''x'') (snd (from_step sample_build_host ''alpine'' None ?b))))"
    "b_images (snd (from_step sample_build_host ''alpine'' None ?b)) = Records [alpine_image]"
    by code_simp+
  obtain b0 where a: "from_step sample_build_host ''alpine'' None ?b = (Inr (), b0)"
    using r(1) by (cases "from_step sample_build_host ''alpine'' None ?b") (auto simp: is_ok_def split: sum.splits)
  obtain b2 where b: "from_step sample_build_host ''alpine'' (Some ''x'') b0 = (Inr (), b2)"
    using r(2) a by (cases "from_step sample_build_host ''alpine'' (Some ''x'') b0") (auto simp: is_ok_def split: sum.splits)
  have i: "image_find (bh_io sample_build_host) (bh_arch sample_build_host) ''alpine'' (b_images b0) = Some alpine_image"
    using sample_found r(3) a by (simp add: sample_build_host_def)
  have s: "build_steps sample_build_host sample_build_options [] [] b0 = (Inr (), b0)" by simp
  show ?thesis using unnamed_stage_leaks [OF a s _ b i] a b by simp
qed

theorem copy_follows_image_link_witness:
  "check_dest sample_ops (''/'' @ ''out'') (start_with [take 3 out_link, out_link]) = Inr out_link \<and>
   place_source sample_ops out_link (''/'' @ ''out'') [RootDir, Normal ''c'', Normal ''a''] [take 3 out_link, out_link] =
     (Inr (), [out_link @ [Normal ''a''], take 3 out_link, out_link])"
proof -
  let ?b = "start_with [take 3 out_link, out_link]"
  have b: "b_root ?b = take 3 out_link" "b_fs ?b = [take 3 out_link, out_link]" by code_simp+
  have p: "plain_piece ''out''" "\<not> contains_str ''out'' ''..''" by code_simp+
  have l: "take 3 out_link @ [Normal ''out''] = out_link" by (simp add: out_link_def)
  have "check_dest sample_ops (''/'' @ ''out'') ?b = Inr (b_root ?b @ [Normal ''out'']) \<and>
      place_source sample_ops (b_root ?b @ [Normal ''out'']) (''/'' @ ''out'') [RootDir, Normal ''c'', Normal ''a''] (b_fs ?b) =
        fo_copy sample_ops [RootDir, Normal ''c'', Normal ''a''] (b_root ?b @ [Normal ''out'', Normal ''a'']) (b_fs ?b)"
    by (rule copy_follows_image_link [OF p, where cr = "take 3 out_link" and outside = "[RootDir, Normal ''etc'']"])
      (simp_all add: b l, simp_all add: sample_ops_def out_link_def file_name_def path_below_def)
  then show ?thesis unfolding b l by (simp add: sample_ops_def out_link_def)
qed

end
