(* ===== verification/Registry_Client.thy ===== *)
theory Registry_Client
  imports Registry_Auth Image_Store Guardrails
begin

text \<open>
  The registry client of \<open>src/oci/distribution.rs\<close>, \<open>pull_image\<close> of \<open>src/lib.rs\<close> and \<open>push\<close> of
  \<open>src/auth/mod.rs\<close>. The server is a state that answers requests, in any way; \<open>reqwest\<close>, the hash and
  the JSON decoders are arguments. A file is its contents under its path, a root file system a
  value under its path that unpacking a layer changes. Progress bars are left out.
\<close>

section \<open>Manifests\<close>

record platform =
  pl_architecture :: str
  pl_os :: str

record descriptor =
  d_media_type :: str
  d_digest :: str
  d_size :: int
  d_platform :: "platform option"
  d_annotations :: "(str \<times> str) list option"

record image_manifest =
  m_config :: descriptor
  m_layers :: "descriptor list"

definition OCI_INDEX_V1 :: str where "OCI_INDEX_V1 = ''application/vnd.oci.image.index.v1+json''"
definition OCI_MANIFEST_V1 :: str where "OCI_MANIFEST_V1 = ''application/vnd.oci.image.manifest.v1+json''"
definition DOCKER_MANIFEST_LIST_V2 :: str where
  "DOCKER_MANIFEST_LIST_V2 = ''application/vnd.docker.distribution.manifest.list.v2+json''"
definition DOCKER_MANIFEST_V2 :: str where "DOCKER_MANIFEST_V2 = ''application/vnd.docker.distribution.manifest.v2+json''"

definition attests :: "str \<times> str \<Rightarrow> bool" where
  "attests kv \<longleftrightarrow>
     (let k = to_ascii_lowercase (fst kv); v = to_ascii_lowercase (snd kv)
      in (contains_str k ''reference.type'' \<or> contains_str k ''artifacttype'') \<and> contains_str v ''attestation'')"

definition is_runnable_image_descriptor :: "descriptor \<Rightarrow> bool" where
  "is_runnable_image_descriptor d \<longleftrightarrow>
     (let mt = to_ascii_lowercase (d_media_type d)
      in \<not> contains_str mt ''attestation'' \<and> \<not> contains_str mt ''provenance'' \<and>
         \<not> list_ex attests (unwrap_or (d_annotations d) []) \<and>
         (case d_platform d of
            None \<Rightarrow> True
          | Some p \<Rightarrow> to_ascii_lowercase (pl_os p) = ''linux'' \<and> to_ascii_lowercase (pl_architecture p) \<noteq> ''unknown'') \<and>
         (mt = OCI_MANIFEST_V1 \<or> mt = DOCKER_MANIFEST_V2 \<or> contains_str mt ''image.manifest''))"

definition host_arch_name :: "str \<Rightarrow> str" where
  "host_arch_name a = (if a = ''aarch64'' then ''arm64'' else if a = ''x86_64'' then ''amd64'' else a)"

definition wanted_platform :: "str \<Rightarrow> str option \<Rightarrow> str \<times> str" where
  "wanted_platform arch plat =
     (case plat of
        Some p \<Rightarrow> (case split_once CHR ''/'' p of Some (os, a) \<Rightarrow> (os, a) | None \<Rightarrow> (''linux'', p))
      | None \<Rightarrow> (''linux'', host_arch_name arch))"

definition on_platform :: "str \<times> str \<Rightarrow> descriptor \<Rightarrow> bool" where
  "on_platform t d \<longleftrightarrow> (case d_platform d of Some p \<Rightarrow> pl_os p = fst t \<and> pl_architecture p = snd t | None \<Rightarrow> False)"

definition on_linux :: "descriptor \<Rightarrow> bool" where
  "on_linux d \<longleftrightarrow> (case d_platform d of Some p \<Rightarrow> pl_os p = ''linux'' | None \<Rightarrow> False)"

definition choose_descriptor :: "str \<Rightarrow> str option \<Rightarrow> descriptor list \<Rightarrow> descriptor option" where
  "choose_descriptor arch plat ds =
     (let rs = filter is_runnable_image_descriptor ds
      in or_else (find (on_platform (wanted_platform arch plat)) rs)
           (or_else (find (on_platform (''linux'', ''amd64'')) rs)
             (or_else (find on_linux rs) (case rs of [] \<Rightarrow> None | r # _ \<Rightarrow> Some r))))"

section \<open>Requests\<close>

datatype http_method = GET | HEAD | POST | PUT

record http_request =
  rq_method :: http_method
  rq_url :: str
  rq_headers :: "(str \<times> str) list"
  rq_basic :: "(byte list \<times> byte list) option"
  rq_body :: "str option"

record http_response =
  rp_status :: nat
  rp_headers :: "(str \<times> str) list"
  rp_received :: str
  rp_broken :: "error option"

text \<open>The body, or the error its stream ended with after some bytes had arrived.\<close>

definition rp_body :: "http_response \<Rightarrow> str res" where
  "rp_body r = (case rp_broken r of None \<Rightarrow> Inr (rp_received r) | Some e \<Rightarrow> Inl e)"

definition is_success :: "http_response \<Rightarrow> bool" where
  "is_success r \<longleftrightarrow> 200 \<le> rp_status r \<and> rp_status r < 300"

definition http_get :: "str \<Rightarrow> (str \<times> str) list \<Rightarrow> http_request" where
  "http_get url hs = \<lparr>rq_method = GET, rq_url = url, rq_headers = hs, rq_basic = None, rq_body = None\<rparr>"

record 's registry_world =
  rg_server :: 's
  rg_token :: "str option"
  rg_basic :: "str option"

record 's registry_host =
  rh_send :: "http_request \<Rightarrow> 's \<Rightarrow> http_response res \<times> 's"
  rh_header_ok :: "str \<Rightarrow> bool"
  rh_creds :: "str \<Rightarrow> (byte list \<times> byte list) option"
  rh_hash :: "str \<Rightarrow> str"
  rh_decode_token :: "str \<Rightarrow> str option res"
  rh_decode_index :: "str \<Rightarrow> descriptor list option"
  rh_decode_manifest :: "str \<Rightarrow> image_manifest option"
  rh_decode_config :: "str \<Rightarrow> image_config option"
  rh_machine :: str

type_synonym ('s, 'a) reg = "'s registry_world \<Rightarrow> 'a res \<times> 's registry_world"

definition reg_then :: "('w \<Rightarrow> 'a res \<times> 'w) \<Rightarrow> ('a \<Rightarrow> 'w \<Rightarrow> 'b res \<times> 'w) \<Rightarrow> 'w \<Rightarrow> 'b res \<times> 'w" where
  "reg_then c g w = (case c w of (Inl e, w') \<Rightarrow> (Inl e, w') | (Inr a, w') \<Rightarrow> g a w')"

definition reg_res :: "'a res \<Rightarrow> 'w \<Rightarrow> 'a res \<times> 'w" where
  "reg_res r w = (r, w)"

definition send_request :: "'s registry_host \<Rightarrow> http_request \<Rightarrow> ('s, http_response) reg" where
  "send_request h rq w = (case rh_send h rq (rg_server w) of (r, s) \<Rightarrow> (r, w\<lparr>rg_server := s\<rparr>))"

definition auth_headers :: "'s registry_host \<Rightarrow> 's registry_world \<Rightarrow> (str \<times> str) list" where
  "auth_headers h w =
     (case rg_token w of
        Some t \<Rightarrow> if rh_header_ok h (''Bearer '' @ t) then [(''authorization'', ''Bearer '' @ t)] else []
      | None \<Rightarrow> (case rg_basic w of
          Some b \<Rightarrow> if rh_header_ok h (''Basic '' @ b) then [(''authorization'', ''Basic '' @ b)] else []
        | None \<Rightarrow> []))"

definition registry_url :: "image_ref \<Rightarrow> str \<Rightarrow> str" where
  "registry_url r rest = ''https://'' @ registry r @ ''/v2/'' @ repository r @ rest"

section \<open>Authentication\<close>

definition bearer_field :: "str \<Rightarrow> str \<Rightarrow> str option" where
  "bearer_field name params =
     fold (\<lambda>part found. case split_once CHR ''='' (trim part) of
         Some (k, v) \<Rightarrow> if k = name then Some (trim_matches CHR 0x22 v) else found
       | None \<Rightarrow> found) (split_on CHR '','' params) None"

definition token_url :: "str \<Rightarrow> image_ref \<Rightarrow> str option \<Rightarrow> str \<Rightarrow> str" where
  "token_url realm r service action =
     realm @ ''?scope=repository:'' @ repository r @ '':'' @ action @
       (case service of Some s \<Rightarrow> ''&service='' @ s | None \<Rightarrow> [])"

definition decode_token_of :: "'s registry_host \<Rightarrow> http_response \<Rightarrow> str option res" where
  "decode_token_of h rp = (if is_success rp then bind_res (rp_body rp) (rh_decode_token h) else Inl Exec_failed)"

text \<open>With stale credentials the token is asked for once more, without them.\<close>

definition request_bearer_token ::
  "'s registry_host \<Rightarrow> str \<Rightarrow> image_ref \<Rightarrow> str option \<Rightarrow> (byte list \<times> byte list) option \<Rightarrow> str \<Rightarrow> ('s, str option) reg" where
  "request_bearer_token h realm r service creds action =
     (let url = token_url realm r service action
      in reg_then (send_request h ((http_get url [])\<lparr>rq_basic := creds\<rparr>)) (\<lambda>rp.
           if rp_status rp = 401 \<and> creds \<noteq> None
           then reg_then (send_request h (http_get url [])) (\<lambda>rp. reg_res (decode_token_of h rp))
           else reg_res (decode_token_of h rp)))"

definition fetch_bearer_token ::
  "'s registry_host \<Rightarrow> str \<Rightarrow> image_ref \<Rightarrow> (byte list \<times> byte list) option \<Rightarrow> str \<Rightarrow> ('s, str option) reg" where
  "fetch_bearer_token h header r creds action =
     (case strip_prefix ''Bearer '' header of
        None \<Rightarrow> reg_res (Inr None)
      | Some params \<Rightarrow> (case bearer_field ''realm'' params of
          None \<Rightarrow> reg_res (Inr None)
        | Some realm \<Rightarrow> request_bearer_token h realm r (bearer_field ''service'' params) creds action))"

definition basic_text :: "byte list \<times> byte list \<Rightarrow> str" where
  "basic_text c = map (\<lambda>b. char_of (unat b)) (base64_encode (fst c @ [58] @ snd c))"

definition use_basic :: "(byte list \<times> byte list) option \<Rightarrow> 's registry_world \<Rightarrow> 's registry_world" where
  "use_basic creds w = (case creds of Some c \<Rightarrow> w\<lparr>rg_basic := Some (basic_text c)\<rparr> | None \<Rightarrow> w)"

definition take_token :: "'s registry_host \<Rightarrow> str \<Rightarrow> image_ref \<Rightarrow> (byte list \<times> byte list) option \<Rightarrow> ('s, unit) reg" where
  "take_token h header r creds =
     reg_then (fetch_bearer_token h header r creds ''pull'') (\<lambda>t.
       if t = None \<and> creds \<noteq> None
       then reg_then (\<lambda>w. (Inr (), w\<lparr>rg_basic := None\<rparr>)) (\<lambda>_.
            reg_then (fetch_bearer_token h header r None ''pull'') (\<lambda>t w. (Inr (), w\<lparr>rg_token := t\<rparr>)))
       else (\<lambda>w. (Inr (), w\<lparr>rg_token := t\<rparr>)))"

definition header_of :: "str \<Rightarrow> http_response \<Rightarrow> str option" where
  "header_of n rp = map_of (rp_headers rp) n"

definition authenticate :: "'s registry_host \<Rightarrow> image_ref \<Rightarrow> ('s, unit) reg" where
  "authenticate h r =
     (let creds = rh_creds h (registry r)
      in reg_then (send_request h (http_get (''https://'' @ registry r @ ''/v2/'') [])) (\<lambda>rp.
         case (if rp_status rp = 401 then header_of ''www-authenticate'' rp else None) of
           Some header \<Rightarrow>
             reg_then (take_token h header r creds) (\<lambda>_ w.
               (Inr (), if rg_token w \<noteq> None then w else use_basic creds w))
         | None \<Rightarrow> (\<lambda>w. (Inr (), if rp_status rp \<noteq> 401 \<and> is_success rp then w else use_basic creds w))))"

definition authenticate_push :: "'s registry_host \<Rightarrow> image_ref \<Rightarrow> ('s, unit) reg" where
  "authenticate_push h r w =
     (let creds = rh_creds h (registry r); w = use_basic creds w;
          hs = (case rg_basic w of
              Some b \<Rightarrow> if rh_header_ok h (''Basic '' @ b) then [(''authorization'', ''Basic '' @ b)] else [] | None \<Rightarrow> [])
      in reg_then (send_request h (http_get (''https://'' @ registry r @ ''/v2/'') hs)) (\<lambda>rp.
         case (if rp_status rp = 401 then header_of ''www-authenticate'' rp else None) of
           Some header \<Rightarrow>
             reg_then (fetch_bearer_token h header r creds ''pull,push'') (\<lambda>t w.
               (Inr (), case t of Some _ \<Rightarrow> w\<lparr>rg_token := t\<rparr> | None \<Rightarrow> w))
         | None \<Rightarrow> reg_res (Inr ())) w)"

section \<open>Manifests, configurations and blobs\<close>

definition accept_all :: str where
  "accept_all = join '', '' [OCI_INDEX_V1, OCI_MANIFEST_V1, DOCKER_MANIFEST_LIST_V2, DOCKER_MANIFEST_V2]"

definition manifest_url :: "image_ref \<Rightarrow> str" where
  "manifest_url r = registry_url r (''/manifests/'' @ unwrap_or (digest r) (ref_tag r))"

definition sha_digest :: "'s registry_host \<Rightarrow> str \<Rightarrow> str" where
  "sha_digest h body = ''sha256:'' @ rh_hash h body"

text \<open>
  An index names the manifest of each platform, and what is fetched for it may again be an index.
  The fuel bounds these steps, \<open>None\<close> stands for a fetch that has not returned.
\<close>

definition fetch_answer :: "'s registry_host \<Rightarrow> image_ref \<Rightarrow> ('s, str) reg" where
  "fetch_answer h r =
     reg_then (authenticate h r) (\<lambda>_ w.
     reg_then (send_request h (http_get (manifest_url r) (auth_headers h w @ [(''accept'', accept_all)]))) (\<lambda>rp.
       reg_res (if is_success rp then rp_body rp else Inl Exec_failed)) w)"

definition read_manifest :: "'s registry_host \<Rightarrow> str \<Rightarrow> (image_manifest \<times> str \<times> str) res" where
  "read_manifest h body =
     (case rh_decode_manifest h body of
        None \<Rightarrow> Inl Io_failed
      | Some m \<Rightarrow> if m_layers m = [] then Inl Io_failed else Inr (m, sha_digest h body, body))"

fun fetch_manifest ::
  "nat \<Rightarrow> 's registry_host \<Rightarrow> str option \<Rightarrow> image_ref \<Rightarrow> 's registry_world \<Rightarrow>
     ((image_manifest \<times> str \<times> str) res \<times> 's registry_world) option" where
  "fetch_manifest 0 h plat r w = None"
| "fetch_manifest (Suc fuel) h plat r w =
     (case fetch_answer h r w of
        (Inl e, w') \<Rightarrow> Some (Inl e, w')
      | (Inr body, w') \<Rightarrow>
          (case rh_decode_index h body of
             None \<Rightarrow> Some (read_manifest h body, w')
           | Some ds \<Rightarrow>
               (case choose_descriptor (rh_machine h) plat ds of
                  None \<Rightarrow> Some (Inl (Not_found (repository r)), w')
                | Some d \<Rightarrow> fetch_manifest fuel h plat (r\<lparr>digest := Some (d_digest d)\<rparr>) w')))"

definition fetch_config :: "'s registry_host \<Rightarrow> image_ref \<Rightarrow> descriptor \<Rightarrow> ('s, image_config) reg" where
  "fetch_config h r d w =
     reg_then (send_request h (http_get (registry_url r (''/blobs/'' @ d_digest d)) (auth_headers h w))) (\<lambda>rp.
       reg_res (if is_success rp
         then bind_res (rp_body rp) (\<lambda>body. ok_or (rh_decode_config h body) Io_failed) else Inl Exec_failed)) w"

section \<open>Files and images\<close>

record ('s, 'r) pull_world =
  pw_reg :: "'s registry_world"
  pw_files :: "str \<Rightarrow> str option"
  pw_roots :: "str \<Rightarrow> 'r option"
  pw_images :: image_file

record 'r pull_disk =
  pd_io :: io
  pd_home :: str
  pd_write_ok :: "str \<Rightarrow> bool"
  pd_space :: "64 word res"
  pd_empty :: 'r
  pd_unpack :: "str \<Rightarrow> 'r \<Rightarrow> unit res \<times> 'r"
  pd_exists :: "'r \<Rightarrow> str \<Rightarrow> bool"
  pd_config_json :: "image_config \<Rightarrow> str"
  pd_now :: int

type_synonym ('s, 'r, 'a) pull = "('s, 'r) pull_world \<Rightarrow> 'a res \<times> ('s, 'r) pull_world"

definition on_registry :: "('s, 'a) reg \<Rightarrow> ('s, 'r, 'a) pull" where
  "on_registry c w = (case c (pw_reg w) of (r, g) \<Rightarrow> (r, w\<lparr>pw_reg := g\<rparr>))"

definition write_file :: "'r pull_disk \<Rightarrow> str \<Rightarrow> str \<Rightarrow> ('s, 'r, unit) pull" where
  "write_file dk p c w =
     (if pd_write_ok dk p then (Inr (), w\<lparr>pw_files := (pw_files w)(p \<mapsto> c)\<rparr>) else (Inl Io_failed, w))"

text \<open>\<open>let _ = fs::remove_file\<close>: a removal is taken to succeed, its failure is ignored by the code.\<close>

definition drop_file :: "str \<Rightarrow> ('s, 'r) pull_world \<Rightarrow> ('s, 'r) pull_world" where
  "drop_file p w = w\<lparr>pw_files := (pw_files w)(p := None)\<rparr>"

text \<open>\<open>with_extension\<close>: a name that begins with its only dot has no extension to replace.\<close>

definition download_name :: "str \<Rightarrow> str" where
  "download_name p =
     (case rsplit_once CHR ''.'' p of
        Some (a, _) \<Rightarrow> if a = [] \<or> last a = CHR ''/'' then p else a
      | None \<Rightarrow> p) @ ''.download''"

text \<open>
  A file that is there already is kept when its digest is right, and removed otherwise. A new one
  is written under a temporary name and moved when its digest is right.
\<close>

definition store_blob :: "'s registry_host \<Rightarrow> 'r pull_disk \<Rightarrow> descriptor \<Rightarrow> str \<Rightarrow> http_response \<Rightarrow> ('s, 'r, unit) pull" where
  "store_blob h dk d dest rp =
     reg_then (write_file dk (download_name dest) (rp_received rp)) (\<lambda>_ w.
       case rp_broken rp of
         Some e \<Rightarrow> (Inl e, w)
       | None \<Rightarrow>
           if sha_digest h (rp_received rp) \<noteq> d_digest d then (Inl Io_failed, drop_file (download_name dest) w)
           else reg_then (write_file dk dest (rp_received rp)) (\<lambda>_ w. (Inr (), drop_file (download_name dest) w)) w)"

definition download_blob_to_file ::
  "'s registry_host \<Rightarrow> 'r pull_disk \<Rightarrow> image_ref \<Rightarrow> descriptor \<Rightarrow> str \<Rightarrow> ('s, 'r, unit) pull" where
  "download_blob_to_file h dk r d dest w =
     (if map_option (sha_digest h) (pw_files w dest) = Some (d_digest d) then (Inr (), w)
      else reg_then (on_registry (\<lambda>g. send_request h (http_get (registry_url r (''/blobs/'' @ d_digest d)) (auth_headers h g)) g))
        (\<lambda>rp. if is_success rp then store_blob h dk d dest rp else reg_res (Inl Exec_failed)) (drop_file dest w))"

definition safe_name :: "str \<Rightarrow> str" where
  "safe_name = map (\<lambda>c. if c = CHR '':'' then CHR ''_'' else c)"

definition layer_file :: "str \<Rightarrow> descriptor \<Rightarrow> str" where
  "layer_file home d =
     (let n = safe_name (d_digest d) @ ''.tar'' in if starts_with n ''/'' then n else home @ ''/layers/'' @ n)"

fun in_turn :: "('a \<Rightarrow> 'w \<Rightarrow> unit res \<times> 'w) \<Rightarrow> 'a list \<Rightarrow> 'w \<Rightarrow> unit res \<times> 'w" where
  "in_turn f [] w = (Inr (), w)"
| "in_turn f (x # xs) w = reg_then (f x) (\<lambda>_. in_turn f xs) w"

section \<open>pull\<close>

definition needed_space :: "descriptor list \<Rightarrow> 64 word" where
  "needed_space ds = sum_list (map (\<lambda>d. word_of_int (max 0 (d_size d))) ds)"

definition total_size :: "descriptor list \<Rightarrow> int" where
  "total_size ds = sint (sum_list (map (\<lambda>d. word_of_int (d_size d)) ds) :: 64 word)"

definition image_home :: "str \<Rightarrow> str \<Rightarrow> str" where
  "image_home home dig = home @ ''/images/'' @ safe_name dig"

definition layer_count_ok :: "image_manifest \<Rightarrow> image_config \<Rightarrow> bool" where
  "layer_count_ok m c \<longleftrightarrow>
     (case g_rootfs c of Some fs \<Rightarrow> length (diff_ids fs) = length (m_layers m) | None \<Rightarrow> True)"

definition unpack_one :: "'r pull_disk \<Rightarrow> str \<Rightarrow> descriptor \<Rightarrow> ('s, 'r, unit) pull" where
  "unpack_one dk root d w =
     (case (pw_files w (layer_file (pd_home dk) d), pw_roots w root) of
        (Some c, Some t) \<Rightarrow> (case pd_unpack dk c t of (res, t') \<Rightarrow> (res, w\<lparr>pw_roots := (pw_roots w)(root \<mapsto> t')\<rparr>))
      | _ \<Rightarrow> (Inl Io_failed, w))"

definition fresh_root :: "'r pull_disk \<Rightarrow> str \<Rightarrow> ('s, 'r, unit) pull" where
  "fresh_root dk root w =
     (let w = w\<lparr>pw_roots := (pw_roots w)(root := None)\<rparr>
      in if pd_write_ok dk root then (Inr (), w\<lparr>pw_roots := (pw_roots w)(root \<mapsto> pd_empty dk)\<rparr>) else (Inl Io_failed, w))"

definition first_entrypoint :: "image_config \<Rightarrow> str option" where
  "first_entrypoint c =
     Option.bind (Option.bind (g_config c) x_entrypoint) (\<lambda>es. case es of [] \<Rightarrow> None | e # _ \<Rightarrow> Some e)"

definition check_entrypoint :: "'r pull_disk \<Rightarrow> str \<Rightarrow> image_config \<Rightarrow> ('s, 'r, unit) pull" where
  "check_entrypoint dk root c w =
     (case (first_entrypoint c, pw_roots w root) of
        (Some ep, Some t) \<Rightarrow> if entrypoint_exists (pd_exists dk t) root ep then (Inr (), w) else (Inl Io_failed, w)
      | _ \<Rightarrow> (Inr (), w))"

definition pulled_record :: "'r pull_disk \<Rightarrow> image_ref \<Rightarrow> image_manifest \<Rightarrow> str \<Rightarrow> image_config \<Rightarrow> image_record" where
  "pulled_record dk r m dig c =
     \<lparr>i_id = take 12 (drop 7 dig), i_reference = repository r, i_tag = ref_tag r, i_registry = registry r,
      i_manifest_digest = dig, i_config_digest = d_digest (m_config m), i_size_bytes = total_size (m_layers m),
      i_created_at = pd_now dk, i_rootfs_path = image_home (pd_home dk) dig @ ''/rootfs'', i_config = c\<rparr>"

definition store_pulled :: "'r pull_disk \<Rightarrow> image_record \<Rightarrow> ('s, 'r, image_record) pull" where
  "store_pulled dk rec w =
     (case image_add (pd_io dk) rec (pw_images w) of (r, f) \<Rightarrow> (map_sum (\<lambda>e. e) (\<lambda>_. rec) r, w\<lparr>pw_images := f\<rparr>))"

definition pull_layers ::
  "'s registry_host \<Rightarrow> 'r pull_disk \<Rightarrow> image_ref \<Rightarrow> image_manifest \<times> str \<times> str \<Rightarrow> ('s, 'r, image_record) pull" where
  "pull_layers h dk r mdb =
     (case mdb of (m, dig, bytes) \<Rightarrow>
        let dir = image_home (pd_home dk) dig; root = dir @ ''/rootfs''
        in reg_then (on_registry (fetch_config h r (m_config m))) (\<lambda>c.
           reg_then (reg_res (if layer_count_ok m c then Inr () else Inl Io_failed)) (\<lambda>_.
           reg_then (reg_res (if pd_write_ok dk (pd_home dk @ ''/layers'') then Inr () else Inl Io_failed)) (\<lambda>_.
           reg_then (reg_res (ensure_headroom (pd_space dk) (needed_space (m_layers m)))) (\<lambda>_.
           reg_then (in_turn (\<lambda>d. download_blob_to_file h dk r d (layer_file (pd_home dk) d)) (m_layers m)) (\<lambda>_.
           reg_then (fresh_root dk root) (\<lambda>_.
           reg_then (write_file dk (dir @ ''/manifest.json'') bytes) (\<lambda>_.
           reg_then (write_file dk (dir @ ''/config.json'') (pd_config_json dk c)) (\<lambda>_.
           reg_then (in_turn (unpack_one dk root) (m_layers m)) (\<lambda>_.
           reg_then (check_entrypoint dk root c) (\<lambda>_.
           store_pulled dk (pulled_record dk r m dig c))))))))))))"

definition pull_image_with_platform ::
  "nat \<Rightarrow> 's registry_host \<Rightarrow> 'r pull_disk \<Rightarrow> str \<Rightarrow> str option \<Rightarrow> ('s, 'r) pull_world \<Rightarrow>
     (image_record res \<times> ('s, 'r) pull_world) option" where
  "pull_image_with_platform fuel h dk im plat w =
     (case ref_parse im of
        Inl e \<Rightarrow> Some (Inl e, w)
      | Inr r \<Rightarrow>
          (case fetch_manifest fuel h plat r (pw_reg w\<lparr>rg_token := None, rg_basic := None\<rparr>) of
             None \<Rightarrow> None
           | Some (Inl e, g) \<Rightarrow> Some (Inl e, w\<lparr>pw_reg := g\<rparr>)
           | Some (Inr mdb, g) \<Rightarrow> Some (pull_layers h dk r mdb (w\<lparr>pw_reg := g\<rparr>))))"

section \<open>push\<close>

definition upload_blob :: "'s registry_host \<Rightarrow> image_ref \<Rightarrow> str \<Rightarrow> str \<Rightarrow> ('s, unit) reg" where
  "upload_blob h r dig content w =
     (let hs = auth_headers h w; ask = (\<lambda>m url hs body. send_request h
            \<lparr>rq_method = m, rq_url = url, rq_headers = hs, rq_basic = None, rq_body = body\<rparr>)
      in reg_then (ask HEAD (registry_url r (''/blobs/'' @ dig)) hs None) (\<lambda>rp.
         if is_success rp then reg_res (Inr ())
         else reg_then (ask POST (registry_url r ''/blobs/uploads/'') hs None) (\<lambda>rp.
              reg_then (reg_res (if is_success rp then ok_or (header_of ''location'' rp) Io_failed else Inl Exec_failed)) (\<lambda>loc.
              reg_then (ask PUT loc (hs @ [(''content-type'', ''application/octet-stream'')]) (Some content)) (\<lambda>rp.
              reg_res (if is_success rp then Inr () else Inl Exec_failed))))) w)"

definition push_manifest :: "'s registry_host \<Rightarrow> image_ref \<Rightarrow> str \<Rightarrow> ('s, unit) reg" where
  "push_manifest h r bytes w =
     reg_then (send_request h \<lparr>rq_method = PUT, rq_url = registry_url r (''/manifests/'' @ ref_tag r),
        rq_headers = auth_headers h w @ [(''content-type'', DOCKER_MANIFEST_V2)], rq_basic = None, rq_body = Some bytes\<rparr>)
       (\<lambda>rp. reg_res (if is_success rp then Inr () else Inl Exec_failed)) w"

definition parent_text :: "str \<Rightarrow> str" where
  "parent_text p = (case rsplit_once CHR ''/'' p of Some (a, _) \<Rightarrow> a | None \<Rightarrow> [])"

definition push_layer :: "'s registry_host \<Rightarrow> 'r pull_disk \<Rightarrow> image_ref \<Rightarrow> descriptor \<Rightarrow> ('s, 'r, unit) pull" where
  "push_layer h dk r d w =
     (case pw_files w (layer_file (pd_home dk) d) of
        None \<Rightarrow> (Inl (Not_found (d_digest d)), w)
      | Some c \<Rightarrow> on_registry (upload_blob h r (d_digest d) c) w)"

definition push_image ::
  "'s registry_host \<Rightarrow> 'r pull_disk \<Rightarrow> (image_manifest \<Rightarrow> str) \<Rightarrow> image_record \<Rightarrow> image_ref \<Rightarrow> ('s, 'r, str) pull" where
  "push_image h dk manifest_json img r =
     reg_then (on_registry (authenticate_push h r)) (\<lambda>_ w.
       let dir = parent_text (i_rootfs_path img)
       in reg_then (reg_res (case pw_files w (dir @ ''/manifest.json'') of
              Some c \<Rightarrow> ok_or (rh_decode_manifest h c) Io_failed | None \<Rightarrow> Inl (Not_found (i_reference img)))) (\<lambda>m.
          reg_then (on_registry (upload_blob h r (d_digest (m_config m))
              (unwrap_or (pw_files w (dir @ ''/config.json'')) (pd_config_json dk (i_config img))))) (\<lambda>_.
          reg_then (in_turn (push_layer h dk r) (m_layers m)) (\<lambda>_.
          reg_then (on_registry (push_manifest h r (manifest_json m))) (\<lambda>_.
          reg_res (Inr (sha_digest h (manifest_json m))))))) w)"

text \<open>The reference that is pushed to is made of the record's repository and tag, without its registry.\<close>

definition push_reference :: "image_record \<Rightarrow> image_ref res" where
  "push_reference img = ref_parse (i_reference img @ '':'' @ i_tag img)"

definition push ::
  "'s registry_host \<Rightarrow> 'r pull_disk \<Rightarrow> (image_manifest \<Rightarrow> str) \<Rightarrow> str \<Rightarrow> str \<Rightarrow> ('s, 'r, unit) pull" where
  "push h dk manifest_json arch q w =
     (case image_find (pd_io dk) arch q (pw_images w) of
        None \<Rightarrow> (Inl (Not_found q), w)
      | Some img \<Rightarrow> reg_then (reg_res (push_reference img)) (\<lambda>r.
          reg_then (push_image h dk manifest_json img r) (\<lambda>_. reg_res (Inr ()))) w)"

section \<open>Choosing a manifest\<close>

lemma or_else_iff:
  "or_else a b = None \<longleftrightarrow> a = None \<and> b = None" "or_else a b = Some d \<Longrightarrow> a = Some d \<or> b = Some d"
  by (cases a; simp)+

lemma choose_None: "choose_descriptor arch plat ds = None \<longleftrightarrow> filter is_runnable_image_descriptor ds = []"
proof
  assume "choose_descriptor arch plat ds = None"
  then have "(case filter is_runnable_image_descriptor ds of [] \<Rightarrow> None | r # _ \<Rightarrow> Some r) = None"
    by (simp add: choose_descriptor_def Let_def or_else_iff)
  then show "filter is_runnable_image_descriptor ds = []" by (cases "filter is_runnable_image_descriptor ds") simp_all
qed (simp add: choose_descriptor_def)

lemma choose_Some:
  assumes "choose_descriptor arch plat ds = Some d"
  shows "d \<in> set (filter is_runnable_image_descriptor ds)"
proof -
  let ?rs = "filter is_runnable_image_descriptor ds"
  have "(\<exists>p. find p ?rs = Some d) \<or> (case ?rs of [] \<Rightarrow> None | r # _ \<Rightarrow> Some r) = Some d"
    using assms unfolding choose_descriptor_def Let_def by (blast dest: or_else_iff(2))
  then show ?thesis by (cases ?rs) (auto dest: find_SomeD simp del: find.simps)
qed

text \<open>
  From an index the client takes a runnable descriptor whenever there is one: the first for
  the platform asked for, and when there is none for it, one for another platform, without an error.
\<close>

theorem platform_choice:
  "(choose_descriptor arch plat ds = None \<longleftrightarrow> filter is_runnable_image_descriptor ds = []) \<and>
   (choose_descriptor arch plat ds = Some d \<longrightarrow> d \<in> set ds \<and> is_runnable_image_descriptor d \<and>
     (on_platform (wanted_platform arch plat) d \<or>
      (\<forall>x\<in>set ds. is_runnable_image_descriptor x \<longrightarrow> \<not> on_platform (wanted_platform arch plat) x)))"
proof -
  let ?rs = "filter is_runnable_image_descriptor ds"
  have "d \<in> set ?rs \<and> (on_platform (wanted_platform arch plat) d \<or>
      (\<forall>x\<in>set ?rs. \<not> on_platform (wanted_platform arch plat) x))" if "choose_descriptor arch plat ds = Some d"
  proof (cases "find (on_platform (wanted_platform arch plat)) ?rs")
    case (Some x)
    then show ?thesis using that find_SomeD [OF Some] by (simp add: choose_descriptor_def Let_def)
  next
    case None
    then show ?thesis using choose_Some [OF that] by (simp add: find_None_iff_all)
  qed
  then show ?thesis using choose_None [of arch plat ds] by auto
qed

definition arm_only :: "descriptor list" where
  "arm_only = [\<lparr>d_media_type = OCI_MANIFEST_V1, d_digest = ''sha256:a'', d_size = 1,
     d_platform = Some \<lparr>pl_architecture = ''amd64'', pl_os = ''linux''\<rparr>, d_annotations = None\<rparr>]"

theorem platform_choice_witness:
  "\<exists>d. choose_descriptor ''x86_64'' (Some ''linux/arm64'') arm_only = Some d \<and>
     \<not> on_platform (wanted_platform ''x86_64'' (Some ''linux/arm64'')) d"
proof -
  have "filter is_runnable_image_descriptor arm_only = arm_only"
    and n: "\<not> list_ex (on_platform (wanted_platform ''x86_64'' (Some ''linux/arm64''))) arm_only"
    by code_simp+
  then obtain d where d: "choose_descriptor ''x86_64'' (Some ''linux/arm64'') arm_only = Some d"
    using platform_choice [of "''x86_64''" "Some ''linux/arm64''" arm_only] by (auto simp: arm_only_def)
  moreover have "d \<in> set arm_only"
    using platform_choice [of "''x86_64''" "Some ''linux/arm64''" arm_only d] d by simp
  ultimately show ?thesis using n by (auto simp: list_ex_iff)
qed

text \<open>
  A registry that answers every request for a manifest with an index keeps the client
  fetching: no number of steps is enough.
\<close>

theorem endless_index_never_returns:
  assumes "\<And>r w. \<exists>w'. fetch_answer h r w = (Inr body, w')"
    and "rh_decode_index h body = Some ds" and "list_ex is_runnable_image_descriptor ds"
  shows "fetch_manifest fuel h plat r w = None"
proof (induction fuel arbitrary: r w)
  case (Suc fuel)
  obtain w' where a: "fetch_answer h r w = (Inr body, w')" using assms(1) by blast
  have "filter is_runnable_image_descriptor ds \<noteq> []" using assms(3) by (auto simp: list_ex_iff filter_empty_conv)
  then obtain d where "choose_descriptor (rh_machine h) plat ds = Some d"
    using choose_None [of "rh_machine h" plat ds] by auto
  then show ?case using a assms(2) Suc.IH by simp
qed simp

section \<open>Blobs\<close>

lemma sha_digest_starts [simp]: "starts_with (sha_digest h c) ''sha256:''"
  unfolding sha_digest_def by (rule starts_with_append)

lemma write_file_other: "p \<noteq> q \<Longrightarrow> pw_files (snd (write_file dk q c w)) p = pw_files w p"
  by (simp add: write_file_def)

lemma layer_file_shape: "\<exists>a. layer_file home d = a @ ''.tar''"
  by (auto simp: layer_file_def Let_def intro: exI [of _ "home @ ''/layers/'' @ safe_name (d_digest d)"])

lemma layer_not_download: "layer_file home d \<noteq> a @ ''.download''"
proof
  assume "layer_file home d = a @ ''.download''"
  then have "last (layer_file home d) = last (a @ ''.download'')" by simp
  then show False using layer_file_shape [of home d] by auto
qed

lemma layer_download: "\<exists>a. download_name (layer_file home d) = a @ ''.download''"
  unfolding download_name_def by blast

text \<open>
  C31. The file of a layer is named by the digest in the manifest, which is not checked to be one.
  A digest that does not start with \<open>sha256:\<close>, such as a path with \<open>..\<close>, makes the client delete the
  file it names, wherever that is, before the pull fails.
\<close>

theorem hostile_digest_deletes:
  assumes "\<not> starts_with (d_digest d) ''sha256:''"
    and "download_blob_to_file h dk r d (layer_file home d) w = (res, w')"
  shows "pw_files w' (layer_file home d) = None \<and> (\<exists>e. res = Inl e)"
proof -
  have n: "sha_digest h c \<noteq> d_digest d" for c using assms(1) sha_digest_starts [of h c] by metis
  then have m: "map_option (sha_digest h) x \<noteq> Some (d_digest d)" for x by auto
  obtain a where a: "download_name (layer_file home d) = a @ ''.download''" using layer_download by blast
  have s: "pw_files (snd (store_blob h dk d (layer_file home d) rp v)) (layer_file home d) = pw_files v (layer_file home d) \<and>
      (\<exists>e. fst (store_blob h dk d (layer_file home d) rp v) = Inl e)" for rp v
    using n layer_not_download [of home d a]
    by (auto simp: store_blob_def reg_then_def write_file_def drop_file_def a split: option.splits)
  let ?send = "on_registry (\<lambda>g. send_request h (http_get (registry_url r (''/blobs/'' @ d_digest d)) (auth_headers h g)) g)"
  obtain q w1 where q: "?send (drop_file (layer_file home d) w) = (q, w1)" by (cases "?send (drop_file (layer_file home d) w)")
  then have f: "pw_files w1 (layer_file home d) = None"
    by (auto simp: on_registry_def drop_file_def split: prod.splits)
  have "download_blob_to_file h dk r d (layer_file home d) w =
      (case q of Inl e \<Rightarrow> (Inl e, w1)
       | Inr rp \<Rightarrow> if is_success rp then store_blob h dk d (layer_file home d) rp w1 else (Inl Exec_failed, w1))"
    using m q by (auto simp: download_blob_to_file_def reg_then_def reg_res_def split: sum.splits)
  then show ?thesis using assms(2) f s [of _ w1]
    by (cases q) (auto split: if_splits, (metis fst_conv snd_conv)+)
qed

text \<open>What a download does to the files, and what it leaves alone.\<close>

lemma reg_then_Inr: "reg_then c g w = (Inr b, w') \<longleftrightarrow> (\<exists>a w1. c w = (Inr a, w1) \<and> g a w1 = (Inr b, w'))"
  by (auto simp: reg_then_def split: prod.splits sum.splits)

lemma on_registry_Inr:
  "on_registry c w = (Inr a, w') \<longleftrightarrow> (\<exists>g. c (pw_reg w) = (Inr a, g) \<and> w' = w\<lparr>pw_reg := g\<rparr>)"
  by (auto simp: on_registry_def split: prod.splits)

lemma reg_res_Inr [simp]: "reg_res r w = (Inr a, w') \<longleftrightarrow> r = Inr a \<and> w' = w"
  by (auto simp: reg_res_def)

lemma write_file_Inr [simp]:
  "write_file dk p c w = (Inr u, w') \<longleftrightarrow> pd_write_ok dk p \<and> w' = w\<lparr>pw_files := (pw_files w)(p \<mapsto> c)\<rparr>"
  by (auto simp: write_file_def)

definition verified :: "'s registry_host \<Rightarrow> str \<Rightarrow> descriptor \<Rightarrow> ('s, 'r) pull_world \<Rightarrow> bool" where
  "verified h home d w \<longleftrightarrow> map_option (sha_digest h) (pw_files w (layer_file home d)) = Some (d_digest d)"

lemma download_verified:
  assumes "download_blob_to_file h dk r d (layer_file home d) w = (Inr u, w')"
  shows "verified h home d w'" and "\<And>p. p \<noteq> layer_file home d \<Longrightarrow> \<not> ends_with p ''.download'' \<Longrightarrow> pw_files w' p = pw_files w p"
proof -
  obtain a where a: "download_name (layer_file home d) = a @ ''.download''" using layer_download by blast
  have "verified h home d w' \<and> (\<forall>p. p \<noteq> layer_file home d \<longrightarrow> \<not> ends_with p ''.download'' \<longrightarrow> pw_files w' p = pw_files w p)"
  proof (cases "map_option (sha_digest h) (pw_files w (layer_file home d)) = Some (d_digest d)")
    case True
    then show ?thesis using assms by (auto simp: download_blob_to_file_def verified_def)
  next
    case False
    then have "\<exists>rp g. store_blob h dk d (layer_file home d) rp ((drop_file (layer_file home d) w)\<lparr>pw_reg := g\<rparr>) = (Inr u, w')"
      using assms by (auto simp: download_blob_to_file_def reg_then_Inr on_registry_Inr split: if_splits)
    then obtain rp g where "store_blob h dk d (layer_file home d) rp ((drop_file (layer_file home d) w)\<lparr>pw_reg := g\<rparr>) = (Inr u, w')"
      by blast
    then obtain w1 where f: "pw_files w1 = (pw_files w)(layer_file home d := None)"
        and s: "store_blob h dk d (layer_file home d) rp w1 = (Inr u, w')"
      using that [of "(drop_file (layer_file home d) w)\<lparr>pw_reg := g\<rparr>"] by (simp add: drop_file_def)
    have "\<not> ends_with p ''.download'' \<Longrightarrow> p \<noteq> a @ ''.download''" for p using ends_with_append by auto
    moreover have "rp_broken rp = None" and "sha_digest h (rp_received rp) = d_digest d"
        and "w' = drop_file (a @ ''.download'') (w1\<lparr>pw_files := (pw_files w1)(a @ ''.download'' \<mapsto> rp_received rp, layer_file home d \<mapsto> rp_received rp)\<rparr>)"
      using s a by (auto simp: store_blob_def reg_then_Inr split: option.splits if_splits)
    ultimately show ?thesis using f layer_not_download [of home d a] by (auto simp: verified_def drop_file_def)
  qed
  then show "verified h home d w'" and "\<And>p. p \<noteq> layer_file home d \<Longrightarrow> \<not> ends_with p ''.download'' \<Longrightarrow> pw_files w' p = pw_files w p"
    by blast+
qed

lemma layer_tar: "\<not> ends_with (layer_file home d) ''.download''"
  using layer_not_download [of home d] by (auto simp: ends_with_iff)

text \<open>Files with right digests have different names, as long as the hash has no colon in its text.\<close>

definition plain_hash :: "'s registry_host \<Rightarrow> bool" where
  "plain_hash h \<longleftrightarrow> (\<forall>c. CHR '':'' \<notin> set (rh_hash h c))"

lemma safe_name_plain: "CHR '':'' \<notin> set s \<Longrightarrow> safe_name s = s"
  by (induction s) (auto simp: safe_name_def)

lemma verified_apart:
  assumes "plain_hash h" and "verified h home d w" and "layer_file home d = layer_file home e" and "verified h home e w'"
  shows "d_digest d = d_digest e"
proof -
  obtain a b where a: "d_digest d = sha_digest h a" and b: "d_digest e = sha_digest h b"
    using assms(2,4) unfolding verified_def by (metis map_option_eq_Some)
  have "safe_name (sha_digest h x) = ''sha256_'' @ rh_hash h x" for x
    using assms(1) safe_name_plain [of "rh_hash h x"] by (simp add: sha_digest_def plain_hash_def) (simp add: safe_name_def)
  then show ?thesis using assms(3) by (simp add: layer_file_def a b sha_digest_def starts_with_def)
qed

lemma downloads_verified:
  assumes "plain_hash h"
  shows "in_turn (\<lambda>d. download_blob_to_file h dk r d (layer_file home d)) ds w = (Inr u, w') \<Longrightarrow>
    (\<forall>d\<in>set ds. verified h home d w') \<and> (\<forall>e. verified h home e w \<longrightarrow> verified h home e w')"
proof (induction ds arbitrary: w)
  case (Cons d ds)
  obtain w1 where d: "download_blob_to_file h dk r d (layer_file home d) w = (Inr (), w1)"
    and t: "in_turn (\<lambda>d. download_blob_to_file h dk r d (layer_file home d)) ds w1 = (Inr u, w')"
    using Cons.prems by (auto simp: reg_then_Inr)
  note dv = download_verified [OF d]
  have "verified h home e w1" if e: "verified h home e w" for e
  proof (cases "layer_file home e = layer_file home d")
    case True
    then have "d_digest d = d_digest e" using verified_apart [OF assms dv(1) _ e] by simp
    then show ?thesis using dv(1) True by (simp add: verified_def)
  next
    case False
    then show ?thesis using dv(2) [OF _ layer_tar] e by (simp add: verified_def)
  qed
  then show ?case using Cons.IH [OF t] dv(1) by auto
qed simp

lemma unpack_one_files: "unpack_one dk root d w = (r, w') \<Longrightarrow> pw_files w' = pw_files w \<and> pw_images w' = pw_images w"
  by (auto simp: unpack_one_def split: option.splits prod.splits)

lemma unpack_files:
  "in_turn (unpack_one dk root) ds w = (r, w') \<Longrightarrow> pw_files w' = pw_files w \<and> pw_images w' = pw_images w"
proof (induction ds arbitrary: w)
  case (Cons d ds)
  obtain q w1 where q: "unpack_one dk root d w = (q, w1)" by (cases "unpack_one dk root d w")
  then show ?case using Cons unpack_one_files [OF q] by (cases q) (auto simp: reg_then_def)
qed simp

lemma fresh_root_files: "fresh_root dk root w = (q, w') \<Longrightarrow> pw_files w' = pw_files w \<and> pw_images w' = pw_images w"
  by (auto simp: fresh_root_def Let_def split: if_splits)

lemma check_entrypoint_world: "check_entrypoint dk root c w = (q, w') \<Longrightarrow> w' = w"
  by (auto simp: check_entrypoint_def split: option.splits if_splits)

lemma store_pulled_Inr: "store_pulled dk rec w = (Inr r, w') \<Longrightarrow> pw_files w' = pw_files w \<and> r = rec"
  by (cases "image_add (pd_io dk) rec (pw_images w)"; cases "fst (image_add (pd_io dk) rec (pw_images w))")
    (auto simp: store_pulled_def)

lemma manifest_of_answer:
  "fetch_manifest fuel h plat r w = Some (Inr (m, dig, bytes), w') \<Longrightarrow>
     dig = sha_digest h bytes \<and> rh_decode_manifest h bytes = Some m \<and> m_layers m \<noteq> []"
proof (induction fuel arbitrary: r w)
  case (Suc fuel)
  then show ?case
    by (auto simp: read_manifest_def split: prod.splits sum.splits option.splits if_splits)
qed simp

text \<open>
  C29. The layers of an image that was pulled are what its manifest says: the file of every layer
  has the digest of the manifest, and the hash of the manifest is the digest that is recorded.
\<close>

theorem pulled_layers_verified:
  assumes "pull_image_with_platform fuel h dk im plat w = Some (Inr rec, w')" and "plain_hash h"
  shows "\<exists>m bytes. i_manifest_digest rec = sha_digest h bytes \<and> rh_decode_manifest h bytes = Some m \<and>
    (\<forall>d\<in>set (m_layers m). \<exists>c. pw_files w' (layer_file (pd_home dk) d) = Some c \<and> sha_digest h c = d_digest d)"
proof -
  obtain r m dig bytes g where f: "fetch_manifest fuel h plat r (pw_reg w\<lparr>rg_token := None, rg_basic := None\<rparr>) =
      Some (Inr (m, dig, bytes), g)" and p: "pull_layers h dk r (m, dig, bytes) (w\<lparr>pw_reg := g\<rparr>) = (Inr rec, w')"
    using assms(1) by (auto simp: pull_image_with_platform_def split: sum.splits option.splits prod.splits)
  let ?root = "image_home (pd_home dk) dig @ ''/rootfs''"
  let ?dir = "image_home (pd_home dk) dig"
  obtain c w1 w2 w2a w2b w3 w4 w5 u1 u2 u3 u4 u5 u6 where d: "in_turn (\<lambda>d. download_blob_to_file h dk r d (layer_file (pd_home dk) d)) (m_layers m) w1 = (Inr u1, w2)"
      and a: "fresh_root dk ?root w2 = (Inr u2, w2a)" "write_file dk (?dir @ ''/manifest.json'') bytes w2a = (Inr u3, w2b)"
        "write_file dk (?dir @ ''/config.json'') (pd_config_json dk c) w2b = (Inr u4, w3)"
      and u: "in_turn (unpack_one dk ?root) (m_layers m) w3 = (Inr u5, w4)"
      and e: "check_entrypoint dk ?root c w4 = (Inr u6, w5)" and t: "store_pulled dk (pulled_record dk r m dig c) w5 = (Inr rec, w')"
    using p unfolding pull_layers_def prod.case Let_def reg_then_Inr by blast
  have x: "pw_files w3 = (pw_files w2)(?dir @ ''/manifest.json'' \<mapsto> bytes, ?dir @ ''/config.json'' \<mapsto> pd_config_json dk c)"
    using a fresh_root_files [OF a(1)] by simp
  have s: "pw_files w' = pw_files w4" and rec: "rec = pulled_record dk r m dig c"
    using check_entrypoint_world [OF e] store_pulled_Inr [OF t] by simp_all
  have n: "layer_file (pd_home dk) e \<noteq> a @ ''.json''" for e a
  proof
    assume "layer_file (pd_home dk) e = a @ ''.json''"
    then have "last (layer_file (pd_home dk) e) = last (a @ ''.json'')" by simp
    then show False using layer_file_shape [of "pd_home dk" e] by auto
  qed
  have "verified h (pd_home dk) e w'" if "e \<in> set (m_layers m)" for e
    using downloads_verified [OF assms(2) d] that n [of e "?dir @ ''/manifest''"] n [of e "?dir @ ''/config''"] unpack_files [OF u]
    by (simp add: verified_def s x)
  then show ?thesis using manifest_of_answer [OF f] rec
    by (intro exI [of _ m] exI [of _ bytes]) (auto simp: pulled_record_def verified_def)
qed

section \<open>Where a push goes\<close>

text \<open>
  An image is pushed to the default registry whatever registry it came from or was built for,
  as long as its repository does not itself begin like one.
\<close>

theorem push_goes_to_default:
  assumes "i_reference img = a @ CHR ''/'' # b" and "a \<noteq> []" and "CHR ''/'' \<notin> set a" and "\<not> registry_like a"
    and "i_tag img \<noteq> []" and "CHR '':'' \<notin> set (i_tag img)"
    and "CHR ''@'' \<notin> set (i_reference img) \<union> set (i_tag img)"
    and "\<not> is_whitespace (hd a)" and "\<not> is_whitespace (last (i_tag img))"
  shows "push_reference img = Inr \<lparr>registry = DEFAULT_REGISTRY, repository = i_reference img, ref_tag = i_tag img, digest = None\<rparr>"
proof -
  let ?s = "i_reference img @ CHR '':'' # i_tag img"
  have t: "trim ?s = ?s" using assms by (intro trim_idem_ends) auto
  have d: "split_digest ?s = (?s, None)" using assms(7) by (simp add: split_digest_def)
  have "split_once CHR ''/'' (a @ CHR ''/'' # b @ CHR '':'' # i_tag img) = Some (a, b @ CHR '':'' # i_tag img)"
    using assms(3) by simp
  moreover have "rsplit_once CHR '':'' ?s = Some (i_reference img, i_tag img)" using assms(6) by simp
  ultimately have g: "split_tag ?s = (i_reference img, i_tag img)" unfolding split_tag_def assms(1) by simp
  have "\<not> hub_alias a" using assms(4) hub_not_like by blast
  then have r: "split_registry (i_reference img) = (DEFAULT_REGISTRY, i_reference img)"
    using assms(1,3,4) by (simp add: split_registry_def)
  show ?thesis unfolding push_reference_def ref_parse_def using t d g r assms(1) by (simp add: contains_char_def)
qed

definition ghcr_image :: image_record where
  "ghcr_image = (sample_image ''aa'' ''x86_64'' ''v1'')\<lparr>i_registry := ''ghcr.io'', i_reference := ''team/app''\<rparr>"

theorem push_goes_to_default_witness:
  "\<exists>r. push_reference ghcr_image = Inr r \<and> registry r = DEFAULT_REGISTRY \<and> i_registry ghcr_image = ''ghcr.io''"
  using push_goes_to_default [of ghcr_image "''team''" "''app''"]
  by (simp add: ghcr_image_def sample_image_def registry_like_def contains_char_def char_class_defs)

section \<open>A sample registry\<close>

definition small_manifest :: image_manifest where
  "small_manifest =
     (let d = (\<lambda>dig. \<lparr>d_media_type = OCI_MANIFEST_V1, d_digest = dig, d_size = 1, d_platform = None, d_annotations = None\<rparr>)
      in \<lparr>m_config = d ''sha256:C'', m_layers = [d ''sha256:L'']\<rparr>)"

definition small_config :: image_config where
  "small_config = \<lparr>g_architecture = ''amd64'', g_os = ''linux'', g_config = None, g_rootfs = None, g_history = []\<rparr>"

definition sample_registry :: "unit registry_host" where
  "sample_registry =
     \<lparr>rh_send = \<lambda>rq s. (Inr \<lparr>rp_status = 200, rp_headers = [], rp_received =
          (if contains_str (rq_url rq) ''/manifests/'' then ''M'' else if ends_with (rq_url rq) ''L'' then ''L'' else ''C''),
          rp_broken = None\<rparr>, s),
      rh_header_ok = \<lambda>_. True, rh_creds = \<lambda>_. None, rh_hash = \<lambda>s. if CHR '':'' \<in> set s then [] else s, rh_decode_token = \<lambda>_. Inr None,
      rh_decode_index = \<lambda>b. None, rh_decode_manifest = \<lambda>b. if b = ''M'' then Some small_manifest else None,
      rh_decode_config = \<lambda>b. Some small_config, rh_machine = ''x86_64''\<rparr>"

definition sample_disk :: "str list pull_disk" where
  "sample_disk =
     \<lparr>pd_io = io_good, pd_home = ''/h'', pd_write_ok = \<lambda>_. True, pd_space = Inr 1000000000, pd_empty = [],
      pd_unpack = \<lambda>c t. (Inr (), t @ [c]), pd_exists = \<lambda>_ _. True, pd_config_json = \<lambda>_. ''{}'', pd_now = 0\<rparr>"

definition empty_disk :: "(unit, str list) pull_world" where
  "empty_disk = \<lparr>pw_reg = \<lparr>rg_server = (), rg_token = None, rg_basic = None\<rparr>, pw_files = \<lambda>_. None,
     pw_roots = \<lambda>_. None, pw_images = Missing\<rparr>"

lemma sample_pull:
  "map_option (\<lambda>x. map_sum (\<lambda>e. e) i_manifest_digest (fst x))
     (pull_image_with_platform 2 sample_registry sample_disk ''alpine'' None empty_disk) = Some (Inr ''sha256:M'')"
  by code_simp

lemma pull_value:
  "map_option (\<lambda>x. map_sum (\<lambda>e. e) f (fst x)) x = Some (Inr v) \<Longrightarrow> \<exists>a b. x = Some (Inr a, b) \<and> f a = v"
  by (cases x; cases "fst (the x)"; cases "the x") auto

lemma sample_pull_result:
  "\<exists>rec w'. pull_image_with_platform 2 sample_registry sample_disk ''alpine'' None empty_disk = Some (Inr rec, w') \<and>
     i_manifest_digest rec = ''sha256:M''"
  using pull_value [OF sample_pull] by blast

theorem pulled_layers_verified_witness:
  "\<exists>rec w' c. pull_image_with_platform 2 sample_registry sample_disk ''alpine'' None empty_disk = Some (Inr rec, w') \<and>
     pw_files w' (layer_file ''/h'' (hd (m_layers small_manifest))) = Some c \<and> sha_digest sample_registry c = ''sha256:L''"
proof -
  obtain rec w' where p: "pull_image_with_platform 2 sample_registry sample_disk ''alpine'' None empty_disk = Some (Inr rec, w')"
    and d: "i_manifest_digest rec = ''sha256:M''"
    using sample_pull_result by blast
  have h: "rh_hash sample_registry = (\<lambda>s. if CHR '':'' \<in> set s then [] else s)" by (simp add: sample_registry_def)
  then have "plain_hash sample_registry" by (simp add: plain_hash_def)
  from pulled_layers_verified [OF p this] obtain m bytes where "rh_decode_manifest sample_registry bytes = Some m"
    and l: "\<forall>d\<in>set (m_layers m). \<exists>c. pw_files w' (layer_file (pd_home sample_disk) d) = Some c \<and> sha_digest sample_registry c = d_digest d"
    by blast
  from this(1) have "m = small_manifest" by (simp add: sample_registry_def split: if_splits)
  moreover have "hd (m_layers small_manifest) \<in> set (m_layers small_manifest)"
      "d_digest (hd (m_layers small_manifest)) = ''sha256:L''" "pd_home sample_disk = ''/h''"
    by (simp_all add: small_manifest_def Let_def sample_disk_def)
  ultimately obtain c where "pw_files w' (layer_file ''/h'' (hd (m_layers small_manifest))) = Some c"
      "sha_digest sample_registry c = ''sha256:L''"
    using l by metis
  with p show ?thesis by blast
qed

text \<open>
  Of a reference, everything after the manifest uses the registry, the repository and the tag.
\<close>

lemma registry_url_digest [simp]: "registry_url (r\<lparr>digest := x\<rparr>) = registry_url r"
  by (simp add: registry_url_def fun_eq_iff)

lemma pull_layers_digest: "pull_layers h dk (r\<lparr>digest := x\<rparr>) mdb = pull_layers h dk r mdb"
proof -
  have "fetch_config h (r\<lparr>digest := x\<rparr>) = fetch_config h r"
    "download_blob_to_file h dk (r\<lparr>digest := x\<rparr>) = download_blob_to_file h dk r"
    "pulled_record dk (r\<lparr>digest := x\<rparr>) = pulled_record dk r"
    by (intro ext; simp only: fetch_config_def download_blob_to_file_def pulled_record_def registry_url_digest
        image_ref.select_convs image_ref.update_convs; simp)+
  then show ?thesis unfolding pull_layers_def by (simp only:)
qed

lemma fetch_manifest_digest:
  "fetch_answer h (r\<lparr>digest := x\<rparr>) g = fetch_answer h r g \<Longrightarrow>
     fetch_manifest fuel h plat (r\<lparr>digest := x\<rparr>) g = fetch_manifest fuel h plat r g"
  by (cases fuel) (simp_all split: prod.splits sum.splits option.splits)

text \<open>
  C30. A reference with a digest is not held to it. When the registry answers the request for the
  pinned manifest as it answers for the reference without the digest, or with any other one, the
  pull does the same and ends the same, whatever the digest says: an answer with another digest
  is accepted and recorded under the digest of what was received and the tag of the reference
  (\<open>latest\<close> when it has none).
\<close>

theorem digest_pin_unchecked:
  assumes "ref_parse im = Inr r" and "digest r = Some pin" and "ref_parse im' = Inr (r\<lparr>digest := other\<rparr>)"
    and "fetch_answer h r (pw_reg w\<lparr>rg_token := None, rg_basic := None\<rparr>) =
      fetch_answer h (r\<lparr>digest := other\<rparr>) (pw_reg w\<lparr>rg_token := None, rg_basic := None\<rparr>)"
  shows "pull_image_with_platform (Suc fuel) h dk im plat w = pull_image_with_platform (Suc fuel) h dk im' plat w \<and>
    (\<forall>body g rec w'. fetch_answer h r (pw_reg w\<lparr>rg_token := None, rg_basic := None\<rparr>) = (Inr body, g) \<and>
       rh_decode_index h body = None \<and>
       pull_image_with_platform (Suc fuel) h dk im plat w = Some (Inr rec, w') \<longrightarrow>
       i_manifest_digest rec = sha_digest h body \<and> i_reference rec = repository r \<and> i_tag rec = ref_tag r)"
proof (intro conjI allI impI; (elim conjE)?)
  show "pull_image_with_platform (Suc fuel) h dk im plat w = pull_image_with_platform (Suc fuel) h dk im' plat w"
    unfolding pull_image_with_platform_def assms(1,3) sum.case
      fetch_manifest_digest [OF assms(4) [symmetric]] pull_layers_digest ..
  fix body g rec w'
  assume a: "fetch_answer h r (pw_reg w\<lparr>rg_token := None, rg_basic := None\<rparr>) = (Inr body, g)"
    "rh_decode_index h body = None" "pull_image_with_platform (Suc fuel) h dk im plat w = Some (Inr rec, w')"
  then obtain m where "read_manifest h body = Inr (m, sha_digest h body, body)" and
    p: "pull_layers h dk r (m, sha_digest h body, body) (w\<lparr>pw_reg := g\<rparr>) = (Inr rec, w')"
    using assms(1)
    by (auto simp: pull_image_with_platform_def read_manifest_def split: option.splits if_splits)
  then obtain c w1 where "store_pulled dk (pulled_record dk r m (sha_digest h body) c) w1 = (Inr rec, w')"
    unfolding pull_layers_def prod.case Let_def reg_then_Inr by blast
  from store_pulled_Inr [OF this]
  show "i_manifest_digest rec = sha_digest h body" "i_reference rec = repository r" "i_tag rec = ref_tag r"
    by (simp_all add: pulled_record_def)
qed

definition plain_reference :: "str option \<Rightarrow> image_ref" where
  "plain_reference d = \<lparr>registry = DEFAULT_REGISTRY, repository = ''library/alpine'', ref_tag = ''latest'', digest = d\<rparr>"

lemma sample_references:
  "ref_parse ''alpine@sha256:good'' = Inr (plain_reference (Some ''sha256:good''))"
  "ref_parse ''alpine'' = Inr (plain_reference None)"
  by code_simp+

lemma sample_answer:
  "fetch_answer sample_registry (plain_reference (Some ''sha256:good''))
     (pw_reg empty_disk\<lparr>rg_token := None, rg_basic := None\<rparr>) =
   (Inr ''M'', \<lparr>rg_server = (), rg_token = None, rg_basic = None\<rparr>)"
  "fetch_answer sample_registry (plain_reference None) (pw_reg empty_disk\<lparr>rg_token := None, rg_basic := None\<rparr>) =
   (Inr ''M'', \<lparr>rg_server = (), rg_token = None, rg_basic = None\<rparr>)"
  by code_simp+

theorem digest_pin_unchecked_witness:
  "\<exists>rec w'. pull_image_with_platform 2 sample_registry sample_disk ''alpine@sha256:good'' None empty_disk = Some (Inr rec, w') \<and>
     i_manifest_digest rec = ''sha256:M''"
proof -
  let ?r = "plain_reference (Some ''sha256:good'')"
  have r: "?r\<lparr>digest := None\<rparr> = plain_reference None" and d: "digest ?r = Some ''sha256:good''"
    by (simp_all add: plain_reference_def)
  have "pull_image_with_platform (Suc 1) sample_registry sample_disk ''alpine@sha256:good'' None empty_disk =
      pull_image_with_platform (Suc 1) sample_registry sample_disk ''alpine'' None empty_disk"
    using digest_pin_unchecked [OF sample_references(1) d, of "''alpine''" None sample_registry empty_disk 1
        sample_disk None]
    unfolding r sample_references(2) sample_answer by simp
  then show ?thesis using sample_pull_result by (simp add: numeral_2_eq_2)
qed

theorem hostile_digest_deletes_witness:
  "\<exists>res w'. download_blob_to_file sample_registry sample_disk
      \<lparr>registry = DEFAULT_REGISTRY, repository = ''library/alpine'', ref_tag = ''latest'', digest = None\<rparr>
      ((m_config small_manifest)\<lparr>d_digest := ''../../backup''\<rparr>) ''/h/layers/../../backup.tar''
      (empty_disk\<lparr>pw_files := [''/h/layers/../../backup.tar'' \<mapsto> ''data'']\<rparr>) = (res, w') \<and>
     pw_files w' ''/h/layers/../../backup.tar'' = None"
proof -
  let ?d = "(m_config small_manifest)\<lparr>d_digest := ''../../backup''\<rparr>"
  have l: "layer_file ''/h'' ?d = ''/h/layers/../../backup.tar''" and n: "\<not> starts_with (d_digest ?d) ''sha256:''"
    by (simp_all add: layer_file_def safe_name_def starts_with_def)
  show ?thesis using hostile_digest_deletes [OF n, of sample_registry sample_disk _ "''/h''"] unfolding l
    by (metis prod.collapse)
qed

definition endless_registry :: "unit registry_host" where
  "endless_registry = sample_registry\<lparr>rh_send := \<lambda>rq s. (Inr \<lparr>rp_status = 200, rp_headers = [], rp_received = ''M'', rp_broken = None\<rparr>, s),
     rh_decode_index := \<lambda>_. Some arm_only\<rparr>"

theorem endless_index_never_returns_witness:
  "fetch_manifest 100 endless_registry None
     \<lparr>registry = DEFAULT_REGISTRY, repository = ''library/alpine'', ref_tag = ''latest'', digest = None\<rparr> (pw_reg empty_disk) = None"
proof (rule endless_index_never_returns [where body = "''M''" and ds = arm_only])
  fix r and v :: "unit registry_world"
  show "\<exists>v'. fetch_answer endless_registry r v = (Inr ''M'', v')"
    by (simp add: fetch_answer_def authenticate_def reg_then_def reg_res_def send_request_def endless_registry_def
        sample_registry_def rp_body_def is_success_def use_basic_def Let_def)
  show "list_ex is_runnable_image_descriptor arm_only" by code_simp
qed (simp add: endless_registry_def)

section \<open>The client as the pull of the other commands\<close>

text \<open>
  The commands that pull an image take the pull as an argument and rely on one law, that it keeps the
  index of images consistent. The client keeps it, whatever the server answers; a fetch that
  does not end leaves the index alone.
\<close>

definition keeps_index :: "('s, 'r, 'a) pull \<Rightarrow> bool" where
  "keeps_index c \<longleftrightarrow>
     (\<forall>w. images_ok (load_unlocked (pw_images w)) \<longrightarrow> images_ok (load_unlocked (pw_images (snd (c w)))))"

lemma keeps_indexI:
  "(\<And>w. images_ok (load_unlocked (pw_images w)) \<Longrightarrow> images_ok (load_unlocked (pw_images (snd (c w))))) \<Longrightarrow>
     keeps_index c"
  by (simp add: keeps_index_def)

lemma keeps_then:
  fixes c :: "('s, 'r, 'a) pull"
  assumes "keeps_index c" and "\<And>a. keeps_index (g a)"
  shows "keeps_index (reg_then c g)"
proof (rule keeps_indexI)
  fix w :: "('s, 'r) pull_world"
  assume w: "images_ok (load_unlocked (pw_images w))"
  obtain r w1 where c: "c w = (r, w1)" by (rule prod.exhaust)
  have "images_ok (load_unlocked (pw_images w1))"
    using assms(1) [unfolded keeps_index_def, rule_format, OF w] by (simp only: c snd_conv)
  then show "images_ok (load_unlocked (pw_images (snd (reg_then c g w))))"
    using c assms(2) [unfolded keeps_index_def] by (cases r) (simp_all add: reg_then_def)
qed

lemma keeps_plain:
  "keeps_index (reg_res r)" "keeps_index (on_registry q)" "keeps_index (write_file dk p x)"
  "keeps_index (unpack_one dk root d)" "keeps_index (fresh_root dk root)" "keeps_index (check_entrypoint dk root cfg)"
  by (auto intro!: keeps_indexI simp: reg_res_def on_registry_def write_file_def unpack_one_def fresh_root_def
      check_entrypoint_def Let_def split: prod.splits option.splits)

lemma keeps_store_blob: "keeps_index (store_blob h dk d dest rp)"
  unfolding store_blob_def
  by (intro keeps_then keeps_plain keeps_indexI)
    (auto simp: drop_file_def reg_then_def write_file_def split: option.splits sum.splits prod.splits if_splits)

lemma keeps_download: "keeps_index (download_blob_to_file h dk r d dest :: ('s, 'r, unit) pull)"
proof (rule keeps_indexI)
  fix w :: "('s, 'r) pull_world"
  assume w: "images_ok (load_unlocked (pw_images w))"
  let ?q = "on_registry (\<lambda>g. send_request h (http_get (registry_url r (''/blobs/'' @ d_digest d)) (auth_headers h g)) g)"
  have "keeps_index (reg_then ?q (\<lambda>rp. if is_success rp then store_blob h dk d dest rp else reg_res (Inl Exec_failed)))"
    by (intro keeps_then keeps_plain) (simp add: keeps_store_blob keeps_plain)
  moreover have "images_ok (load_unlocked (pw_images (drop_file dest w)))" using w by (simp add: drop_file_def)
  ultimately show "images_ok (load_unlocked (pw_images (snd (download_blob_to_file h dk r d dest w))))"
    using w unfolding download_blob_to_file_def keeps_index_def by (simp only: snd_conv simp_thms split: if_splits)
qed

lemma keeps_in_turn: "(\<And>x. keeps_index (f x)) \<Longrightarrow> keeps_index (in_turn f xs)"
proof (induction xs)
  case (Cons x xs)
  then show ?case
    using keeps_then [of "f x" "\<lambda>_. in_turn f xs"] by (auto simp: keeps_index_def)
qed (simp add: keeps_index_def)

lemma keeps_store: "keeps_index (store_pulled dk rec :: ('s, 'r, image_record) pull)"
proof (rule keeps_indexI)
  fix w :: "('s, 'r) pull_world"
  assume w: "images_ok (load_unlocked (pw_images w))"
  obtain r f where a: "image_add (pd_io dk) rec (pw_images w) = (r, f)" by (rule prod.exhaust)
  have "images_ok (load_unlocked f)"
    using w a images.step_keeps_inv [of "pw_images w" "pd_io dk" "Img_add rec"] by simp
  then show "images_ok (load_unlocked (pw_images (snd (store_pulled dk rec w))))"
    using a by (simp add: store_pulled_def)
qed

lemma keeps_pull_layers: "keeps_index (pull_layers h dk r mdb)"
  unfolding pull_layers_def
  by (cases mdb) (simp only: prod.case Let_def, intro keeps_then keeps_plain keeps_in_turn keeps_download keeps_store)

text \<open>As the other commands have it: from the index to the index, for a bound on the manifests fetched.\<close>

definition client_pull ::
  "nat \<Rightarrow> 's registry_host \<Rightarrow> 'r pull_disk \<Rightarrow> ('s, 'r) pull_world \<Rightarrow> str \<Rightarrow> str option \<Rightarrow> image_file \<Rightarrow>
     image_record res \<times> image_file" where
  "client_pull fuel h dk w im plat f =
     (case pull_image_with_platform fuel h dk im plat (w\<lparr>pw_images := f\<rparr>) of
        None \<Rightarrow> (Inl Io_failed, f)
      | Some (r, w') \<Rightarrow> (r, pw_images w'))"

theorem client_pull_keeps_index:
  assumes "images_ok (load_unlocked f)"
  shows "images_ok (load_unlocked (snd (client_pull fuel h dk w im plat f)))"
proof -
  have "images_ok (load_unlocked (pw_images w'))"
    if "pull_image_with_platform fuel h dk im plat (w\<lparr>pw_images := f\<rparr>) = Some (r, w')" for r w'
  proof (cases "ref_parse im")
    case (Inr rf)
    then have "fetch_manifest fuel h plat rf (pw_reg w\<lparr>rg_token := None, rg_basic := None\<rparr>) \<noteq> None"
      using that by (cases "fetch_manifest fuel h plat rf (pw_reg w\<lparr>rg_token := None, rg_basic := None\<rparr>)")
        (simp_all add: pull_image_with_platform_def)
    then obtain a g where m: "fetch_manifest fuel h plat rf (pw_reg w\<lparr>rg_token := None, rg_basic := None\<rparr>) = Some (a, g)"
      by auto
    show ?thesis
    proof (cases a)
      case (Inl e)
      then show ?thesis using that Inr m assms by (auto simp: pull_image_with_platform_def)
    next
      case p: (Inr mdb)
      then have "pull_layers h dk rf mdb (w\<lparr>pw_images := f, pw_reg := g\<rparr>) = (r, w')"
        using that Inr m by (simp add: pull_image_with_platform_def)
      then show ?thesis
        using assms keeps_pull_layers [of h dk rf mdb] unfolding keeps_index_def
        by (metis pull_world.select_convs(4) pull_world.surjective pull_world.update_convs(1,4) snd_conv)
    qed
  qed (use that assms in \<open>auto simp: pull_image_with_platform_def\<close>)
  then show ?thesis using assms by (auto simp: client_pull_def split: option.splits)
qed

end
