(* ===== verification/Container_Diff.thy ===== *)
theory Container_Diff
  imports Prelude "HOL-Library.List_Lexorder" "HOL-Library.Char_ord"
begin

text \<open>
  The comparison of a container's root file system with its image's
  (\<open>src/runtime/diff.rs\<close>): the walk over the container, the walk over the base, and the
  sorted list of changes.

  What a walk meets is a tree of entries, as \<open>read_dir\<close> and \<open>symlink_metadata\<close> give it; a path
  looked up in the other tree is answered by the kernel, which follows links, and is a
  \<open>root_view\<close>. A path is the list of its names below the root.
\<close>

section \<open>Changes\<close>

datatype diff_change_type = Changed | Added | Deleted

fun show_change :: "diff_change_type \<Rightarrow> str" where
  "show_change Changed = ''C''"
| "show_change Added = ''A''"
| "show_change Deleted = ''D''"

record diff_record =
  change_type :: diff_change_type
  diff_path :: str

section \<open>File systems\<close>

datatype tree_kind = Regular_file | Directory | Symbolic_link | Other_file

text \<open>A time that cannot be read counts as the epoch, 0.\<close>

record file_meta =
  fm_kind :: tree_kind
  fm_len :: nat
  fm_modified :: int

text \<open>
  An entry has a name, its own metadata, or the error \<open>symlink_metadata\<close> gives, and what it is:
  a directory with its entries, a directory that cannot be read, or anything else, whose content
  is there when \<open>is_file\<close> holds (links followed), as far as it can be read.
\<close>

datatype entry =
    Leaf str "file_meta res" "str option option"
  | Dir str "file_meta res" "entry list"
  | Closed_dir str "file_meta res"

fun e_name :: "entry \<Rightarrow> str" where
  "e_name (Leaf n _ _) = n"
| "e_name (Dir n _ _) = n"
| "e_name (Closed_dir n _) = n"

fun e_meta :: "entry \<Rightarrow> file_meta res" where
  "e_meta (Leaf _ m _) = m"
| "e_meta (Dir _ m _) = m"
| "e_meta (Closed_dir _ m) = m"

fun e_content :: "entry \<Rightarrow> str option option" where
  "e_content (Leaf _ _ c) = c"
| "e_content _ = None"

record root_view =
  rv_exists :: "str list \<Rightarrow> bool"
  rv_meta :: "str list \<Rightarrow> file_meta res"
  rv_content :: "str list \<Rightarrow> str option option"

definition diff_text :: "str list \<Rightarrow> str" where
  "diff_text p = CHR ''/'' # join ''/'' p"

section \<open>The walk over the container\<close>

definition mount_point_name :: "str \<Rightarrow> bool" where
  "mount_point_name n \<longleftrightarrow> n = ''proc'' \<or> n = ''sys'' \<or> n = ''dev''"

definition scaffolding_name :: "str \<Rightarrow> bool" where
  "scaffolding_name n \<longleftrightarrow>
     n = ''libboxr_perm.so'' \<or> n = ''libboxr_perm_x86_64.so'' \<or> n = ''boxr-busybox'' \<or>
     n = ''boxr-init.sh'' \<or> n = ''boxr-run.sh'' \<or> n = ''boxr-exitcode'' \<or> n = ''logs.txt'' \<or>
     starts_with n ''boxr-exec-''"

definition differs :: "file_meta \<Rightarrow> file_meta \<Rightarrow> str option option \<Rightarrow> str option option \<Rightarrow> bool" where
  "differs m b c d \<longleftrightarrow>
     fm_kind m \<noteq> fm_kind b \<or> fm_len m \<noteq> fm_len b \<or> fm_modified m \<noteq> fm_modified b \<or>
     (case (c, d) of (Some (Some s), Some (Some t)) \<Rightarrow> s \<noteq> t | _ \<Rightarrow> False)"

text \<open>The records found so far, and the paths of the container that were seen.\<close>

type_synonym diff_state = "diff_record list \<times> str list list"

definition record_diff :: "diff_change_type \<Rightarrow> str \<Rightarrow> diff_record list \<Rightarrow> diff_record list" where
  "record_diff t s ds = ds @ [\<lparr>change_type = t, diff_path = s\<rparr>]"

definition compare_entry :: "root_view \<Rightarrow> str list \<Rightarrow> entry \<Rightarrow> diff_state \<Rightarrow> diff_state res" where
  "compare_entry base p e st =
     (case st of (ds, seen) \<Rightarrow>
        if \<not> rv_exists base p then Inr (record_diff Added (diff_text p) ds, p # seen)
        else bind_res (e_meta e) (\<lambda>m. bind_res (rv_meta base p) (\<lambda>b.
          Inr (if differs m b (e_content e) (rv_content base p) then record_diff Changed (diff_text p) ds else ds,
               p # seen))))"

fun walk_and_compare :: "root_view \<Rightarrow> str list \<Rightarrow> entry list \<Rightarrow> diff_state \<Rightarrow> diff_state res" where
  "walk_and_compare base dir [] st = Inr st"
| "walk_and_compare base dir (e # es) st =
     (if dir = [] \<and> (mount_point_name (e_name e) \<or> scaffolding_name (e_name e)) then walk_and_compare base dir es st
      else case strip_prefix ''.wh.'' (e_name e) of
        Some n \<Rightarrow> walk_and_compare base dir es (record_diff Deleted (diff_text (dir @ [n])) (fst st), snd st)
      | None \<Rightarrow>
          bind_res (compare_entry base (dir @ [e_name e]) e st) (\<lambda>st.
          case e of
            Dir n m inner \<Rightarrow> bind_res (walk_and_compare base (dir @ [n]) inner st) (walk_and_compare base dir es)
          | Closed_dir n m \<Rightarrow> Inl Io_failed
          | Leaf n m c \<Rightarrow> walk_and_compare base dir es st))"

section \<open>The walk over the base\<close>

definition check_deleted_entry :: "(str list \<Rightarrow> bool) \<Rightarrow> str list list \<Rightarrow> str list \<Rightarrow> diff_record list \<Rightarrow> diff_record list" where
  "check_deleted_entry exists seen p ds =
     (if p \<notin> set seen \<and> \<not> exists p \<and> \<not> list_ex (\<lambda>d. diff_path d = diff_text p) ds
      then record_diff Deleted (diff_text p) ds else ds)"

fun check_deleted_from_base ::
  "(str list \<Rightarrow> bool) \<Rightarrow> str list list \<Rightarrow> str list \<Rightarrow> entry list \<Rightarrow> diff_record list \<Rightarrow> diff_record list res" where
  "check_deleted_from_base exists seen dir [] ds = Inr ds"
| "check_deleted_from_base exists seen dir (e # es) ds =
     (if dir = [] \<and> mount_point_name (e_name e) then check_deleted_from_base exists seen dir es ds
      else let ds = check_deleted_entry exists seen (dir @ [e_name e]) ds
      in case e of
           Dir n m inner \<Rightarrow>
             bind_res (check_deleted_from_base exists seen (dir @ [n]) inner ds) (check_deleted_from_base exists seen dir es)
         | Closed_dir n m \<Rightarrow> Inl Io_failed
         | Leaf n m c \<Rightarrow> check_deleted_from_base exists seen dir es ds)"

section \<open>The comparison\<close>

text \<open>
  A root file system that is there is its entries and its view, or a directory that cannot be
  read; nothing exists below a base that is missing.
\<close>

record root_fs =
  root_entries :: "entry list res"
  root_view :: root_view

definition no_view :: root_view where
  "no_view = \<lparr>rv_exists = \<lambda>_. False, rv_meta = \<lambda>_. Inl Io_failed, rv_content = \<lambda>_. None\<rparr>"

definition compare_roots :: "root_fs option \<Rightarrow> root_fs option \<Rightarrow> diff_record list res" where
  "compare_roots base container =
     (case container of
        None \<Rightarrow> Inl (Not_found ''rootfs'')
      | Some c \<Rightarrow>
          bind_res (root_entries c) (\<lambda>es.
          bind_res (walk_and_compare (case base of Some b \<Rightarrow> root_view b | None \<Rightarrow> no_view) [] es ([], [])) (\<lambda>(ds, seen).
          bind_res (case base of
              Some b \<Rightarrow> bind_res (root_entries b) (\<lambda>bs. check_deleted_from_base (rv_exists (root_view c)) seen [] bs ds)
            | None \<Rightarrow> Inr ds) (\<lambda>ds.
          Inr (sort_key diff_path ds)))))"

section \<open>What the comparison reports\<close>

text \<open>The paths a walk visits, with their entries, and the targets of the whiteouts it meets.\<close>

fun visited :: "(str list \<Rightarrow> str \<Rightarrow> bool) \<Rightarrow> str list \<Rightarrow> entry list \<Rightarrow> (str list \<times> entry) list" where
  "visited skip dir [] = []"
| "visited skip dir (e # es) =
     (if skip dir (e_name e) then []
      else (dir @ [e_name e], e) # (case e of Dir n m inner \<Rightarrow> visited skip (dir @ [n]) inner | _ \<Rightarrow> [])) @
     visited skip dir es"

definition base_skips :: "str list \<Rightarrow> str \<Rightarrow> bool" where
  "base_skips dir n \<longleftrightarrow> dir = [] \<and> mount_point_name n"

definition hidden_entry :: "str list \<Rightarrow> str \<Rightarrow> bool" where
  "hidden_entry dir n \<longleftrightarrow> dir = [] \<and> (mount_point_name n \<or> scaffolding_name n)"

definition container_skips :: "str list \<Rightarrow> str \<Rightarrow> bool" where
  "container_skips dir n \<longleftrightarrow> hidden_entry dir n \<or> strip_prefix ''.wh.'' n \<noteq> None"

fun whiteouts :: "str list \<Rightarrow> entry list \<Rightarrow> str list list" where
  "whiteouts dir [] = []"
| "whiteouts dir (e # es) =
     (if hidden_entry dir (e_name e) then []
      else case strip_prefix ''.wh.'' (e_name e) of
        Some n \<Rightarrow> [dir @ [n]]
      | None \<Rightarrow> (case e of Dir n m inner \<Rightarrow> whiteouts (dir @ [n]) inner | _ \<Rightarrow> [])) @
     whiteouts dir es"

definition deleted_at :: "str list \<Rightarrow> diff_record" where
  "deleted_at p = \<lparr>change_type = Deleted, diff_path = diff_text p\<rparr>"

definition changes_at :: "root_view \<Rightarrow> str list \<times> entry \<Rightarrow> diff_record list" where
  "changes_at base x =
     (case x of (p, e) \<Rightarrow>
        if \<not> rv_exists base p then [\<lparr>change_type = Added, diff_path = diff_text p\<rparr>]
        else case (e_meta e, rv_meta base p) of
            (Inr m, Inr b) \<Rightarrow>
              if differs m b (e_content e) (rv_content base p)
              then [\<lparr>change_type = Changed, diff_path = diff_text p\<rparr>] else []
          | _ \<Rightarrow> [])"

lemma compare_entry_Inr:
  "compare_entry base p e (ds, seen) = Inr st \<Longrightarrow> st = (ds @ changes_at base (p, e), p # seen)"
  by (auto simp: compare_entry_def changes_at_def bind_res_Inr_iff record_diff_def split: if_splits)

lemmas walk_Cons = walk_and_compare.simps(2) [folded hidden_entry_def]

lemma walk_reports:
  "walk_and_compare base dir es st = Inr (ds', seen') \<Longrightarrow>
     set ds' = set (fst st) \<union> (\<Union>x\<in>set (visited container_skips dir es). set (changes_at base x)) \<union>
       deleted_at ` set (whiteouts dir es) \<and>
     set seen' = set (snd st) \<union> fst ` set (visited container_skips dir es)"
proof (induction base dir es st arbitrary: ds' seen' rule: walk_and_compare.induct)
  case (2 base dir e es st)
  note IH = 2(1-5) [folded hidden_entry_def] and run = 2(6) [unfolded walk_Cons]
  obtain ds seen where st: "st = (ds, seen)" by (cases st)
  consider (hidden) "hidden_entry dir (e_name e)"
    | (whiteout) n where "\<not> hidden_entry dir (e_name e)" "strip_prefix ''.wh.'' (e_name e) = Some n"
    | (shown) "\<not> hidden_entry dir (e_name e)" "strip_prefix ''.wh.'' (e_name e) = None"
    by fastforce
  then show ?case
  proof cases
    case hidden
    then have "container_skips dir (e_name e)" by (simp add: container_skips_def)
    with hidden show ?thesis using IH(1) run by simp
  next
    case whiteout
    then have "container_skips dir (e_name e)" by (simp add: container_skips_def)
    with whiteout show ?thesis using IH(5) run by (auto simp: record_diff_def deleted_at_def st)
  next
    case shown
    then have s: "\<not> container_skips dir (e_name e)" by (simp add: container_skips_def)
    let ?st = "(ds @ changes_at base (dir @ [e_name e], e), (dir @ [e_name e]) # seen)"
    from run shown have c: "compare_entry base (dir @ [e_name e]) e st = Inr ?st"
      by (auto simp: bind_res_Inr_iff st dest: compare_entry_Inr)
    show ?thesis
    proof (cases e)
      case (Dir n m inner)
      from run shown c Dir obtain ds1 seen1
        where w: "walk_and_compare base (dir @ [n]) inner ?st = Inr (ds1, seen1)"
          and r: "walk_and_compare base dir es (ds1, seen1) = Inr (ds', seen')"
        by (auto simp: bind_res_Inr_iff)
      show ?thesis
        using IH(3) [OF shown Dir w] IH(4) [OF shown Dir r] shown s Dir by (auto simp: st)
    next
      case (Leaf n m x)
      then show ?thesis using IH(2) [OF shown Leaf, of ?st] run shown s c by (auto simp: st)
    next
      case (Closed_dir n m)
      then show ?thesis using run shown c by simp
    qed
  qed
qed simp

text \<open>Names hold no \<open>/\<close>, so a path is known from its text.\<close>

definition slash_free :: "str list \<Rightarrow> bool" where
  "slash_free p \<longleftrightarrow> p \<noteq> [] \<and> (\<forall>n\<in>set p. CHR ''/'' \<notin> set n)"

fun plain_names :: "entry list \<Rightarrow> bool" where
  "plain_names [] \<longleftrightarrow> True"
| "plain_names (e # es) \<longleftrightarrow>
     CHR ''/'' \<notin> set (e_name e) \<and> (case e of Dir n m inner \<Rightarrow> plain_names inner | _ \<Rightarrow> True) \<and> plain_names es"

lemma split_on_free: "c \<notin> set s \<Longrightarrow> split_on c s = [s]"
  by (induction s) auto

lemma split_on_join: "xs \<noteq> [] \<Longrightarrow> \<forall>x\<in>set xs. c \<notin> set x \<Longrightarrow> split_on c (join [c] xs) = xs"
  by (induction "[c]" xs rule: join.induct) (auto simp: split_on_free split_on_append)

lemma diff_text_inject: "slash_free p \<Longrightarrow> slash_free q \<Longrightarrow> diff_text p = diff_text q \<longleftrightarrow> p = q"
  unfolding diff_text_def slash_free_def by (metis list.inject split_on_join)

lemma visited_plain:
  "plain_names es \<Longrightarrow> \<forall>n\<in>set dir. CHR ''/'' \<notin> set n \<Longrightarrow> (p, e) \<in> set (visited skip dir es) \<Longrightarrow> slash_free p"
proof (induction skip dir es rule: visited.induct)
  case (2 skip dir e' es)
  show ?case
  proof (cases e')
    case (Dir n m inner)
    then show ?thesis using 2 by (auto simp: slash_free_def split: if_splits)
  qed (use 2 in \<open>auto simp: slash_free_def split: if_splits\<close>)
qed simp

text \<open>Among the records found, one whose text is that of a path is a deletion, or its path was seen.\<close>

definition accounted :: "str list list \<Rightarrow> diff_record list \<Rightarrow> bool" where
  "accounted seen ds \<longleftrightarrow>
     (\<forall>d\<in>set ds. \<forall>p. slash_free p \<and> diff_path d = diff_text p \<longrightarrow> d = deleted_at p \<or> p \<in> set seen)"

lemma deleted_entry_set:
  assumes "accounted seen ds" and "slash_free p"
  shows "set (check_deleted_entry ex seen p ds) = set ds \<union> (if p \<notin> set seen \<and> \<not> ex p then {deleted_at p} else {}) \<and>
    accounted seen (check_deleted_entry ex seen p ds)"
proof -
  have "deleted_at p \<in> set ds" if "list_ex (\<lambda>d. diff_path d = diff_text p) ds" "p \<notin> set seen"
    using that assms by (auto simp: accounted_def list_ex_iff)
  then have s: "set (check_deleted_entry ex seen p ds) = set ds \<union> (if p \<notin> set seen \<and> \<not> ex p then {deleted_at p} else {})"
    by (auto simp: check_deleted_entry_def record_diff_def deleted_at_def)
  have "diff_path (deleted_at p) = diff_text q \<Longrightarrow> slash_free q \<Longrightarrow> deleted_at p = deleted_at q" for q
    using diff_text_inject [OF assms(2)] by (simp add: deleted_at_def)
  with s assms(1) show ?thesis by (auto simp: accounted_def split: if_splits)
qed

lemmas check_deleted_Cons = check_deleted_from_base.simps(2) [folded base_skips_def]

lemma base_walk_reports:
  "check_deleted_from_base ex seen dir es ds = Inr ds' \<Longrightarrow> accounted seen ds \<Longrightarrow> plain_names es \<Longrightarrow>
     \<forall>n\<in>set dir. CHR ''/'' \<notin> set n \<Longrightarrow>
     set ds' = set ds \<union> {deleted_at p | p. p \<in> fst ` set (visited base_skips dir es) \<and> p \<notin> set seen \<and> \<not> ex p} \<and>
     accounted seen ds'"
proof (induction ex seen dir es ds arbitrary: ds' rule: check_deleted_from_base.induct)
  case (2 ex seen dir e es ds)
  note IH = 2(1-4) [folded base_skips_def] and run = 2(5) [unfolded check_deleted_Cons]
  show ?case
  proof (cases "base_skips dir (e_name e)")
    case True
    then show ?thesis using IH(1) run 2(6-8) by simp
  next
    case False
    let ?p = "dir @ [e_name e]"
    let ?ds = "check_deleted_entry ex seen ?p ds"
    have p: "slash_free ?p" using 2(7,8) by (auto simp: slash_free_def)
    note d = deleted_entry_set [OF 2(6) p, of ex]
    show ?thesis
    proof (cases e)
      case (Dir n m inner)
      from run False Dir obtain ds1 where a: "check_deleted_from_base ex seen (dir @ [n]) inner ?ds = Inr ds1"
        and b: "check_deleted_from_base ex seen dir es ds1 = Inr ds'"
        by (auto simp: bind_res_Inr_iff)
      have inner: "plain_names inner" "plain_names es" "\<forall>n\<in>set (dir @ [n]). CHR ''/'' \<notin> set n"
        using 2(7,8) Dir by auto
      note i = IH(3) [OF False refl Dir a conjunct2 [OF d] inner(1,3)]
      note j = IH(4) [OF False refl Dir b conjunct2 [OF i] inner(2) 2(8)]
      show ?thesis using d i j False Dir by auto
    next
      case (Leaf n m c)
      then show ?thesis using IH(2) [OF False refl Leaf] run False d 2(7,8) by auto
    next
      case (Closed_dir n m)
      then show ?thesis using run False by simp
    qed
  qed
qed simp

text \<open>
  C33. A comparison reports, sorted by path, exactly: every path of the container that the base
  lacks as added, every path of both whose kind, size, time or content differs as changed, the
  target of every whiteout as deleted, and every path of the base that the container lacks as
  deleted. The mount points and the runtime's own files at the top are left out.
\<close>

theorem diff_exact:
  assumes "compare_roots (Some b) (Some c) = Inr ds" and "root_entries b = Inr bs" and "root_entries c = Inr cs"
    and "plain_names bs" and "plain_names cs"
  shows "sorted (map diff_path ds) \<and>
    (\<forall>r. r \<in> set ds \<longleftrightarrow>
       (\<exists>x\<in>set (visited container_skips [] cs). r \<in> set (changes_at (root_view b) x)) \<or>
       (\<exists>p\<in>set (whiteouts [] cs). r = deleted_at p) \<or>
       (\<exists>p\<in>fst ` set (visited base_skips [] bs).
          \<not> rv_exists (root_view c) p \<and> p \<notin> fst ` set (visited container_skips [] cs) \<and> r = deleted_at p))"
proof -
  obtain ds0 seen ds1 where w: "walk_and_compare (root_view b) [] cs ([], []) = Inr (ds0, seen)"
    and d: "check_deleted_from_base (rv_exists (root_view c)) seen [] bs ds0 = Inr ds1" and s: "ds = sort_key diff_path ds1"
    using assms(1-3) by (auto simp: compare_roots_def bind_res_Inr_iff)
  note walk = walk_reports [OF w]
  have "accounted seen ds0"
    unfolding accounted_def
  proof (intro ballI allI impI)
    fix r p
    assume r: "r \<in> set ds0" and p: "slash_free p \<and> diff_path r = diff_text p"
    show "r = deleted_at p \<or> p \<in> set seen"
    proof (cases "r \<in> deleted_at ` set (whiteouts [] cs)")
      case True
      with p show ?thesis by (auto simp: deleted_at_def)
    next
      case False
      with r walk obtain q e where q: "(q, e) \<in> set (visited container_skips [] cs)" "r \<in> set (changes_at (root_view b) (q, e))"
        by auto
      then have "diff_path r = diff_text q" by (auto simp: changes_at_def split: if_splits sum.splits)
      with p diff_text_inject [of q p] visited_plain [OF assms(5) _ q(1)] have "p = q" by simp
      with q(1) walk show ?thesis by force
    qed
  qed
  note base = base_walk_reports [OF d this assms(4)]
  show ?thesis using walk base by (auto simp: s)
qed

definition sample_meta :: "tree_kind \<Rightarrow> nat \<Rightarrow> file_meta res" where
  "sample_meta k n = Inr \<lparr>fm_kind = k, fm_len = n, fm_modified = 7\<rparr>"

fun leaf_text :: "str \<Rightarrow> str \<Rightarrow> entry" where
  "leaf_text n t = Leaf n (sample_meta Regular_file (length t)) (Some (Some t))"

definition view_of :: "(str list \<times> entry) list \<Rightarrow> root_view" where
  "view_of xs =
     \<lparr>rv_exists = \<lambda>p. map_of xs p \<noteq> None,
      rv_meta = \<lambda>p. (case map_of xs p of Some e \<Rightarrow> e_meta e | None \<Rightarrow> Inl Io_failed),
      rv_content = \<lambda>p. (case map_of xs p of Some e \<Rightarrow> e_content e | None \<Rightarrow> None)\<rparr>"

definition sample_root :: "entry list \<Rightarrow> root_fs" where
  "sample_root es = \<lparr>root_entries = Inr es, root_view = view_of (visited (\<lambda>_ _. False) [] es)\<rparr>"

definition base_tree :: "entry list" where
  "base_tree = [Dir ''etc'' (sample_meta Directory 0) [leaf_text ''a'' ''x'', leaf_text ''b'' ''x''], leaf_text ''old'' ''y'']"

definition container_tree :: "entry list" where
  "container_tree = [leaf_text ''logs.txt'' ''l'', leaf_text ''new'' ''n'',
     Dir ''etc'' (sample_meta Directory 0) [leaf_text ''a'' ''z'', leaf_text ''.wh.b'' []]]"

lemma sample_compared:
  "compare_roots (Some (sample_root base_tree)) (Some (sample_root container_tree)) =
     Inr [\<lparr>change_type = Changed, diff_path = ''/etc/a''\<rparr>, \<lparr>change_type = Deleted, diff_path = ''/etc/b''\<rparr>,
          \<lparr>change_type = Added, diff_path = ''/new''\<rparr>, \<lparr>change_type = Deleted, diff_path = ''/old''\<rparr>]"
  by code_simp

theorem diff_exact_witness:
  "\<exists>ds. compare_roots (Some (sample_root base_tree)) (Some (sample_root container_tree)) = Inr ds \<and>
     sorted (map diff_path ds) \<and> deleted_at [''etc'', ''b''] \<in> set ds"
proof -
  have n: "plain_names base_tree" "plain_names container_tree" and w: "[''etc'', ''b''] \<in> set (whiteouts [] container_tree)"
    by code_simp+
  from diff_exact [OF sample_compared _ _ n] w show ?thesis
    unfolding sample_root_def using sample_compared [unfolded sample_root_def] by (metis root_fs.select_convs(1))
qed

end
