(* ===== verification/System_Commands.thy ===== *)
theory System_Commands
  imports Run_Command Container_Diff
begin

text \<open>
  Disk usage and the pruning of everything at once (\<open>src/system/mod.rs\<close>), over the indexes of
  all stores. The prunings of networks and images are shared with the daemon
  (\<open>src/daemon/prune.rs\<close>).
\<close>

record stores =
  st_containers :: container_file
  st_images :: image_file
  st_volumes :: volume_file
  st_networks :: network_file
  st_pods :: pod_file

section \<open>Disk usage\<close>

text \<open>Entries whose type or metadata cannot be read and directories that cannot be listed count nothing.\<close>

fun dir_size :: "entry list \<Rightarrow> 64 word" where
  "dir_size [] = 0"
| "dir_size (e # es) =
     (case e of
        Dir n m inner \<Rightarrow> dir_size inner
      | Closed_dir n m \<Rightarrow> 0
      | Leaf n m c \<Rightarrow> (case m of
          Inr a \<Rightarrow> if fm_kind a = Regular_file then word_of_nat (fm_len a) else 0 | Inl _ \<Rightarrow> 0)) + dir_size es"

record disk_usage_row =
  du_type :: str
  du_total :: nat
  du_active :: nat
  du_size :: "64 word"
  du_reclaimable :: "64 word"

text \<open>An image counts as used when a container names it by tag, by reference or by id, as texts.\<close>

definition image_named :: "container list \<Rightarrow> image_record \<Rightarrow> bool" where
  "image_named cs i \<longleftrightarrow>
     (let used = c_image ` set cs
      in i_reference i @ '':'' @ i_tag i \<in> used \<or> i_reference i \<in> used \<or> i_id i \<in> used)"

text \<open>\<open>size_bytes as u64\<close> and the sums wrap.\<close>

definition bytes_of_all :: "('a \<Rightarrow> 64 word) \<Rightarrow> 'a list \<Rightarrow> 64 word" where
  "bytes_of_all measure_of xs = sum_list (map measure_of xs)"

definition image_size :: "image_record \<Rightarrow> 64 word" where
  "image_size i = word_of_int (i_size_bytes i)"

definition df_with_readers ::
  "(str \<Rightarrow> 64 word) \<Rightarrow> 64 word list \<Rightarrow> image_record list \<Rightarrow> container list \<Rightarrow> volume list \<Rightarrow> disk_usage_row list" where
  "df_with_readers dir_bytes cache is cs vs =
     (let bundle = (\<lambda>c. dir_bytes (c_bundle_path c)); idle = (\<lambda>c. c_status c \<noteq> Running) in
      [\<lparr>du_type = ''Images'', du_total = length is, du_active = length (filter (image_named cs) is),
        du_size = bytes_of_all image_size is,
        du_reclaimable = bytes_of_all image_size (filter (\<lambda>i. \<not> image_named cs i) is)\<rparr>,
       \<lparr>du_type = ''Containers'', du_total = length cs, du_active = length (filter (\<lambda>c. c_status c = Running) cs),
        du_size = bytes_of_all bundle cs, du_reclaimable = bytes_of_all bundle (filter idle cs)\<rparr>,
       \<lparr>du_type = ''Local Volumes'', du_total = length vs, du_active = length vs,
        du_size = bytes_of_all (\<lambda>v. dir_bytes (v_mountpoint v)) vs, du_reclaimable = 0\<rparr>,
       \<lparr>du_type = ''Build Cache'', du_total = length cache, du_active = 0,
        du_size = sum_list cache, du_reclaimable = sum_list cache\<rparr>])"

section \<open>Pruning\<close>

definition dangling_image :: "image_record \<Rightarrow> bool" where
  "dangling_image i \<longleftrightarrow> i_tag i = ''<none>'' \<or> i_reference i = [] \<or> i_reference i = ''<none>''"

definition images_to_prune :: "bool \<Rightarrow> container list \<Rightarrow> image_record list \<Rightarrow> image_record list" where
  "images_to_prune all_images cs is =
     filter (\<lambda>i. \<not> image_named cs i \<and> (all_images \<or> dangling_image i)) is"

text \<open>The names go to the answer whether or not the removal succeeded.\<close>

fun prune_networks :: "io \<Rightarrow> network list \<Rightarrow> network_file \<Rightarrow> str list \<times> network_file" where
  "prune_networks io [] f = ([], f)"
| "prune_networks io (n # ns) f =
     (if n_name n \<noteq> DEFAULT_NETWORK \<and> n_containers n = []
      then case prune_networks io ns (snd (network_remove io (n_name n) False f)) of (names, f') \<Rightarrow> (n_name n # names, f')
      else prune_networks io ns f)"

record prune_host =
  ph_io :: io
  ph_bundle :: bundle_host
  ph_vol :: vol_host
  ph_exists :: "path \<Rightarrow> bool"
  ph_home :: path
  ph_size :: "str \<Rightarrow> 64 word"
  ph_cache :: "nat res"

definition prune_volumes :: "prune_host \<Rightarrow> stores \<Rightarrow> str list res \<times> stores" where
  "prune_volumes h w =
     (case volume_prune (ph_io h) (ph_vol h) (container_list (ph_io h) (st_containers w))
             (list_locked (ph_io h) (st_volumes w)) (st_volumes w) of
        (r, f) \<Rightarrow> (r, w\<lparr>st_volumes := f\<rparr>))"

text \<open>
  The steps in order; a failure of the build cache ends the command before networks and
  volumes, a failure of the volumes before the sum is reported. The sum counts what was meant
  to go, not what went.
\<close>

definition system_prune :: "prune_host \<Rightarrow> bool \<Rightarrow> bool \<Rightarrow> stores \<Rightarrow> (64 word res \<times> stores) \<times> effect list" where
  "system_prune h all_images volumes w =
     (let io = ph_io h;
          cs = container_list io (st_containers w);
          (ids, es, cf) = prune_each io (ph_bundle h) cs (st_containers w);
          is = images_to_prune all_images (container_list io cf) (image_list io (st_images w));
          (dirs, imf) = remove_each io (ph_exists h) (ph_home h) is (st_images w);
          bytes = bytes_of_all (\<lambda>c. ph_size h (c_bundle_path c)) (filter (\<lambda>c. c_status c \<noteq> Running) cs) +
                 bytes_of_all image_size is;
          w = w\<lparr>st_containers := cf, st_images := imf\<rparr>
      in case ph_cache h of
           Inl e \<Rightarrow> ((Inl e, w), es)
         | Inr n \<Rightarrow>
             let (names, nf) = prune_networks io (network_list io (st_networks w)) (st_networks w);
                 w = w\<lparr>st_networks := nf\<rparr>
             in if volumes
                then (case prune_volumes h w of (Inl e, w') \<Rightarrow> ((Inl e, w'), es) | (Inr _, w') \<Rightarrow> ((Inr bytes, w'), es))
                else ((Inr bytes, w), es))"

section \<open>What pruning leaves\<close>

lemma network_remove_spares:
  "n \<in> set (load_unlocked f) \<Longrightarrow> n_containers n \<noteq> [] \<Longrightarrow> n \<in> set (load_unlocked (snd (network_remove io q False f)))"
proof (cases "network_remove io q False f")
  case (Pair r f')
  assume n: "n \<in> set (load_unlocked f)" "n_containers n \<noteq> []"
  show ?thesis
  proof (cases r)
    case (Inl e)
    with n Pair show ?thesis
      by (auto simp: network_remove_def Let_def with_index_lock_def split: if_splits option.splits)
  next
    case (Inr m)
    then obtain i where "i < length (load_unlocked f)" "n_containers (load_unlocked f ! i) = []"
        and "f' = Records (remove_at i (load_unlocked f))"
      using Pair by (auto simp: network_remove_def Let_def split: if_splits option.splits simp del: position_None_iff
          dest: position_SomeD)
    moreover from this(1) obtain ys zs where "load_unlocked f = ys @ load_unlocked f ! i # zs"
        and "remove_at i (load_unlocked f) = ys @ zs" by (rule remove_at_split)
    moreover have "n \<in> set ys \<or> n = m' \<or> n \<in> set zs" if "load_unlocked f = ys @ m' # zs" for m'
      using n(1) that by auto
    ultimately show ?thesis using n(2) Pair by (metis Un_iff load_unlocked_simps(3) set_append snd_conv)
  qed
qed

lemma prune_networks_spares:
  "n \<in> set (load_unlocked f) \<Longrightarrow> n_containers n \<noteq> [] \<Longrightarrow> n \<in> set (load_unlocked (snd (prune_networks io ns f)))"
  by (induction io ns f rule: prune_networks.induct) (auto simp: network_remove_spares split: prod.splits)

text \<open>
  Each container that does not run is removed by its id. When a running container is named like
  that id and comes first, it is the one that is removed.
\<close>

lemma prune_removes_namesake:
  "let cs = [(sample_container ''aa11'' ''bb22'')\<lparr>c_status := Running\<rparr>,
             (sample_container ''bb22'' ''db'')\<lparr>c_status := Exited 0\<rparr>]
   in containers_ok cs \<and>
      map c_id (load_unlocked (snd (snd (prune_each io_good idle_host cs (Records cs))))) = [''bb22'']"
  by code_simp

text \<open>
  C34. On an index whose ids are distinct, of one length, not empty and without blanks around them,
  and where no container is named like an id of the index, pruning everything keeps the running
  containers and the networks that containers are attached to, and nothing else of the container
  index: paused and created containers go as well. The condition on names is needed, see the
  lemma before.
\<close>

theorem system_prune_spares:
  assumes "ph_io h = io_good" and "reapable (st_containers w)" and "proper_ids (load_unlocked (st_containers w))"
    and "system_prune h all_images volumes w = ((r, w'), es)"
  shows "load_unlocked (st_containers w') = filter (\<lambda>c. c_status c = Running) (load_unlocked (st_containers w)) \<and>
    (\<forall>n\<in>set (load_unlocked (st_networks w)). n_containers n \<noteq> [] \<longrightarrow> n \<in> set (load_unlocked (st_networks w')))"
proof -
  let ?cs = "load_unlocked (st_containers w)"
  obtain ids es1 cf where p: "prune_each io_good (ph_bundle h) ?cs (st_containers w) = (ids, es1, cf)"
    by (cases "prune_each io_good (ph_bundle h) ?cs (st_containers w)")
  have d: "distinct (map c_id ?cs)" using assms(2) by (simp add: reapable_def containers_ok_def)
  have "load_unlocked cf = filter (\<lambda>d. c_id d \<notin> c_id ` {c \<in> set ?cs. c_status c \<noteq> Running}) ?cs"
    using prune_each_all [OF assms(2,3) subset_refl d, of "ph_bundle h"] p by simp
  also have "\<dots> = filter (\<lambda>c. c_status c = Running) ?cs"
    using d by (intro filter_cong) (auto simp: distinct_map dest: inj_onD)
  finally have c: "load_unlocked cf = filter (\<lambda>c. c_status c = Running) ?cs" .
  have l: "container_list io_good (st_containers w) = ?cs" by (simp add: container_list_def list_locked_def)
  have "st_containers w' = cf \<and> (st_networks w' = st_networks w \<or>
      st_networks w' = snd (prune_networks io_good (network_list io_good (st_networks w)) (st_networks w)))"
    using assms(4) unfolding system_prune_def assms(1) l p Let_def prod.case
    by (auto simp: prune_volumes_def split: prod.splits sum.splits if_splits)
  with c show ?thesis using prune_networks_spares by auto
qed

definition prune_sample :: prune_host where
  "prune_sample = \<lparr>ph_io = io_good, ph_bundle = idle_host, ph_vol = sample_host, ph_exists = \<lambda>_. False,
     ph_home = [RootDir], ph_size = \<lambda>_. 1, ph_cache = Inr 0\<rparr>"

definition used_network :: network where
  "used_network = (default_network 0)\<lparr>n_id := ''n2'', n_name := ''app'',
     n_containers := [(''c1'', new_endpoint ''c1'' ''web'' (Ipv4 10 0 0 2))]\<rparr>"

definition sample_stores :: stores where
  "sample_stores =
     \<lparr>st_containers = Records [(sample_container ''c1'' ''web'')\<lparr>c_status := Running\<rparr>, (sample_container ''c2'' ''db'')\<lparr>c_status := Paused\<rparr>],
      st_images = Missing, st_volumes = Missing, st_networks = Records [used_network], st_pods = Missing\<rparr>"

theorem system_prune_spares_witness:
  "\<exists>r w' es. system_prune prune_sample True False sample_stores = ((r, w'), es) \<and>
     load_unlocked (st_containers w') = [(sample_container ''c1'' ''web'')\<lparr>c_status := Running\<rparr>] \<and>
     used_network \<in> set (load_unlocked (st_networks w'))"
proof -
  obtain r w' es where p: "system_prune prune_sample True False sample_stores = ((r, w'), es)"
    by (metis prod.exhaust)
  have "ph_io prune_sample = io_good" "reapable (st_containers sample_stores)" "proper_ids (load_unlocked (st_containers sample_stores))"
    and "used_network \<in> set (load_unlocked (st_networks sample_stores))" "n_containers used_network \<noteq> []"
    by (simp_all add: prune_sample_def sample_stores_def reapable_def containers_ok_def ids_apart_def proper_ids_def
        sample_container_def used_network_def trim_def trim_start_by_def trim_end_by_def char_class_defs)
  with system_prune_spares [OF _ _ _ p] p show ?thesis by (auto simp: sample_stores_def)
qed

end
