(* ===== verification/Daemon_Api.thy ===== *)
theory Daemon_Api
  imports System_Commands "HOL-Library.Signed_Division"
begin

text \<open>
  The HTTP daemon (\<open>src/daemon/\<close>): one request for every route of \<open>create_router\<close>, and its
  handler over the indexes of all stores and the files of the exec instances. Reading the
  request from the wire, writing the answer as JSON and the process table are the host's.
\<close>

section \<open>Requests and answers\<close>

text \<open>A query parameter that is decoded as a JSON value.\<close>

datatype query_value = Q_bool bool | Q_int int | Q_str str | Q_other

record port_binding_item =
  pb_host_ip :: "str option"
  pb_host_port :: "str option"

record host_config =
  hc_binds :: "str list option"
  hc_port_bindings :: "(str \<times> port_binding_item list) list option"
  hc_memory :: "int option"
  hc_restart_policy :: "(str option \<times> u32 option) option"

record create_container_request =
  cr_image :: str
  cr_cmd :: "str list option"
  cr_env :: "str list option"
  cr_working_dir :: "str option"
  cr_user :: "str option"
  cr_host_config :: "host_config option"

record create_exec_request =
  xr_cmd :: "str list option"
  xr_env :: "str list option"
  xr_working_dir :: "str option"
  xr_user :: "str option"
  xr_detach :: "bool option"

record exec_info =
  ei_container_id :: str
  ei_cmd :: "str list"
  ei_env :: "str list"
  ei_working_dir :: "str option"
  ei_user :: "str option"
  ei_detach :: bool

text \<open>What a poll of \<open>wait_container\<close> sees of the host: the files of the bundle and the processes.\<close>

record api_poll =
  ap_text :: "str \<Rightarrow> str \<Rightarrow> str option"
  ap_alive :: "int \<Rightarrow> bool"

type_synonym api_polls = "(api_poll \<times> (container_file \<Rightarrow> container_file)) list"

datatype api_request =
    Ping | Version | Info
  | List_images | Inspect_image str | Create_image str | Remove_image str "bool option" "bool option"
  | Tag_image str "str option" "str option" | Image_history str
  | List_containers "query_value option" | Inspect_container str
  | Create_container "str option" create_container_request
  | Start_container str | Stop_container str "nat option" "str option" | Restart_container str
  | Kill_container str | Wait_container str api_polls | Container_logs str
  | Remove_container str "bool option"
  | Create_exec str create_exec_request | Start_exec str | Inspect_exec str
  | Prune_containers_api | Prune_images_api | Prune_volumes_api | Prune_networks_api
  | List_networks | Create_network str | Inspect_network str | Remove_network_api str
  | List_volumes | Create_volume_api "str option" | Inspect_volume str | Remove_volume_api str

record info_response =
  in_containers :: nat
  in_running :: nat
  in_paused :: nat
  in_stopped :: nat
  in_images :: nat

record container_view =
  cv_id :: str
  cv_path :: str
  cv_args :: "str list"
  cv_status :: str
  cv_running :: bool
  cv_paused :: bool
  cv_exit_code :: int
  cv_image :: str
  cv_name :: str
  cv_restart_policy :: str
  cv_cmd :: "str list"
  cv_env :: "str list"
  cv_working_dir :: str
  cv_user :: str
  cv_ports :: "port_mapping list"

record history_item =
  hi_id :: str
  hi_created :: int
  hi_created_by :: str
  hi_size :: int
  hi_comment :: str
  hi_tags :: "str list"

datatype api_body =
    B_text str | B_version | B_info info_response
  | B_images "image_record list" | B_image image_record | B_image_view str "str list" int str str
  | B_history "history_item list" | B_removed str str
  | B_containers "container list" | B_container container_view | B_id str | B_status_code int
  | B_exec str bool "int option" str
  | B_deleted "str list"
  | B_networks "network list" | B_network network | B_volumes "volume list" | B_volume volume

text \<open>A status without a body, or 200 with one.\<close>

datatype api_reply = Status nat | Body api_body

abbreviation (input) "NO_CONTENT \<equiv> Status 204"
abbreviation (input) "CREATED \<equiv> Status 201"
abbreviation (input) "BAD_REQUEST \<equiv> Status 400"
abbreviation (input) "NOT_FOUND \<equiv> Status 404"
abbreviation (input) "CONFLICT \<equiv> Status 409"
abbreviation (input) "INTERNAL_SERVER_ERROR \<equiv> Status 500"

section \<open>The state and the host\<close>

text \<open>Exec files are keyed by bundle directory and exec id: what was asked for, and the exit code when done.\<close>

record api_world =
  aw_stores :: stores
  aw_execs :: "str \<times> str \<Rightarrow> exec_info option"
  aw_done :: "str \<times> str \<Rightarrow> str option"

datatype api_effect = Process effect | Build run_effect | Drop_path path | Volume_dir dir_effect

record api_host =
  ah_prune :: prune_host
  ah_reap :: reap_host
  ah_start :: start_host
  ah_kill :: kill_host
  ah_run :: run_host
  ah_arch :: str
  ah_pull :: "str \<Rightarrow> image_file \<Rightarrow> image_record res \<times> image_file"
  ah_now :: int
  ah_rand :: str
  ah_read_spec :: "str \<Rightarrow> oci_spec option"
  ah_logs :: "str \<Rightarrow> str res option"
  ah_write_ok :: "str \<Rightarrow> str \<Rightarrow> bool"
  ah_exec :: "str \<Rightarrow> exec_info \<Rightarrow> int res"
  ah_exec_log :: "str \<Rightarrow> str \<Rightarrow> str option"
  ah_message :: "error \<Rightarrow> str"

abbreviation ah_io :: "api_host \<Rightarrow> io" where
  "ah_io h \<equiv> ph_io (ah_prune h)"

text \<open>A handler: the answer, the state afterwards and what it did to the host.\<close>

type_synonym handler = "api_world \<Rightarrow> api_reply \<times> api_world \<times> api_effect list"

definition answers :: "(api_world \<Rightarrow> api_reply) \<Rightarrow> handler" where
  "answers f w = (f w, w, [])"

definition with_containers :: "container_file \<Rightarrow> api_world \<Rightarrow> api_world" where
  "with_containers f w = w\<lparr>aw_stores := (aw_stores w)\<lparr>st_containers := f\<rparr>\<rparr>"

definition with_images :: "image_file \<Rightarrow> api_world \<Rightarrow> api_world" where
  "with_images f w = w\<lparr>aw_stores := (aw_stores w)\<lparr>st_images := f\<rparr>\<rparr>"

definition with_networks :: "network_file \<Rightarrow> api_world \<Rightarrow> api_world" where
  "with_networks f w = w\<lparr>aw_stores := (aw_stores w)\<lparr>st_networks := f\<rparr>\<rparr>"

definition with_volumes :: "volume_file \<Rightarrow> api_world \<Rightarrow> api_world" where
  "with_volumes f w = w\<lparr>aw_stores := (aw_stores w)\<lparr>st_volumes := f\<rparr>\<rparr>"

abbreviation aw_containers :: "api_world \<Rightarrow> container_file" where
  "aw_containers w \<equiv> st_containers (aw_stores w)"

abbreviation aw_images :: "api_world \<Rightarrow> image_file" where
  "aw_images w \<equiv> st_images (aw_stores w)"

abbreviation aw_networks :: "api_world \<Rightarrow> network_file" where
  "aw_networks w \<equiv> st_networks (aw_stores w)"

abbreviation aw_volumes :: "api_world \<Rightarrow> volume_file" where
  "aw_volumes w \<equiv> st_volumes (aw_stores w)"

text \<open>The files of a bundle go with its directory.\<close>

definition drop_bundles :: "effect list \<Rightarrow> api_world \<Rightarrow> api_world" where
  "drop_bundles es w =
     (let gone = {b. effect.Remove_dir b \<in> set es}
      in w\<lparr>aw_execs := (\<lambda>k. if fst k \<in> gone then None else aw_execs w k),
           aw_done := (\<lambda>k. if fst k \<in> gone then None else aw_done w k)\<rparr>)"

definition api_find :: "api_host \<Rightarrow> str \<Rightarrow> api_world \<Rightarrow> container option" where
  "api_find h q w = container_find (ah_io h) q (aw_containers w)"

definition api_containers :: "api_host \<Rightarrow> api_world \<Rightarrow> container list" where
  "api_containers h w = container_list (ah_io h) (aw_containers w)"

section \<open>System\<close>

definition api_info :: "api_host \<Rightarrow> api_world \<Rightarrow> info_response" where
  "api_info h w =
     (let cs = api_containers h w in
      \<lparr>in_containers = length cs, in_running = length (filter (\<lambda>c. c_status c = Running) cs), in_paused = 0,
       in_stopped = length (filter (\<lambda>c. case c_status c of Exited _ \<Rightarrow> True | _ \<Rightarrow> False) cs),
       in_images = length (image_list (ah_io h) (aw_images w))\<rparr>)"

section \<open>Images\<close>

definition api_find_image :: "api_host \<Rightarrow> str \<Rightarrow> api_world \<Rightarrow> image_record option" where
  "api_find_image h q w = image_find (ah_io h) (ah_arch h) q (aw_images w)"

definition inspect_image :: "api_host \<Rightarrow> str \<Rightarrow> handler" where
  "inspect_image h name = answers (\<lambda>w. case api_find_image h name w of
     None \<Rightarrow> NOT_FOUND
   | Some i \<Rightarrow> Body (B_image_view (''sha256:'' @ i_id i) [display_reference i @ '':'' @ i_tag i]
       (i_size_bytes i) (g_architecture (i_config i)) (g_os (i_config i))))"

definition create_image :: "api_host \<Rightarrow> str \<Rightarrow> handler" where
  "create_image h from_image w =
     (case ah_pull h from_image (aw_images w) of
        (Inr r, f) \<Rightarrow> (Body (B_image r), with_images f w, [])
      | (Inl e, f) \<Rightarrow> (INTERNAL_SERVER_ERROR, with_images f w, []))"

definition remove_image_endpoint :: "api_host \<Rightarrow> str \<Rightarrow> bool option \<Rightarrow> bool option \<Rightarrow> handler" where
  "remove_image_endpoint h name force no_prune w =
     (case api_find_image h name w of
        None \<Rightarrow> (NOT_FOUND, w, [])
      | Some i \<Rightarrow>
          if \<not> unwrap_or force False \<and> image_user i (api_containers h w) \<noteq> None then (CONFLICT, w, [])
          else case (if unwrap_or no_prune False
                then (case remove_metadata_only (ah_io h) name (aw_images w) of (r, f) \<Rightarrow> (map_sum (\<lambda>e. e) (\<lambda>r. (r, [])) r, f))
                else image_remove (ah_io h) (ph_exists (ah_prune h)) (ph_home (ah_prune h)) name (aw_images w)) of
              (Inl e, f) \<Rightarrow> (INTERNAL_SERVER_ERROR, with_images f w, [])
            | (Inr (r, ds), f) \<Rightarrow>
                (Body (B_removed (i_reference r @ '':'' @ i_tag r) (''sha256:'' @ i_id r)), with_images f w, map Drop_path ds))"

text \<open>A target that does not parse is stored as it is, in the default registry.\<close>

definition tag_image_endpoint :: "api_host \<Rightarrow> str \<Rightarrow> str option \<Rightarrow> str option \<Rightarrow> handler" where
  "tag_image_endpoint h name repo tag w =
     (case api_find_image h name w of
        None \<Rightarrow> (NOT_FOUND, w, [])
      | Some src \<Rightarrow>
          let repo = unwrap_or repo (i_reference src);
              tag = unwrap_or tag ''latest'';
              target = (case ref_parse (repo @ '':'' @ tag) of
                  Inr r \<Rightarrow> r
                | Inl _ \<Rightarrow> \<lparr>registry = DEFAULT_REGISTRY, repository = repo, ref_tag = tag, digest = None\<rparr>);
              record = src\<lparr>i_reference := repository target, i_tag := ref_tag target,
                           i_registry := registry target, i_created_at := ah_now h\<rparr>
          in case image_add (ah_io h) record (aw_images w) of
               (Inr _, f) \<Rightarrow> (CREATED, with_images f w, [])
             | (Inl e, f) \<Rightarrow> (INTERNAL_SERVER_ERROR, with_images f w, []))"

definition per_layer_size :: "image_record \<Rightarrow> int" where
  "per_layer_size i =
     (let n = (case g_rootfs (i_config i) of Some fs \<Rightarrow> length (diff_ids fs) | None \<Rightarrow> 1)
      in if n > 0 then i_size_bytes i sdiv int n else i_size_bytes i)"

definition history_item_of :: "image_record \<Rightarrow> nat \<Rightarrow> history_entry \<Rightarrow> history_item" where
  "history_item_of i n e =
     \<lparr>hi_id = (if n = 0 then ''sha256:'' @ i_id i else ''<missing>''),
      hi_created = i_created_at i,
      hi_created_by = unwrap_or (h_created_by e) ''/bin/sh -c #(nop)'',
      hi_size = (if h_empty_layer e = Some True then 0 else per_layer_size i),
      hi_comment = unwrap_or (h_comment e) [],
      hi_tags = (if n = 0 then [i_reference i @ '':'' @ i_tag i] else [])\<rparr>"

definition image_history :: "image_record \<Rightarrow> history_item list" where
  "image_history i =
     (case g_history (i_config i) of
        [] \<Rightarrow> [\<lparr>hi_id = ''sha256:'' @ i_id i, hi_created = i_created_at i, hi_created_by = ''/bin/sh'',
                hi_size = i_size_bytes i, hi_comment = [], hi_tags = [i_reference i @ '':'' @ i_tag i]\<rparr>]
      | hs \<Rightarrow> map (\<lambda>(n, e). history_item_of i n e) (enumerate 0 (rev hs)))"

definition get_image_history :: "api_host \<Rightarrow> str \<Rightarrow> handler" where
  "get_image_history h name = answers (\<lambda>w. case api_find_image h name w of
     None \<Rightarrow> NOT_FOUND | Some i \<Rightarrow> Body (B_history (image_history i)))"

section \<open>Listing, inspecting and creating containers\<close>

definition show_all :: "query_value option \<Rightarrow> bool" where
  "show_all v \<longleftrightarrow>
     (case v of
        Some (Q_bool b) \<Rightarrow> b
      | Some (Q_int n) \<Rightarrow> n = 1
      | Some (Q_str s) \<Rightarrow> s = ''1'' \<or> to_lowercase s = ''true''
      | _ \<Rightarrow> False)"

definition list_containers :: "api_host \<Rightarrow> query_value option \<Rightarrow> handler" where
  "list_containers h all = answers (\<lambda>w. Body (B_containers
     (if show_all all then api_containers h w else filter (\<lambda>c. c_status c = Running) (api_containers h w))))"

definition binding_flag :: "str \<Rightarrow> port_binding_item \<Rightarrow> str" where
  "binding_flag port i =
     (let p = unwrap_or (pb_host_port i) []; ip = unwrap_or (pb_host_ip i) []
      in if ip \<noteq> [] then ip @ '':'' @ p @ '':'' @ port
         else if p \<noteq> [] then p @ '':'' @ port else port)"

definition binding_flags :: "host_config \<Rightarrow> str list" where
  "binding_flags hc = concat (map (\<lambda>(port, is). map (binding_flag port) is) (unwrap_or (hc_port_bindings hc) []))"

text \<open>The options of a container that is started in the background, with everything else left out.\<close>

definition detached_options :: "str \<Rightarrow> run_options" where
  "detached_options image_name =
     \<lparr>o_interactive = False, o_tty = False, o_detach = True, o_rm = False, o_name = None, o_env = [],
      o_ports = [], o_volumes = [], o_workdir = None, o_memory = None, o_labels = [], o_dns = [],
      o_cidfile = None, o_env_file = None, o_cpus = None, o_pids_limit = None, o_user = None,
      o_hostname = None, o_add_host = [], o_restart = ''no'', o_health_cmd = None, o_platform = None,
      o_network = ''auto'', o_privileged = False, o_gpus = None, o_entrypoint = None, o_shm_size = None,
      o_cap_add = [], o_cap_drop = [], o_read_only = False, o_init = False, o_tmpfs = [], o_devices = [],
      o_security_opt = [], o_cpu_shares = None, o_cpuset_cpus = None, o_memory_swap = None,
      o_memory_reservation = None, o_dns_search = [], o_dns_option = [], o_expose = [], o_sysctl = [],
      o_stop_timeout = None, o_stop_signal = None, o_annotations = [], o_ulimits = [], o_ipc = None,
      o_pid = None, o_uts = None, o_userns = None, o_cgroupns = None, o_cgroup_parent = None,
      o_cpu_count = None, o_cpu_percent = None, o_io_maxbandwidth = None, o_io_maxiops = None,
      o_mount = [], o_health_interval = None, o_health_timeout = None, o_no_healthcheck = False,
      o_pull = None, o_oom_kill_disable = False, o_oom_score_adj = None, o_group_add = [],
      o_umask = None, o_domainname = None, o_memory_swappiness = None, o_pod = None,
      o_volumes_from = [], o_image = image_name, o_command = []\<rparr>"

definition create_options :: "str option \<Rightarrow> create_container_request \<Rightarrow> run_options" where
  "create_options name r =
     (let o1 = (detached_options (cr_image r))\<lparr>o_name := name, o_env := unwrap_or (cr_env r) [],
            o_workdir := cr_working_dir r, o_user := cr_user r, o_command := unwrap_or (cr_cmd r) []\<rparr>
      in case cr_host_config r of
           None \<Rightarrow> o1
         | Some hc \<Rightarrow>
             o1\<lparr>o_volumes := unwrap_or (hc_binds hc) [], o_ports := binding_flags hc,
               o_memory := (case hc_memory hc of Some m \<Rightarrow> if m > 0 then Some (show_int m) else None | None \<Rightarrow> None),
               o_restart := (case hc_restart_policy hc of Some (Some n, _) \<Rightarrow> n | _ \<Rightarrow> ''no'')\<rparr>)"

definition run_world_of :: "stores \<Rightarrow> run_world" where
  "run_world_of s = \<lparr>rw_images = st_images s, rw_containers = st_containers s, rw_volumes = st_volumes s, rw_pods = st_pods s\<rparr>"

definition with_run_world :: "run_world \<Rightarrow> api_world \<Rightarrow> api_world" where
  "with_run_world r w = w\<lparr>aw_stores := (aw_stores w)\<lparr>st_images := rw_images r, st_containers := rw_containers r,
     st_volumes := rw_volumes r, st_pods := rw_pods r\<rparr>\<rparr>"

definition create_container :: "api_host \<Rightarrow> str option \<Rightarrow> create_container_request \<Rightarrow> handler" where
  "create_container h name r w =
     (case create_only_container_impl (ah_run h) (aw_networks w) (create_options name r) (run_world_of (aw_stores w)) of
        (Inr cid, rw, es) \<Rightarrow> (Body (B_id cid), with_run_world rw w, map Build es)
      | (Inl e, rw, es) \<Rightarrow> (INTERNAL_SERVER_ERROR, with_run_world rw w, map Build es))"

definition status_name :: "container_status \<Rightarrow> str" where
  "status_name s =
     (case s of Running \<Rightarrow> ''running'' | Paused \<Rightarrow> ''paused'' | Created \<Rightarrow> ''created''
      | Exited _ \<Rightarrow> ''exited'' | Failed _ \<Rightarrow> ''dead'')"

definition view_container :: "oci_spec option \<Rightarrow> container \<Rightarrow> container_view" where
  "view_container spec c =
     (let (env, cmd, cwd, user) =
            (case spec of
               Some s \<Rightarrow> (pr_env (sp_process s), pr_args (sp_process s), pr_cwd (sp_process s),
                 unwrap_or (u_username (pr_user (sp_process s))) (show_nat (unat (u_uid (pr_user (sp_process s))))))
             | None \<Rightarrow> ([], c_command c, ''/'', ''0''))
      in \<lparr>cv_id = c_id c, cv_path = (case c_command c of p # _ \<Rightarrow> p | [] \<Rightarrow> []),
          cv_args = drop 1 (c_command c), cv_status = status_name (c_status c),
          cv_running = (c_status c = Running), cv_paused = (c_status c = Paused),
          cv_exit_code = (case c_status c of Exited n \<Rightarrow> n | _ \<Rightarrow> 0), cv_image = c_image c,
          cv_name = CHR ''/'' # c_name c, cv_restart_policy = show_policy (c_restart_policy c),
          cv_cmd = cmd, cv_env = env, cv_working_dir = cwd, cv_user = user, cv_ports = c_ports c\<rparr>)"

definition inspect_container :: "api_host \<Rightarrow> str \<Rightarrow> handler" where
  "inspect_container h q = answers (\<lambda>w. case api_find h q w of
     None \<Rightarrow> NOT_FOUND
   | Some c \<Rightarrow> Body (B_container (view_container (ah_read_spec h (c_bundle_path c)) c)))"

section \<open>The life cycle\<close>

definition no_content_or_missing :: "unit res \<Rightarrow> api_reply" where
  "no_content_or_missing r = (case r of Inr _ \<Rightarrow> NO_CONTENT | Inl _ \<Rightarrow> NOT_FOUND)"

definition api_start :: "api_host \<Rightarrow> str \<Rightarrow> handler" where
  "api_start h q w =
     (case start_container (ah_io h) (ah_start h) q (aw_containers w) of
        (r, f) \<Rightarrow> (no_content_or_missing r, with_containers f w, []))"

text \<open>The grace period \<open>t\<close> only bounds the waiting.\<close>

definition api_stop :: "api_host \<Rightarrow> str \<Rightarrow> nat option \<Rightarrow> str option \<Rightarrow> handler" where
  "api_stop h q t signal w =
     (case stop_container (ah_io h) (ph_bundle (ah_prune h)) (ah_reap h) q signal (aw_containers w) of
        ((r, f), es) \<Rightarrow> (no_content_or_missing r, with_containers f w, map Process es))"

definition api_restart :: "api_host \<Rightarrow> str \<Rightarrow> handler" where
  "api_restart h q w =
     (case api_stop h q None None w of
        (_, w1, es) \<Rightarrow> (case api_start h q w1 of (r, w2, es') \<Rightarrow> (r, w2, es @ es')))"

definition api_kill :: "api_host \<Rightarrow> str \<Rightarrow> handler" where
  "api_kill h q w =
     (case api_find h q w of
        None \<Rightarrow> (NOT_FOUND, w, [])
      | Some c \<Rightarrow>
          (case killer_kill (ah_io h) (ah_kill h) c None (aw_containers w) of
             ((_, f), es) \<Rightarrow> (NO_CONTENT, with_containers f w, map Process es)))"

definition exited_code :: "container option \<Rightarrow> int option" where
  "exited_code c = (case c of Some c \<Rightarrow> (case c_status c of Exited n \<Rightarrow> Some n | _ \<Rightarrow> None) | None \<Rightarrow> None)"

definition poll_pids :: "api_poll \<Rightarrow> str \<Rightarrow> int list" where
  "poll_pids p bundle = concat (map (\<lambda>file.
     case ap_text p bundle file of
       Some t \<Rightarrow> (case parse_signed 32 (trim t) of Some pid \<Rightarrow> [pid] | None \<Rightarrow> []) | None \<Rightarrow> [])
     [''vm.pid'', ''container.pid''])"

definition final_code :: "api_poll \<Rightarrow> str \<Rightarrow> container option \<Rightarrow> int" where
  "final_code p bundle now =
     (case ap_text p bundle ''boxr-exitcode'' of
        Some t \<Rightarrow> unwrap_or (parse_signed 32 (trim t)) 0
      | None \<Rightarrow> unwrap_or (exited_code now) 0)"

text \<open>\<open>None\<close> when the polls are used up and the container still runs.\<close>

fun wait_loop :: "io \<Rightarrow> str \<Rightarrow> str \<Rightarrow> api_polls \<Rightarrow> container_file \<Rightarrow> (int \<times> container_file) option" where
  "wait_loop io q bundle [] f = None"
| "wait_loop io q bundle ((p, others) # ps) f =
     (case exited_code (container_find io q f) of
        Some n \<Rightarrow> Some (n, f)
      | None \<Rightarrow>
          if list_ex (ap_alive p) (poll_pids p bundle) then wait_loop io q bundle ps (others f)
          else Some (final_code p bundle (container_find io q f), f))"

text \<open>A wait that does not return keeps the connection open: no answer.\<close>

definition api_wait :: "api_host \<Rightarrow> str \<Rightarrow> api_polls \<Rightarrow> api_world \<Rightarrow> (api_reply \<times> api_world \<times> api_effect list) option" where
  "api_wait h q ps w =
     (case api_find h q w of
        None \<Rightarrow> Some (NOT_FOUND, w, [])
      | Some c \<Rightarrow>
          map_option (\<lambda>(n, f). (Body (B_status_code n), with_containers f w, []))
            (wait_loop (ah_io h) q (c_bundle_path c) ps (aw_containers w)))"

definition api_logs :: "api_host \<Rightarrow> str \<Rightarrow> handler" where
  "api_logs h q = answers (\<lambda>w. case api_find h q w of
     None \<Rightarrow> NOT_FOUND
   | Some c \<Rightarrow> (case ah_logs h (c_bundle_path c) of
       None \<Rightarrow> Body (B_text []) | Some (Inr t) \<Rightarrow> Body (B_text t) | Some (Inl _) \<Rightarrow> INTERNAL_SERVER_ERROR))"

definition api_remove :: "api_host \<Rightarrow> str \<Rightarrow> bool option \<Rightarrow> handler" where
  "api_remove h q force w =
     (case api_find h q w of
        None \<Rightarrow> (NOT_FOUND, w, [])
      | Some c \<Rightarrow>
          if is_active c \<and> \<not> unwrap_or force False then (CONFLICT, w, [])
          else let (w1, es) = (if is_active c
                     then (case api_stop h q None None w of (_, w1, es) \<Rightarrow> (w1, es)) else (w, []))
               in case container_remove (ah_io h) (ph_bundle (ah_prune h)) q (aw_containers w1) of
                    (Inr (_, es'), f) \<Rightarrow> (NO_CONTENT, drop_bundles es' (with_containers f w1), es @ map Process es')
                  | (Inl _, f) \<Rightarrow> (NOT_FOUND, with_containers f w1, es))"

section \<open>Exec instances\<close>

definition exec_info_of :: "container \<Rightarrow> create_exec_request \<Rightarrow> exec_info" where
  "exec_info_of c r =
     \<lparr>ei_container_id = c_id c, ei_cmd = unwrap_or (xr_cmd r) [], ei_env = unwrap_or (xr_env r) [],
      ei_working_dir = xr_working_dir r, ei_user = xr_user r, ei_detach = unwrap_or (xr_detach r) False\<rparr>"

text \<open>A failure to write the file is ignored: the id of an instance that does not exist is given out.\<close>

definition create_exec :: "api_host \<Rightarrow> str \<Rightarrow> create_exec_request \<Rightarrow> handler" where
  "create_exec h q r w =
     (case api_find h q w of
        None \<Rightarrow> (NOT_FOUND, w, [])
      | Some c \<Rightarrow>
          (Body (B_id (ah_rand h)),
           (if ah_write_ok h (c_bundle_path c) (''exec-'' @ ah_rand h @ ''.json'')
            then w\<lparr>aw_execs := (aw_execs w)((c_bundle_path c, ah_rand h) \<mapsto> exec_info_of c r)\<rparr> else w), []))"

definition exec_home :: "api_host \<Rightarrow> str \<Rightarrow> api_world \<Rightarrow> container option" where
  "exec_home h eid w = find (\<lambda>c. aw_execs w (c_bundle_path c, eid) \<noteq> None) (api_containers h w)"

definition start_exec :: "api_host \<Rightarrow> str \<Rightarrow> handler" where
  "start_exec h eid w =
     (case exec_home h eid w of
        None \<Rightarrow> (NOT_FOUND, w, [])
      | Some c \<Rightarrow>
          let b = c_bundle_path c;
              code = (case ah_exec h b (the (aw_execs w (b, eid))) of Inr n \<Rightarrow> n | Inl _ \<Rightarrow> 1)
          in (Body (B_text (unwrap_or (ah_exec_log h b eid) [])),
              (if ah_write_ok h b (''exec-'' @ eid @ ''.done'')
               then w\<lparr>aw_done := (aw_done w)((b, eid) \<mapsto> show_int code)\<rparr> else w), []))"

definition inspect_exec :: "api_host \<Rightarrow> str \<Rightarrow> handler" where
  "inspect_exec h eid = answers (\<lambda>w. case exec_home h eid w of
     None \<Rightarrow> NOT_FOUND
   | Some c \<Rightarrow>
       (case aw_done w (c_bundle_path c, eid) of
          Some t \<Rightarrow> Body (B_exec eid False (Some (unwrap_or (parse_signed 32 (trim t)) 0)) (c_id c))
        | None \<Rightarrow> Body (B_exec eid True None (c_id c))))"

section \<open>Pruning\<close>

definition prune_containers_endpoint :: "api_host \<Rightarrow> handler" where
  "prune_containers_endpoint h w =
     (case prune_each (ah_io h) (ph_bundle (ah_prune h)) (api_containers h w) (aw_containers w) of
        (ids, es, f) \<Rightarrow> (Body (B_deleted ids), drop_bundles es (with_containers f w), map Process es))"

definition prune_images_endpoint :: "api_host \<Rightarrow> handler" where
  "prune_images_endpoint h w =
     (let is = images_to_prune False (api_containers h w) (image_list (ah_io h) (aw_images w))
      in case remove_each (ah_io h) (ph_exists (ah_prune h)) (ph_home (ah_prune h)) is (aw_images w) of
           (ds, f) \<Rightarrow> (Body (B_deleted (map i_id is)), with_images f w, map Drop_path ds))"

definition prune_volumes_endpoint :: "api_host \<Rightarrow> handler" where
  "prune_volumes_endpoint h w =
     (let vs = list_locked (ah_io h) (aw_volumes w); cs = api_containers h w; vh = ph_vol (ah_prune h)
      in case volume_prune (ah_io h) vh cs vs (aw_volumes w) of
           (r, f) \<Rightarrow> (Body (B_deleted (case r of Inr names \<Rightarrow> names | Inl _ \<Rightarrow> [])), with_volumes f w,
             map Volume_dir (prune_dirs (ah_io h) vh cs vs (\<lambda>_. True) (aw_volumes w))))"

definition prune_networks_endpoint :: "api_host \<Rightarrow> handler" where
  "prune_networks_endpoint h w =
     (case prune_networks (ah_io h) (network_list (ah_io h) (aw_networks w)) (aw_networks w) of
        (names, f) \<Rightarrow> (Body (B_deleted names), with_networks f w, []))"

section \<open>Networks and volumes\<close>

definition api_create_network :: "api_host \<Rightarrow> str \<Rightarrow> handler" where
  "api_create_network h name w =
     (case network_create (ah_io h) (ah_rand h) (ah_now h) name plain_options (aw_networks w) of
        (Inr n, f) \<Rightarrow> (Body (B_network n), with_networks f w, [])
      | (Inl _, f) \<Rightarrow> (BAD_REQUEST, with_networks f w, []))"

definition api_inspect_network :: "api_host \<Rightarrow> str \<Rightarrow> handler" where
  "api_inspect_network h q = answers (\<lambda>w. case network_find (ah_io h) q (aw_networks w) of
     None \<Rightarrow> NOT_FOUND | Some n \<Rightarrow> Body (B_network n))"

definition api_remove_network :: "api_host \<Rightarrow> str \<Rightarrow> handler" where
  "api_remove_network h q w =
     (case network_remove (ah_io h) q False (aw_networks w) of
        (Inr _, f) \<Rightarrow> (NO_CONTENT, with_networks f w, [])
      | (Inl _, f) \<Rightarrow> (NOT_FOUND, with_networks f w, []))"

definition api_create_volume :: "api_host \<Rightarrow> str option \<Rightarrow> handler" where
  "api_create_volume h name w =
     (let vh = ph_vol (ah_prune h); q = plain_volume name
      in case volume_create (ah_io h) vh (ah_rand h) (ah_now h) q (aw_volumes w) of
           (r, f) \<Rightarrow> ((case r of Inr v \<Rightarrow> Body (B_volume v) | Inl _ \<Rightarrow> BAD_REQUEST), with_volumes f w,
             map Volume_dir (create_effects (ah_io h) vh (ah_rand h) q (aw_volumes w))))"

definition api_inspect_volume :: "api_host \<Rightarrow> str \<Rightarrow> handler" where
  "api_inspect_volume h name = answers (\<lambda>w. case volume_find (ah_io h) name (aw_volumes w) of
     None \<Rightarrow> NOT_FOUND | Some v \<Rightarrow> Body (B_volume v))"

text \<open>The answer to a failed removal is read off the text of the error.\<close>

definition removal_status :: "str \<Rightarrow> api_reply" where
  "removal_status message =
     (let m = to_lowercase message
      in if contains_str m ''active'' \<or> contains_str m ''in use'' \<or> contains_str m ''conflict'' then CONFLICT
         else if contains_str m ''not found'' then NOT_FOUND else CONFLICT)"

definition api_remove_volume :: "api_host \<Rightarrow> str \<Rightarrow> handler" where
  "api_remove_volume h name w =
     (if volume_find (ah_io h) name (aw_volumes w) = None then (NOT_FOUND, w, [])
      else let vh = ph_vol (ah_prune h)
        in case volume_remove (ah_io h) vh (api_containers h w) name False (aw_volumes w) of
             (Inr v, f) \<Rightarrow> (NO_CONTENT, with_volumes f w, map Volume_dir (remove_dirs vh (Inr v)))
           | (Inl e, f) \<Rightarrow> (removal_status (ah_message h e), with_volumes f w, []))"

section \<open>All requests\<close>

fun api_step :: "api_host \<Rightarrow> api_request \<Rightarrow> api_world \<Rightarrow> (api_reply \<times> api_world \<times> api_effect list) option" where
  "api_step h Ping w = Some (answers (\<lambda>_. Body (B_text ''OK'')) w)"
| "api_step h Version w = Some (answers (\<lambda>_. Body B_version) w)"
| "api_step h Info w = Some (answers (\<lambda>w. Body (B_info (api_info h w))) w)"
| "api_step h List_images w = Some (answers (\<lambda>w. Body (B_images (image_list (ah_io h) (aw_images w)))) w)"
| "api_step h (Inspect_image q) w = Some (inspect_image h q w)"
| "api_step h (Create_image q) w = Some (create_image h q w)"
| "api_step h (Remove_image q force no_prune) w = Some (remove_image_endpoint h q force no_prune w)"
| "api_step h (Tag_image q repo tag) w = Some (tag_image_endpoint h q repo tag w)"
| "api_step h (Image_history q) w = Some (get_image_history h q w)"
| "api_step h (List_containers all) w = Some (list_containers h all w)"
| "api_step h (Inspect_container q) w = Some (inspect_container h q w)"
| "api_step h (Create_container name r) w = Some (create_container h name r w)"
| "api_step h (Start_container q) w = Some (api_start h q w)"
| "api_step h (Stop_container q t signal) w = Some (api_stop h q t signal w)"
| "api_step h (Restart_container q) w = Some (api_restart h q w)"
| "api_step h (Kill_container q) w = Some (api_kill h q w)"
| "api_step h (Wait_container q ps) w = api_wait h q ps w"
| "api_step h (Container_logs q) w = Some (api_logs h q w)"
| "api_step h (Remove_container q force) w = Some (api_remove h q force w)"
| "api_step h (Create_exec q r) w = Some (create_exec h q r w)"
| "api_step h (Start_exec eid) w = Some (start_exec h eid w)"
| "api_step h (Inspect_exec eid) w = Some (inspect_exec h eid w)"
| "api_step h Prune_containers_api w = Some (prune_containers_endpoint h w)"
| "api_step h Prune_images_api w = Some (prune_images_endpoint h w)"
| "api_step h Prune_volumes_api w = Some (prune_volumes_endpoint h w)"
| "api_step h Prune_networks_api w = Some (prune_networks_endpoint h w)"
| "api_step h List_networks w = Some (answers (\<lambda>w. Body (B_networks (network_list (ah_io h) (aw_networks w)))) w)"
| "api_step h (Create_network name) w = Some (api_create_network h name w)"
| "api_step h (Inspect_network q) w = Some (api_inspect_network h q w)"
| "api_step h (Remove_network_api q) w = Some (api_remove_network h q w)"
| "api_step h List_volumes w = Some (answers (\<lambda>w. Body (B_volumes (list_locked (ah_io h) (aw_volumes w)))) w)"
| "api_step h (Create_volume_api name) w = Some (api_create_volume h name w)"
| "api_step h (Inspect_volume name) w = Some (api_inspect_volume h name w)"
| "api_step h (Remove_volume_api name) w = Some (api_remove_volume h name w)"

text \<open>Requests one after the other, each with what the host is like then; one that never answers changes nothing.\<close>

fun serve :: "(api_host \<times> api_request) list \<Rightarrow> api_world \<Rightarrow> api_world" where
  "serve [] w = w"
| "serve ((h, q) # qs) w = serve qs (case api_step h q w of None \<Rightarrow> w | Some (_, w', _) \<Rightarrow> w')"

section \<open>The indexes stay consistent\<close>

text \<open>Each operation of a store keeps the invariant of its index, whatever it answers.\<close>

lemma snd_reply [simp]: "snd (reply g x) = snd x"
  by (cases x) (simp add: reply_def)

lemma snd_answer [simp]: "snd (answer g x) = snd x"
  by (cases x) (simp add: answer_def)

lemma snd_tagged [simp]: "snd (tagged g x) = snd x"
  by (cases x) (simp add: tagged_def)

abbreviation (input) c_ok :: "container_file \<Rightarrow> bool" where
  "c_ok f \<equiv> containers_ok (load_unlocked f)"

abbreviation (input) i_ok :: "image_file \<Rightarrow> bool" where
  "i_ok f \<equiv> images_ok (load_unlocked f)"

abbreviation (input) n_ok :: "network_file \<Rightarrow> bool" where
  "n_ok f \<equiv> networks_ok (load_unlocked f)"

abbreviation (input) v_ok :: "vol_host \<Rightarrow> volume_file \<Rightarrow> bool" where
  "v_ok h f \<equiv> volumes_ok h (load_unlocked f)"

named_theorems keeps

lemma container_keeps [keeps]:
  "c_ok f \<Longrightarrow> c_ok (snd (container_add io r f))"
  "c_ok f \<Longrightarrow> c_ok (snd (update_status io q s f))"
  "c_ok f \<Longrightarrow> c_ok (snd (container_remove io bh q f))"
  using container_store.step_keeps_inv [of f io "Add r"] container_store.step_keeps_inv [of f io "Set_status q s"]
    container_store.step_keeps_inv [of f io "Remove q bh"] by simp_all

lemma image_keeps [keeps]:
  "i_ok f \<Longrightarrow> i_ok (snd (image_add io r f))"
  "i_ok f \<Longrightarrow> i_ok (snd (image_remove io ex home q f))"
  "i_ok f \<Longrightarrow> i_ok (snd (remove_metadata_only io q f))"
  using images.step_keeps_inv [of f io "Img_add r"] images.step_keeps_inv [of f io "Img_remove q ex home"]
    images.step_keeps_inv [of f io "Img_untag q"] by (simp_all split: prod.splits)

lemma network_keeps [keeps]:
  "n_ok f \<Longrightarrow> n_ok (snd (network_create io rid now name opts f))"
  "n_ok f \<Longrightarrow> n_ok (snd (network_remove io q force f))"
  using network_store.step_keeps_inv [of f io "Create rid now name opts"]
    network_store.step_keeps_inv [of f io "Remove_network q force"] by simp_all

lemma volume_keeps [keeps]:
  "v_ok h f \<Longrightarrow> v_ok h (snd (volume_create io h rid now r f))"
  "v_ok h f \<Longrightarrow> v_ok h (snd (volume_remove io h cs name force f))"
  "v_ok h f \<Longrightarrow> v_ok h (snd (volume_prune io h cs vs f))"
  "v_ok h f \<Longrightarrow> v_ok h (snd (resolve_mount io h rid now spec f))"
  using volume_store.step_keeps_inv [of h f io "Create_volume rid now r"]
    volume_store.step_keeps_inv [of h f io "Remove_volume cs name force"]
    volume_store.step_keeps_inv [of h f io "Prune_volumes cs vs"]
    volume_store.step_keeps_inv [of h f io "Resolve rid now spec"] by simp_all

lemma reap_each_keeps:
  "c_ok f \<Longrightarrow> c_ok (snd (snd (reap_each (\<lambda>i s f. snd (update_status io i s f)) rh cs f)))"
proof (induction cs arbitrary: f)
  case (Cons c cs)
  from Cons.IH [OF container_keeps(2) [OF Cons.prems, of io "c_id c" "Exited (exit_code_of rh c)"]] Cons.IH [OF Cons.prems] show ?case
    by (auto simp: Let_def split: prod.splits)
qed simp

lemma reap_keeps [keeps]: "c_ok f \<Longrightarrow> c_ok (snd (snd (reap_index io rh f)))"
  using reap_each_keeps by (simp add: reap_index_def reap_stale_containers_def)

lemma snd_eq: "x = (a, b) \<Longrightarrow> P (snd x) \<Longrightarrow> P b"
  by simp

lemma stop_keeps [keeps]:
  assumes "c_ok f"
  shows "c_ok (snd (fst (stop_container io bh rh q sig f)))"
proof (cases "container_find io q f")
  case (Some c)
  obtain r g where g: "update_status io (c_id c) (Exited 0) f = (r, g)" by (cases "update_status io (c_id c) (Exited 0) f")
  then have "c_ok g" using container_keeps(2) [OF assms] by (metis snd_conv)
  with reap_keeps [OF this, of io rh] Some g show ?thesis
    by (auto simp: stop_container_def Let_def split: prod.splits sum.splits)
qed (simp add: stop_container_def assms)

lemma start_keeps [keeps]:
  assumes "c_ok f"
  shows "c_ok (snd (start_container io sh q f))"
proof (cases "container_find io q f")
  case (Some c)
  obtain r g where g: "update_status io (c_id c) Running f = (r, g)" by (cases "update_status io (c_id c) Running f")
  then have "c_ok g" using container_keeps(2) [OF assms] by (metis snd_conv)
  with Some g assms show ?thesis by (auto simp: start_container_def split: sum.splits)
qed (simp add: start_container_def assms)

lemma kill_keeps [keeps]: "c_ok f \<Longrightarrow> c_ok (snd (fst (killer_kill io kh c sig f)))"
  by (auto simp: killer_kill_def keeps split: option.splits sum.splits)

lemma prune_each_keeps [keeps]: "c_ok f \<Longrightarrow> c_ok (snd (snd (prune_each io bh cs f)))"
proof (induction cs arbitrary: f)
  case (Cons c cs)
  obtain r g where g: "container_remove io bh (c_id c) f = (r, g)" by (cases "container_remove io bh (c_id c) f")
  then have "c_ok g" using container_keeps(3) [OF Cons.prems] by (metis snd_conv)
  from Cons.IH [OF this] Cons.IH [OF Cons.prems] g show ?case
    by (auto simp: Let_def split: prod.splits sum.splits)
qed simp

lemma remove_each_keeps [keeps]: "i_ok f \<Longrightarrow> i_ok (snd (remove_each io ex home is f))"
proof (induction "is" arbitrary: f)
  case (Cons i "is")
  from Cons.IH [OF image_keeps(2) [OF Cons.prems]] show ?case
    by (auto simp: Let_def split: prod.splits) (metis snd_conv)
qed simp

lemma prune_networks_keeps [keeps]: "n_ok f \<Longrightarrow> n_ok (snd (prune_networks io ns f))"
  by (induction io ns f rule: prune_networks.induct) (auto simp: keeps split: prod.splits)

lemma resolve_all_keeps [keeps]: "v_ok h f \<Longrightarrow> v_ok h (snd (resolve_all io h ids now n vs f))"
proof (induction io h ids now n vs f rule: resolve_all.induct)
  case (2 io h ids now n v vs f)
  then show ?case using volume_keeps(4) [of h f io "ids n" now v]
    by (auto split: prod.splits sum.splits)
qed simp

text \<open>The creation of a container is a run of such operations.\<close>

definition run_ok :: "vol_host \<Rightarrow> run_world \<Rightarrow> bool" where
  "run_ok vh w \<longleftrightarrow> c_ok (rw_containers w) \<and> i_ok (rw_images w) \<and> v_ok vh (rw_volumes w)"

definition maintains :: "vol_host \<Rightarrow> 'a cmd \<Rightarrow> bool" where
  "maintains vh c \<longleftrightarrow> (\<forall>w. run_ok vh w \<longrightarrow> run_ok vh (fst (snd (c w))))"

lemma maintains_follow: "maintains vh c \<Longrightarrow> (\<And>a. maintains vh (f a)) \<Longrightarrow> maintains vh (follow c f)"
  unfolding maintains_def
proof (intro allI impI)
  fix w
  assume c: "\<forall>w. run_ok vh w \<longrightarrow> run_ok vh (fst (snd (c w)))" and f: "\<And>a. \<forall>w. run_ok vh w \<longrightarrow> run_ok vh (fst (snd (f a w)))"
    and w: "run_ok vh w"
  obtain r w1 es where r: "c w = (r, w1, es)" by (cases "c w")
  then have w1: "run_ok vh w1" using c w by (metis fst_conv snd_conv)
  show "run_ok vh (fst (snd (follow c f w)))"
  proof (cases r)
    case (Inr a)
    then show ?thesis using r w1 f [of a, rule_format, of w1] by (cases "f a w1") (simp add: follow_def)
  qed (simp add: follow_def r w1)
qed

lemma maintains_basic:
  "maintains vh (give a)" "maintains vh (from_res r)" "maintains vh (emit es)" "maintains vh (require b e)"
  "maintains vh (inspect i)"
  by (simp_all add: maintains_def give_def from_res_def emit_def require_def inspect_def)

lemma maintains_pair: "(\<And>a b. maintains vh (f a b)) \<Longrightarrow> maintains vh (case x of (a, b) \<Rightarrow> f a b)"
  by (cases x) simp

lemma maintains_frames:
  "frames rw_containers c \<Longrightarrow> frames rw_images c \<Longrightarrow> frames rw_volumes c \<Longrightarrow> maintains vh c"
  by (simp add: maintains_def frames_def run_ok_def)

lemma maintains_stores:
  "(\<And>f. c_ok f \<Longrightarrow> c_ok (snd (g f))) \<Longrightarrow> maintains vh (on_containers g)"
  "(\<And>f. i_ok f \<Longrightarrow> i_ok (snd (k f))) \<Longrightarrow> maintains vh (on_images k)"
  "(\<And>f. v_ok vh f \<Longrightarrow> v_ok vh (snd (v f))) \<Longrightarrow> maintains vh (on_volumes v)"
  by (auto simp: maintains_def run_ok_def on_containers_def on_images_def on_volumes_def split: prod.splits)
    (metis snd_conv)+

lemma creation_maintains:
  assumes "\<And>im plat f. i_ok f \<Longrightarrow> i_ok (snd (rh_pull h im plat f))"
  shows "maintains (rh_vol h) (create_only_container_impl h nets opts)"
proof -
  have p: "maintains (rh_vol h) (local_or_pulled h opts)"
    using assms by (auto simp: local_or_pulled_def intro!: maintains_stores(2) split: option.splits)
  have b: "maintains (rh_vol h) (make_layers h i)" "maintains (rh_vol h) (with_files h x)"
    "maintains (rh_vol h) (save_bundle h opts s)" for i s x
    by (intro maintains_frames layers_frames with_files_rules)+
  show ?thesis unfolding create_only_container_impl_def
    by (intro maintains_follow maintains_pair maintains_basic maintains_stores p b resolve_all_keeps container_keeps | assumption)+
qed

definition stores_ok :: "vol_host \<Rightarrow> stores \<Rightarrow> bool" where
  "stores_ok vh s \<longleftrightarrow> c_ok (st_containers s) \<and> i_ok (st_images s) \<and> n_ok (st_networks s) \<and> v_ok vh (st_volumes s)"

text \<open>
  What is assumed of the host: a pull is one of the image store's operations on its index, the
  volumes are all in one place, and what happens while a request waits are operations as well.
\<close>

definition sound_host :: "str \<Rightarrow> api_host \<Rightarrow> bool" where
  "sound_host dir h \<longleftrightarrow>
     vols_dir (ph_vol (ah_prune h)) = dir \<and> vols_dir (rh_vol (ah_run h)) = dir \<and>
     (\<forall>q f. i_ok f \<longrightarrow> i_ok (snd (ah_pull h q f))) \<and>
     (\<forall>q p f. i_ok f \<longrightarrow> i_ok (snd (rh_pull (ah_run h) q p f)))"

fun sound_request :: "api_request \<Rightarrow> bool" where
  "sound_request (Wait_container q ps) \<longleftrightarrow> list_all (\<lambda>(p, others). \<forall>f. c_ok f \<longrightarrow> c_ok (others f)) ps"
| "sound_request _ \<longleftrightarrow> True"

lemma volumes_ok_dir: "vols_dir a = vols_dir b \<Longrightarrow> volumes_ok a vs = volumes_ok b vs"
  by (simp add: volumes_ok_def mountpoint_of_def)

lemma wait_loop_keeps:
  "wait_loop io q b ps f = Some (n, f') \<Longrightarrow> list_all (\<lambda>(p, others). \<forall>f. c_ok f \<longrightarrow> c_ok (others f)) ps \<Longrightarrow> c_ok f \<Longrightarrow> c_ok f'"
  by (induction io q b ps f rule: wait_loop.induct) (auto split: option.splits if_splits)

lemma with_files_of_stores [simp]:
  "aw_stores (with_containers cf w) = (aw_stores w)\<lparr>st_containers := cf\<rparr>"
  "aw_stores (with_images mf w) = (aw_stores w)\<lparr>st_images := mf\<rparr>"
  "aw_stores (with_networks nf w) = (aw_stores w)\<lparr>st_networks := nf\<rparr>"
  "aw_stores (with_volumes vf w) = (aw_stores w)\<lparr>st_volumes := vf\<rparr>"
  "aw_stores (drop_bundles es w) = aw_stores w"
  by (simp_all add: with_containers_def with_images_def with_networks_def with_volumes_def drop_bundles_def Let_def)

lemma stores_ok_update:
  "stores_ok vh s \<Longrightarrow> c_ok cf \<Longrightarrow> stores_ok vh (s\<lparr>st_containers := cf\<rparr>)"
  "stores_ok vh s \<Longrightarrow> i_ok mf \<Longrightarrow> stores_ok vh (s\<lparr>st_images := mf\<rparr>)"
  "stores_ok vh s \<Longrightarrow> n_ok nf \<Longrightarrow> stores_ok vh (s\<lparr>st_networks := nf\<rparr>)"
  "stores_ok vh s \<Longrightarrow> v_ok vh vf \<Longrightarrow> stores_ok vh (s\<lparr>st_volumes := vf\<rparr>)"
  by (simp_all add: stores_ok_def)

text \<open>A handler keeps the stores consistent.\<close>

definition sound_handler :: "vol_host \<Rightarrow> handler \<Rightarrow> bool" where
  "sound_handler vh k \<longleftrightarrow> (\<forall>w. stores_ok vh (aw_stores w) \<longrightarrow> stores_ok vh (aw_stores (fst (snd (k w)))))"

lemma sound_handlerI:
  "(\<And>w. stores_ok vh (aw_stores w) \<Longrightarrow> stores_ok vh (aw_stores (fst (snd (k w))))) \<Longrightarrow> sound_handler vh k"
  by (simp add: sound_handler_def)

lemma sound_answers [simp]: "sound_handler vh (answers f)"
  by (simp add: sound_handler_def answers_def)

lemma sound_stop: "sound_handler vh (api_stop h q t sig)"
proof (rule sound_handlerI)
  fix w :: api_world
  assume w: "stores_ok vh (aw_stores w)"
  then have "c_ok (snd (fst (stop_container (ah_io h) (ph_bundle (ah_prune h)) (ah_reap h) q sig (aw_containers w))))"
    by (intro stop_keeps) (simp add: stores_ok_def)
  with w show "stores_ok vh (aw_stores (fst (snd (api_stop h q t sig w))))"
    by (auto simp: api_stop_def stores_ok_update split: prod.splits)
qed

lemma sound_start: "sound_handler vh (api_start h q)"
proof (rule sound_handlerI)
  fix w :: api_world
  assume w: "stores_ok vh (aw_stores w)"
  then have "c_ok (snd (start_container (ah_io h) (ah_start h) q (aw_containers w)))"
    by (intro start_keeps) (simp add: stores_ok_def)
  with w show "stores_ok vh (aw_stores (fst (snd (api_start h q w))))"
    by (auto simp: api_start_def stores_ok_update split: prod.splits)
qed

lemma sound_handlerD: "sound_handler vh k \<Longrightarrow> k w = (r, w', es) \<Longrightarrow> stores_ok vh (aw_stores w) \<Longrightarrow> stores_ok vh (aw_stores w')"
  by (metis sound_handler_def fst_conv snd_conv)

lemma sound_restart: "sound_handler vh (api_restart h q)"
  unfolding sound_handler_def api_restart_def
  by (auto split: prod.splits) (metis sound_handlerD sound_start sound_stop)

lemma sound_kill: "sound_handler vh (api_kill h q)"
proof (rule sound_handlerI)
  fix w :: api_world
  assume w: "stores_ok vh (aw_stores w)"
  then have "c_ok (snd (fst (killer_kill (ah_io h) (ah_kill h) c None (aw_containers w))))" for c
    by (intro kill_keeps) (simp add: stores_ok_def)
  from this [of "the (api_find h q w)"] w show "stores_ok vh (aw_stores (fst (snd (api_kill h q w))))"
    by (auto simp: api_kill_def stores_ok_update split: prod.splits option.splits)
qed

lemma sound_remove: "sound_handler vh (api_remove h q force)"
proof (rule sound_handlerI)
  fix w :: api_world
  assume w: "stores_ok vh (aw_stores w)"
  have c: "stores_ok vh (aw_stores v) \<Longrightarrow>
      c_ok (snd (container_remove (ah_io h) (ph_bundle (ah_prune h)) q (aw_containers v)))" for v :: api_world
    by (intro container_keeps) (simp add: stores_ok_def)
  obtain r w1 es where s: "api_stop h q None None w = (r, w1, es)" by (metis prod.exhaust)
  note w1 = sound_handlerD [OF sound_stop s w]
  show "stores_ok vh (aw_stores (fst (snd (api_remove h q force w))))"
    using w w1 c [OF w] c [OF w1] s
    by (auto simp: api_remove_def stores_ok_update Let_def split: prod.splits option.splits sum.splits)
qed

lemma sound_pull:
  assumes "\<And>q f. i_ok f \<Longrightarrow> i_ok (snd (ah_pull h q f))"
  shows "sound_handler vh (create_image h q)"
proof (rule sound_handlerI)
  fix w :: api_world
  assume w: "stores_ok vh (aw_stores w)"
  obtain r f where e: "ah_pull h q (aw_images w) = (r, f)" by (metis prod.exhaust)
  have "i_ok f" using assms [of "aw_images w" q] w e by (simp add: stores_ok_def)
  with w e show "stores_ok vh (aw_stores (fst (snd (create_image h q w))))"
    by (cases r) (simp_all add: create_image_def stores_ok_update)
qed

lemma sound_remove_image: "sound_handler vh (remove_image_endpoint h q force no_prune)"
proof (rule sound_handlerI)
  fix w :: api_world
  assume w: "stores_ok vh (aw_stores w)"
  have i: "i_ok (aw_images w)" using w by (simp add: stores_ok_def)
  let ?x = "image_remove (ah_io h) (ph_exists (ah_prune h)) (ph_home (ah_prune h)) q (aw_images w)"
  let ?y = "remove_metadata_only (ah_io h) q (aw_images w)"
  obtain r f where x: "?x = (r, f)" by (metis prod.exhaust)
  obtain r' f' where y: "?y = (r', f')" by (metis prod.exhaust)
  have "i_ok f" "i_ok f'" using image_keeps(2,3) [OF i] x y by (metis snd_conv)+
  with w x y show "stores_ok vh (aw_stores (fst (snd (remove_image_endpoint h q force no_prune w))))"
    by (cases r; cases r') (auto simp: remove_image_endpoint_def stores_ok_update split: option.splits)
qed

lemma sound_tag: "sound_handler vh (tag_image_endpoint h q repo tag)"
proof (rule sound_handlerI)
  fix w :: api_world
  assume w: "stores_ok vh (aw_stores w)"
  have i: "i_ok (snd (image_add (ah_io h) r (aw_images w)))" for r
    using w by (intro image_keeps) (simp add: stores_ok_def)
  have "stores_ok vh (aw_stores (fst (snd (case image_add (ah_io h) r (aw_images w) of
      (Inr _, f) \<Rightarrow> (CREATED, with_images f w, []) | (Inl e, f) \<Rightarrow> (INTERNAL_SERVER_ERROR, with_images f w, [])))))" for r
    using i [of r] w by (cases "image_add (ah_io h) r (aw_images w)"; cases "fst (image_add (ah_io h) r (aw_images w))")
      (auto simp: stores_ok_update simp del: image_add_Inr)
  with w show "stores_ok vh (aw_stores (fst (snd (tag_image_endpoint h q repo tag w))))"
    unfolding tag_image_endpoint_def Let_def by (cases "api_find_image h q w") (simp_all del: image_add_Inr)
qed

lemma sound_prune_images: "sound_handler vh (prune_images_endpoint h)"
proof (rule sound_handlerI)
  fix w :: api_world
  assume w: "stores_ok vh (aw_stores w)"
  have "i_ok (snd (remove_each (ah_io h) (ph_exists (ah_prune h)) (ph_home (ah_prune h)) is (aw_images w)))" for "is"
    using w by (intro remove_each_keeps) (simp add: stores_ok_def)
  with w show "stores_ok vh (aw_stores (fst (snd (prune_images_endpoint h w))))"
    by (simp add: prune_images_endpoint_def Let_def case_prod_beta stores_ok_update)
qed

lemma sound_create:
  assumes "vols_dir vh = vols_dir (rh_vol (ah_run h))" and "\<And>q p f. i_ok f \<Longrightarrow> i_ok (snd (rh_pull (ah_run h) q p f))"
  shows "sound_handler vh (create_container h name r)"
proof (rule sound_handlerI)
  fix w :: api_world
  assume w: "stores_ok vh (aw_stores w)"
  let ?run = "create_only_container_impl (ah_run h) (aw_networks w) (create_options name r)"
  have v: "volumes_ok (rh_vol (ah_run h)) vs = volumes_ok vh vs" for vs by (rule volumes_ok_dir) (simp add: assms(1))
  obtain x rw es where e: "?run (run_world_of (aw_stores w)) = (x, rw, es)" by (metis prod.exhaust)
  have "run_ok (rh_vol (ah_run h)) (run_world_of (aw_stores w))"
    using w by (simp add: run_ok_def run_world_of_def stores_ok_def v)
  then have "run_ok (rh_vol (ah_run h)) rw"
    using creation_maintains [OF assms(2), of "aw_networks w" "create_options name r"] e unfolding maintains_def by fastforce
  then show "stores_ok vh (aw_stores (fst (snd (create_container h name r w))))"
    using w e by (cases x) (simp_all add: create_container_def run_ok_def stores_ok_def with_run_world_def v)
qed

lemma sound_exec: "sound_handler vh (create_exec h q r)" "sound_handler vh (start_exec h eid)"
  by (auto simp: sound_handler_def create_exec_def start_exec_def Let_def split: option.splits)

lemma sound_prune:
  "sound_handler vh (prune_containers_endpoint h)" "sound_handler vh (prune_networks_endpoint h)"
proof -
  have "c_ok (snd (snd (prune_each io bh cs (aw_containers w))))" if "stores_ok vh (aw_stores w)" for io bh cs w
    using that by (intro prune_each_keeps) (simp add: stores_ok_def)
  then show "sound_handler vh (prune_containers_endpoint h)"
    by (intro sound_handlerI) (simp add: prune_containers_endpoint_def case_prod_beta stores_ok_update)
  have "n_ok (snd (prune_networks io ns (aw_networks w)))" if "stores_ok vh (aw_stores w)" for io ns w
    using that by (intro prune_networks_keeps) (simp add: stores_ok_def)
  then show "sound_handler vh (prune_networks_endpoint h)"
    by (intro sound_handlerI) (simp add: prune_networks_endpoint_def case_prod_beta stores_ok_update)
qed

lemma sound_networks: "sound_handler vh (api_create_network h n)" "sound_handler vh (api_remove_network h q)"
proof -
  have n: "n_ok f" if "stores_ok vh (aw_stores w)" "network_create io rid now name opts (aw_networks w) = (r, f)"
    for f r io rid now name opts w
    using network_keeps(1) [of "aw_networks w" io rid now name opts] that by (simp add: stores_ok_def)
  have m: "n_ok f" if "stores_ok vh (aw_stores w)" "network_remove io q force (aw_networks w) = (r, f)" for f r io q force w
    using network_keeps(2) [of "aw_networks w" io q force] that by (simp add: stores_ok_def)
  show "sound_handler vh (api_create_network h n)"
    by (rule sound_handlerI) (auto simp: api_create_network_def split: prod.splits sum.splits intro: stores_ok_update n)
  show "sound_handler vh (api_remove_network h q)"
    by (rule sound_handlerI) (auto simp: api_remove_network_def split: prod.splits sum.splits intro: stores_ok_update m)
qed

lemma sound_volumes:
  assumes "vols_dir vh = vols_dir (ph_vol (ah_prune h))"
  shows "sound_handler vh (api_create_volume h name)" and "sound_handler vh (api_remove_volume h n)"
    and "sound_handler vh (prune_volumes_endpoint h)"
proof -
  let ?vh = "ph_vol (ah_prune h)"
  have v: "v_ok ?vh (aw_volumes w)" if "stores_ok vh (aw_stores w)" for w :: api_world
    using volumes_ok_dir [OF assms] that by (simp add: stores_ok_def)
  have u: "stores_ok vh (s\<lparr>st_volumes := f\<rparr>)" if "stores_ok vh s" "v_ok ?vh f" for s f
    using volumes_ok_dir [OF assms] that by (simp add: stores_ok_def)
  show "sound_handler vh (api_create_volume h name)"
    by (rule sound_handlerI) (simp add: api_create_volume_def Let_def case_prod_beta u v volume_keeps)
  show "sound_handler vh (prune_volumes_endpoint h)"
    by (rule sound_handlerI) (simp add: prune_volumes_endpoint_def Let_def case_prod_beta u v volume_keeps)
  have m: "v_ok ?vh f" if "stores_ok vh (aw_stores w)" "volume_remove io ?vh cs q force (aw_volumes w) = (r, f)"
    for f r io cs q force w
    using volume_keeps(2) [OF v [OF that(1)]] that(2) by (metis snd_conv)
  show "sound_handler vh (api_remove_volume h n)"
    by (rule sound_handlerI)
      (auto simp: api_remove_volume_def Let_def split: prod.splits sum.splits intro: u m)
qed

text \<open>
  C32. Whatever requests the daemon serves, in any order and under any failures of the host, every
  index keeps its invariant: ids and names of containers and keys of images are unique,
  volumes are components below their directory, and no two endpoints of a network share an address.
\<close>

theorem daemon_keeps_stores:
  assumes "\<forall>(h, q)\<in>set qs. sound_host (vols_dir vh) h \<and> sound_request q" and "stores_ok vh (aw_stores w)"
  shows "stores_ok vh (aw_stores (serve qs w))"
  using assms
proof (induction qs w rule: serve.induct)
  case (2 h q qs w)
  then have h: "sound_host (vols_dir vh) h" and q: "sound_request q" and w: "stores_ok vh (aw_stores w)" by auto
  have step: "stores_ok vh (aw_stores w')" if s: "api_step h q w = Some (r, w', es)" for r w' es
  proof (cases "\<exists>i ps. q = Wait_container i ps")
    case True
    then obtain i ps where "q = Wait_container i ps" by blast
    with s q w show ?thesis
      by (auto simp: api_wait_def stores_ok_def split: option.splits dest: wait_loop_keeps)
  next
    case False
    note sound = sound_answers sound_pull [of h vh] sound_remove_image sound_tag sound_prune_images sound_create [of vh h]
      sound_exec sound_prune sound_networks sound_volumes [of vh h] sound_stop sound_start sound_restart sound_kill sound_remove
    have "\<exists>k. api_step h q w = Some (k w) \<and> sound_handler vh k"
      using False h by (cases q)
        (force simp: sound_host_def inspect_image_def get_image_history_def list_containers_def inspect_container_def
          api_logs_def inspect_exec_def api_inspect_network_def api_inspect_volume_def intro: sound)+
    with s w show ?thesis by (metis option.inject sound_handlerD)
  qed
  then have "stores_ok vh (aw_stores (case api_step h q w of None \<Rightarrow> w | Some (_, w', _) \<Rightarrow> w'))"
    using w by (auto split: option.splits)
  with 2 show ?case by simp
qed simp

section \<open>Exec instances and waiting\<close>

lemma show_int_char: "c \<in> set (show_int i) \<Longrightarrow> c = CHR ''-'' \<or> is_ascii_digit c"
  by (auto simp: show_int_def dest: show_nat_digits split: if_splits)

lemma trim_show_int: "trim (show_int i) = show_int i"
  by (rule trim_no_ws) (auto dest!: show_int_char simp: char_class_defs)

lemma parse_signed_show_int:
  assumes "- (2 ^ (w - 1)) \<le> i" and "i < 2 ^ (w - 1)"
  shows "parse_signed w (show_int i) = Some i"
proof (cases "i < 0")
  case True
  then have "nat (- i) \<le> 2 ^ (w - 1)" using assms(1) by (simp add: nat_le_iff)
  with True show ?thesis by (simp add: parse_signed_def show_int_def)
next
  case False
  then have "nat i < 2 ^ (w - 1)" using assms(2) by (simp add: nat_less_iff)
  moreover obtain c cs where s: "show_nat (nat i) = c # cs" by (cases "show_nat (nat i)") auto
  moreover have "c \<noteq> CHR ''-''" using show_nat_digits [of c "nat i"] s by (auto simp: char_class_defs)
  ultimately show ?thesis using False parse_show_unsigned [of "nat i" "w - 1"]
    by (simp add: parse_signed_def show_int_def)
qed

text \<open>
  An exec instance is reported as running from its creation on, before anything is started;
  starting it runs the command whatever the container's state and gives its exit code, 1 when it
  could not be run, and it can be started again.
\<close>

theorem exec_instance_life:
  assumes "api_find h q w = Some c" and "c \<in> set (api_containers h w)" and "distinct (map c_bundle_path (api_containers h w))"
    and "\<And>b. aw_execs w (b, ah_rand h) = None \<and> aw_done w (b, ah_rand h) = None"
    and "\<And>f. ah_write_ok h (c_bundle_path c) f"
    and "code = (case ah_exec h (c_bundle_path c) (exec_info_of c r) of Inr n \<Rightarrow> n | Inl _ \<Rightarrow> 1)"
    and "- (2 ^ 31) \<le> code" and "code < 2 ^ 31"
  shows "\<exists>w1 w2 t. create_exec h q r w = (Body (B_id (ah_rand h)), w1, []) \<and>
    inspect_exec h (ah_rand h) w1 = (Body (B_exec (ah_rand h) True None (c_id c)), w1, []) \<and>
    start_exec h (ah_rand h) w1 = (Body (B_text t), w2, []) \<and>
    inspect_exec h (ah_rand h) w2 = (Body (B_exec (ah_rand h) False (Some code) (c_id c)), w2, []) \<and>
    start_exec h (ah_rand h) w2 = (Body (B_text t), w2, [])"
proof -
  let ?b = "c_bundle_path c" and ?e = "ah_rand h"
  let ?w1 = "w\<lparr>aw_execs := (aw_execs w)((?b, ?e) \<mapsto> exec_info_of c r)\<rparr>"
  let ?w2 = "?w1\<lparr>aw_done := (aw_done w)((?b, ?e) \<mapsto> show_int code)\<rparr>"
  have l: "api_containers h ?w1 = api_containers h w" "api_containers h ?w2 = api_containers h w"
    by (simp_all add: api_containers_def)
  have u: "find (\<lambda>d. aw_execs ?w1 (c_bundle_path d, ?e) \<noteq> None) (api_containers h w) = Some c"
    using assms(2-4) by (intro find_unique) (auto simp: distinct_map dest: inj_onD split: if_splits)
  then have x: "exec_home h ?e ?w1 = Some c" "exec_home h ?e ?w2 = Some c" unfolding exec_home_def l by simp_all
  have p: "parse_signed 32 (trim (show_int code)) = Some code"
    using parse_signed_show_int [of 32 code] assms(7,8) by (simp add: trim_show_int)
  have c: "create_exec h q r w = (Body (B_id ?e), ?w1, [])" using assms(1,5) by (simp add: create_exec_def)
  have i: "inspect_exec h ?e ?w1 = (Body (B_exec ?e True None (c_id c)), ?w1, [])"
    "inspect_exec h ?e ?w2 = (Body (B_exec ?e False (Some code) (c_id c)), ?w2, [])"
    using x assms(4) p by (simp_all add: inspect_exec_def answers_def)
  have s: "start_exec h ?e ?w1 = (Body (B_text (unwrap_or (ah_exec_log h ?b ?e) [])), ?w2, [])"
    "start_exec h ?e ?w2 = (Body (B_text (unwrap_or (ah_exec_log h ?b ?e) [])), ?w2, [])"
    using x assms(5,6) by (simp_all add: start_exec_def Let_def)
  show ?thesis using c i s by blast
qed

text \<open>
  The daemon and the command line answer a wait for a container that failed differently:
  the command returns 1, the daemon reports success once no process of it is left.
\<close>

theorem waits_disagree:
  assumes "container_find io q f = Some c" and "c_status c = Failed message"
    and "\<And>file. ap_text p (c_bundle_path c) file = None"
  shows "wait_poll io wh q f = Finished (Inr 1) f \<and>
    wait_loop io q (c_bundle_path c) ((p, others) # ps) f = Some (0, f)"
  using assms by (simp add: wait_poll_def exited_code_def poll_pids_def final_code_def)

section \<open>Samples\<close>

definition api_sample :: api_host where
  "api_sample =
     \<lparr>ah_prune = prune_sample, ah_reap = live_host,
      ah_start = \<lparr>spec_ok = \<lambda>_. True, execute_bundle = \<lambda>_. Inr 0, ports_ok = \<lambda>_. True\<rparr>,
      ah_kill = \<lparr>bundle_text = \<lambda>_ _. None, cgroup_procs = \<lambda>_. None\<rparr>,
      ah_run = (run_sample (\<lambda>_. Inr 0))\<lparr>rh_pull := \<lambda>_ _ f. (Inl Io_failed, f)\<rparr>,
      ah_arch = ''x86_64'', ah_pull = \<lambda>_ f. (Inl Io_failed, f), ah_now = 0, ah_rand = ''e1'', ah_read_spec = \<lambda>_. None,
      ah_logs = \<lambda>_. None, ah_write_ok = \<lambda>_ _. True, ah_exec = \<lambda>_ _. Inr 3, ah_exec_log = \<lambda>_ _. None,
      ah_message = \<lambda>_. []\<rparr>"

definition api_start_world :: "stores \<Rightarrow> api_world" where
  "api_start_world s = \<lparr>aw_stores = s, aw_execs = \<lambda>_. None, aw_done = \<lambda>_. None\<rparr>"

definition empty_stores :: stores where
  "empty_stores = \<lparr>st_containers = Missing, st_images = Missing, st_volumes = Missing, st_networks = Missing, st_pods = Missing\<rparr>"

theorem daemon_keeps_stores_witness:
  "stores_ok sample_host (aw_stores (serve
     [(api_sample, Create_volume_api (Some ''db'')), (api_sample, Create_network ''app''),
      (api_sample, Create_volume_api (Some ''db'')), (api_sample, Prune_networks_api)] (api_start_world empty_stores)))"
  by (rule daemon_keeps_stores)
    (simp_all add: sound_host_def api_sample_def prune_sample_def run_sample_def stores_ok_def api_start_world_def
      empty_stores_def containers_ok_def images_ok_def networks_ok_def volumes_ok_def)

definition web_stores :: stores where
  "web_stores = empty_stores\<lparr>st_containers := Records [(sample_container ''c1'' ''web'')\<lparr>c_status := Running\<rparr>]\<rparr>"

theorem exec_instance_life_witness:
  "\<exists>w1 w2 t. create_exec api_sample ''web'' \<lparr>xr_cmd = None, xr_env = None, xr_working_dir = None, xr_user = None, xr_detach = None\<rparr>
       (api_start_world web_stores) = (Body (B_id ''e1''), w1, []) \<and>
     inspect_exec api_sample ''e1'' w1 = (Body (B_exec ''e1'' True None ''c1''), w1, []) \<and>
     start_exec api_sample ''e1'' w1 = (Body (B_text t), w2, []) \<and>
     inspect_exec api_sample ''e1'' w2 = (Body (B_exec ''e1'' False (Some 3) ''c1''), w2, [])"
proof -
  let ?c = "(sample_container ''c1'' ''web'')\<lparr>c_status := Running\<rparr>"
  have "api_find api_sample ''web'' (api_start_world web_stores) = Some ?c" by code_simp
  moreover have l: "api_containers api_sample (api_start_world web_stores) = [?c]" by code_simp
  moreover have "ah_rand api_sample = ''e1''" "c_id ?c = ''c1''" "\<And>b f. ah_write_ok api_sample b f" "\<And>b x. ah_exec api_sample b x = Inr 3"
    by (simp_all add: api_sample_def sample_container_def)
  ultimately show ?thesis
    using exec_instance_life [of api_sample "''web''" "api_start_world web_stores" ?c 3
        "\<lparr>xr_cmd = None, xr_env = None, xr_working_dir = None, xr_user = None, xr_detach = None\<rparr>"]
    by (auto simp: api_start_world_def)
qed

theorem waits_disagree_witness:
  "\<exists>p. wait_poll io_good dead_host ''web'' (Records [(sample_container ''c1'' ''web'')\<lparr>c_status := Failed ''no''\<rparr>]) =
      Finished (Inr 1) (Records [(sample_container ''c1'' ''web'')\<lparr>c_status := Failed ''no''\<rparr>]) \<and>
    wait_loop io_good ''web'' (c_bundle_path (sample_container ''c1'' ''web'')) [(p, \<lambda>f. f)]
      (Records [(sample_container ''c1'' ''web'')\<lparr>c_status := Failed ''no''\<rparr>]) =
      Some (0, Records [(sample_container ''c1'' ''web'')\<lparr>c_status := Failed ''no''\<rparr>])"
proof -
  let ?c = "(sample_container ''c1'' ''web'')\<lparr>c_status := Failed ''no''\<rparr>"
  have "container_find io_good ''web'' (Records [?c]) = Some ?c" by code_simp
  then show ?thesis
    using waits_disagree [of io_good "''web''" "Records [?c]" ?c "''no''" "\<lparr>ap_text = \<lambda>_ _. None, ap_alive = \<lambda>_. True\<rparr>" dead_host "\<lambda>f. f" "[]"]
    by (intro exI [of _ "\<lparr>ap_text = \<lambda>_ _. None, ap_alive = \<lambda>_. True\<rparr>"]) simp
qed

end
