(* ===== verification/Pod_Command.thy ===== *)
theory Pod_Command
  imports Daemon_Api
begin

text \<open>
  The pod commands (\<open>handle_pod\<close> and \<open>ensure_pod_infra_container\<close> of \<open>src/lib.rs\<close>) over all the
  indexes: the infra container of a pod is found, started, or created and started, by the engine's
  own commands. Putting it for the parameter \<open>rh_infra\<close> of a run closes the model of \<open>run --pod\<close>.

  Shown: a created infra container is recorded as running with the name the pod expects, its id is
  written to the pod, and no pod appears or disappears; and a pod whose infra container cannot be
  made stays in the index although its creation is reported as failed.
\<close>

section \<open>The infra container\<close>

text \<open>
  \<open>ph_run\<close> is the host of the run that creates the infra container: it draws an id of its own.
\<close>

record pod_host =
  ph_run :: run_host
  ph_networks :: network_file
  ph_start :: start_host

definition infra_image :: "run_host \<Rightarrow> image_file \<Rightarrow> str" where
  "infra_image h f =
     (case or_else (image_find (rh_io h) (rh_arch h) ''alpine'' f)
        (or_else (image_find (rh_io h) (rh_arch h) ''alpine:latest'' f)
          (case image_list (rh_io h) f of [] \<Rightarrow> None | i # _ \<Rightarrow> Some i)) of
        Some i \<Rightarrow> i_reference i @ '':'' @ i_tag i
      | None \<Rightarrow> ''alpine:latest'')"

definition infra_options :: "pod \<Rightarrow> str \<Rightarrow> run_options" where
  "infra_options p img =
     (detached_options img)\<lparr>
       o_name := Some (infra_name p), o_ports := map infra_port (pd_ports p),
       o_labels := [''boxr.pod.infra=true''], o_restart := ''always'', o_network := ''bridge'',
       o_hostname := Some (pd_name p), o_no_healthcheck := True, o_command := [''sleep'', ''infinity'']\<rparr>"

definition make_infra :: "pod_host \<Rightarrow> pod \<Rightarrow> str cmd" where
  "make_infra ph p =
     (let h = ph_run ph; io = rh_io h in
      follow (inspect (\<lambda>w. infra_image h (rw_images w))) (\<lambda>img.
      follow (create_only_container_impl h (ph_networks ph) (infra_options p img)) (\<lambda>cid.
      follow (on_containers (start_container io (ph_start ph) (infra_name p))) (\<lambda>_.
      follow (ignoring (on_pods (set_infra_container_id io (pd_name p) cid))) (\<lambda>_.
      give (infra_name p))))))"

definition ensure_pod_infra_container :: "pod_host \<Rightarrow> pod \<Rightarrow> str cmd" where
  "ensure_pod_infra_container ph p =
     (let io = rh_io (ph_run ph) in
      follow (inspect (\<lambda>w. infra_of io p (rw_containers w))) (\<lambda>found. case found of
          Some c \<Rightarrow>
            if c_status c = Running then give (c_name c)
            else follow (ignoring (on_containers (start_container io (ph_start ph) (c_name c)))) (\<lambda>_. give (c_name c))
        | None \<Rightarrow> make_infra ph p))"

text \<open>A run whose pods are served by the engine itself.\<close>

definition in_pods :: "pod_host \<Rightarrow> run_host \<Rightarrow> run_host" where
  "in_pods ph h = h\<lparr>rh_infra := ensure_pod_infra_container ph\<rparr>"

section \<open>The commands\<close>

record pod_args =
  pa_name :: "str option"
  pa_ports :: "str list"
  pa_hostname :: "str option"
  pa_labels :: "str list"
  pa_dns :: "str list"
  pa_memory :: "str option"
  pa_cpus :: "str option"
  pa_network :: "str option"
  pa_share :: str
  pa_infra :: bool
  pa_no_infra :: bool

fun parse_each :: "str list \<Rightarrow> port_mapping list res" where
  "parse_each [] = Inr []"
| "parse_each (s # ss) = bind_res (parse_mapping s) (\<lambda>m. bind_res (parse_each ss) (\<lambda>ms. Inr (m # ms)))"

definition pod_label :: "(str \<times> str) list \<Rightarrow> str \<Rightarrow> (str \<times> str) list" where
  "pod_label ls l =
     (case split_once CHR ''='' l of
        Some (k, v) \<Rightarrow> filter (\<lambda>(k', _). k' \<noteq> k) ls @ [(k, v)]
      | None \<Rightarrow> ls)"

definition pod_config_of :: "pod_args \<Rightarrow> port_mapping list \<Rightarrow> pod_config" where
  "pod_config_of a ports =
     (case parse_pod_share (pa_share a) of (ipc, net, uts, pid) \<Rightarrow>
       \<lparr>pc_name = pa_name a, pc_ports = ports, pc_hostname = pa_hostname a,
        pc_labels = foldl pod_label [] (pa_labels a), pc_dns = pa_dns a, pc_memory = pa_memory a,
        pc_cpus = pa_cpus a, pc_share_ipc = ipc, pc_share_net = net, pc_share_uts = uts, pc_share_pid = pid,
        pc_infra = pa_infra a \<and> \<not> pa_no_infra a, pc_network = pa_network a\<rparr>)"

definition create_pod :: "pod_host \<Rightarrow> str \<Rightarrow> int \<Rightarrow> pod_args \<Rightarrow> str cmd" where
  "create_pod ph rid now a =
     follow (from_res (parse_each (pa_ports a))) (\<lambda>ports.
     follow (on_pods (create_with_config (rh_io (ph_run ph)) rid now (pod_config_of a ports))) (\<lambda>p.
     follow (if pa_infra a \<and> \<not> pa_no_infra a then follow (ensure_pod_infra_container ph p) (\<lambda>_. give ()) else give ()) (\<lambda>_.
     give (pd_id p))))"

text \<open>\<open>op\<close> on each query in turn, until one fails; \<open>n\<close> counts those before.\<close>

fun each_at :: "(nat \<Rightarrow> str \<Rightarrow> unit cmd) \<Rightarrow> nat \<Rightarrow> str list \<Rightarrow> unit cmd" where
  "each_at op n [] = give ()"
| "each_at op n (q # qs) = follow (op n q) (\<lambda>_. each_at op (Suc n) qs)"

definition on_members ::
  "(pod_file \<times> container_file \<Rightarrow> 'a res \<times> pod_file \<times> container_file) \<Rightarrow> unit cmd" where
  "on_members f w =
     (case f (rw_pods w, rw_containers w) of
        (r, pf, cf) \<Rightarrow> (map_sum (\<lambda>e. e) (\<lambda>_. ()) r, w\<lparr>rw_pods := pf, rw_containers := cf\<rparr>, []))"

definition found_pod :: "io \<Rightarrow> str \<Rightarrow> pod cmd" where
  "found_pod io q =
     follow (inspect (\<lambda>w. pod_find io q (rw_pods w))) (\<lambda>found.
     case found of Some p \<Rightarrow> give p | None \<Rightarrow> from_res (Inl (Not_found q)))"

definition start_pod_members :: "pod_host \<Rightarrow> pod \<Rightarrow> unit cmd" where
  "start_pod_members ph p =
     (let io = rh_io (ph_run ph); start = (\<lambda>q. ignoring (on_containers (start_container io (ph_start ph) q))) in
      follow (ensure_pod_infra_container ph p) (\<lambda>_.
      follow (start (infra_name p)) (\<lambda>_.
      follow (each_at (\<lambda>_. start) 0 (pd_containers p)) (\<lambda>_.
      on_pods (pod_update_status io (pd_name p) ''Running'')))))"

datatype pod_action =
    Create_action str int pod_args
  | Rm_action bool "str list"
  | Stop_action "str list"
  | Start_action "str list"
  | Restart_action "str list"
  | Kill_action str "str list"
  | Pause_action "str list"
  | Unpause_action "str list"
  | Prune_action
  | Exists_action str
  | Clone_action str "str list" str str

record pod_engine =
  pe_io :: io
  pe_engine :: engine_host
  pe_killer :: kill_host
  pe_clone :: clone_host
  pe_pods :: "nat \<Rightarrow> pod_host"

text \<open>The actions that change an index, and \<open>exists\<close>; the others print what they find.\<close>

fun handle_pod :: "pod_engine \<Rightarrow> pod_action \<Rightarrow> unit cmd" where
  "handle_pod pe (Create_action rid now a) = follow (create_pod (pe_pods pe 0) rid now a) (\<lambda>_. give ())"
| "handle_pod pe (Rm_action force qs) =
     each_at (\<lambda>_ q. on_members (pod_remove_with_force (pe_io pe) (pe_engine pe) q force)) 0 qs"
| "handle_pod pe (Stop_action qs) =
     each_at (\<lambda>_ q. follow (found_pod (pe_io pe) q) (\<lambda>p. on_members (stop_pod_members (pe_io pe) (pe_engine pe) p))) 0 qs"
| "handle_pod pe (Start_action qs) =
     each_at (\<lambda>n q. follow (found_pod (pe_io pe) q) (start_pod_members (pe_pods pe n))) 0 qs"
| "handle_pod pe (Restart_action qs) =
     each_at (\<lambda>n q. follow (found_pod (pe_io pe) q) (\<lambda>p.
       follow (on_members (stop_pod_members (pe_io pe) (pe_engine pe) p)) (\<lambda>_. start_pod_members (pe_pods pe n) p))) 0 qs"
| "handle_pod pe (Kill_action sig qs) = each_at (\<lambda>_ q. on_members (kill_pod (pe_io pe) (pe_killer pe) sig q)) 0 qs"
| "handle_pod pe (Pause_action qs) = each_at (\<lambda>_ q. on_members (switch_pod (pe_io pe) True q)) 0 qs"
| "handle_pod pe (Unpause_action qs) = each_at (\<lambda>_ q. on_members (switch_pod (pe_io pe) False q)) 0 qs"
| "handle_pod pe Prune_action =
     follow (inspect rw_containers) (\<lambda>cf. follow (on_pods (pod_prune (pe_io pe) cf)) (\<lambda>_. give ()))"
| "handle_pod pe (Exists_action q) = follow (found_pod (pe_io pe) q) (\<lambda>_. give ())"
| "handle_pod pe (Clone_action rid fresh source target) =
     on_members (clone_pod (pe_io pe) (pe_clone pe) rid fresh source target)"

section \<open>Properties\<close>

definition has_pod :: "str \<Rightarrow> run_world \<Rightarrow> bool" where
  "has_pod q w \<longleftrightarrow> find (p_matches q) (load_unlocked (rw_pods w)) \<noteq> None"

lemma has_pod_frames: "frames rw_pods c \<Longrightarrow> frames (has_pod q) c"
  by (simp add: frames_def has_pod_def)

lemma create_impl_frames: "frames rw_pods (create_only_container_impl h nets opts)"
  by (auto simp: create_only_container_impl_def intro!: cmd_rules layers_frames split: prod.splits)

lemma find_update_None:
  "(\<And>x. P (f x) = P x) \<Longrightarrow> find P (update_first m f xs) = None \<longleftrightarrow> find P xs = None"
  by (induction xs) auto

lemma set_infra_frames: "frames (has_pod q) (on_pods (set_infra_container_id io n i))"
  by (auto simp: frames_def has_pod_def on_pods_def set_infra_container_id_def change_pod_def with_index_lock_def
      commit_def save_unlocked_def Let_def find_update_None p_matches_def simp del: not_None_eq
      split: option.splits prod.splits if_splits)

lemma ensure_frames: "frames (has_pod q) (ensure_pod_infra_container ph p)"
proof -
  have "frames (has_pod q) (make_infra ph p)"
    unfolding make_infra_def Let_def
    by (intro cmd_rules has_pod_frames [OF create_impl_frames] has_pod_frames [OF frames_basic(11)] set_infra_frames)
  then show ?thesis
    unfolding ensure_pod_infra_container_def Let_def
    by (auto intro!: cmd_rules has_pod_frames [OF frames_basic(11)] split: option.splits)
qed

lemma make_infra_Inl: "make_infra ph p w = (Inl e, w', es) \<Longrightarrow> rw_pods w' = rw_pods w"
  unfolding make_infra_def Let_def follow_Inl basic_Inl basic_Inr
  by (auto dest: framesD [OF create_impl_frames] simp: on_containers_result)

lemma ensure_Inl: "ensure_pod_infra_container ph p w = (Inl e, w', es) \<Longrightarrow> rw_pods w' = rw_pods w"
  by (auto simp: ensure_pod_infra_container_def follow_Inl Let_def dest: make_infra_Inl split: option.splits if_splits)

text \<open>
  When the infra container of a new pod cannot be made, the creation of the pod is reported as
  failed but the pod is in the index, and the same command fails from then on because the name exists.
\<close>

theorem failed_pod_blocks_name:
  assumes "create_pod ph rid now a w = (Inl e, w', es)" and "parse_each (pa_ports a) = Inr ports"
    and "create_with_config (rh_io (ph_run ph)) rid now (pod_config_of a ports) (rw_pods w) = (Inr p, pf)"
    and "pa_name a = Some n" and "trim n \<noteq> []" and "rh_io (ph_run ph') = rh_io (ph_run ph)"
  shows "p \<in> set (load_unlocked (rw_pods w')) \<and>
    create_pod ph' rid' now' a w' = (Inl (Already_exists (pd_name p)), w', [])"
proof -
  have "rw_pods w' = pf"
    using assms(1-3) unfolding create_pod_def follow_Inl basic_Inl basic_Inr
    by (auto simp: on_pods_def follow_Inl dest!: ensure_Inl split: if_splits)
  moreover have p: "lock_ok (rh_io (ph_run ph))" "pf = Records (load_unlocked (rw_pods w) @ [p])" "pd_name p = trim n"
    using assms(3-5) by (auto simp: create_with_config_def pod_config_of_def pod_name_for_def Let_def split: if_splits prod.splits)
  ultimately show ?thesis using assms(2,4-6)
    by (simp add: create_pod_def follow_def from_res_def on_pods_def create_with_config_def with_index_lock_def
        pod_config_of_def pod_name_for_def Let_def split: prod.splits)
qed

lemma create_impl_Inr:
  assumes "create_only_container_impl h nets opts w = (Inr cid, w', es)"
  shows "cid = rh_id h" and "\<exists>r. c_id r = rh_id h \<and> c_name r = container_name_for h opts \<and>
    container_add (rh_io h) r (rw_containers w) = (Inr (), rw_containers w')"
proof -
  let ?rec = "\<lambda>img policy ports s. new_record h opts (container_name_for h opts) img policy ports s Created"
  obtain img policy ports s mounts u w1 w2 w3 w4 e1 e2 e3 e4 e5 where
    p: "local_or_pulled h opts w = (Inr img, w1, e1)" and
    v: "on_volumes (resolve_all (rh_io h) (rh_vol h) (rh_vol_id h) (rh_now h) 0 (o_volumes opts)) w1 = (Inr mounts, w2, e2)" and
    l: "make_layers h img w2 = (Inr (), w3, e3)" and b: "save_bundle h opts s w3 = (Inr (), w4, e4)" and
    c: "on_containers (container_add (rh_io h) (?rec img policy ports s)) w4 = (Inr u, w', e5)" and "cid = rh_id h"
    using assms unfolding create_only_container_impl_def follow_Inr basic_Inr with_files_Inr split_beta
    by (elim exE conjE) simp
  then show "cid = rh_id h" by simp
  have "rw_containers w4 = rw_containers w"
    using framesD [OF layers_frames(3) [where g = rw_containers] b] framesD [OF layers_frames(1) [where g = rw_containers] l]
        framesD [OF frames_basic(6) v]
      framesD [OF pulled_frames(1) p] by simp
  then show "\<exists>r. c_id r = rh_id h \<and> c_name r = container_name_for h opts \<and>
    container_add (rh_io h) r (rw_containers w) = (Inr (), rw_containers w')"
    using c by (intro exI [of _ "?rec img policy ports s"]) (auto simp: on_containers_result new_record_def intro: prod_eqI)
qed

lemma start_created:
  assumes "start_container io sh q f = (Inr (), f')" and "load_unlocked f = cs @ [r]" and "c_matches (trim q) r"
    and "\<forall>c\<in>set cs. \<not> c_matches (trim q) c" and "\<forall>c\<in>set cs. \<not> c_matches (c_id r) c" and "trim q \<noteq> []"
  shows "load_unlocked f' = cs @ [r\<lparr>c_status := Running\<rparr>]"
proof -
  have n: "find (c_matches (trim q)) cs = None" using assms(4) by (simp add: find_None_iff)
  then have q: "find (c_matches (trim q)) (cs @ [r]) = Some r" using assms(3) by (induction cs) (auto split: if_splits)
  have "container_find io q f = (if lock_ok io then Some r else None)"
    using assms(2,6) q by (simp add: container_find_def find_locked_def Let_def)
  then show ?thesis using assms(1,2) update_own(2,3) [OF assms(5)]
    by (auto simp: start_container_def update_status_def change_first_Inr split: if_splits sum.splits prod.splits)
qed

text \<open>
  C35. The infra container of a pod that had none is recorded as running under the name the pod looks
  for, with the id that was drawn, which matches no container, and no pod appears or disappears.
\<close>

theorem infra_recorded:
  assumes "ensure_pod_infra_container ph p w = (Inr n, w', es)" and "infra_of (rh_io (ph_run ph)) p (rw_containers w) = None"
    and "\<forall>c\<in>set (load_unlocked (rw_containers w)). \<not> c_matches (rh_id (ph_run ph)) c"
    and "trim (infra_name p) = infra_name p"
  shows "n = infra_name p \<and> map pd_name (load_unlocked (rw_pods w')) = map pd_name (load_unlocked (rw_pods w)) \<and>
    (\<exists>r. load_unlocked (rw_containers w') = load_unlocked (rw_containers w) @ [r] \<and>
       c_id r = rh_id (ph_run ph) \<and> c_name r = infra_name p \<and> c_status r = Running)"
proof -
  let ?h = "ph_run ph" and ?cs = "load_unlocked (rw_containers w)"
  obtain img cid w1 w2 w3 es1 es2 es3 where
    c: "create_only_container_impl ?h (ph_networks ph) (infra_options p img) w = (Inr cid, w1, es1)" and
    s: "on_containers (start_container (rh_io ?h) (ph_start ph) (infra_name p)) w1 = (Inr (), w2, es2)" and
    i: "ignoring (on_pods (set_infra_container_id (rh_io ?h) (pd_name p) cid)) w2 = (Inr (), w', es3)" and n: "n = infra_name p"
    using assms(1,2) unfolding ensure_pod_infra_container_def make_infra_def Let_def by (auto simp: follow_Inr)
  obtain r where r: "c_id r = rh_id ?h" "c_name r = infra_name p"
    and a: "container_add (rh_io ?h) r (rw_containers w) = (Inr (), rw_containers w1)"
    using create_impl_Inr(2) [OF c] by (auto simp: container_name_for_def infra_options_def)
  have ne: "trim (infra_name p) \<noteq> []" using assms(4) by (simp add: infra_name_def)
  have lock: "lock_ok (rh_io ?h)" and w1: "load_unlocked (rw_containers w1) = ?cs @ [r]"
    using a update_own(1) [of ?cs r] assms(3) r by (simp_all add: container_add_Inr)
  have fresh: "\<forall>c\<in>set ?cs. \<not> c_matches (trim (infra_name p)) c"
    using assms(2) lock ne by (auto simp: infra_of_def or_else_def container_find_def find_locked_def Let_def find_None_iff
        split: option.splits)
  have "start_container (rh_io ?h) (ph_start ph) (infra_name p) (rw_containers w1) = (Inr (), rw_containers w2)"
    using s by (auto simp: on_containers_result intro: prod_eqI)
  from start_created [OF this w1 _ fresh _ ne] have "load_unlocked (rw_containers w2) = ?cs @ [r\<lparr>c_status := Running\<rparr>]"
    using assms(3,4) r by (simp add: c_matches_def)
  moreover have "frames rw_containers (ignoring (on_pods (set_infra_container_id (rh_io ?h) (pd_name p) cid)))"
    by (intro cmd_rules)
  from framesD [OF this i] have "rw_containers w' = rw_containers w2" .
  moreover have "map pd_name (load_unlocked (rw_pods w')) = map pd_name (load_unlocked (rw_pods w2))"
    using i by (auto simp: ignoring_def on_pods_def set_infra_container_id_def change_pod_def with_index_lock_def
        commit_def save_unlocked_def Let_def split: option.splits prod.splits if_splits)
  moreover have "rw_pods w2 = rw_pods w" using framesD [OF create_impl_frames c] s by (auto simp: on_containers_result)
  ultimately show ?thesis using n r by simp
qed

section \<open>Witnesses\<close>

definition sample_pod_args :: pod_args where
  "sample_pod_args = \<lparr>pa_name = Some ''web'', pa_ports = [], pa_hostname = None, pa_labels = [], pa_dns = [],
     pa_memory = None, pa_cpus = None, pa_network = None, pa_share = ''net'', pa_infra = True, pa_no_infra = False\<rparr>"

definition sample_start :: start_host where
  "sample_start = \<lparr>spec_ok = \<lambda>_. True, execute_bundle = \<lambda>_. Inr 0, ports_ok = \<lambda>_. True\<rparr>"

definition sample_pod_host :: "bool \<Rightarrow> pod_host" where
  "sample_pod_host b = \<lparr>ph_run = (run_sample (\<lambda>_. Inr 0))\<lparr>rh_mkdir := b\<rparr>, ph_networks = Missing, ph_start = sample_start\<rparr>"

definition web_pod :: pod where
  "web_pod = \<lparr>pd_id = ''0123'', pd_name = ''web'', pd_created_at = 5, pd_status = ''Created'', pd_infra = ''web-infra'',
     pd_containers = [], pd_ports = [], pd_hostname = None, pd_labels = [], pd_dns = [], pd_memory = None, pd_cpus = None,
     pd_share_ipc = False, pd_share_net = True, pd_share_uts = False, pd_share_pid = False, pd_network = None\<rparr>"

lemma sample_hosts [simp]:
  "rh_io (ph_run (sample_pod_host b)) = io_good" "rh_arch (ph_run (sample_pod_host b)) = ''x86_64''"
  "rh_mkdir (ph_run (sample_pod_host b)) = b" "rh_cow (ph_run (sample_pod_host b))" "rh_save (ph_run (sample_pod_host b))"
  "rh_pull (ph_run (sample_pod_host b)) q r f = (Inr run_image, f)" "rh_id (ph_run (sample_pod_host b)) = ''abcdef0123''"
  "ph_start (sample_pod_host b) = sample_start" "ph_networks (sample_pod_host b) = Missing"
  by (simp_all add: sample_pod_host_def run_sample_def)

lemma world_parts [simp]:
  "rw_images run_world_sample = Missing" "rw_containers run_world_sample = Missing" "rw_volumes run_world_sample = Missing"
  "rw_pods run_world_sample = Missing"
  by (simp_all add: run_world_sample_def)

lemma always_policy: "parse_restart_policy ''always'' = Inr Always"
  by code_simp

lemma infra_flags:
  "easy (infra_options p img)" "restart_flag (infra_options p img) = Inr Always" "check_flags (infra_options p img) = Inr ()"
  "o_network (infra_options p img) = ''bridge''" "o_volumes (infra_options p img) = []"
  "o_ports (infra_options p img) = map infra_port (pd_ports p)" "o_cidfile (infra_options p img) = None"
  "o_name (infra_options p img) = Some (infra_name p)" "limits_of pc (infra_options p img) = Inr no_limits"
  by (simp_all add: easy_def infra_options_def detached_options_def restart_flag_def check_flags_def optional_def
      limits_of_def memory_flag_def no_limits_def always_policy)

lemma no_image [simp]: "find_with_platform io_good arch q plat Missing = None"
  by (rule sample_finds_no_image)

lemma no_infra_yet: "infra_of io_good p Missing = None"
  by (simp add: infra_of_def or_else_def container_find_def find_locked_def Let_def)

lemma impl_needs_directory:
  "create_only_container_impl (ph_run (sample_pod_host False)) Missing (infra_options web_pod img) w =
     (Inl Io_failed, w, [])" if "rw_images w = Missing"
  using that
  by (simp add: create_only_container_impl_def follow_def give_def from_res_def require_def emit_def inspect_def infra_flags
      local_or_pulled_def on_images_def on_volumes_def parse_ports_def make_layers_def known_network_def web_pod_def)

theorem failed_pod_blocks_name_witness:
  "\<exists>e w' es. create_pod (sample_pod_host False) ''0123'' 5 sample_pod_args run_world_sample = (Inl e, w', es) \<and>
     web_pod \<in> set (load_unlocked (rw_pods w')) \<and>
     create_pod (sample_pod_host True) ''4567'' 6 sample_pod_args w' = (Inl (Already_exists ''web''), w', [])"
proof -
  have n: "trim ''web'' = ''web''" and s: "parse_pod_share ''net'' = (False, True, False, False)" by (code_simp, code_simp)
  have c: "create_with_config io_good ''0123'' 5 (pod_config_of sample_pod_args []) Missing = (Inr web_pod, Records [web_pod])"
    by (simp add: create_with_config_def pod_config_of_def sample_pod_args_def pod_name_for_def Let_def n s web_pod_def)
  have p: "parse_each (pa_ports sample_pod_args) = Inr []" by (simp add: sample_pod_args_def)
  have f: "create_pod (sample_pod_host False) ''0123'' 5 sample_pod_args run_world_sample =
      (Inl Io_failed, run_world_sample\<lparr>rw_pods := Records [web_pod]\<rparr>, [])"
    by (simp add: create_pod_def follow_def from_res_def p on_pods_def c) (simp add: sample_pod_args_def
        ensure_pod_infra_container_def make_infra_def follow_def inspect_def no_infra_yet impl_needs_directory Let_def)
  from failed_pod_blocks_name [OF f p, of web_pod "Records [web_pod]" "''web''" "sample_pod_host True" "''4567''" 6] c n f
  show ?thesis by (simp add: sample_pod_args_def) (simp add: web_pod_def)
qed

theorem infra_recorded_witness:
  "\<exists>w' es. ensure_pod_infra_container (sample_pod_host True) web_pod run_world_sample = (Inr ''web-infra'', w', es) \<and>
     map c_name (load_unlocked (rw_containers w')) = [''web-infra''] \<and> map c_status (load_unlocked (rw_containers w')) = [Running]"
proof -
  let ?h = "ph_run (sample_pod_host True)" and ?o = "infra_options web_pod ''alpine:latest''"
  obtain s fs where s: "create_spec io_good (spec_host_of ?h Missing) ''x86_64'' None Missing ?o = (Inr (s, no_limits), fs)"
    using easy_specs(2) [OF infra_flags(1) infra_flags(9)] by blast
  have n: "container_name_for ?h ?o = ''web-infra''"
    by (simp add: container_name_for_def infra_flags infra_name_def web_pod_def)
  have v: "valid_container_name ''web-infra''" and t: "trim ''web-infra'' = ''web-infra''" by (code_simp, code_simp)
  have i: "g_architecture (i_config run_image) = ''x86_64''" "g_config (i_config run_image) = None"
    by (simp_all add: run_image_def sample_image_def)
  have p: "pd_ports web_pod = []" and nm: "infra_name web_pod = ''web-infra''" by (simp_all add: web_pod_def infra_name_def)
  have w: "run_world_sample\<lparr>rw_images := Missing\<rparr> = run_world_sample" "run_world_sample\<lparr>rw_volumes := Missing\<rparr> = run_world_sample"
    by (simp_all add: run_world_sample_def)
  let ?r = "new_record ?h ?o ''web-infra'' run_image Always [] s Created"
  have a: "container_add io_good ?r Missing = (Inr (), Records [?r])"
    by (simp add: container_add_Inr new_record_def v)
  obtain es where c: "create_only_container_impl ?h Missing ?o run_world_sample =
      (Inr ''abcdef0123'', run_world_sample\<lparr>rw_containers := Records [?r]\<rparr>, es)"
    by (simp add: create_only_container_impl_def follow_def give_def from_res_def require_def emit_def inspect_def infra_flags
        local_or_pulled_def on_images_def on_volumes_def parse_ports_def make_layers_def known_network_def p w i n
        with_files_def write_files_def save_bundle_def s on_containers_def a)
  have m: "infra_image ?h Missing = ''alpine:latest''"
    by (simp add: infra_image_def image_find_def image_list_def list_locked_def or_else_def)
  have st: "start_container io_good sample_start ''web-infra'' (Records [?r]) = (Inr (), Records [?r\<lparr>c_status := Running\<rparr>])"
  proof -
    have r: "c_id ?r = ''abcdef0123''" "c_name ?r = ''web-infra''" "c_ports ?r = []" by (simp_all add: new_record_def)
    have "update_status io_good ''abcdef0123'' Running (Records [?r]) = (Inr (), Records [?r\<lparr>c_status := Running\<rparr>])"
      by (simp add: update_status_def change_first_Inr r c_matches_def)
    then show ?thesis
      by (simp add: start_container_def container_find_def find_locked_def Let_def t c_matches_def r sample_start_def)
  qed
  obtain w' es' where e: "ensure_pod_infra_container (sample_pod_host True) web_pod run_world_sample = (Inr ''web-infra'', w', es')"
    by (simp add: ensure_pod_infra_container_def make_infra_def Let_def follow_def inspect_def no_infra_yet m c nm
        on_containers_def st ignoring_def on_pods_def set_infra_container_id_def change_pod_def give_def)
  from infra_recorded [OF e] e show ?thesis by (auto simp: no_infra_yet nm t)
qed

end
