(* ===== verification/Kube.thy ===== *)
theory Kube
  imports Pod_Command
begin

text \<open>
  Kubernetes YAML (\<open>src/kube/mod.rs\<close>): playing documents as pods, containers and volumes, tearing
  them down, and the document generated for a pod or a container. A document is what the YAML
  decoder makes of it.
\<close>

section \<open>Documents\<close>

record kube_port =
  kp_container :: u16
  kp_host :: "u16 option"

record kube_env =
  ke_name :: str
  ke_value :: str

record kube_container =
  kc_name :: str
  kc_image :: str
  kc_command :: "str list option"
  kc_ports :: "kube_port list option"
  kc_env :: "kube_env list option"

record kube_pod =
  kd_name :: str
  kd_labels :: "(str \<times> str) list"
  kd_containers :: "kube_container list"

text \<open>
  What the code reads of a value: its kind, the name in its metadata, the number of replicas, the
  containers of its template and the pod it decodes to.
\<close>

record kube_value =
  kv_kind :: "str option"
  kv_name :: "str option"
  kv_replicas :: "nat option"
  kv_template :: "kube_container list option"
  kv_pod :: "kube_pod option"

record kube_host =
  kh_io :: io
  kh_vol :: vol_host
  kh_id :: str
  kh_now :: int
  kh_run :: "nat \<Rightarrow> run_host"

section \<open>Playing a pod\<close>

definition host_ports :: "kube_container \<Rightarrow> (u16 \<times> u16) list" where
  "host_ports c = concat (map (\<lambda>p. case kp_host p of Some hp \<Rightarrow> [(hp, kp_container p)] | None \<Rightarrow> [])
     (unwrap_or (kc_ports c) []))"

definition pod_ports :: "kube_container list \<Rightarrow> port_mapping list" where
  "pod_ports cs = map (\<lambda>(hp, cp). \<lparr>host_ip = None, host_port = hp, container_port = cp, pm_protocol = ''tcp''\<rparr>)
     (concat (map host_ports cs))"

definition member_name :: "str \<Rightarrow> kube_container \<Rightarrow> str" where
  "member_name pod_name c = pod_name @ ''-'' @ kc_name c"

definition kube_options :: "str \<Rightarrow> kube_container \<Rightarrow> run_options" where
  "kube_options pod_name c =
     (detached_options (kc_image c))\<lparr>
       o_name := Some (member_name pod_name c),
       o_env := map (\<lambda>e. ke_name e @ ''='' @ ke_value e) (unwrap_or (kc_env c) []),
       o_ports := map (\<lambda>(hp, cp). show_nat (unat hp) @ '':'' @ show_nat (unat cp)) (host_ports c),
       o_pod := Some pod_name,
       o_command := unwrap_or (kc_command c) []\<rparr>"

text \<open>A detached container is not run again, so no fuel is needed.\<close>

definition run_detached :: "run_host \<Rightarrow> run_options \<Rightarrow> int cmd" where
  "run_detached h opts w = the (run_container 0 h opts w)"

definition play_member :: "run_host \<Rightarrow> str \<Rightarrow> kube_container \<Rightarrow> unit cmd" where
  "play_member h pod_name c =
     follow (run_detached h (kube_options pod_name c)) (\<lambda>_.
     ignoring (on_pods (add_container_to_pod (rh_io h) pod_name (member_name pod_name c))))"

fun play_members :: "(nat \<Rightarrow> run_host) \<Rightarrow> nat \<Rightarrow> str \<Rightarrow> kube_container list \<Rightarrow> unit cmd" where
  "play_members hs n pod_name [] = give ()"
| "play_members hs n pod_name (c # cs) =
     follow (play_member (hs n) pod_name c) (\<lambda>_. play_members hs (Suc n) pod_name cs)"

definition play_pod :: "kube_host \<Rightarrow> kube_pod \<Rightarrow> unit cmd" where
  "play_pod h y =
     follow (on_pods (pod_create (kh_io h) (kh_id h) (kh_now h) (Some (kd_name y)) (pod_ports (kd_containers y)))) (\<lambda>p.
     play_members (kh_run h) 0 (pd_name p) (kd_containers y))"

section \<open>Playing documents\<close>

definition replica_name :: "str \<Rightarrow> nat \<Rightarrow> nat \<Rightarrow> str" where
  "replica_name name replicas i = (if replicas = 1 then name else name @ ''-'' @ show_nat (i + 1))"

text \<open>The replicas of a deployment, \<open>i\<close> of \<open>n\<close> played so far; labels of the template are dropped.\<close>

fun play_replicas :: "(nat \<Rightarrow> kube_host) \<Rightarrow> str \<Rightarrow> kube_container list \<Rightarrow> nat \<Rightarrow> nat list \<Rightarrow> unit cmd" where
  "play_replicas hs name cs n [] = give ()"
| "play_replicas hs name cs n (i # is) =
     follow (play_pod (hs i) \<lparr>kd_name = replica_name name n i, kd_labels = [], kd_containers = cs\<rparr>)
       (\<lambda>_. play_replicas hs name cs n is)"

definition play_volume :: "kube_host \<Rightarrow> str \<Rightarrow> unit cmd" where
  "play_volume h name =
     on_volumes (\<lambda>f. if volume_find (kh_io h) name f = None
       then (case volume_create (kh_io h) (kh_vol h) (kh_id h) (kh_now h) (plain_volume (Some name)) f of
               (r, f') \<Rightarrow> (map_sum (\<lambda>e. e) (\<lambda>_. ()) r, f'))
       else (Inr (), f))"

definition play_kube_value :: "(nat \<Rightarrow> kube_host) \<Rightarrow> kube_value \<Rightarrow> unit cmd" where
  "play_kube_value hs v =
     (let kind = unwrap_or (kv_kind v) [] in
      if kind = ''Pod'' then
        (case kv_pod v of Some y \<Rightarrow> play_pod (hs 0) y | None \<Rightarrow> from_res (Inl (Invalid_spec kind)))
      else if kind = ''Deployment'' then
        (case kv_template v of
           Some cs \<Rightarrow> play_replicas hs (unwrap_or (kv_name v) ''deployment'') cs (unwrap_or (kv_replicas v) 1)
             [0..<unwrap_or (kv_replicas v) 1]
         | None \<Rightarrow> from_res (Inl (Invalid_spec kind)))
      else if kind = ''Service'' then give ()
      else if kind = ''PersistentVolumeClaim'' \<or> kind = ''Volume'' then play_volume (hs 0) (unwrap_or (kv_name v) ''volume'')
      else from_res (Inl (Unsupported kind)))"

text \<open>A document that is not YAML ends the command; what was played before stays.\<close>

fun play_kube :: "(nat \<Rightarrow> nat \<Rightarrow> kube_host) \<Rightarrow> nat \<Rightarrow> kube_value option list \<Rightarrow> unit cmd" where
  "play_kube hs n [] = give ()"
| "play_kube hs n (None # ds) = from_res (Inl (Invalid_spec ''yaml''))"
| "play_kube hs n (Some v # ds) = follow (play_kube_value (hs n) v) (\<lambda>_. play_kube hs (Suc n) ds)"

section \<open>Tearing down\<close>

text \<open>Without a pod of that name, the containers it would have had are stopped and removed.\<close>

definition drop_member :: "io \<Rightarrow> engine_host \<Rightarrow> str \<Rightarrow> container_file \<Rightarrow> container_file" where
  "drop_member io e name cf =
     (if container_find io name cf = None then cf
      else drop_container io e True (snd (fst (stop_container io (e_bundles e) (e_reaper e) name None cf))) name)"

definition play_pod_down :: "io \<Rightarrow> engine_host \<Rightarrow> str \<Rightarrow> kube_container list \<Rightarrow> unit cmd" where
  "play_pod_down io e name cs w =
     (case pod_find io name (rw_pods w) of
        Some p \<Rightarrow>
          (case pod_remove_with_force io e (pd_name p) True (rw_pods w, rw_containers w) of
             (r, pf, cf) \<Rightarrow> (map_sum (\<lambda>e. e) (\<lambda>_. ()) r, w\<lparr>rw_pods := pf, rw_containers := cf\<rparr>, []))
      | None \<Rightarrow>
          (Inr (), w\<lparr>rw_containers := foldl (\<lambda>cf c. drop_member io e (member_name name c) cf) (rw_containers w) cs\<rparr>, []))"

fun down_replicas :: "io \<Rightarrow> engine_host \<Rightarrow> str \<Rightarrow> kube_container list \<Rightarrow> nat \<Rightarrow> nat list \<Rightarrow> unit cmd" where
  "down_replicas io e name cs n [] = give ()"
| "down_replicas io e name cs n (i # is) =
     follow (ignoring (play_pod_down io e (replica_name name n i) cs)) (\<lambda>_. down_replicas io e name cs n is)"

definition play_kube_down_value :: "io \<Rightarrow> engine_host \<Rightarrow> container list \<Rightarrow> kube_value \<Rightarrow> unit cmd" where
  "play_kube_down_value io e cs v =
     (let kind = unwrap_or (kv_kind v) [] in
      if kind = ''Pod'' then
        (case kv_pod v of Some y \<Rightarrow> play_pod_down io e (kd_name y) (kd_containers y) | None \<Rightarrow> give ())
      else if kind = ''Deployment'' then
        down_replicas io e (unwrap_or (kv_name v) ''deployment'') (unwrap_or (kv_template v) [])
          (unwrap_or (kv_replicas v) 1) [0..<unwrap_or (kv_replicas v) 1]
      else if kind = ''PersistentVolumeClaim'' \<or> kind = ''Volume'' then
        ignoring (on_volumes (volume_remove io (e_volumes e) cs (unwrap_or (kv_name v) ''volume'') False))
      else give ())"

fun play_kube_down :: "io \<Rightarrow> engine_host \<Rightarrow> kube_value option list \<Rightarrow> unit cmd" where
  "play_kube_down io e [] = give ()"
| "play_kube_down io e (None # ds) = play_kube_down io e ds"
| "play_kube_down io e (Some v # ds) =
     follow (inspect (\<lambda>w. container_list io (rw_containers w))) (\<lambda>cs.
     follow (ignoring (play_kube_down_value io e cs v)) (\<lambda>_. play_kube_down io e ds))"

section \<open>Generating\<close>

definition kube_container_of :: "container \<Rightarrow> kube_container" where
  "kube_container_of c =
     \<lparr>kc_name = c_name c, kc_image = c_image c,
      kc_command = (if c_command c = [] then None else Some (c_command c)),
      kc_ports = (if c_ports c = [] then None
        else Some (map (\<lambda>p. \<lparr>kp_container = container_port p, kp_host = Some (host_port p)\<rparr>) (c_ports c))),
      kc_env = None\<rparr>"

definition generate_kube :: "io \<Rightarrow> str \<Rightarrow> run_world \<Rightarrow> kube_pod res" where
  "generate_kube io target w =
     (case pod_find io target (rw_pods w) of
        Some p \<Rightarrow>
          Inr \<lparr>kd_name = pd_name p, kd_labels = [], kd_containers = map kube_container_of
            (concat (map (\<lambda>cid. case container_find io cid (rw_containers w) of Some c \<Rightarrow> [c] | None \<Rightarrow> []) (pd_containers p)))\<rparr>
      | None \<Rightarrow>
          (case container_find io target (rw_containers w) of
             Some c \<Rightarrow> Inr \<lparr>kd_name = c_name c, kd_labels = [], kd_containers = [kube_container_of c]\<rparr>
           | None \<Rightarrow> Inl (Not_found target)))"

section \<open>Properties\<close>

definition in_pod :: "str \<Rightarrow> str \<Rightarrow> run_world \<Rightarrow> bool" where
  "in_pod q x w \<longleftrightarrow> (case find (p_matches q) (load_unlocked (rw_pods w)) of
     None \<Rightarrow> False | Some p \<Rightarrow> x \<in> set (pd_containers p))"

lemma member_added:
  assumes "on_pods (add_container_to_pod io q x) w = (r, w', es)" and "lock_ok io" and "save_ok io" and "has_pod q w"
  shows "r = Inr ()" and "in_pod q x w'" and "in_pod q y w \<Longrightarrow> in_pod q y w'"
proof -
  obtain p where p: "find (p_matches q) (load_unlocked (rw_pods w)) = Some p"
    using assms(4) by (auto simp: has_pod_def)
  let ?upd = "\<lambda>p. p\<lparr>pd_containers := pd_containers p @ [x], pd_status := ''Running''\<rparr>"
  have m: "p_matches q (?upd p)" using find_SomeD [OF p] by (auto simp: p_matches_def)
  note f = find_update_first [where f = ?upd and p = "p_matches q", OF p m]
  show "r = Inr ()" and "in_pod q x w'" and "in_pod q y w \<Longrightarrow> in_pod q y w'"
    using assms(1-3) p f
    by (auto simp: on_pods_def add_container_to_pod_def with_index_lock_def commit_def save_unlocked_def in_pod_def
        Let_def split: if_splits)
qed

lemma ignored_member_added:
  assumes "ignoring (on_pods (add_container_to_pod io q x)) w = (r, w', es)" and "lock_ok io" and "save_ok io"
    and "has_pod q w"
  shows "in_pod q x w'" and "in_pod q y w \<Longrightarrow> in_pod q y w'"
  using assms(1) member_added [OF _ assms(2-4), of x] by (auto simp: ignoring_def split: prod.splits)

lemma prepare_has_pod:
  assumes "\<And>p. frames (has_pod q) (rh_infra h p)"
  shows "frames (has_pod q) (prepare_run h opts)"
  unfolding prepare_run_def join_pod_def using assms
  by (auto intro!: cmd_rules has_pod_frames [OF frames_basic(9)] has_pod_frames [OF pulled_frames(2)] split: option.splits)

lemma prepare_run_pod:
  assumes "prepare_run h opts w = (Inr p, w', es)"
  shows "o_pod (pp_options p) = o_pod opts"
proof -
  obtain w1 w2 es1 where "join_pod h opts w1 = (Inr (pp_options p), w2, es1)"
    using assms unfolding prepare_run_def follow_Inr basic_Inr with_files_Inr by fastforce
  then show ?thesis
    by (auto simp: join_pod_def follow_Inr pod_options_def Let_def split: option.splits)
qed

lemma finish_detached_frames: "frames rw_pods (finish_detached h p code)"
  by (auto simp: finish_detached_def intro!: cmd_rules)

text \<open>A detached run with a pod records the id of its container in the pod.\<close>

lemma detached_run_joins:
  assumes "run_detached h opts w = (Inr code, w', es)" and "o_detach opts" and "o_pod opts = Some q"
    and "has_pod q w" and "\<And>p. frames (has_pod q) (rh_infra h p)" and "lock_ok (rh_io h)" and "save_ok (rh_io h)"
  shows "in_pod q (rh_id h) w'"
proof -
  obtain p w1 es1 es2 where b: "begin_run h opts w = (Inr p, w1, es1)" and f: "finish_detached h p code w1 = (Inr code, w', es2)"
    using assms(1,2) unfolding run_detached_def run_container_def
    by (auto simp: Let_def after_def finish_detached_def follow_Inr split: prod.splits sum.splits if_splits)
  obtain w0 es3 es4 where p: "prepare_run h opts w = (Inr p, w0, es3)" and r: "register h p w0 = (Inr (), w1, es4)"
    using b by (auto simp: begin_run_Inr)
  have w0: "has_pod q w0" using framesD [OF prepare_has_pod [OF assms(5)] p] assms(4) by simp
  obtain u w2 es5 es6 where a: "on_containers (container_add (rh_io h) (started_record h p)) w0 = (Inr u, w2, es5)"
    and i: "ignoring (on_pods (add_container_to_pod (rh_io h) q (rh_id h))) w2 = (Inr (), w1, es6)"
    using r prepare_run_pod [OF p] assms(3) by (auto simp: register_def follow_Inr)
  have "has_pod q w2" using w0 a by (auto simp: has_pod_def on_containers_result)
  from ignored_member_added(1) [OF i assms(6,7) this]
  show ?thesis using framesD [OF finish_detached_frames f] by (simp add: in_pod_def)
qed

lemma play_member_joins:
  assumes "play_member h q c w = (Inr u, w', es)" and "has_pod q w" and "\<And>p. frames (has_pod q) (rh_infra h p)"
    and "lock_ok (rh_io h)" and "save_ok (rh_io h)"
  shows "in_pod q (rh_id h) w'" and "in_pod q (member_name q c) w'"
proof -
  obtain code w1 es1 es2 where r: "run_detached h (kube_options q c) w = (Inr code, w1, es1)"
    and i: "ignoring (on_pods (add_container_to_pod (rh_io h) q (member_name q c))) w1 = (Inr u, w', es2)"
    using assms(1) by (auto simp: play_member_def follow_Inr)
  have o: "o_detach (kube_options q c)" "o_pod (kube_options q c) = Some q"
    by (simp_all add: kube_options_def detached_options_def)
  have j: "in_pod q (rh_id h) w1" using detached_run_joins [OF r o assms(2,3,4,5)] .
  then have "has_pod q w1" by (auto simp: in_pod_def has_pod_def split: option.splits)
  from ignored_member_added [OF i assms(4,5) this] j
  show "in_pod q (rh_id h) w'" and "in_pod q (member_name q c) w'" by simp_all
qed

lemma counted_twice:
  assumes "x \<in> set xs" and "y \<in> set xs" and "x \<noteq> y" and "g x = Some r" and "g y = Some r"
  shows "2 \<le> count_list (map k (concat (map (\<lambda>i. case g i of Some c \<Rightarrow> [c] | None \<Rightarrow> []) xs))) (k r)"
proof -
  have "length (filter (\<lambda>i. g i = Some r) xs) \<le>
      count_list (map k (concat (map (\<lambda>i. case g i of Some c \<Rightarrow> [c] | None \<Rightarrow> []) xs))) (k r)"
    by (induction xs) (auto split: option.splits)
  moreover have "card {x, y} \<le> length (filter (\<lambda>i. g i = Some r) xs)"
    using assms by (intro order_trans [OF card_mono card_length]) auto
  ultimately show ?thesis using assms(3) by simp
qed

text \<open>
  C36. A container played into a pod becomes a member twice, under its id by the run and under its
  name by the player, and the document generated for the pod contains it twice: for a pod in the
  index, with the engine's own infra container, when the container is found by its id and its name.
\<close>

theorem kube_members_twice:
  assumes "play_member (in_pods ph h) q c w = (Inr u, w', es)" and "has_pod q w"
    and "lock_ok (rh_io h)" and "save_ok (rh_io h)" and "trim q = q" and "q \<noteq> []" and "rh_id h \<noteq> member_name q c"
    and "container_find (rh_io h) (rh_id h) (rw_containers w') = Some r"
    and "container_find (rh_io h) (member_name q c) (rw_containers w') = Some r"
  shows "\<exists>y. generate_kube (rh_io h) q w' = Inr y \<and> 2 \<le> count_list (kd_containers y) (kube_container_of r)"
proof -
  have h: "rh_io (in_pods ph h) = rh_io h" "rh_id (in_pods ph h) = rh_id h"
    "\<And>p. frames (has_pod q) (rh_infra (in_pods ph h) p)"
    by (simp_all add: in_pods_def ensure_frames)
  note joins = play_member_joins [OF assms(1,2) h(3), unfolded h, OF assms(3,4)]
  obtain p where p: "find (p_matches q) (load_unlocked (rw_pods w')) = Some p" and m: "rh_id h \<in> set (pd_containers p)"
    using joins(1) by (auto simp: in_pod_def split: option.splits)
  then have m': "member_name q c \<in> set (pd_containers p)"
    using joins(2) by (simp add: in_pod_def)
  have "pod_find (rh_io h) q (rw_pods w') = Some p"
    using p assms(3,5,6) by (simp add: pod_find_def find_locked_def Let_def)
  with counted_twice [OF m m' assms(7), where k = kube_container_of, OF assms(8,9)]
  show ?thesis by (simp add: generate_kube_def)
qed

section \<open>A pod played\<close>

definition shared_nothing :: pod where
  "shared_nothing = web_pod\<lparr>pd_share_net := False, pd_network := Some ''bridge''\<rparr>"

definition running_infra :: container where
  "running_infra = (sample_container ''ffff'' ''web-infra'')\<lparr>c_status := Running\<rparr>"

definition kube_world :: run_world where
  "kube_world = run_world_sample\<lparr>rw_containers := Records [running_infra], rw_pods := Records [shared_nothing]\<rparr>"

definition web_container :: kube_container where
  "web_container = \<lparr>kc_name = ''db'', kc_image = ''alpine'', kc_command = None, kc_ports = None, kc_env = None\<rparr>"

abbreviation kube_run :: run_host where
  "kube_run \<equiv> in_pods (sample_pod_host True) (run_sample (\<lambda>_. Inr 0))"

abbreviation kube_opts :: run_options where
  "kube_opts \<equiv> pod_options shared_nothing ''web-infra'' (kube_options ''web'' web_container)"

lemma kube_flags:
  "easy kube_opts" "o_pod kube_opts = Some ''web''" "o_cidfile kube_opts = None" "limits_of pc kube_opts = Inr no_limits"
  "health_test (health_config_of kube_opts) = []"
  by (simp_all add: easy_def pod_options_def kube_options_def detached_options_def shared_nothing_def web_pod_def
      apply_pod_to_run_args_def share_def limits_of_def memory_flag_def optional_def no_limits_def Let_def
      health_config_of_def default_health_config_def or_else_def web_container_def)

lemma kube_asked:
  "restart_flag (kube_options q c) = Inr No" "check_flags (kube_options q c) = Inr ()" "o_pod (kube_options q c) = Some q"
  "o_volumes (kube_options q c) = []" "o_ports (kube_options ''web'' web_container) = []" "o_detach (kube_options q c)"
  "o_name (kube_options q c) = Some (member_name q c)"
  by (simp_all add: kube_options_def detached_options_def restart_flag_def check_flags_def optional_def no_policy
      web_container_def host_ports_def)

lemma kube_host [simp]:
  "rh_io kube_run = io_good" "rh_arch kube_run = ''x86_64''" "rh_mkdir kube_run" "rh_cow kube_run" "rh_save kube_run"
  "rh_pull kube_run q r f = (Inr run_image, f)" "rh_id kube_run = ''abcdef0123''"
  "rh_infra kube_run = ensure_pod_infra_container (sample_pod_host True)" "rh_exec kube_run n = Inr 0"
  by (simp_all add: in_pods_def run_sample_def)

lemma kube_prepared:
  "\<exists>p es. prepare_run kube_run (kube_options ''web'' web_container) kube_world = (Inr p, kube_world, es) \<and>
     pp_name p = ''web-db'' \<and> pp_ports p = [] \<and> pp_options p = kube_opts"
proof -
  obtain s fs where s: "run_spec io_good (spec_host_of kube_run (Records [running_infra])) ''x86_64'' None (Records [running_infra]) kube_opts no_limits = (Inr s, fs)"
    using easy_specs(1) [OF kube_flags(1)] by blast
  have n: "container_name_for kube_run (kube_options ''web'' web_container) = ''web-db''"
    by (simp add: container_name_for_def kube_asked member_name_def web_container_def)
  have i: "g_architecture (i_config run_image) = ''x86_64''" "g_config (i_config run_image) = None"
    by (simp_all add: run_image_def sample_image_def)
  have w: "rw_images kube_world = Missing" "rw_containers kube_world = Records [running_infra]" "rw_volumes kube_world = Missing"
    "rw_pods kube_world = Records [shared_nothing]"
    "kube_world\<lparr>rw_images := Missing\<rparr> = kube_world" "kube_world\<lparr>rw_volumes := Missing\<rparr> = kube_world"
    by (simp_all add: kube_world_def run_world_sample_def)
  have t: "trim ''web'' = ''web''" and t': "trim ''web-infra'' = ''web-infra''" by (code_simp, code_simp)
  have f: "pod_find io_good ''web'' (Records [shared_nothing]) = Some shared_nothing"
    by (simp add: pod_find_def find_locked_def Let_def t p_matches_def shared_nothing_def web_pod_def)
  have e: "infra_of io_good shared_nothing (Records [running_infra]) = Some running_infra"
    by (simp add: infra_of_def container_find_def find_locked_def Let_def infra_name_def shared_nothing_def web_pod_def t'
        c_matches_def running_infra_def sample_container_def or_else_def)
  have r: "c_status running_infra = Running" "c_name running_infra = ''web-infra''"
    by (simp_all add: running_infra_def sample_container_def)
  have j: "join_pod kube_run (kube_options ''web'' web_container) kube_world = (Inr kube_opts, kube_world, [])"
    by (simp add: join_pod_def kube_asked follow_def inspect_def w f ensure_pod_infra_container_def e r give_def Let_def)
  have c: "ensure_no_conflicts [] cs = Inr ()" for cs by (induction cs) auto
  show ?thesis
    by (simp add: prepare_run_def follow_def give_def from_res_def require_def emit_def inspect_def kube_asked kube_flags n s w i c j
        local_or_pulled_def on_images_def on_volumes_def parse_ports_def make_layers_def with_files_def write_files_def save_bundle_def)
qed

theorem kube_members_twice_witness:
  "\<exists>w' es r y. play_member kube_run ''web'' web_container kube_world = (Inr (), w', es) \<and>
     generate_kube io_good ''web'' w' = Inr y \<and> 2 \<le> count_list (kd_containers y) (kube_container_of r) \<and> c_name r = ''web-db''"
proof -
  obtain p es where p: "prepare_run kube_run (kube_options ''web'' web_container) kube_world = (Inr p, kube_world, es)"
    and q: "pp_name p = ''web-db''" "pp_ports p = []" "pp_options p = kube_opts"
    using kube_prepared by blast
  let ?r = "started_record kube_run p"
  have v: "valid_container_name ''web-db''" and t: "trim ''web'' = ''web''" and t': "trim ''web-db'' = ''web-db''"
    and i: "trim ''abcdef0123'' = ''abcdef0123''" by (code_simp, code_simp, code_simp, code_simp)
  have r: "c_id ?r = ''abcdef0123''" "c_name ?r = ''web-db''" by (simp_all add: new_record_def q)
  have x: "c_id running_infra = ''ffff''" "c_name running_infra = ''web-infra''"
    by (simp_all add: running_infra_def sample_container_def)
  have w: "rw_containers kube_world = Records [running_infra]" "rw_pods kube_world = Records [shared_nothing]"
    by (simp_all add: kube_world_def)
  have a: "container_add io_good ?r (Records [running_infra]) = (Inr (), Records [running_infra, ?r])"
    by (simp add: container_add_Inr r x v)
  have s: "has_pod ''web'' kube_world"
    by (simp add: has_pod_def w p_matches_def shared_nothing_def web_pod_def)
  have m: "member_name ''web'' web_container = ''web-db''" by (simp add: member_name_def web_container_def)
  have vm: "check_vm_pid kube_run = Inr ()" by (simp add: check_vm_pid_def in_pods_def run_sample_def)
  obtain r1 f1 where p1: "add_container_to_pod io_good ''web'' ''abcdef0123'' (Records [shared_nothing]) = (r1, f1)" by fastforce
  obtain r2 f2 where p2: "add_container_to_pod io_good ''web'' ''web-db'' f1 = (r2, f2)" by fastforce
  let ?w = "\<lambda>f. kube_world\<lparr>rw_containers := Records [running_infra, ?r], rw_pods := f\<rparr>"
  obtain es1 where reg: "register kube_run p kube_world = (Inr (), ?w f1, es1)"
    using a p1 by (simp add: register_def follow_def emit_def on_containers_def w q kube_flags ignoring_def on_pods_def)
  obtain es2 where run: "run_detached kube_run (kube_options ''web'' web_container) kube_world = (Inr 0, ?w f1, es2)"
    by (simp add: run_detached_def run_container_def begin_run_def follow_def p reg give_def kube_asked finish_detached_def
        from_res_def require_def vm after_def q kube_flags Let_def)
  obtain w' es' where play: "play_member kube_run ''web'' web_container kube_world = (Inr (), w', es')"
    and w': "rw_containers w' = Records [running_infra, ?r]"
    by (simp add: play_member_def follow_def run ignoring_def on_pods_def m p2)
  have f: "container_find io_good ''abcdef0123'' (rw_containers w') = Some ?r" "container_find io_good ''web-db'' (rw_containers w') = Some ?r"
    by (simp_all add: container_find_def find_locked_def Let_def i t' w' c_matches_def r x starts_with_def)
  have h: "rh_io (run_sample (\<lambda>_. Inr 0)) = io_good" "rh_id (run_sample (\<lambda>_. Inr 0)) = ''abcdef0123''"
    by (simp_all add: run_sample_def)
  from kube_members_twice [OF play s, unfolded h m, OF _ _ t _ _ f] play r(2) show ?thesis by auto
qed

end
