(* ===== verification/Listing.thy ===== *)
theory Listing
  imports Lifecycle Image_Store Limits "HOL-Library.Multiset"
begin

text \<open>
  What \<open>ps\<close>, \<open>images\<close> and \<open>port\<close> print (\<open>list_containers\<close>, \<open>list_images\<close>, \<open>port_container\<close> and their
  helpers in \<open>src/lib.rs\<close>): the filters, the order, the cuts and the lines. Dates and sizes are
  printed by the host, JSON by its encoder.

  Shown: without a cut, \<open>ps\<close> lists, the latest first, exactly the containers its flags and its
  status, name, ancestor and id filters admit; filters of the other accepted keys have no effect;
  and \<open>port\<close> with a port that is not a number prints nothing.
\<close>

section \<open>Text\<close>

text \<open>\<open>str::replace\<close> for a pattern that is not empty, and \<open>{:<n}\<close>.\<close>

function replace_all :: "str \<Rightarrow> str \<Rightarrow> str \<Rightarrow> str" where
  "replace_all p w [] = []"
| "replace_all p w (c # s) =
     (if p \<noteq> [] \<and> starts_with (c # s) p then w @ replace_all p w (drop (length p) (c # s))
      else c # replace_all p w s)"
  by pat_completeness auto
termination by (relation "measure (\<lambda>(p, w, s). length s)") auto

definition pad :: "nat \<Rightarrow> str \<Rightarrow> str" where
  "pad n s = s @ replicate (n - length s) CHR '' ''"

definition row :: "(nat \<times> str) list \<Rightarrow> str" where
  "row cells = join '' '' (map (\<lambda>(n, s). pad n s) cells)"

definition short_id :: "bool \<Rightarrow> str \<Rightarrow> str" where
  "short_id no_trunc i = (if no_trunc then i else take 12 i)"

text \<open>A duration is given in seconds.\<close>

definition format_running_for :: "int \<Rightarrow> str" where
  "format_running_for d =
     (if d div 86400 > 0 then show_int (d div 86400) @ '' days ago''
      else if d div 3600 > 0 then show_int (d div 3600) @ '' hours ago''
      else if d div 60 > 0 then show_int (d div 60) @ '' minutes ago''
      else ''Less than a minute ago'')"

definition format_container_ports :: "port_mapping list \<Rightarrow> str" where
  "format_container_ports ps =
     join '', '' (map (\<lambda>p. unwrap_or (host_ip p) ''0.0.0.0'' @ '':'' @ show_port (host_port p) @ '':'' @
       show_port (container_port p) @ ''/'' @ pm_protocol p) ps)"

datatype listing = Lines "str list" | Containers_json "container list" | Images_json "image_record list"

record list_host =
  lh_date :: "int \<Rightarrow> str"
  lh_bytes :: "int \<Rightarrow> str"
  lh_image_size :: "int \<Rightarrow> str"
  lh_dir_size :: "str \<Rightarrow> int"
  lh_now :: int

section \<open>ps\<close>

record ps_args =
  ps_all :: bool
  ps_quiet :: bool
  ps_size :: bool
  ps_no_trunc :: bool
  ps_format :: "str option"
  ps_last :: "nat option"
  ps_latest :: bool
  ps_filter :: "str list"

definition state_text :: "container_status \<Rightarrow> str" where
  "state_text s =
     (case s of Running \<Rightarrow> ''running'' | Exited _ \<Rightarrow> ''exited'' | Created \<Rightarrow> ''created'' | Paused \<Rightarrow> ''paused''
      | Failed _ \<Rightarrow> ''failed'')"

definition ps_filter_holds :: "container \<Rightarrow> str \<Rightarrow> bool" where
  "ps_filter_holds c f =
     (case split_once CHR ''='' f of
        None \<Rightarrow> True
      | Some (k, v) \<Rightarrow>
          (let k = trim k; v = trim v in
           if k = ''status'' then state_text (c_status c) = v
           else if k = ''name'' then contains_str (c_name c) v
           else if k = ''ancestor'' then contains_str (c_image c) v
           else if k = ''id'' then starts_with (c_id c) v
           else True))"

definition ps_shows :: "ps_args \<Rightarrow> container \<Rightarrow> bool" where
  "ps_shows a c \<longleftrightarrow>
     (ps_latest a \<or> ps_last a \<noteq> None \<or> ps_all a \<or> c_status c = Running) \<and> list_all (ps_filter_holds c) (ps_filter a)"

definition ps_rows :: "ps_args \<Rightarrow> container list \<Rightarrow> container list" where
  "ps_rows a cs =
     (let found = sort_key (\<lambda>c. - c_created_at c) (filter (ps_shows a) cs) in
      if ps_latest a then take 1 found
      else case ps_last a of Some n \<Rightarrow> take n found | None \<Rightarrow> found)"

definition command_text :: "container \<Rightarrow> str" where
  "command_text c = (if c_command c = [] then [] else [CHR 0x22] @ join '' '' (c_command c) @ [CHR 0x22])"

definition short_command :: "bool \<Rightarrow> container \<Rightarrow> str" where
  "short_command no_trunc c =
     (let t = command_text c in if length t > 18 \<and> \<not> no_trunc then take 15 t @ ''...'' else t)"

text \<open>The placeholders are replaced one after the other, also those in texts put in before.\<close>

definition ps_line :: "list_host \<Rightarrow> ps_args \<Rightarrow> str \<Rightarrow> container \<Rightarrow> str" where
  "ps_line h a fmt c =
     fold (\<lambda>(p, w) line. replace_all p w line)
       [(''{{.ID}}'', short_id (ps_no_trunc a) (c_id c)), (''{{.Names}}'', c_name c), (''{{.Image}}'', c_image c),
        (''{{.Status}}'', show_status (c_status c)), (''{{.State}}'', state_text (c_status c)),
        (''{{.Ports}}'', format_container_ports (c_ports c)), (''{{.Command}}'', command_text c),
        (''{{.CreatedAt}}'', lh_date h (c_created_at c)), (''{{.RunningFor}}'', format_running_for (lh_now h - c_created_at c)),
        (''{{.Size}}'', lh_bytes h (lh_dir_size h (c_bundle_path c)))] fmt"

definition ps_table :: "list_host \<Rightarrow> ps_args \<Rightarrow> container list \<Rightarrow> str list" where
  "ps_table h a cs =
     (if ps_size a then
        row [(14, ''CONTAINER ID''), (24, ''IMAGE''), (18, ''COMMAND''), (20, ''CREATED''), (14, ''STATUS''), (10, ''SIZE''),
          (16, ''NAMES'')] #
        map (\<lambda>c. row [(14, short_id (ps_no_trunc a) (c_id c)), (24, c_image c), (18, short_command (ps_no_trunc a) c),
          (20, lh_date h (c_created_at c)), (14, show_status (c_status c)),
          (10, lh_bytes h (lh_dir_size h (c_bundle_path c))), (16, c_name c)]) cs
      else
        row [(14, ''CONTAINER ID''), (24, ''IMAGE''), (20, ''COMMAND''), (20, ''CREATED''), (16, ''STATUS''), (16, ''NAMES'')] #
        map (\<lambda>c. row [(14, short_id (ps_no_trunc a) (c_id c)), (24, c_image c), (20, short_command (ps_no_trunc a) c),
          (20, lh_date h (c_created_at c)), (16, show_status (c_status c)), (16, c_name c)]) cs)"

fun check_filters :: "(str \<Rightarrow> unit res) \<Rightarrow> str list \<Rightarrow> unit res" where
  "check_filters ok [] = Inr ()"
| "check_filters ok (f # fs) =
     bind_res (case split_once CHR ''='' f of Some (k, _) \<Rightarrow> ok (trim k) | None \<Rightarrow> Inr ()) (\<lambda>_. check_filters ok fs)"

definition ps_listing ::
  "io \<Rightarrow> reap_host \<Rightarrow> list_host \<Rightarrow> ps_args \<Rightarrow> container_file \<Rightarrow> listing res \<times> container_file \<times> effect list" where
  "ps_listing io rh h a f =
     (case check_filters validate_ps_filter_key (ps_filter a) of
        Inl e \<Rightarrow> (Inl e, f, [])
      | Inr _ \<Rightarrow>
          (case reap_index io rh f of (_, es, f') \<Rightarrow>
             (let cs = ps_rows a (container_list io f') in
              (Inr (if ps_quiet a then Lines (map (\<lambda>c. short_id (ps_no_trunc a) (c_id c)) cs)
                    else case ps_format a of
                        Some fmt \<Rightarrow> if fmt = ''json'' then Containers_json cs else Lines (map (ps_line h a fmt) cs)
                      | None \<Rightarrow> Lines (ps_table h a cs)), f', es))))"

section \<open>images\<close>

record images_args =
  ia_quiet :: bool
  ia_no_trunc :: bool
  ia_digests :: bool
  ia_format :: "str option"
  ia_filter :: "str list"

definition image_filter_holds :: "image_record \<Rightarrow> str \<Rightarrow> bool" where
  "image_filter_holds i f =
     (case split_once CHR ''='' f of
        None \<Rightarrow> True
      | Some (k, v) \<Rightarrow>
          (let k = trim k; v = trim v; shown = display_reference i in
           if k = ''reference'' \<or> k = ''name'' then contains_str (shown @ '':'' @ i_tag i) v \<or> contains_str shown v
           else if k = ''id'' then starts_with (i_id i) v
           else True))"

definition image_line :: "list_host \<Rightarrow> images_args \<Rightarrow> str \<Rightarrow> image_record \<Rightarrow> str" where
  "image_line h a fmt i =
     fold (\<lambda>(p, w) line. replace_all p w line)
       [(''{{.ID}}'', short_id (ia_no_trunc a) (i_id i)), (''{{.Repository}}'', display_reference i), (''{{.Tag}}'', i_tag i),
        (''{{.Digest}}'', i_manifest_digest i), (''{{.Size}}'', lh_image_size h (i_size_bytes i)),
        (''{{.CreatedAt}}'', lh_date h (i_created_at i)), (''{{.CreatedSince}}'', format_running_for (lh_now h - i_created_at i))] fmt"

definition image_table :: "list_host \<Rightarrow> images_args \<Rightarrow> image_record list \<Rightarrow> str list" where
  "image_table h a imgs =
     (if ia_digests a then
        row [(24, ''REPOSITORY''), (12, ''TAG''), (32, ''DIGEST''), (16, ''IMAGE ID''), (24, ''CREATED''), (10, ''SIZE'')] #
        map (\<lambda>i. row [(24, display_reference i), (12, i_tag i), (32, take 32 (i_manifest_digest i)),
          (16, short_id (ia_no_trunc a) (i_id i)), (24, lh_date h (i_created_at i)), (10, lh_image_size h (i_size_bytes i))]) imgs
      else
        row [(28, ''REPOSITORY''), (12, ''TAG''), (16, ''IMAGE ID''), (24, ''CREATED''), (10, ''SIZE'')] #
        map (\<lambda>i. row [(28, display_reference i), (12, i_tag i), (16, short_id (ia_no_trunc a) (i_id i)),
          (24, lh_date h (i_created_at i)), (10, lh_image_size h (i_size_bytes i))]) imgs)"

definition list_images :: "io \<Rightarrow> list_host \<Rightarrow> images_args \<Rightarrow> image_file \<Rightarrow> listing res" where
  "list_images io h a f =
     bind_res (check_filters validate_image_filter_key (ia_filter a)) (\<lambda>_.
       let imgs = filter (\<lambda>i. list_all (image_filter_holds i) (ia_filter a)) (image_list io f) in
       Inr (if ia_quiet a then Lines (map (\<lambda>i. short_id (ia_no_trunc a) (i_id i)) imgs)
            else case ia_format a of
                Some fmt \<Rightarrow> if fmt = ''json'' then Images_json imgs else Lines (map (image_line h a fmt) imgs)
              | None \<Rightarrow> Lines (image_table h a imgs)))"

section \<open>port\<close>

definition port_query :: "str \<Rightarrow> (u16 \<times> str option) option" where
  "port_query q =
     (let (num, proto) = (case split_once CHR ''/'' q of Some (n, pr) \<Rightarrow> (n, Some (to_lowercase pr)) | None \<Rightarrow> (q, None)) in
      case parse_u16 num of Inr p \<Rightarrow> Some (p, proto) | Inl _ \<Rightarrow> None)"

definition port_asked :: "str option \<Rightarrow> port_mapping \<Rightarrow> bool" where
  "port_asked q p =
     (case q of
        None \<Rightarrow> True
      | Some t \<Rightarrow>
          (case port_query t of
             None \<Rightarrow> False
           | Some (n, proto) \<Rightarrow>
               container_port p = n \<and>
               (case proto of None \<Rightarrow> True | Some pr \<Rightarrow> eq_ignore_ascii_case (pm_protocol p) pr)))"

definition port_line :: "bool \<Rightarrow> port_mapping \<Rightarrow> str" where
  "port_line asked p =
     (let host = unwrap_or (host_ip p) ''0.0.0.0'' @ '':'' @ show_port (host_port p) in
      if asked then host else show_port (container_port p) @ ''/'' @ pm_protocol p @ '' -> '' @ host)"

definition port_container :: "io \<Rightarrow> str \<Rightarrow> str option \<Rightarrow> container_file \<Rightarrow> str list res" where
  "port_container io query port f =
     (case container_find io query f of
        None \<Rightarrow> Inl (Not_found query)
      | Some c \<Rightarrow> Inr (map (port_line (port \<noteq> None)) (filter (port_asked port) (c_ports c))))"

section \<open>Properties\<close>

lemma sorted_sort_key_wrt: "sorted_wrt (\<lambda>c d. f c \<le> f d) (sort_key f xs)"
  using sorted_sort_key [of f xs] by (simp add: sorted_map)

lemma contains_str_iff: "contains_str s p \<longleftrightarrow> (\<exists>a b. s = a @ p @ b)"
proof (induction s)
  case (Cons c s)
  show ?case
  proof
    assume "contains_str (c # s) p"
    then consider "\<exists>r. c # s = p @ r" | "\<exists>a b. s = a @ p @ b"
      using Cons.IH by (auto simp: starts_with_iff)
    then show "\<exists>a b. c # s = a @ p @ b" by cases (metis append_Nil, metis append_Cons)
  next
    assume "\<exists>a b. c # s = a @ p @ b"
    then obtain a b where e: "c # s = a @ p @ b" by blast
    show "contains_str (c # s) p"
    proof (cases a)
      case Nil
      then have "starts_with (c # s) p" using e by (auto simp: starts_with_iff)
      then show ?thesis by simp
    next
      case (Cons x xs)
      then show ?thesis using e Cons.IH by auto
    qed
  qed
qed simp

lemma split_once_iff: "split_once c s = Some (a, b) \<longleftrightarrow> s = a @ c # b \<and> c \<notin> set a"
  using split_once_SomeD by fastforce

text \<open>
  What a list of filters asks of a container, said on the texts: a filter \<open>k=v\<close> (the first equals
  sign divides it, blanks around both parts do not count) by status asks for the name of the
  status, by name or ancestor for a part of the name or of the image, by id for the beginning of
  the id. Every other filter asks for nothing.
\<close>

definition status_named :: "container_status \<Rightarrow> str \<Rightarrow> bool" where
  "status_named s v \<longleftrightarrow>
     s = Running \<and> v = ''running'' \<or> s = Created \<and> v = ''created'' \<or> s = Paused \<and> v = ''paused'' \<or>
     (\<exists>n. s = Exited n) \<and> v = ''exited'' \<or> (\<exists>m. s = Failed m) \<and> v = ''failed''"

definition asked_by_filters :: "str list \<Rightarrow> container \<Rightarrow> bool" where
  "asked_by_filters fs c \<longleftrightarrow>
     (\<forall>k v. k @ ''='' @ v \<in> set fs \<and> CHR ''='' \<notin> set k \<longrightarrow>
        (trim k = ''status'' \<longrightarrow> status_named (c_status c) (trim v)) \<and>
        (trim k = ''name'' \<longrightarrow> (\<exists>a b. c_name c = a @ trim v @ b)) \<and>
        (trim k = ''ancestor'' \<longrightarrow> (\<exists>a b. c_image c = a @ trim v @ b)) \<and>
        (trim k = ''id'' \<longrightarrow> (\<exists>b. c_id c = trim v @ b)))"

lemma state_text_named: "state_text s = v \<longleftrightarrow> status_named s v"
  by (cases s) (auto simp: state_text_def status_named_def)

lemma ps_filter_holds_iff:
  "ps_filter_holds c f \<longleftrightarrow>
     (\<forall>k v. f = k @ ''='' @ v \<and> CHR ''='' \<notin> set k \<longrightarrow>
        (trim k = ''status'' \<longrightarrow> status_named (c_status c) (trim v)) \<and>
        (trim k = ''name'' \<longrightarrow> (\<exists>a b. c_name c = a @ trim v @ b)) \<and>
        (trim k = ''ancestor'' \<longrightarrow> (\<exists>a b. c_image c = a @ trim v @ b)) \<and>
        (trim k = ''id'' \<longrightarrow> (\<exists>b. c_id c = trim v @ b)))"
proof (cases "split_once CHR ''='' f")
  case None
  then show ?thesis by (auto simp: ps_filter_holds_def)
next
  case (Some kv)
  obtain k v where kv: "kv = (k, v)" by (cases kv)
  then have f: "f = k' @ ''='' @ v' \<and> CHR ''='' \<notin> set k' \<longleftrightarrow> k' = k \<and> v' = v" for k' v'
    using Some split_once_iff [of "CHR ''=''" f k' v'] by auto
  show ?thesis unfolding f using Some kv
    by (simp add: ps_filter_holds_def Let_def state_text_named contains_str_iff starts_with_iff)
qed

lemma asked_by_filters_iff: "list_all (ps_filter_holds c) fs \<longleftrightarrow> asked_by_filters fs c"
  unfolding list_all_iff ps_filter_holds_iff asked_by_filters_def by blast

text \<open>
  C38. Without \<open>--latest\<close> and \<open>--last\<close>, \<open>ps -q --no-trunc\<close> prints the ids, the latest first, of exactly
  the containers of the reaped index that run (or all of them, with \<open>--all\<close>) and have the status,
  the part of a name, the part of an image and the beginning of an id its filters ask for. The
  other filters it accepts (label, publish, expose, network, volume) have no effect.
\<close>

theorem ps_lists_exactly:
  assumes "ps_listing io rh h a f = (Inr (Lines ls), f', es)" and "ps_quiet a" and "ps_no_trunc a"
    and "\<not> ps_latest a" and "ps_last a = None"
  shows "\<exists>cs. ls = map c_id cs \<and> sorted_wrt (\<lambda>c d. c_created_at d \<le> c_created_at c) cs \<and>
    mset cs = {#c \<in># mset (container_list io f').
      (ps_all a \<or> c_status c = Running) \<and> asked_by_filters (ps_filter a) c#}"
proof -
  let ?cs = "ps_rows a (container_list io f')"
  have "ls = map c_id ?cs"
    using assms(1-3) by (auto simp: ps_listing_def short_id_def Let_def split: sum.splits prod.splits)
  moreover have "ps_shows a = (\<lambda>c. (ps_all a \<or> c_status c = Running) \<and> asked_by_filters (ps_filter a) c)"
    using assms(4,5) by (auto simp: ps_shows_def fun_eq_iff asked_by_filters_iff)
  moreover have "?cs = sort_key (\<lambda>c. - c_created_at c) (filter (ps_shows a) (container_list io f'))"
    using assms(4,5) by (simp add: ps_rows_def)
  ultimately show ?thesis
    using sorted_sort_key_wrt [of "\<lambda>c. - c_created_at c" "filter (ps_shows a) (container_list io f')"]
    by (intro exI [of _ ?cs]) (simp add: mset_filter)
qed

lemma ps_filters_only:
  assumes "\<And>c. list_all (ps_filter_holds c) (ps_filter a) = list_all (ps_filter_holds c) (ps_filter b)"
    and "check_filters validate_ps_filter_key (ps_filter a) = check_filters validate_ps_filter_key (ps_filter b)"
    and "b = a\<lparr>ps_filter := ps_filter b\<rparr>"
  shows "ps_listing io rh h a f = ps_listing io rh h b f"
proof -
  obtain g where b: "b = a\<lparr>ps_filter := g\<rparr>" using assms(3) by blast
  have "ps_shows a = ps_shows b" using assms(1) by (simp add: ps_shows_def fun_eq_iff b)
  then have "ps_rows a = ps_rows b" by (intro ext) (simp add: ps_rows_def Let_def b)
  moreover have "ps_line h a = ps_line h b" "ps_table h a = ps_table h b"
    by (intro ext; simp add: ps_line_def ps_table_def b)+
  ultimately show ?thesis using assms(2) by (simp add: ps_listing_def b Let_def split: sum.split prod.split option.split)
qed

text \<open>
  A filter by label, published or exposed port, network or volume is accepted and ignored: \<open>ps\<close>
  prints the same with and without it.
\<close>

theorem ps_filters_ignored:
  assumes "split_once CHR ''='' g = Some (k, v)"
    and "trim k \<in> {''label'', ''publish'', ''expose'', ''network'', ''volume''}"
  shows "ps_listing io rh h (a\<lparr>ps_filter := g # gs\<rparr>) f = ps_listing io rh h (a\<lparr>ps_filter := gs\<rparr>) f"
proof (rule ps_filters_only)
  have "ps_filter_holds c g" for c using assms by (auto simp: ps_filter_holds_def Let_def)
  then show "list_all (ps_filter_holds c) (ps_filter (a\<lparr>ps_filter := g # gs\<rparr>)) =
      list_all (ps_filter_holds c) (ps_filter (a\<lparr>ps_filter := gs\<rparr>))" for c by simp
  show "check_filters validate_ps_filter_key (ps_filter (a\<lparr>ps_filter := g # gs\<rparr>)) =
      check_filters validate_ps_filter_key (ps_filter (a\<lparr>ps_filter := gs\<rparr>))"
    using assms by (auto simp: validate_ps_filter_key_def ps_filter_keys_def bind_res_def)
qed simp

definition plain_ps :: ps_args where
  "plain_ps = \<lparr>ps_all = True, ps_quiet = True, ps_size = False, ps_no_trunc = True, ps_format = None, ps_last = None,
     ps_latest = False, ps_filter = []\<rparr>"

definition idle_reaper :: reap_host where
  "idle_reaper = \<lparr>pid_file = \<lambda>_ _. None, alive = \<lambda>_. False, exit_file = \<lambda>_. None\<rparr>"

definition plain_lister :: list_host where
  "plain_lister = \<lparr>lh_date = \<lambda>_. [], lh_bytes = \<lambda>_. [], lh_image_size = \<lambda>_. [], lh_dir_size = \<lambda>_. 0, lh_now = 9\<rparr>"

definition two_containers :: container_file where
  "two_containers = Records [sample_container ''aa'' ''x'', (sample_container ''bb'' ''y'')\<lparr>c_created_at := 5\<rparr>]"

lemma two_listed:
  "ps_listing io_good idle_reaper plain_lister plain_ps two_containers = (Inr (Lines [''bb'', ''aa'']), two_containers, [])"
  by (simp add: two_containers_def reap_index_def reap_stale_containers_def container_list_def stale_def sample_container_def
      ps_listing_def plain_ps_def list_locked_def ps_rows_def ps_shows_def short_id_def Let_def)

theorem ps_lists_exactly_witness:
  "\<exists>cs. [''bb''] = map c_id cs \<and> mset cs = {#c \<in># mset (container_list io_good two_containers).
     asked_by_filters [''status=created'', ''name=y''] c#}"
proof -
  let ?a = "plain_ps\<lparr>ps_filter := [''status=created'', ''name=y'']\<rparr>"
  have t: "trim ''status'' = ''status''" "trim ''created'' = ''created''" "trim ''name'' = ''name''"
    "trim ''y'' = ''y''" by code_simp+
  have "ps_listing io_good idle_reaper plain_lister ?a two_containers =
      (Inr (Lines [''bb'']), two_containers, [])"
    by (simp add: two_containers_def reap_index_def reap_stale_containers_def container_list_def stale_def
        sample_container_def ps_listing_def plain_ps_def list_locked_def ps_rows_def ps_shows_def short_id_def
        Let_def validate_ps_filter_key_def ps_filter_keys_def ps_filter_holds_def state_text_def
        starts_with_def bind_res_def t)
  from ps_lists_exactly [OF this]
  obtain cs where "[''bb''] = map c_id cs" and "mset cs = {#c \<in># mset (container_list io_good two_containers).
      (ps_all ?a \<or> c_status c = Running) \<and> asked_by_filters (ps_filter ?a) c#}"
    unfolding plain_ps_def by force
  then show ?thesis by (intro exI [of _ cs]) (simp add: plain_ps_def)
qed

theorem ps_filters_ignored_witness:
  "ps_listing io_good idle_reaper plain_lister (plain_ps\<lparr>ps_filter := [''label=db'']\<rparr>) two_containers =
     (Inr (Lines [''bb'', ''aa'']), two_containers, [])"
proof -
  have t: "trim ''label'' = ''label''" by code_simp
  have "ps_listing io_good idle_reaper plain_lister (plain_ps\<lparr>ps_filter := [''label=db'']\<rparr>) two_containers =
      ps_listing io_good idle_reaper plain_lister (plain_ps\<lparr>ps_filter := []\<rparr>) two_containers"
    by (rule ps_filters_ignored [of "''label=db''" "''label''" "''db''"]) (simp_all add: t)
  then show ?thesis using two_listed by (simp add: plain_ps_def)
qed

end
