(* ===== verification/Update_Command.thy ===== *)
theory Update_Command
  imports Run_Options
begin

text \<open>
  \<open>update\<close> (\<open>update_container\<close> of \<open>src/lib.rs\<close>): new limits of a container for its cgroup and its
  specification, and a new restart policy for its record.

  The record is read at the start and written back at the end, each under its own lock. What other
  commands do to the index in between is an argument.

  Shown: whatever they do is undone for this container, and a container removed meanwhile is back.
\<close>

record update_args =
  u_memory :: "str option"
  u_memory_swap :: "str option"
  u_cpus :: "str option"
  u_cpu_shares :: "nat option"
  u_cpu_period :: "nat option"
  u_cpu_quota :: "int option"
  u_pids_limit :: "int option"
  u_restart :: "str option"
  u_container :: str

definition update_limits :: "(str \<Rightarrow> (int \<times> nat) res) \<Rightarrow> update_args \<Rightarrow> resource_limits res" where
  "update_limits parse_cpus a =
     bind_res (memory_flag (u_memory a)) (\<lambda>mem.
     bind_res (optional (u_cpus a) parse_cpus) (\<lambda>cpus.
     bind_res (memory_flag (u_memory_swap a)) (\<lambda>swap.
     if u_pids_limit a = Some 0 then Inl (Invalid_limit ''--pids-limit'')
     else let both = (case (u_cpu_quota a, u_cpu_period a) of (Some q, Some p) \<Rightarrow> Some (q, p) | _ \<Rightarrow> cpus) in
       Inr \<lparr>memory_max = mem, memory_swap_max = swap, memory_reservation = None,
         cpu_quota_us = map_option fst both, cpu_period_us = map_option snd both, cpu_shares = u_cpu_shares a,
         cpuset_cpus = None, memory_swappiness = None, pids_max = u_pids_limit a\<rparr>)))"

text \<open>What is kept in the specification: the memory limit and the number of processes.\<close>

definition update_resources :: "resource_limits \<Rightarrow> linux_resources \<Rightarrow> linux_resources" where
  "update_resources l r =
     r\<lparr>lr_memory := (case memory_max l of None \<Rightarrow> lr_memory r
         | Some m \<Rightarrow> Some \<lparr>mem_limit = Some m, mem_reservation = None, mem_swap = None, mem_swappiness = None,
             mem_disable_oom_killer = None\<rparr>),
       lr_pids := (case pids_max l of None \<Rightarrow> lr_pids r | Some p \<Rightarrow> Some p)\<rparr>"

definition update_spec :: "resource_limits \<Rightarrow> oci_spec \<Rightarrow> oci_spec" where
  "update_spec l s =
     s\<lparr>sp_linux := map_option (\<lambda>li. li\<lparr>li_resources := map_option (update_resources l) (li_resources li)\<rparr>) (sp_linux s)\<rparr>"

datatype update_effect =
    Limit_writes writes
  | Save_spec str oci_spec
  | Update_event str

record update_host =
  uh_parse_cpus :: "str \<Rightarrow> (int \<times> nat) res"
  uh_cgroup :: bool
  uh_read_spec :: "str \<Rightarrow> oci_spec option"

definition update_container ::
  "io \<Rightarrow> update_host \<Rightarrow> update_args \<Rightarrow> (container_file \<Rightarrow> container_file) \<Rightarrow> container_file \<Rightarrow>
     (unit res \<times> container_file) \<times> update_effect list" where
  "update_container io h a others f =
     (case container_find io (u_container a) f of
        None \<Rightarrow> ((Inl (Not_found (u_container a)), f), [])
      | Some c \<Rightarrow>
          (case update_limits (uh_parse_cpus h) a of
             Inl e \<Rightarrow> ((Inl e, f), [])
           | Inr l \<Rightarrow>
               (let f1 = others f;
                    f2 = (case u_restart a of
                        None \<Rightarrow> f1
                      | Some s \<Rightarrow> (case parse_restart_policy s of
                          Inl _ \<Rightarrow> f1 | Inr p \<Rightarrow> snd (container_add io (c\<lparr>c_restart_policy := p\<rparr>) f1)))
                in ((Inr (), f2),
                    [Limit_writes (apply_limits (uh_cgroup h) l)] @
                    (case uh_read_spec h (c_bundle_path c) of
                       Some s \<Rightarrow> [Save_spec (c_bundle_path c) (update_spec l s)] | None \<Rightarrow> []) @
                    [Update_event (c_id c)]))))"

section \<open>Properties\<close>

text \<open>
  C40. A restart policy is written back with the whole record that was read at the start: whatever
  other commands did to this container in between, a stop or its removal, is undone, and the
  containers they left otherwise are as they left them.
\<close>

theorem update_undoes_others:
  assumes "update_container io h a others f = ((Inr (), f'), es)" and "container_find io (u_container a) f = Some c"
    and "u_restart a = Some s" and "parse_restart_policy s = Inr p"
    and "lock_ok io" and "save_ok io" and "valid_container_name (c_name c)"
    and "\<forall>d\<in>set (load_unlocked (others f)). c_name d = c_name c \<longrightarrow> c_id d = c_id c"
  shows "by_key c_id (load_unlocked f') = (by_key c_id (load_unlocked (others f)))(c_id c \<mapsto> c\<lparr>c_restart_policy := p\<rparr>)"
proof -
  obtain f2 where a: "container_add io (c\<lparr>c_restart_policy := p\<rparr>) (others f) = (Inr (), f2)"
    using assms(5-8) by (auto simp: container_add_Inr)
  have "f' = snd (container_add io (c\<lparr>c_restart_policy := p\<rparr>) (others f))"
    using assms(1-4) by (auto simp: update_container_def Let_def split: sum.splits)
  with a add_refines [OF a] show ?thesis by simp
qed

definition policy_only :: update_args where
  "policy_only = \<lparr>u_memory = None, u_memory_swap = None, u_cpus = None, u_cpu_shares = None, u_cpu_period = None,
     u_cpu_quota = None, u_pids_limit = None, u_restart = Some ''no'', u_container = ''web''\<rparr>"

text \<open>The container is removed by another command in between.\<close>

theorem update_undoes_others_witness:
  "\<exists>f' es. update_container io_good \<lparr>uh_parse_cpus = \<lambda>_. Inr (1, 0), uh_cgroup = True, uh_read_spec = \<lambda>_. None\<rparr>
      policy_only (\<lambda>_. Records []) (Records [sample_container ''aa'' ''web'']) = ((Inr (), f'), es) \<and>
    by_key c_id (load_unlocked f') ''aa'' = Some (sample_container ''aa'' ''web'')"
proof -
  let ?h = "\<lparr>uh_parse_cpus = \<lambda>_. Inr (1, 0), uh_cgroup = True, uh_read_spec = \<lambda>_. None\<rparr>"
  let ?c = "sample_container ''aa'' ''web''"
  have t: "trim ''web'' = ''web''" and p: "parse_restart_policy ''no'' = Inr No" and v: "valid_container_name ''web''"
    by (code_simp, code_simp, code_simp)
  have f: "container_find io_good (u_container policy_only) (Records [?c]) = Some ?c"
    by (simp add: container_find_def find_locked_def Let_def policy_only_def t c_matches_def sample_container_def)
  obtain l where l: "update_limits (\<lambda>_. Inr (1, 0)) policy_only = Inr l"
    by (simp add: update_limits_def policy_only_def memory_flag_def optional_def bind_res_def)
  obtain f' es where u: "update_container io_good ?h policy_only (\<lambda>_. Records []) (Records [?c]) = ((Inr (), f'), es)"
    by (simp add: update_container_def f l Let_def)
  from update_undoes_others [OF u f _ p] u show ?thesis
    by (simp add: policy_only_def v sample_container_def)
qed

end
