(* ===== verification/Context_Store.thy ===== *)
theory Context_Store
  imports Index_File
begin

text \<open>
  Contexts and the machine (\<open>handle_context\<close> and \<open>handle_machine\<close> of \<open>src/lib.rs\<close>): two files without
  a lock, rewritten as a whole. A context file that is missing or malformed counts as the default
  one; the next change writes over it.

  Shown: in every context file the commands make, the current context exists, there is a default
  context, and every context is stored under its own name; and two commands at once lose a change.
\<close>

section \<open>Contexts\<close>

record context_config =
  cx_name :: str
  cx_description :: str
  cx_docker_endpoint :: str

record context_data =
  cd_current :: str
  cd_contexts :: "str \<rightharpoonup> context_config"

definition default_contexts :: context_data where
  "default_contexts =
     \<lparr>cd_current = ''default'',
      cd_contexts = [''default'' \<mapsto> \<lparr>cx_name = ''default'', cx_description = ''Current DOCKER_HOST'',
        cx_docker_endpoint = ''unix:///var/run/docker.sock''\<rparr>]\<rparr>"

text \<open>\<open>None\<close> stands for a file that is missing or that does not decode.\<close>

definition load_contexts :: "context_data option \<Rightarrow> context_data" where
  "load_contexts f = unwrap_or f default_contexts"

datatype context_action =
    Ctx_use str
  | Ctx_create str "str option" "str option" "str option"
  | Ctx_rm str
  | Ctx_import str "context_config option"
  | Ctx_update str "str option" "str option"
  | Ctx_inspect "str option"
  | Ctx_export str

definition put_context :: "str \<Rightarrow> str \<Rightarrow> str \<Rightarrow> context_data \<Rightarrow> context_data" where
  "put_context n desc ep d =
     d\<lparr>cd_contexts := (cd_contexts d)(n \<mapsto> \<lparr>cx_name = n, cx_description = desc, cx_docker_endpoint = ep\<rparr>)\<rparr>"

text \<open>The data to write, or none when the action only reads; an import that fails gives no context.\<close>

fun context_change :: "context_action \<Rightarrow> context_data \<Rightarrow> context_data option res" where
  "context_change (Ctx_use n) d = (if n \<in> dom (cd_contexts d) then Inr (Some (d\<lparr>cd_current := n\<rparr>)) else Inl (Not_found n))"
| "context_change (Ctx_create n desc docker from_name) d =
     (if n \<in> dom (cd_contexts d) then Inl (Already_exists n)
      else case from_name of
          Some s \<Rightarrow>
            (case cd_contexts d s of
               Some c \<Rightarrow> Inr (Some (put_context n (unwrap_or desc (cx_description c)) (unwrap_or docker (cx_docker_endpoint c)) d))
             | None \<Rightarrow> Inl (Not_found s))
        | None \<Rightarrow> Inr (Some (put_context n (unwrap_or desc []) (unwrap_or docker ''unix:///var/run/docker.sock'') d)))"
| "context_change (Ctx_rm n) d =
     (if n = ''default'' then Inl (Invalid_name n)
      else if n \<in> dom (cd_contexts d) then
        Inr (Some (d\<lparr>cd_contexts := (cd_contexts d)(n := None),
          cd_current := (if cd_current d = n then ''default'' else cd_current d)\<rparr>))
      else Inl (Not_found n))"
| "context_change (Ctx_import n src) d =
     (case src of
        Some c \<Rightarrow> Inr (Some (put_context n (cx_description c) (cx_docker_endpoint c) d))
      | None \<Rightarrow> Inl Io_failed)"
| "context_change (Ctx_update n desc docker) d =
     (case cd_contexts d n of
        Some c \<Rightarrow> Inr (Some (d\<lparr>cd_contexts := (cd_contexts d)(n \<mapsto>
          c\<lparr>cx_description := unwrap_or desc (cx_description c),
            cx_docker_endpoint := unwrap_or docker (cx_docker_endpoint c)\<rparr>)\<rparr>))
      | None \<Rightarrow> Inl (Not_found n))"
| "context_change (Ctx_inspect n) d =
     (if unwrap_or n (cd_current d) \<in> dom (cd_contexts d) then Inr None else Inl (Not_found (unwrap_or n (cd_current d))))"
| "context_change (Ctx_export n) d = (if n \<in> dom (cd_contexts d) then Inr None else Inl (Not_found n))"

definition handle_context :: "bool \<Rightarrow> context_action \<Rightarrow> context_data option \<Rightarrow> unit res \<times> context_data option" where
  "handle_context writable a f =
     (case context_change a (load_contexts f) of
        Inl e \<Rightarrow> (Inl e, f)
      | Inr None \<Rightarrow> (Inr (), f)
      | Inr (Some d) \<Rightarrow> if writable then (Inr (), Some d) else (Inl Io_failed, f))"

section \<open>The machine\<close>

record machine_state =
  ma_name :: str
  ma_state :: str
  ma_rootful :: bool

datatype machine_action =
    Machine_init "str option" bool bool
  | Machine_start "str option"
  | Machine_stop "str option"
  | Machine_restart "str option"
  | Machine_set "str option" bool
  | Machine_rm "str option"
  | Machine_reset

definition machine_name :: "str option \<Rightarrow> str" where
  "machine_name n = unwrap_or n ''boxr-machine-default''"

definition was_rootful :: "machine_state option \<Rightarrow> bool" where
  "was_rootful m = (case m of Some s \<Rightarrow> ma_rootful s | None \<Rightarrow> False)"

text \<open>There is one state file, whatever the name; on other systems than macOS nothing is started.\<close>

fun handle_machine :: "machine_action \<Rightarrow> machine_state option \<Rightarrow> machine_state option" where
  "handle_machine (Machine_init n now rootful) m =
     Some \<lparr>ma_name = machine_name n, ma_state = (if now then ''running'' else ''created''), ma_rootful = rootful\<rparr>"
| "handle_machine (Machine_start n) m = Some \<lparr>ma_name = machine_name n, ma_state = ''running'', ma_rootful = was_rootful m\<rparr>"
| "handle_machine (Machine_stop n) m = Some \<lparr>ma_name = machine_name n, ma_state = ''stopped'', ma_rootful = was_rootful m\<rparr>"
| "handle_machine (Machine_restart n) m = Some \<lparr>ma_name = machine_name n, ma_state = ''running'', ma_rootful = was_rootful m\<rparr>"
| "handle_machine (Machine_set n rootful) m =
     Some \<lparr>ma_name = machine_name n, ma_state = (case m of Some s \<Rightarrow> ma_state s | None \<Rightarrow> ''created''),
       ma_rootful = rootful \<or> was_rootful m\<rparr>"
| "handle_machine (Machine_rm n) m = None"
| "handle_machine Machine_reset m = None"

section \<open>Properties\<close>

definition contexts_ok :: "context_data \<Rightarrow> bool" where
  "contexts_ok d \<longleftrightarrow> cd_current d \<in> dom (cd_contexts d) \<and> ''default'' \<in> dom (cd_contexts d) \<and>
     (\<forall>n c. cd_contexts d n = Some c \<longrightarrow> cx_name c = n)"

lemma change_keeps_contexts:
  "context_change a d = Inr (Some d') \<Longrightarrow> contexts_ok d \<Longrightarrow> contexts_ok d'"
  by (cases a) (auto simp: contexts_ok_def put_context_def split: if_splits option.splits)

lemma handled_contexts_ok:
  "contexts_ok (load_contexts f) \<Longrightarrow> contexts_ok (load_contexts (snd (handle_context w a f)))"
  by (auto simp: handle_context_def load_contexts_def split: sum.split option.split intro: change_keeps_contexts)

text \<open>
  Whatever actions are taken on contexts, from a missing file and with any of the writes failing,
  the current context exists, so does the default one, and each is stored under its name.
\<close>

theorem contexts_stay_consistent:
  "contexts_ok (load_contexts (fold (\<lambda>(w, a) f. snd (handle_context w a f)) requests None))"
proof -
  have "contexts_ok (load_contexts f) \<Longrightarrow>
      contexts_ok (load_contexts (fold (\<lambda>(w, a) f. snd (handle_context w a f)) requests f))" for f
    by (induction requests arbitrary: f) (auto intro: handled_contexts_ok)
  moreover have "contexts_ok (load_contexts None)"
    by (simp add: load_contexts_def default_contexts_def contexts_ok_def)
  ultimately show ?thesis by blast
qed

text \<open>
  There is no lock: of two creations that read the same file, the one that writes last removes what
  the other created.
\<close>

lemma context_lost:
  assumes "n \<noteq> m" and "n \<notin> dom (cd_contexts d)"
    and "context_change (Ctx_create n None None None) d = Inr (Some d1)"
    and "context_change (Ctx_create m None None None) d = Inr (Some d2)"
  shows "n \<in> dom (cd_contexts d1)" and "n \<notin> dom (cd_contexts d2)"
proof -
  have "d1 = put_context n [] ''unix:///var/run/docker.sock'' d" using assms(3) by (simp add: unwrap_or_def split: if_splits)
  then show "n \<in> dom (cd_contexts d1)" by (simp add: put_context_def)
  have "d2 = put_context m [] ''unix:///var/run/docker.sock'' d" using assms(4) by (simp add: unwrap_or_def split: if_splits)
  then show "n \<notin> dom (cd_contexts d2)" using assms(1,2) by (simp add: put_context_def dom_def)
qed

end
