(* ===== verification/Log_Commands.thy ===== *)
theory Log_Commands
  imports Lifecycle Run_Options
begin

text \<open>
  \<open>logs\<close>, \<open>attach\<close> and \<open>exec\<close> (\<open>container_logs\<close>, \<open>attach_container\<close> and \<open>exec_container\<close> of \<open>src/lib.rs\<close>).
  A log is read as text, one character for each of its bytes. The loops run over what the host shows at
  each poll; they are still waiting when the polls are used up.

  Shown: a log that is followed ends without what was written since the poll before the container
  stopped, and attaching records exit code 0 for a container whose machine is gone, whatever its code.
\<close>

section \<open>logs\<close>

record logs_args =
  lo_timestamps :: bool
  lo_since :: "str option"
  lo_until :: "str option"
  lo_tail :: "nat option"
  lo_follow :: bool

text \<open>
  \<open>lh_log\<close> and \<open>lh_root_log\<close> are the two files of a bundle; \<open>lh_time\<close> decodes a date and \<open>lh_stamp\<close> is
  the date put before the lines.
\<close>

record logs_host =
  lg_log :: "str \<Rightarrow> str option"
  lg_root_log :: "str \<Rightarrow> str option"
  lg_time :: "str \<Rightarrow> int option"
  lg_stamp :: str

definition log_content :: "logs_host \<Rightarrow> str \<Rightarrow> str option" where
  "log_content h bundle =
     (case lg_log h bundle of
        None \<Rightarrow> lg_root_log h bundle
      | Some t \<Rightarrow> if t \<noteq> [] then Some t else (case lg_root_log h bundle of Some r \<Rightarrow> Some r | None \<Rightarrow> Some t))"

text \<open>Lines that do not start with a date are kept, and so is everything when the bound is no date.\<close>

definition in_time :: "(str \<Rightarrow> int option) \<Rightarrow> (int \<Rightarrow> int \<Rightarrow> bool) \<Rightarrow> str option \<Rightarrow> str list \<Rightarrow> str list" where
  "in_time time ok bound ls =
     (case bound of
        None \<Rightarrow> ls
      | Some b \<Rightarrow>
          (case time b of
             None \<Rightarrow> ls
           | Some t \<Rightarrow>
               filter (\<lambda>l. case split_once CHR '' '' l of
                   Some (d, _) \<Rightarrow> (case time d of Some u \<Rightarrow> ok u t | None \<Rightarrow> True)
                 | None \<Rightarrow> True) ls))"

definition last_lines :: "nat option \<Rightarrow> str list \<Rightarrow> str list" where
  "last_lines n ls = (case n of None \<Rightarrow> ls | Some k \<Rightarrow> drop (length ls - k) ls)"

definition log_line :: "logs_host \<Rightarrow> logs_args \<Rightarrow> str \<Rightarrow> str" where
  "log_line h a l = (if lo_timestamps a then lg_stamp h @ '' '' @ l else l)"

definition shown_lines :: "logs_host \<Rightarrow> logs_args \<Rightarrow> str \<Rightarrow> str list" where
  "shown_lines h a content =
     last_lines (lo_tail a)
       (in_time (lg_time h) (\<lambda>u t. u \<le> t) (lo_until a) (in_time (lg_time h) (\<lambda>u t. t \<le> u) (lo_since a) (lines content)))"

text \<open>A poll: the status of the container, if it is found, and the text of the log, if it is there.\<close>

record log_poll =
  lp_status :: "container_status option"
  lp_text :: "str option"

text \<open>\<open>pos\<close> bytes have been read; \<open>None\<close> when the polls are used up.\<close>

fun follow_log :: "(str \<Rightarrow> str) \<Rightarrow> nat \<Rightarrow> log_poll list \<Rightarrow> (unit res \<times> str list) option" where
  "follow_log pr pos [] = None"
| "follow_log pr pos (p # ps) =
     (if lp_status p \<noteq> None \<and> lp_status p \<noteq> Some Running then Some (Inr (), [])
      else case lp_text p of
          None \<Rightarrow> Some (Inl Io_failed, [])
        | Some t \<Rightarrow>
            (if length t > pos
             then map_option (\<lambda>(r, ls). (r, map pr (lines (drop pos t)) @ ls)) (follow_log pr (length t) ps)
             else follow_log pr pos ps))"

definition container_logs ::
  "io \<Rightarrow> logs_host \<Rightarrow> logs_args \<Rightarrow> str \<Rightarrow> log_poll list \<Rightarrow> container_file \<Rightarrow> (unit res \<times> str list) option" where
  "container_logs io h a query polls f =
     (case container_find io query f of
        None \<Rightarrow> Some (Inl (Not_found query), [])
      | Some c \<Rightarrow>
          (case log_content h (c_bundle_path c) of
             None \<Rightarrow> Some (Inr (), [''No logs available for container '' @ query])
           | Some t \<Rightarrow>
               let shown = map (log_line h a) (shown_lines h a t) in
               if \<not> lo_follow a then Some (Inr (), shown)
               else case lg_log h (c_bundle_path c) of
                   None \<Rightarrow> Some (Inl Io_failed, shown)
                 | Some l \<Rightarrow> map_option (\<lambda>(r, ls). (r, shown @ ls)) (follow_log (log_line h a) (length l) polls)))"

section \<open>attach\<close>

text \<open>
  At a poll: the recorded machine is gone, what others did to the index, and the text of the log. The
  container is looked up by its own id; that it has been removed does not end the loop.
\<close>

record attach_poll =
  ap_vm_gone :: bool
  ap_others :: "container_file \<Rightarrow> container_file"
  ap_text :: "str option"

definition over :: "container option \<Rightarrow> bool" where
  "over c \<longleftrightarrow> (case c of None \<Rightarrow> False | Some c \<Rightarrow> (case c_status c of Exited _ \<Rightarrow> True | Failed _ \<Rightarrow> True | _ \<Rightarrow> False))"

fun attach_loop :: "io \<Rightarrow> str \<Rightarrow> nat \<Rightarrow> attach_poll list \<Rightarrow> container_file \<Rightarrow> (str \<times> container_file) option" where
  "attach_loop io cid pos [] f = None"
| "attach_loop io cid pos (p # ps) f =
     (let f = ap_others p f in
      if ap_vm_gone p then Some ([], snd (update_status io cid (Exited 0) f))
      else if over (container_find io cid f) then Some ([], f)
      else case ap_text p of
          Some t \<Rightarrow> if length t > pos then map_option (\<lambda>(out, f'). (drop pos t @ out, f')) (attach_loop io cid (length t) ps f)
                    else attach_loop io cid pos ps f
        | None \<Rightarrow> attach_loop io cid pos ps f)"

definition attach_container ::
  "io \<Rightarrow> logs_host \<Rightarrow> str \<Rightarrow> attach_poll list \<Rightarrow> container_file \<Rightarrow> ((unit res \<times> str) \<times> container_file) option" where
  "attach_container io h query polls f =
     (case container_find io query f of
        None \<Rightarrow> Some ((Inl (Not_found query), []), f)
      | Some c \<Rightarrow>
          (let seen = unwrap_or (lg_log h (c_bundle_path c)) [] in
           map_option (\<lambda>(out, f'). ((Inr (), seen @ out), f')) (attach_loop io (c_id c) (length seen) polls f)))"

section \<open>exec\<close>

record exec_args =
  ex_command :: "str list"
  ex_env :: "str list"
  ex_env_file :: "str option"
  ex_workdir :: "str option"
  ex_user :: "str option"
  ex_detach :: bool

text \<open>\<open>run\<close> is \<open>exec_in_bundle\<close> of the platform. An environment file that cannot be read is ignored.\<close>

definition exec_env :: "(str \<Rightarrow> str option) \<Rightarrow> exec_args \<Rightarrow> str list" where
  "exec_env read a =
     ex_env a @ (case ex_env_file a of None \<Rightarrow> [] | Some p \<Rightarrow>
       (case read p of None \<Rightarrow> [] | Some content \<Rightarrow> env_file_lines content))"

definition exec_container ::
  "io \<Rightarrow> (str \<Rightarrow> str option) \<Rightarrow> (str \<Rightarrow> str list \<Rightarrow> str list \<Rightarrow> str option \<Rightarrow> str option \<Rightarrow> bool \<Rightarrow> int res) \<Rightarrow>
     exec_args \<Rightarrow> str \<Rightarrow> container_file \<Rightarrow> int res" where
  "exec_container io read run a query f =
     (case container_find io query f of
        None \<Rightarrow> Inl (Not_found query)
      | Some c \<Rightarrow>
          if c_status c \<noteq> Running then Inl (Not_running query)
          else if ex_command a = [] then Inl Empty_spec
          else run (c_bundle_path c) (ex_command a) (exec_env read a) (ex_workdir a) (ex_user a) (ex_detach a))"

section \<open>Properties\<close>

definition stopped_poll :: "log_poll \<Rightarrow> bool" where
  "stopped_poll p \<longleftrightarrow> lp_status p \<noteq> None \<and> lp_status p \<noteq> Some Running"

lemma follow_ends: "stopped_poll p \<Longrightarrow> follow_log pr pos (ps @ p # qs) \<noteq> None"
  by (induction ps arbitrary: pos) (auto simp: stopped_poll_def split: option.splits)

lemma follow_blind: "stopped_poll p \<Longrightarrow> stopped_poll p' \<Longrightarrow> follow_log pr pos (ps @ [p]) = follow_log pr pos (ps @ [p'])"
  by (induction ps arbitrary: pos) (auto simp: stopped_poll_def split: option.splits)

text \<open>
  Following a log ends at the first poll that finds the container stopped, and prints the same
  whatever the log then contains: what was written since the poll before is never shown.
\<close>

theorem followed_log_cut_short:
  assumes "lo_follow a" and "stopped_poll p" and "stopped_poll p'"
  shows "container_logs io h a q (ps @ [p]) f = container_logs io h a q (ps @ [p']) f \<and>
    container_logs io h a q (ps @ [p]) f \<noteq> None"
  using follow_ends [OF assms(2), of "log_line h a" _ ps "[]"] follow_blind [OF assms(2,3), of "log_line h a" _ ps]
  by (auto simp: container_logs_def Let_def split: option.split)

text \<open>
  Attaching to a container whose machine is gone sets its status to an exit with code 0, also when
  another command has just recorded the code it exited with.
\<close>

theorem attach_overwrites_exit_code:
  assumes "ap_vm_gone p" and "container_find io cid (ap_others p f) = Some c" and "c_id c = cid" and "save_ok io"
    and "trim cid = cid"
  shows "\<exists>f'. attach_loop io cid pos (p # ps) f = Some ([], f') \<and> container_find io cid f' = Some (c\<lparr>c_status := Exited 0\<rparr>)"
proof -
  let ?f = "ap_others p f"
  have "lock_ok io" and ne: "cid \<noteq> []" and c: "find (c_matches cid) (load_unlocked ?f) = Some c"
    using assms(2,5) by (auto simp: container_find_def find_locked_def Let_def split: if_splits)
  then have u: "update_status io cid (Exited 0) ?f =
      (Inr (), Records (update_first (c_matches cid) (\<lambda>c. c\<lparr>c_status := Exited 0\<rparr>) (load_unlocked ?f)))"
    using assms(4) by (simp add: update_status_def change_first_Inr)
  have "find (c_matches cid) (update_first (c_matches cid) (\<lambda>c. c\<lparr>c_status := Exited 0\<rparr>) (load_unlocked ?f)) =
      Some (c\<lparr>c_status := Exited 0\<rparr>)"
    by (rule find_update_first [OF c]) (simp add: c_matches_def assms(3))
  then show ?thesis using assms(1,5) u ne \<open>lock_ok io\<close>
    by (simp add: container_find_def find_locked_def Let_def)
qed

section \<open>Witnesses\<close>

definition sample_logs_host :: logs_host where
  "sample_logs_host = \<lparr>lg_log = \<lambda>_. Some ''a'', lg_root_log = \<lambda>_. None, lg_time = \<lambda>_. None, lg_stamp = []\<rparr>"

definition following :: logs_args where
  "following = \<lparr>lo_timestamps = False, lo_since = None, lo_until = None, lo_tail = None, lo_follow = True\<rparr>"

theorem followed_log_cut_short_witness:
  "container_logs io_good sample_logs_host following ''web'' [\<lparr>lp_status = Some (Exited 1), lp_text = Some ''a last words''\<rparr>]
      (Records [sample_container ''aa'' ''web'']) =
    container_logs io_good sample_logs_host following ''web'' [\<lparr>lp_status = Some (Exited 1), lp_text = Some ''a''\<rparr>]
      (Records [sample_container ''aa'' ''web''])"
  using followed_log_cut_short [of following "\<lparr>lp_status = Some (Exited 1), lp_text = Some ''a last words''\<rparr>"
      "\<lparr>lp_status = Some (Exited 1), lp_text = Some ''a''\<rparr>" io_good sample_logs_host "''web''" "[]"]
  by (simp add: following_def stopped_poll_def)

theorem attach_overwrites_exit_code_witness:
  "\<exists>f'. attach_loop io_good ''aa'' 0 [\<lparr>ap_vm_gone = True, ap_others = \<lambda>f. f, ap_text = None\<rparr>]
      (Records [(sample_container ''aa'' ''web'')\<lparr>c_status := Exited 7\<rparr>]) = Some ([], f') \<and>
    container_find io_good ''aa'' f' = Some ((sample_container ''aa'' ''web'')\<lparr>c_status := Exited 0\<rparr>)"
proof -
  have t: "trim ''aa'' = ''aa''" by code_simp
  let ?c = "(sample_container ''aa'' ''web'')\<lparr>c_status := Exited 7\<rparr>"
  have f: "container_find io_good ''aa'' (ap_others \<lparr>ap_vm_gone = True, ap_others = \<lambda>f. f, ap_text = None\<rparr> (Records [?c])) = Some ?c"
    by (simp add: container_find_def find_locked_def Let_def t c_matches_def sample_container_def)
  from attach_overwrites_exit_code [OF _ f _ _ t, of 0 "[]"] show ?thesis
    by (simp add: sample_container_def)
qed

end
