(* ===== verification/Event_Log.thy ===== *)
theory Event_Log
  imports Guardrails Registry_Auth
begin

text \<open>
  Events (\<open>src/events/mod.rs\<close>): the line of an event, the filters, and the log they are appended to
  and read from. JSON is given by an encoder and a decoder of lines. The attributes of an event are
  a hash map in the source; here they come in the order in which it is iterated when printed.

  Shown: an event that is recorded is the last one read back, after those of the log before unless
  this was large enough to be rotated away.
\<close>

section \<open>Events\<close>

record event =
  ev_timestamp :: int
  ev_type :: str
  ev_action :: str
  ev_actor_id :: str
  ev_actor_name :: str
  ev_attributes :: "(str \<times> str) list"

definition display_line :: "(int \<Rightarrow> str) \<Rightarrow> event \<Rightarrow> str" where
  "display_line date e =
     date (ev_timestamp e) @ '' '' @ ev_type e @ '' '' @ ev_action e @ '' '' @ take 12 (ev_actor_id e) @
     (if ev_attributes e = [] then []
      else '' ('' @ join '', '' (map (\<lambda>(k, v). k @ ''='' @ v) (ev_attributes e)) @ '')'')"

definition match_filter :: "event \<Rightarrow> str \<Rightarrow> bool" where
  "match_filter e filt =
     (case split_once CHR ''='' filt of
        Some (k, v) \<Rightarrow>
          (let k = trim k; v = trim v in
           if k = ''event'' \<or> k = ''action'' then ev_action e = v
           else if k = ''type'' then ev_type e = v
           else if k = ''container'' \<or> k = ''image'' then ev_actor_name e = v \<or> starts_with (ev_actor_id e) v
           else map_of (ev_attributes e) k = Some v)
      | None \<Rightarrow> contains_str (ev_type e) filt \<or> contains_str (ev_action e) filt \<or> contains_str (ev_actor_name e) filt)"

section \<open>The log\<close>

definition events_file :: str where
  "events_file = ''events.jsonl''"

text \<open>
  An event is appended after the log was rotated; that either failed is ignored. \<open>lo_open\<close>: the file
  can be opened for appending.
\<close>

record event_host =
  eh_rotation :: log_host
  eh_open :: bool
  eh_encode :: "event \<Rightarrow> byte list"
  eh_decode :: "byte list \<Rightarrow> event option"
  eh_date :: "int \<Rightarrow> str"
  eh_time :: "str \<Rightarrow> int option"

definition rotate_events_if_needed :: "log_host \<Rightarrow> directory \<Rightarrow> directory" where
  "rotate_events_if_needed h d = snd (rotate_if_needed h events_file (5 * 1024 * 1024) 3 d)"

definition emit_event :: "event_host \<Rightarrow> event \<Rightarrow> directory \<Rightarrow> directory" where
  "emit_event h e d =
     (if eh_open h then d(events_file \<mapsto> unwrap_or (d events_file) [] @ eh_encode h e @ [10]) else d)"

definition record_to_sink :: "event_host \<Rightarrow> event \<Rightarrow> directory \<Rightarrow> directory" where
  "record_to_sink h e d = emit_event h e (rotate_events_if_needed (eh_rotation h) d)"

section \<open>Reading\<close>

text \<open>
  \<open>read_line\<close> until the end of the file, without the line ends. A line that is not UTF-8 is an
  error of \<open>read_line\<close> and ends the loop: nothing after it is read.
\<close>

fun lines_from :: "byte list \<Rightarrow> byte list \<Rightarrow> byte list list" where
  "lines_from cur [] = (if cur = [] then [] else [cur])"
| "lines_from cur (b # bs) = (if b = 10 then cur # lines_from [] bs else lines_from (cur @ [b]) bs)"

definition read_events :: "event_host \<Rightarrow> byte list \<Rightarrow> event list" where
  "read_events h c =
     concat (map (\<lambda>l. case eh_decode h l of Some e \<Rightarrow> [e] | None \<Rightarrow> [])
       (takeWhile valid_utf8 (lines_from [] c)))"

definition event_shown :: "event_host \<Rightarrow> str option \<Rightarrow> str option \<Rightarrow> event \<Rightarrow> bool" where
  "event_shown h since filt e \<longleftrightarrow>
     (case filt of None \<Rightarrow> True | Some f \<Rightarrow> match_filter e f) \<and>
     (case since of None \<Rightarrow> True | Some s \<Rightarrow> (case eh_time h s of None \<Rightarrow> True | Some t \<Rightarrow> t \<le> ev_timestamp e))"

text \<open>What has been printed once the end of the file is reached; the stream then waits for more.\<close>

definition stream_events :: "event_host \<Rightarrow> str option \<Rightarrow> str option \<Rightarrow> directory \<Rightarrow> str list" where
  "stream_events h since filt d =
     (case d events_file of
        None \<Rightarrow> []
      | Some c \<Rightarrow> map (display_line (eh_date h)) (filter (event_shown h since filt) (read_events h c)))"

section \<open>Properties\<close>

lemma lines_from_line: "10 \<notin> set l \<Longrightarrow> lines_from cur (l @ [10]) = [cur @ l]"
  by (induction l arbitrary: cur) auto

lemma lines_from_complete: "c \<noteq> [] \<Longrightarrow> last c = 10 \<Longrightarrow> lines_from cur (c @ r) = lines_from cur c @ lines_from [] r"
  by (induction c arbitrary: cur) (auto split: if_splits)

lemma takeWhile_snoc_last:
  "P x \<Longrightarrow> takeWhile P (xs @ [x]) = takeWhile P xs @ (if list_all P xs then [x] else [])"
  by (induction xs) auto

lemma events_rotated:
  "d events_file = Some c \<Longrightarrow> write_ok h \<Longrightarrow>
     rotate_events_if_needed h d events_file = Some (if length c < 5 * 1024 * 1024 then c else [])"
  by (simp add: rotate_events_if_needed_def rotate_if_needed_def Let_def)

text \<open>
  C39. An event that is recorded is printed last by a stream that admits it: after what was printed of
  the log before when that is below the limit, and alone when it was rotated. The log is empty or ends
  with a line end, and the encoding is one line that decodes to the event. When the log it is
  appended to holds a line that is not UTF-8, the stream has ended there and the event is not printed.
\<close>

theorem recorded_event_read_back:
  assumes "d events_file = Some c" and "c = [] \<or> last c = 10" and "write_ok (eh_rotation h)" and "eh_open h"
    and "10 \<notin> set (eh_encode h e)" and "valid_utf8 (eh_encode h e)"
    and "eh_decode h (eh_encode h e) = Some e" and "event_shown h since filt e"
  shows "stream_events h since filt (record_to_sink h e d) =
    (if length c < 5 * 1024 * 1024
     then stream_events h since filt d @
       (if list_all valid_utf8 (lines_from [] c) then [display_line (eh_date h) e] else [])
     else [display_line (eh_date h) e])"
proof -
  let ?c = "if length c < 5 * 1024 * 1024 then c else []"
  have "rotate_events_if_needed (eh_rotation h) d events_file = Some ?c"
    using events_rotated [of d c, OF assms(1,3)] by simp
  then have r: "record_to_sink h e d events_file = Some (?c @ eh_encode h e @ [10])"
    using assms(4) by (simp add: record_to_sink_def emit_event_def unwrap_or_def)
  have "lines_from [] (?c @ eh_encode h e @ [10]) = lines_from [] ?c @ [eh_encode h e]"
    using assms(2) lines_from_line [OF assms(5)] lines_from_complete [of ?c "[]"] by (cases "?c = []") auto
  then have "read_events h (?c @ eh_encode h e @ [10]) =
      read_events h ?c @ (if list_all valid_utf8 (lines_from [] ?c) then [e] else [])"
    using assms(6,7) by (simp add: read_events_def takeWhile_snoc_last)
  then show ?thesis using r assms(1,8)
    by (cases "length c < 5 * 1024 * 1024") (simp_all add: stream_events_def, simp add: read_events_def)
qed

definition died :: event where
  "died = \<lparr>ev_timestamp = 4, ev_type = ''container'', ev_action = ''die'', ev_actor_id = ''aa'', ev_actor_name = ''web'',
     ev_attributes = []\<rparr>"

theorem recorded_event_read_back_witness:
  "stream_events \<lparr>eh_rotation = \<lparr>rename_ok = \<lambda>_. True, write_ok = True\<rparr>, eh_open = True, eh_encode = \<lambda>_. [7],
      eh_decode = \<lambda>_. Some died, eh_date = \<lambda>_. ''4'', eh_time = \<lambda>_. None\<rparr> None (Some ''action=die'')
    (record_to_sink \<lparr>eh_rotation = \<lparr>rename_ok = \<lambda>_. True, write_ok = True\<rparr>, eh_open = True, eh_encode = \<lambda>_. [7],
      eh_decode = \<lambda>_. Some died, eh_date = \<lambda>_. ''4'', eh_time = \<lambda>_. None\<rparr> died [events_file \<mapsto> []]) =
    [''4 container die aa'']"
proof -
  let ?h = "\<lparr>eh_rotation = \<lparr>rename_ok = \<lambda>_. True, write_ok = True\<rparr>, eh_open = True, eh_encode = \<lambda>_. [7],
      eh_decode = \<lambda>_. Some died, eh_date = \<lambda>_. ''4'', eh_time = \<lambda>_. None\<rparr>"
  have t: "trim ''action'' = ''action''" "trim ''die'' = ''die''" by (code_simp, code_simp)
  have m: "event_shown ?h None (Some ''action=die'') died"
    by (simp add: event_shown_def match_filter_def died_def t)
  have u: "valid_utf8 [7]" by code_simp
  from recorded_event_read_back [of "[events_file \<mapsto> []]" "[]" ?h died, OF _ _ _ _ _ _ _ m] u show ?thesis
    by (simp add: display_line_def) (simp add: died_def stream_events_def read_events_def)
qed

end
