(* ===== verification/Overlay.thy ===== *)
theory Overlay
  imports Container_Diff
begin

text \<open>
  The layer of a container over the files of its image (\<open>src/storage/overlay.rs\<close>): an overlay mount
  where the kernel allows it, and a copy of the tree otherwise.

  Shown: a copy holds every file, with a modification time of its own; so the comparison of a container
  that has changed nothing reports every file of the image as changed.
\<close>

section \<open>Copying a tree\<close>

text \<open>
  What the host answers for a path of the copy: whether it can be made, its modification time, the
  length of a directory, and what a link leads to from there.
\<close>

record copy_host =
  ch_ok :: "str list \<Rightarrow> bool"
  ch_time :: "str list \<Rightarrow> int"
  ch_dir_len :: "str list \<Rightarrow> nat"
  ch_link_content :: "str list \<Rightarrow> str option option"

definition copied_dir :: "copy_host \<Rightarrow> str list \<Rightarrow> file_meta" where
  "copied_dir h p = \<lparr>fm_kind = Directory, fm_len = ch_dir_len h p, fm_modified = ch_time h p\<rparr>"

text \<open>Links are made anew; everything that is neither a directory nor a link becomes a file.\<close>

definition copied_leaf :: "copy_host \<Rightarrow> str list \<Rightarrow> str \<Rightarrow> file_meta \<Rightarrow> str option option \<Rightarrow> entry" where
  "copied_leaf h p n m c =
     (if fm_kind m = Symbolic_link then Leaf n (Inr (m\<lparr>fm_modified := ch_time h p\<rparr>)) (ch_link_content h p)
      else Leaf n (Inr (m\<lparr>fm_kind := Regular_file, fm_modified := ch_time h p\<rparr>)) c)"

text \<open>
  Failures are ignored: an entry that cannot be read or made is missing from the copy, a directory
  that cannot be read is empty there.
\<close>

fun create_hardlink_tree :: "copy_host \<Rightarrow> str list \<Rightarrow> entry list \<Rightarrow> entry list" where
  "create_hardlink_tree h dir [] = []"
| "create_hardlink_tree h dir (Leaf n m c # es) =
     (case m of
        Inr m \<Rightarrow> if ch_ok h (dir @ [n]) then [copied_leaf h (dir @ [n]) n m c] else []
      | Inl _ \<Rightarrow> []) @ create_hardlink_tree h dir es"
| "create_hardlink_tree h dir (Dir n m inner # es) =
     (if ch_ok h (dir @ [n])
      then [Dir n (Inr (copied_dir h (dir @ [n]))) (create_hardlink_tree h (dir @ [n]) inner)] else []) @
     create_hardlink_tree h dir es"
| "create_hardlink_tree h dir (Closed_dir n m # es) =
     (if ch_ok h (dir @ [n]) then [Dir n (Inr (copied_dir h (dir @ [n]))) []] else []) @
     create_hardlink_tree h dir es"

section \<open>The layer\<close>

record overlay_bundle =
  ov_lower :: str
  ov_upper :: str
  ov_work :: str
  ov_merged :: str
  ov_mounted :: bool

datatype overlay_effect =
    Make_dir str
  | Mount_overlay str str
  | Copy_tree str str
  | Unmount str
  | Remove_tree str

record overlay_host =
  oh_make :: "str \<Rightarrow> bool"
  oh_mount :: bool
  oh_exists :: "str \<Rightarrow> bool"

definition overlay_options :: "overlay_bundle \<Rightarrow> str" where
  "overlay_options b = ''lowerdir='' @ ov_lower b @ '',upperdir='' @ ov_upper b @ '',workdir='' @ ov_work b"

text \<open>
  The options of the mount are one text: a comma or a colon in a path is read as the end of it by the
  kernel. The effects stop at the first directory that cannot be made.
\<close>

definition create_cow_layer :: "overlay_host \<Rightarrow> str \<Rightarrow> str \<Rightarrow> overlay_bundle res \<times> overlay_effect list" where
  "create_cow_layer h bundle base =
     (let b = \<lparr>ov_lower = base, ov_upper = bundle @ ''/upper'', ov_work = bundle @ ''/work'',
               ov_merged = bundle @ ''/rootfs'', ov_mounted = oh_mount h\<rparr>
      in if \<not> oh_make h (ov_upper b) then (Inl Io_failed, [])
         else if \<not> oh_make h (ov_work b) then (Inl Io_failed, [Make_dir (ov_upper b)])
         else if \<not> oh_make h (ov_merged b) then (Inl Io_failed, [Make_dir (ov_upper b), Make_dir (ov_work b)])
         else (Inr b, [Make_dir (ov_upper b), Make_dir (ov_work b), Make_dir (ov_merged b),
                 if oh_mount h then Mount_overlay (overlay_options b) (ov_merged b) else Copy_tree base (ov_merged b)]))"

definition cleanup :: "overlay_host \<Rightarrow> overlay_bundle \<Rightarrow> overlay_effect list" where
  "cleanup h b =
     (if ov_mounted b then [Unmount (ov_merged b)] else []) @
     map Remove_tree (filter (oh_exists h) [ov_upper b, ov_work b, ov_merged b])"

text \<open>The root file system of a container that has just been made: what its processes see.\<close>

definition layer_root :: "overlay_bundle \<Rightarrow> copy_host \<Rightarrow> entry list \<Rightarrow> entry list" where
  "layer_root b h es = (if ov_mounted b then es else create_hardlink_tree h [] es)"

section \<open>Properties\<close>

lemma visited_copied_leaf:
  "visited skip dir (copied_leaf h q n m c # es) =
     (if skip dir n then [] else [(dir @ [n], copied_leaf h q n m c)]) @ visited skip dir es"
  by (simp add: copied_leaf_def)

lemma visited_leaf:
  "visited skip dir (Leaf n m c # es) = (if skip dir n then [] else [(dir @ [n], Leaf n m c)]) @ visited skip dir es"
  by simp

lemma copied_visited:
  "(p, Leaf n (Inr m) c) \<in> set (visited skip dir es) \<Longrightarrow> \<forall>q. ch_ok h q \<Longrightarrow>
    (p, copied_leaf h p n m c) \<in> set (visited skip dir (create_hardlink_tree h dir es))"
proof (induction h dir es rule: create_hardlink_tree.induct)
  case (2 h dir n' m' c' es)
  then show ?case
    by (cases m') (auto simp: visited_copied_leaf visited_leaf simp del: visited.simps(2) split: if_splits)
qed (auto split: if_splits)

lemma check_deleted_keeps: "check_deleted_from_base ex seen dir es ds = Inr ds' \<Longrightarrow> set ds \<subseteq> set ds'"
proof (induction ex seen dir es ds arbitrary: ds' rule: check_deleted_from_base.induct)
  case (2 ex seen dir e es ds)
  have k: "set ds \<subseteq> set (check_deleted_entry ex seen p ds)" for p
    by (simp add: check_deleted_entry_def record_diff_def subset_insertI)
  show ?case
  proof (cases "base_skips dir (e_name e)")
    case True
    then show ?thesis using 2(1,5) by (simp add: base_skips_def)
  next
    case False
    note IH = 2(2-4) [OF False [unfolded base_skips_def] refl] and run = 2(5) [unfolded check_deleted_Cons]
    show ?thesis
    proof (cases e)
      case (Dir n m inner)
      then show ?thesis using IH(2) [OF Dir] IH(3) [OF Dir] run False k [of "dir @ [e_name e]"]
        by (fastforce simp: bind_res_Inr_iff Let_def)
    next
      case (Leaf n m c)
      then show ?thesis using IH(1) [OF Leaf] run False k [of "dir @ [e_name e]"] by (auto simp: Let_def)
    next
      case (Closed_dir n m)
      then show ?thesis using run False by (simp add: Let_def)
    qed
  qed
qed simp

text \<open>
  C37. A container on a copied layer that has changed nothing: every regular file of the image is
  reported as changed whose copy got another modification time than the file, as copies do.
\<close>

theorem fresh_copy_reported_changed:
  assumes "compare_roots (Some b) (Some c) = Inr ds" and "root_entries b = Inr es"
    and "root_entries c = Inr (layer_root ov h es)" and "\<not> ov_mounted ov" and "\<forall>q. ch_ok h q"
    and "(p, Leaf n (Inr m) x) \<in> set (visited container_skips [] es)" and "fm_kind m = Regular_file"
    and "rv_exists (root_view b) p" and "rv_meta (root_view b) p = Inr m" and "ch_time h p \<noteq> fm_modified m"
  shows "\<lparr>change_type = Changed, diff_path = diff_text p\<rparr> \<in> set ds"
proof -
  obtain ds0 seen ds1 where w: "walk_and_compare (root_view b) [] (layer_root ov h es) ([], []) = Inr (ds0, seen)"
    and d: "check_deleted_from_base (rv_exists (root_view c)) seen [] es ds0 = Inr ds1" and s: "ds = sort_key diff_path ds1"
    using assms(1-3) by (auto simp: compare_roots_def bind_res_Inr_iff)
  have "(p, copied_leaf h p n m x) \<in> set (visited container_skips [] (layer_root ov h es))"
    using copied_visited [OF assms(6,5)] assms(4) by (simp add: layer_root_def)
  moreover have "\<lparr>change_type = Changed, diff_path = diff_text p\<rparr> \<in> set (changes_at (root_view b) (p, copied_leaf h p n m x))"
    using assms(7-10) by (simp add: changes_at_def copied_leaf_def differs_def)
  ultimately have "\<lparr>change_type = Changed, diff_path = diff_text p\<rparr> \<in> set ds0"
    using walk_reports [OF w] by auto
  then show ?thesis using check_deleted_keeps [OF d] s by auto
qed

definition sample_copy :: copy_host where
  "sample_copy = \<lparr>ch_ok = \<lambda>_. True, ch_time = \<lambda>_. 9, ch_dir_len = \<lambda>_. 0, ch_link_content = \<lambda>_. None\<rparr>"

definition sample_layer :: overlay_bundle where
  "sample_layer = \<lparr>ov_lower = ''/i'', ov_upper = ''/b/upper'', ov_work = ''/b/work'', ov_merged = ''/b/rootfs'', ov_mounted = False\<rparr>"

lemma fresh_compared:
  "compare_roots (Some (sample_root base_tree)) (Some (sample_root (layer_root sample_layer sample_copy base_tree))) =
     Inr [\<lparr>change_type = Changed, diff_path = ''/etc''\<rparr>, \<lparr>change_type = Changed, diff_path = ''/etc/a''\<rparr>,
          \<lparr>change_type = Changed, diff_path = ''/etc/b''\<rparr>, \<lparr>change_type = Changed, diff_path = ''/old''\<rparr>]"
  by code_simp

theorem fresh_copy_reported_changed_witness:
  "\<exists>ds. compare_roots (Some (sample_root base_tree)) (Some (sample_root (layer_root sample_layer sample_copy base_tree))) = Inr ds \<and>
     \<lparr>change_type = Changed, diff_path = diff_text [''old'']\<rparr> \<in> set ds"
proof -
  have v: "([''old''], leaf_text ''old'' ''y'') \<in> set (visited container_skips [] base_tree)"
    "rv_exists (root_view (sample_root base_tree)) [''old'']" "rv_meta (root_view (sample_root base_tree)) [''old''] = sample_meta Regular_file 1"
    by (code_simp, code_simp, code_simp)
  have "\<lparr>change_type = Changed, diff_path = diff_text [''old'']\<rparr> \<in>
      set [\<lparr>change_type = Changed, diff_path = ''/etc''\<rparr>, \<lparr>change_type = Changed, diff_path = ''/etc/a''\<rparr>,
          \<lparr>change_type = Changed, diff_path = ''/etc/b''\<rparr>, \<lparr>change_type = Changed, diff_path = ''/old''\<rparr>]"
    by (rule fresh_copy_reported_changed [OF fresh_compared, where es = base_tree and ov = sample_layer and h = sample_copy
          and n = "''old''" and x = "Some (Some ''y'')" and m = "\<lparr>fm_kind = Regular_file, fm_len = 1, fm_modified = 7\<rparr>"])
      (use v in \<open>simp_all add: sample_layer_def sample_copy_def sample_meta_def sample_root_def\<close>)
  then show ?thesis using fresh_compared by blast
qed

end
