(* ===== verification/Spec2Isabelle.thy ===== *)
theory Spec2Isabelle
  imports Lock_Protocol Usernet_Engine Port_Mapping Image_Ref Health Container_Store Network_Store
    Limits Guardrails Volume_Store Lifecycle Compose Pod_Store
    Image_Store Secret_Store Artifact_Store Farm_Store Mount_Store Build_Ignore Registry_Auth Container_Copy Image_Unpack
    Run_Command Image_Builder Registry_Client Container_Diff System_Commands Daemon_Api Pod_Command Kube
    Listing Update_Command Context_Store Log_Commands Event_Log Overlay
begin

text \<open>
  A verification development for boxr (\<open>src/\<close>), a daemonless container engine: one process per
  command, with all state in JSON index files under a home directory and in the files of images
  and containers. Every theory opens with what it models and what it shows.

  \<^bold>\<open>How the program is put together.\<close> Commands (\<open>src/lib.rs\<close>) read and change indexes, each of them a
  file that is rewritten under a lock file; between two commands nothing is kept in memory. What a
  command does to the host (processes, files, cgroups, mounts) is a sequence of effects. The model
  follows this: an index is a value of type \<open>'r index_file\<close> (missing, malformed, or a list of
  records), an operation maps it to a result and the next file, and whatever the host answers
  (a lock, a save, a process that is alive, a directory that exists) is an argument.

  \<^bold>\<open>Foundations.\<close> \<open>Prelude\<close>: errors, results, lists and maps by key. \<open>Rust_Text\<close>: the string functions
  of the standard library over characters below 256. \<open>Path_Text\<close>: \<open>std::path\<close> as lists of components.
  \<open>Ipv4_Text\<close>, \<open>Ip_Text\<close>: addresses. \<open>Index_File\<close>: load, save and the locked sections all stores
  share, with the locales \<open>query_index\<close> (looking a record up by id, prefix or name) and
  \<open>index_transactions\<close> (an invariant kept by every successful request, and a file left as it was by
  every failed one). \<open>Lock_Protocol\<close> is the protocol of \<open>storage/index_lock.rs\<close> as a step relation of
  any number of processes; it shows that critical sections exclude each other, which is why the
  stores may be modelled as sequences of requests. \<open>Event_Log\<close> is the log of events, appended to,
  rotated and read back.

  \<^bold>\<open>Stores.\<close> \<open>Container_Store\<close>, \<open>Image_Store\<close> with \<open>Image_Ref\<close>, \<open>Network_Store\<close>, \<open>Volume_Store\<close>, \<open>Pod_Store\<close>,
  \<open>Secret_Store\<close>, \<open>Artifact_Store\<close>, \<open>Farm_Store\<close>, \<open>Mount_Store\<close>, \<open>Registry_Auth\<close> model the files of the
  same names under \<open>src/\<close>. Each has its record, its operations in the order of the code, an invariant
  (names and ids are unique, addresses are not shared, mount points lie inside their directory)
  proved for every index reached from a missing one by any requests under any failures, and the
  behaviour of each operation. The container store is shown to refine a map from ids to records.

  \<^bold>\<open>Running containers.\<close> \<open>Port_Mapping\<close>, \<open>Limits\<close>, \<open>Network_Mode\<close>, \<open>Security\<close> parse flags. \<open>Runtime_Spec\<close> is
  the specification file of a container and \<open>Run_Options\<close> the way from the options of \<open>run\<close> and
  \<open>create\<close> to it; \<open>Run_Command\<close> are the two commands (\<open>run_container\<close>, \<open>create_only_container\<close>) over
  the image, container, volume and pod indexes, with the rules \<open>frames\<close> and \<open>silent\<close> for what a part of
  a command leaves alone. \<open>Linux_Runtime\<close> is the child of \<open>runtime/linux.rs\<close>, as the list of its system
  calls up to the execution of the program. \<open>Lifecycle\<close> are \<open>stop\<close>, \<open>start\<close>, \<open>restart\<close>, \<open>pause\<close>, \<open>wait\<close>,
  \<open>kill\<close>, \<open>rm\<close> and \<open>prune\<close>, \<open>Guardrails\<close> the reaper, port collisions and log rotation, \<open>Health\<close> probes and
  the restart loop. Together they give: a container that runs is confined as its flags say, a
  status only moves along the edges of the life cycle, and a failed run leaves no record unless
  the container was started. \<open>Overlay\<close> makes the layer a container runs on, \<open>Container_Diff\<close> compares it
  with its image; \<open>Listing\<close>, \<open>Log_Commands\<close> and \<open>Update_Command\<close> are \<open>ps\<close>, \<open>images\<close>, \<open>port\<close>, \<open>logs\<close>,
  \<open>attach\<close>, \<open>exec\<close> and \<open>update\<close>. \<open>Pod_Command\<close> are the pod commands with the infra container, which
  closes the model of \<open>run --pod\<close>: it is the \<open>rh_infra\<close> of a run.

  \<^bold>\<open>Images.\<close> \<open>Dockerfile\<close>, \<open>Build_Ignore\<close>, \<open>Build_Cache\<close> and \<open>Image_Builder\<close> are \<open>src/builder/\<close>: the
  parser, \<open>.dockerignore\<close>, the cache, and every instruction over files, stages, configuration and
  cache keys. \<open>Image_Unpack\<close> are the checks on layers and archives, \<open>Container_Copy\<close> those of \<open>cp\<close>.
  \<open>Registry_Client\<close> is \<open>oci/distribution.rs\<close> with \<open>pull\<close> and the target of \<open>push\<close>: requests with
  tokens and redirects, manifests and indexes, the choice of a platform, downloads held to their
  digests, and the record of a pulled image; \<open>client_pull\<close> is the pull the other commands take as
  an argument, shown to keep the law they ask of it.

  \<^bold>\<open>Networks.\<close> \<open>Packets\<close> and \<open>Usernet_Engine\<close> are the user-mode network of \<open>network/usernet/\<close>: from the
  bytes of a frame to the bytes of the replies, with machine words throughout. Every index and
  slice of the parsers, writers and handlers is an access that can abort; none does.

  \<^bold>\<open>Compose.\<close> \<open>Compose\<close> is \<open>compose/mod.rs\<close>: the start order by depth-first search, and \<open>up\<close>, \<open>create\<close>,
  \<open>run\<close>, \<open>down\<close>, \<open>ps\<close> over the stores. The runs and builds it makes are arguments that may not return.

  \<^bold>\<open>Over several stores.\<close> \<open>System_Commands\<close> are \<open>system df\<close> and \<open>system prune\<close>. \<open>Daemon_Api\<close> is
  \<open>src/daemon/\<close>: every route is a constructor of \<open>api_request\<close>, its handler a function on the stores, and
  a run of the daemon a fold over requests, which is shown to keep the invariants of all stores.
  \<open>Kube\<close> is \<open>kube/mod.rs\<close>: documents are played by the engine's own \<open>run\<close> into pods. \<open>Context_Store\<close> holds
  the two files that are written without a lock.

  \<^bold>\<open>Bounds and fuel.\<close> The dependency walk of \<open>Compose\<close> is called with one more than the number of
  services, and is shown never to run out: a chain of visits never repeats a service. The restart
  loop is called with fuel; it is shown that \<open>n + 1\<close> is enough for \<open>on-failure:n\<close>, and that a policy
  of always never returns. Copying a directory tree is bounded by a depth of 4096, the longest
  path the kernel takes; deeper trees fail in the code as well. All other loops are structural
  or have a termination proof.

  \<^bold>\<open>Integers.\<close> Ports, addresses, sequence numbers, checksums and retry counters are words; sizes are
  numbers with the wrap-around written out. Times and ids are unbounded.

  \<^bold>\<open>Not modelled.\<close> JSON, YAML and TOML themselves (an index file is its list of records or malformed;
  a JSON string array is a parameter of the Dockerfile parser), and HTTP: for the daemon and the
  registry client, the connections, the hash and the decoders are parameters. The kernel: file systems,
  forks and sockets are parameters. macOS and Windows. Floating point (\<open>--cpus\<close>, printed sizes).
  Characters above 255. The argument structures of the command line, completions and service files,
  which are texts; statistics, the terminal and the runtime's external programs (\<open>criu\<close>, \<open>ps\<close>).

  \<^bold>\<open>A condition that recurs.\<close> A container is looked up by its id, a prefix of it or its name, and
  \<open>rename\<close> and \<open>--name\<close> accept the id of another container as a name. Theorems on commands that look
  a listed container up by its own id ask that no container is named like an id of the index
  (\<open>ids_apart\<close> in \<open>Guardrails\<close>); \<open>reaper_hits_namesake\<close> there shows what happens otherwise.
\<close>

text \<open>
  The host the daemon asks for exists: with the registry client as its pull, what it assumes of a
  pull is a theorem.
\<close>

lemma sound_host_client_pull:
  assumes "vols_dir (ph_vol (ah_prune h)) = dir" and "vols_dir (rh_vol (ah_run h)) = dir"
  shows "sound_host dir (h\<lparr>ah_pull := \<lambda>q. client_pull fuel rh dk w q None,
    ah_run := (ah_run h)\<lparr>rh_pull := client_pull fuel rh dk w\<rparr>\<rparr>)"
  using assms by (simp add: sound_host_def client_pull_keeps_index)

end
